(* ===== verification/Prelude.thy ===== *)
theory Prelude
  imports Complex_Main "HOL-Library.Word" "HOL-Library.Multiset"
begin

text \<open>
  Shared ground of the development: text as lists of Unicode scalar values, decimal and
  hexadecimal rendering, the \<open>?\<close> operator on results, and generic lemmas on lists.

  A Rust \<open>char\<close> is a Unicode scalar value, so \<open>ustr\<close> is a list of code points and
  \<open>length\<close> is \<open>s.chars().count()\<close>. \<open>U ''abc''\<close> is the literal "abc". The \<open>Result\<close> type is
  a sum with the error on the left; \<open>try_bind\<close> is the \<open>?\<close> operator.
\<close>

type_synonym ustr = "nat list"
type_synonym u8 = "8 word"
type_synonym u32 = "32 word"

named_theorems res_simps \<open>case analysis of the ? operator on results\<close>
named_theorems wire_simps \<open>constants of the wire protocol\<close>

section \<open>Text\<close>

definition U :: "string \<Rightarrow> ustr" where
  "U s = map of_char s"

lemma U_eq_iff [simp]: "U a = U b \<longleftrightarrow> a = b"
  by (auto simp: U_def inj_map_eq_map inj_def)

lemma U_Nil [simp]: "U [] = []"
  by (simp add: U_def)

lemma U_Nil_iff [simp]: "U a = [] \<longleftrightarrow> a = []" "[] = U a \<longleftrightarrow> a = []"
  by (simp_all add: U_def)

lemma length_U [simp]: "length (U s) = length s"
  by (simp add: U_def)

text \<open>Decimal digits of a number, as Rust's \<open>Display\<close> prints an unsigned integer.\<close>

fun dec :: "nat \<Rightarrow> ustr" where
  "dec n = (if n < 10 then [48 + n] else dec (n div 10) @ [48 + n mod 10])"

declare dec.simps [simp del]

definition dec_int :: "int \<Rightarrow> ustr" where
  "dec_int i = (if i < 0 then U ''-'' @ dec (nat (- i)) else dec (nat i))"

definition hex_digit :: "nat \<Rightarrow> nat" where
  "hex_digit d = (if d < 10 then 48 + d else 87 + d)"

text \<open>\<open>format!("{n:0w$x}")\<close> for \<open>n < 16 ^ w\<close>.\<close>

fun hex_pad :: "nat \<Rightarrow> nat \<Rightarrow> ustr" where
  "hex_pad 0 n = []"
| "hex_pad (Suc w) n = hex_pad w (n div 16) @ [hex_digit (n mod 16)]"

text \<open>\<open>parts.join(sep)\<close>\<close>

fun join_with :: "'a list \<Rightarrow> 'a list list \<Rightarrow> 'a list" where
  "join_with sep [] = []"
| "join_with sep [x] = x"
| "join_with sep (x # y # ys) = x @ sep @ join_with sep (y # ys)"

text \<open>\<open>s.split(c)\<close>: always at least one piece.\<close>

fun split_on :: "'a \<Rightarrow> 'a list \<Rightarrow> 'a list list" where
  "split_on c [] = [[]]"
| "split_on c (x # xs) =
     (if x = c then [] # split_on c xs
      else (case split_on c xs of [] \<Rightarrow> [[x]] | p # ps \<Rightarrow> (x # p) # ps))"

definition starts_with :: "'a list \<Rightarrow> 'a list \<Rightarrow> bool" where
  "starts_with s p \<longleftrightarrow> take (length p) s = p"

definition ends_with :: "'a list \<Rightarrow> 'a list \<Rightarrow> bool" where
  "ends_with s p \<longleftrightarrow> length p \<le> length s \<and> drop (length s - length p) s = p"

lemma split_on_ne [simp]: "split_on c s \<noteq> []"
  by (cases s) (auto split: list.splits)

lemma split_on_parts: "p \<in> set (split_on c s) \<Longrightarrow> c \<notin> set p"
  by (induction s arbitrary: p) (auto split: if_splits list.splits)

lemma join_with_split_on [simp]: "join_with [c] (split_on c s) = s"
proof (induction s)
  case (Cons x xs)
  then show ?case
    by (cases "split_on c xs") (auto split: list.splits, (metis join_with.simps neq_Nil_conv append_Cons)+)
qed simp

lemma split_on_no_sep: "c \<notin> set s \<Longrightarrow> split_on c s = [s]"
  by (induction s) auto

lemma split_on_append_sep: "c \<notin> set p \<Longrightarrow> split_on c (p @ c # s) = p # split_on c s"
  by (induction p) auto

lemma split_on_join_with:
  "ps \<noteq> [] \<Longrightarrow> \<forall>p \<in> set ps. c \<notin> set p \<Longrightarrow> split_on c (join_with [c] ps) = ps"
  by (induction "[c]" ps rule: join_with.induct) (auto simp: split_on_no_sep split_on_append_sep)

section \<open>Results\<close>

fun try_bind :: "'e + 'a \<Rightarrow> ('a \<Rightarrow> 'e + 'b) \<Rightarrow> 'e + 'b" where
  "try_bind (Inl e) f = Inl e"
| "try_bind (Inr a) f = f a"

lemma try_bind_Inr [res_simps]: "try_bind x f = Inr b \<longleftrightarrow> (\<exists>a. x = Inr a \<and> f a = Inr b)"
  by (cases x) auto

lemma try_bind_Inl [res_simps]:
  "try_bind x f = Inl e \<longleftrightarrow> x = Inl e \<or> (\<exists>a. x = Inr a \<and> f a = Inl e)"
  by (cases x) auto

text \<open>A guard: \<open>if bad { return Err(e) }\<close>.\<close>

definition ensure :: "bool \<Rightarrow> 'e \<Rightarrow> 'e + unit" where
  "ensure ok e = (if ok then Inr () else Inl e)"

lemma ensure_Inr [res_simps]: "ensure ok e = Inr u \<longleftrightarrow> ok"
  by (simp add: ensure_def)

lemma ensure_Inl [res_simps]: "ensure ok e = Inl e' \<longleftrightarrow> \<not> ok \<and> e' = e"
  by (auto simp: ensure_def)

text \<open>
  \<open>for (i, x) in xs.enumerate() { acc.push(f(i, x, &acc)?) }\<close>: a loop that stops at the first
  error and whose body may look at what it has collected so far.
\<close>

fun try_fold :: "(nat \<Rightarrow> 'a \<Rightarrow> 's \<Rightarrow> 'e + 's) \<Rightarrow> nat \<Rightarrow> 'a list \<Rightarrow> 's \<Rightarrow> 'e + 's" where
  "try_fold f i [] acc = Inr acc"
| "try_fold f i (x # xs) acc = try_bind (f i x acc) (try_fold f (Suc i) xs)"

lemma try_fold_invariant:
  assumes "try_fold f i xs acc = Inr r" and "P acc"
    and "\<And>j x a b. x \<in> set xs \<Longrightarrow> P a \<Longrightarrow> f j x a = Inr b \<Longrightarrow> P b"
  shows "P r"
  using assms
proof (induction xs arbitrary: i acc)
  case (Cons x xs)
  then obtain b where b: "f i x acc = Inr b" "try_fold f (Suc i) xs b = Inr r"
    by (auto simp: res_simps)
  have "P b" using Cons.prems(2,3) b(1) by auto
  with Cons.IH[OF b(2)] Cons.prems(3) show ?case by auto
qed simp

section \<open>Lists\<close>

text \<open>\<open>iter().find_map(f)\<close> with the index of \<open>enumerate()\<close>.\<close>

fun find_mapi :: "(nat \<Rightarrow> 'a \<Rightarrow> 'b option) \<Rightarrow> nat \<Rightarrow> 'a list \<Rightarrow> 'b option" where
  "find_mapi f i [] = None"
| "find_mapi f i (x # xs) = (case f i x of Some y \<Rightarrow> Some y | None \<Rightarrow> find_mapi f (Suc i) xs)"

lemma find_mapi_None:
  "find_mapi f i xs = None \<longleftrightarrow> (\<forall>j < length xs. f (i + j) (xs ! j) = None)"
proof (induction xs arbitrary: i)
  case (Cons x xs)
  have "(\<forall>j < length (x # xs). f (i + j) ((x # xs) ! j) = None) \<longleftrightarrow>
      f i x = None \<and> (\<forall>j < length xs. f (Suc i + j) (xs ! j) = None)"
    by (auto simp: less_Suc_eq_0_disj)
  then show ?case by (auto simp: Cons.IH split: option.splits)
qed simp

lemma find_mapi_cong [fundef_cong]:
  assumes "xs = ys" "i = j" "\<And>k x. x \<in> set ys \<Longrightarrow> f k x = g k x"
  shows "find_mapi f i xs = find_mapi g j ys"
  using assms by (induction ys arbitrary: xs i j) (auto split: option.splits)

end
