(* ===== verification/Json.thy ===== *)
theory Json
  imports Prelude
begin

text \<open>
  JSON values as the program holds them (\<open>serde_json::Value\<close> with the features
  \<open>preserve_order\<close> and \<open>float_roundtrip\<close>), and the keyed stores built on association
  lists: the insertion-ordered object \<open>Obj = Map<String, Value>\<close> of crates/ec-proto/src/lib.rs
  and, with removal by key, the server's table of requests.

  A finite double is the rational it denotes (negative zero is zero, which no comparison of the
  modelled code can tell apart). \<open>num_val\<close> is the exact value of a number: the code compares
  \<open>as_f64()\<close> with 0, 1, 4096 and 1e15 only, all exactly representable, and rounding to double is
  monotone, so each comparison has the same answer on the exact value.
\<close>

datatype num = PosInt nat | NegInt int | Float rat

datatype json =
    JNull
  | JBool bool
  | JNum num
  | JStr ustr
  | JArr "json list"
  | JObj "(ustr \<times> json) list"

type_synonym obj = "(ustr \<times> json) list"

section \<open>Accessors\<close>

fun is_f64 :: "num \<Rightarrow> bool" where
  "is_f64 (Float r) = True"
| "is_f64 n = False"

text \<open>\<open>Number::as_i64\<close> and \<open>as_u64\<close>; a \<open>PosInt\<close> is a \<open>u64\<close>.\<close>

fun as_i64 :: "num \<Rightarrow> int option" where
  "as_i64 (PosInt n) = (if n < 2 ^ 63 then Some (int n) else None)"
| "as_i64 (NegInt i) = Some i"
| "as_i64 (Float r) = None"

fun as_u64 :: "num \<Rightarrow> nat option" where
  "as_u64 (PosInt n) = Some n"
| "as_u64 n = None"

fun num_val :: "num \<Rightarrow> rat" where
  "num_val (PosInt n) = of_nat n"
| "num_val (NegInt i) = of_int i"
| "num_val (Float r) = r"

fun json_i64 :: "json \<Rightarrow> int option" where
  "json_i64 (JNum n) = as_i64 n"
| "json_i64 v = None"

fun json_str :: "json \<Rightarrow> ustr option" where
  "json_str (JStr s) = Some s"
| "json_str v = None"

fun is_object :: "json \<Rightarrow> bool" where
  "is_object (JObj m) = True"
| "is_object v = False"

text \<open>\<open>Value::from(i64)\<close>\<close>

definition num_of_int :: "int \<Rightarrow> num" where
  "num_of_int i = (if i < 0 then NegInt i else PosInt (nat i))"

definition json_int :: "int \<Rightarrow> json" where
  "json_int i = JNum (num_of_int i)"

lemma as_i64_num_of_int [simp]: "as_i64 (num_of_int i) = (if i < 2 ^ 63 then Some i else None)"
  by (auto simp: num_of_int_def nat_less_iff)

section \<open>The contract of a keyed store\<close>

text \<open>
  What the clients of a map rely on: what a lookup returns after an insertion, and that an
  insertion keeps the representation invariant. A store that also removes keys extends it.
\<close>

locale keyed =
  fixes get :: "'m \<Rightarrow> 'k \<Rightarrow> 'v option"
    and ins :: "'k \<Rightarrow> 'v \<Rightarrow> 'm \<Rightarrow> 'm"
    and card_of :: "'m \<Rightarrow> nat"
    and inv :: "'m \<Rightarrow> bool"
  assumes get_ins: "get (ins k v m) k' = (if k' = k then Some v else get m k')"
    and inv_ins: "inv m \<Longrightarrow> inv (ins k v m)"
    and card_ins: "card_of (ins k v m) = (if get m k = None then Suc (card_of m) else card_of m)"
begin

definition ins_all :: "'m \<Rightarrow> ('k \<times> 'v) list \<Rightarrow> 'm" where
  "ins_all m kvs = foldl (\<lambda>m kv. ins (fst kv) (snd kv) m) m kvs"

lemma ins_all_Nil: "ins_all m [] = m"
  by (simp add: ins_all_def)

lemma ins_all_Cons: "ins_all m (kv # kvs) = ins_all (ins (fst kv) (snd kv) m) kvs"
  by (simp add: ins_all_def)

lemma inv_ins_all: "inv m \<Longrightarrow> inv (ins_all m kvs)"
  by (induction kvs arbitrary: m) (simp_all add: ins_all_Nil ins_all_Cons inv_ins)

lemma get_ins_all_notin: "k \<notin> fst ` set kvs \<Longrightarrow> get (ins_all m kvs) k = get m k"
  by (induction kvs arbitrary: m) (auto simp: ins_all_Nil ins_all_Cons get_ins)

lemma get_ins_all:
  "distinct (map fst kvs) \<Longrightarrow> (k, v) \<in> set kvs \<Longrightarrow> get (ins_all m kvs) k = Some v"
proof (induction kvs arbitrary: m)
  case (Cons kv kvs)
  show ?case
  proof (cases "kv = (k, v)")
    case True
    with Cons.prems have "k \<notin> fst ` set kvs" by auto
    with True show ?thesis by (simp add: ins_all_Cons get_ins_all_notin get_ins)
  next
    case False
    with Cons show ?thesis by (simp add: ins_all_Cons)
  qed
qed simp

lemma card_ins_all_le: "card_of (ins_all m kvs) \<le> card_of m + length kvs"
proof (induction kvs arbitrary: m)
  case (Cons kv kvs)
  have "card_of (ins (fst kv) (snd kv) m) \<le> Suc (card_of m)" by (simp add: card_ins)
  with Cons[of "ins (fst kv) (snd kv) m"] show ?case by (simp add: ins_all_Cons)
qed (simp add: ins_all_Nil)

end

locale keyed_del = keyed get ins card_of inv
  for get :: "'m \<Rightarrow> 'k \<Rightarrow> 'v option"
    and ins :: "'k \<Rightarrow> 'v \<Rightarrow> 'm \<Rightarrow> 'm"
    and card_of :: "'m \<Rightarrow> nat"
    and inv :: "'m \<Rightarrow> bool" +
  fixes del :: "'k \<Rightarrow> 'm \<Rightarrow> 'm"
  assumes get_del: "inv m \<Longrightarrow> get (del k m) k' = (if k' = k then None else get m k')"
    and inv_del: "inv m \<Longrightarrow> inv (del k m)"
    and card_del: "inv m \<Longrightarrow> card_of (del k m) \<le> card_of m"
begin

lemma del_ins_get: "inv m \<Longrightarrow> get m k = None \<Longrightarrow> get (del k (ins k v m)) k' = get m k'"
  by (simp add: get_del inv_ins get_ins)

lemma card_ins_bounded:
  "get m k = None \<Longrightarrow> card_of m < b \<Longrightarrow> card_of (ins k v m) \<le> b"
  by (simp add: card_ins)

end

section \<open>Objects with insertion order\<close>

text \<open>\<open>get\<close>, \<open>insert\<close> (an existing key keeps its place) and \<open>remove\<close> (with
  \<open>preserve_order\<close> the last entry takes the removed one's place) of \<open>serde_json::Map\<close>.\<close>

definition obj_get :: "('k \<times> 'v) list \<Rightarrow> 'k \<Rightarrow> 'v option" where
  "obj_get m k = map_of m k"

fun obj_insert :: "'k \<Rightarrow> 'v \<Rightarrow> ('k \<times> 'v) list \<Rightarrow> ('k \<times> 'v) list" where
  "obj_insert k v [] = [(k, v)]"
| "obj_insert k v ((k', v') # m) = (if k' = k then (k, v) # m else (k', v') # obj_insert k v m)"

fun obj_remove :: "'k \<Rightarrow> ('k \<times> 'v) list \<Rightarrow> ('k \<times> 'v) list" where
  "obj_remove k [] = []"
| "obj_remove k ((k', v') # m) =
     (if k' = k then (if m = [] then [] else last m # butlast m) else (k', v') # obj_remove k m)"

text \<open>\<open>HashMap::remove\<close>, on the same representation.\<close>

definition tab_remove :: "'k \<Rightarrow> ('k \<times> 'v) list \<Rightarrow> ('k \<times> 'v) list" where
  "tab_remove k m = filter (\<lambda>kv. fst kv \<noteq> k) m"

definition obj_wf :: "('k \<times> 'v) list \<Rightarrow> bool" where
  "obj_wf m \<longleftrightarrow> distinct (map fst m)"

lemma obj_get_Nil [simp]: "obj_get [] k = None"
  by (simp add: obj_get_def)

lemma obj_get_Cons [simp]: "obj_get (kv # m) k = (if k = fst kv then Some (snd kv) else obj_get m k)"
  by (simp add: obj_get_def)

lemma obj_get_None_iff: "obj_get m k = None \<longleftrightarrow> k \<notin> fst ` set m"
  by (simp add: obj_get_def map_of_eq_None_iff)

lemma obj_get_SomeD: "obj_get m k = Some v \<Longrightarrow> (k, v) \<in> set m"
  by (simp add: obj_get_def map_of_SomeD)

lemma obj_get_in: "obj_wf m \<Longrightarrow> (k, v) \<in> set m \<Longrightarrow> obj_get m k = Some v"
  by (simp add: obj_get_def obj_wf_def)

lemma obj_get_insert [simp]: "obj_get (obj_insert k v m) k' = (if k' = k then Some v else obj_get m k')"
  by (induction m) auto

lemma keys_obj_insert:
  "map fst (obj_insert k v m) = (if k \<in> fst ` set m then map fst m else map fst m @ [k])"
  by (induction m) (auto simp: rev_image_eqI)

lemma set_obj_insert: "set (obj_insert k v m) \<subseteq> insert (k, v) (set m)"
  by (induction m) (auto split: if_splits)

lemma obj_wf_insert [simp]: "obj_wf m \<Longrightarrow> obj_wf (obj_insert k v m)"
  unfolding obj_wf_def keys_obj_insert by (auto simp del: distinct_map)

lemma length_obj_insert:
  "length (obj_insert k v m) = (if obj_get m k = None then Suc (length m) else length m)"
  by (induction m) auto

lemma obj_insert_fresh: "k \<notin> fst ` set m \<Longrightarrow> obj_insert k v m = m @ [(k, v)]"
  by (induction m) auto

text \<open>Removal permutes what is left, so lookups and the invariant need only its entries.\<close>

lemma set_obj_remove: "obj_wf m \<Longrightarrow> set (obj_remove k m) = {kv \<in> set m. fst kv \<noteq> k}"
proof (induction m)
  case (Cons kv m)
  have m: "set m = insert (last m) (set (butlast m))" if "m \<noteq> []"
    using that by (metis append_butlast_last_id list.set(1) list.set(2) set_append Un_insert_right sup_bot_right)
  show ?case using Cons m by (cases kv) (auto simp: obj_wf_def image_iff)
qed simp

lemma mset_rotate: "m \<noteq> [] \<Longrightarrow> mset (last m # butlast m) = mset m"
  by (induction m) auto

lemma distinct_keys_obj_remove: "obj_wf m \<Longrightarrow> obj_wf (obj_remove k m)"
proof (induction m)
  case (Cons kv m)
  have "mset (map fst (last m # butlast m)) = mset (map fst m)" if "m \<noteq> []"
    using mset_rotate[OF that] by (metis mset_map)
  then have rot: "distinct (map fst (last m # butlast m))" if "m \<noteq> []"
    using that Cons.prems mset_eq_imp_distinct_iff by (metis obj_wf_def distinct.simps(2) list.simps(9))
  have sub: "set (obj_remove k m) \<subseteq> set m"
    using Cons.prems by (auto simp: set_obj_remove obj_wf_def)
  obtain a b where kv: "kv = (a, b)" by (cases kv)
  have "a \<notin> fst ` set (obj_remove k m)"
    using Cons.prems sub kv by (auto simp: obj_wf_def)
  with Cons kv rot show ?case by (cases "m = []") (simp_all add: obj_wf_def del: distinct_map)
qed (simp add: obj_wf_def)

lemma length_obj_remove_le: "length (obj_remove k m) \<le> length m"
  by (induction m) auto

lemma obj_get_set_eq:
  assumes "obj_wf m" "obj_wf m'" "set m' = {kv \<in> set m. fst kv \<noteq> k}"
  shows "obj_get m' k' = (if k' = k then None else obj_get m k')"
proof (cases "k' = k")
  case True
  have "k \<notin> fst ` set m'" using assms(3) by auto
  with True show ?thesis by (simp add: obj_get_None_iff)
next
  case False
  have iff: "(k', v) \<in> set m' \<longleftrightarrow> (k', v) \<in> set m" for v using assms(3) False by simp
  have "obj_get m' k' = obj_get m k'"
  proof (cases "obj_get m k'")
    case None
    then have "k' \<notin> fst ` set m'" using iff by (force simp: obj_get_None_iff)
    with None show ?thesis by (metis obj_get_None_iff)
  next
    case (Some v)
    then have "(k', v) \<in> set m'" using iff obj_get_SomeD by fastforce
    with assms(2) Some show ?thesis by (simp add: obj_get_in)
  qed
  with False show ?thesis by simp
qed

lemma obj_get_remove:
  "obj_wf m \<Longrightarrow> obj_get (obj_remove k m) k' = (if k' = k then None else obj_get m k')"
  by (rule obj_get_set_eq) (simp_all add: distinct_keys_obj_remove set_obj_remove)

interpretation om: keyed_del obj_get obj_insert length obj_wf obj_remove
  by unfold_locales
    (auto simp: length_obj_insert distinct_keys_obj_remove length_obj_remove_le obj_get_remove)

interpretation tab: keyed_del obj_get obj_insert length obj_wf tab_remove
proof unfold_locales
  fix m :: "('k \<times> 'v) list" and k k'
  assume wf: "obj_wf m"
  show wf': "obj_wf (tab_remove k m)"
    using wf by (auto simp: obj_wf_def tab_remove_def distinct_map_filter)
  show "obj_get (tab_remove k m) k' = (if k' = k then None else obj_get m k')"
    by (rule obj_get_set_eq[OF wf wf']) (auto simp: tab_remove_def)
  show "length (tab_remove k m) \<le> length m" by (simp add: tab_remove_def)
qed

section \<open>Building objects\<close>

text \<open>\<open>let mut out = Obj::new(); for (k, v) in kvs { out.insert(k, v); }\<close>\<close>

definition obj_of :: "('k \<times> 'v) list \<Rightarrow> ('k \<times> 'v) list" where
  "obj_of kvs = foldl (\<lambda>m kv. obj_insert (fst kv) (snd kv) m) [] kvs"

lemma obj_of_ins_all: "obj_of kvs = om.ins_all [] kvs"
  by (simp add: obj_of_def om.ins_all_def)

lemma obj_wf_Nil [simp]: "obj_wf []"
  by (simp add: obj_wf_def)

lemma obj_wf_obj_of [simp]: "obj_wf (obj_of kvs)"
  unfolding obj_of_ins_all by (rule om.inv_ins_all) simp

lemma length_obj_of_le: "length (obj_of kvs) \<le> length kvs"
  unfolding obj_of_ins_all using om.card_ins_all_le[of "[]" kvs] by simp

lemma ins_all_distinct:
  "distinct (map fst m @ map fst kvs) \<Longrightarrow> om.ins_all m kvs = m @ kvs"
proof (induction kvs arbitrary: m)
  case (Cons kv kvs)
  then have "fst kv \<notin> fst ` set m" by auto
  then have "obj_insert (fst kv) (snd kv) m = m @ [kv]" by (simp add: obj_insert_fresh)
  with Cons.IH[of "m @ [kv]"] Cons.prems show ?case by (simp add: om.ins_all_Cons)
qed (simp add: om.ins_all_Nil)

text \<open>With no key twice, the object is the list itself: the order of insertion is kept.\<close>

lemma obj_of_distinct: "distinct (map fst kvs) \<Longrightarrow> obj_of kvs = kvs"
  unfolding obj_of_ins_all using ins_all_distinct[of "[]" kvs] by simp

lemma set_ins_all: "set (om.ins_all m kvs) \<subseteq> set m \<union> set kvs"
proof (induction kvs arbitrary: m)
  case (Cons kv kvs)
  have "set (om.ins_all m (kv # kvs)) \<subseteq> set (obj_insert (fst kv) (snd kv) m) \<union> set kvs"
    unfolding om.ins_all_Cons by (rule Cons)
  also have "\<dots> \<subseteq> set m \<union> set (kv # kvs)"
    using set_obj_insert[of "fst kv" "snd kv" m] by (cases kv) auto
  finally show ?case .
qed (simp add: om.ins_all_Nil)

lemma set_obj_of: "set (obj_of kvs) \<subseteq> set kvs"
  unfolding obj_of_ins_all using set_ins_all[of "[]" kvs] by simp

section \<open>Truth values and sizes\<close>

text \<open>\<open>msg.get(k).unwrap_or(&Value::Null)\<close>\<close>

definition obj_get_or_null :: "obj \<Rightarrow> ustr \<Rightarrow> json" where
  "obj_get_or_null m k = (case obj_get m k of None \<Rightarrow> JNull | Some v \<Rightarrow> v)"

text \<open>The number of values in a value, itself included, and its nesting depth.\<close>

fun nodes :: "json \<Rightarrow> nat" where
  "nodes (JArr xs) = Suc (sum_list (map nodes xs))"
| "nodes (JObj m) = Suc (sum_list (map (\<lambda>kv. nodes (snd kv)) m))"
| "nodes v = 1"

end
