(* ===== verification/PyFmt.thy ===== *)
theory PyFmt
  imports Json
begin

text \<open>
  Python's text forms of decoded values: crates/ec-proto/src/pyfmt.rs and \<open>py_repr\<close> of
  sanitize.rs. They only appear inside messages. The digits of a float (\<open>repr_float\<close>, built on
  the shortest round-trip formatter of the standard library) are the parameter \<open>rf\<close>.
\<close>

definition take_chars :: "ustr \<Rightarrow> nat \<Rightarrow> ustr" where
  "take_chars s n = take n s"

definition is_py_unprintable :: "nat \<Rightarrow> bool" where
  "is_py_unprintable n \<longleftrightarrow>
     (0x80 \<le> n \<and> n \<le> 0xa0) \<or> n = 0xad
     \<or> (0x2000 \<le> n \<and> n \<le> 0x200f) \<or> (0x2028 \<le> n \<and> n \<le> 0x202f)
     \<or> (0x205f \<le> n \<and> n \<le> 0x206f) \<or> n = 0x3000 \<or> n = 0xfeff
     \<or> (0xfff9 \<le> n \<and> n \<le> 0xfffb) \<or> (0xd800 \<le> n \<and> n \<le> 0xdfff)"

text \<open>One character of \<open>repr(s)\<close>, with \<open>q\<close> the quote in use (39 is ', 34 is ", 92 the backslash).\<close>

definition py_repr_char :: "nat \<Rightarrow> nat \<Rightarrow> ustr" where
  "py_repr_char q c =
     (if c = 92 then [92, 92]
      else if c = 10 then 92 # U ''n''
      else if c = 13 then 92 # U ''r''
      else if c = 9 then 92 # U ''t''
      else if c = q then [92, c]
      else if c < 0x20 \<or> c = 0x7f then 92 # U ''x'' @ hex_pad 2 c
      else if is_py_unprintable c then
        (if c \<le> 0xff then 92 # U ''x'' @ hex_pad 2 c
         else if c \<le> 0xffff then 92 # U ''u'' @ hex_pad 4 c
         else 92 # U ''U'' @ hex_pad 8 c)
      else [c])"

definition py_repr :: "ustr \<Rightarrow> ustr" where
  "py_repr s =
     (let q = (if 39 \<in> set s \<and> 34 \<notin> set s then 34 else 39)
      in [q] @ concat (map (py_repr_char q) s) @ [q])"

definition repr_num :: "(rat \<Rightarrow> ustr) \<Rightarrow> num \<Rightarrow> ustr" where
  "repr_num rf n = (case n of PosInt k \<Rightarrow> dec k | NegInt i \<Rightarrow> dec_int i | Float r \<Rightarrow> rf r)"

fun repr_value :: "(rat \<Rightarrow> ustr) \<Rightarrow> json \<Rightarrow> ustr" where
  "repr_value rf JNull = U ''None''"
| "repr_value rf (JBool b) = (if b then U ''True'' else U ''False'')"
| "repr_value rf (JNum n) = repr_num rf n"
| "repr_value rf (JStr s) = py_repr s"
| "repr_value rf (JArr a) = U ''['' @ join_with (U '', '') (map (repr_value rf) a) @ U '']''"
| "repr_value rf (JObj m) =
     U ''{'' @ join_with (U '', '')
       (map (\<lambda>kv. py_repr (fst kv) @ U '': '' @ repr_value rf (snd kv)) m) @ U ''}''"

definition str_value :: "(rat \<Rightarrow> ustr) \<Rightarrow> json \<Rightarrow> ustr" where
  "str_value rf v = (case v of JStr s \<Rightarrow> s | _ \<Rightarrow> repr_value rf v)"

text \<open>A quoted text never holds a raw control character: it stays on one line of a message.\<close>

lemma hex_pad_printable: "c \<in> set (hex_pad w n) \<Longrightarrow> 48 \<le> c"
  by (induction w arbitrary: n) (auto simp: hex_digit_def split: if_splits)

lemma py_repr_char_printable:
  assumes "c' \<in> set (py_repr_char q c)" "q = 34 \<or> q = 39"
  shows "0x20 \<le> c' \<and> c' \<noteq> 0x7f"
proof -
  have hex: "48 \<le> d \<and> d \<noteq> 0x7f" if "d \<in> set (hex_pad w n)" for d w n
    using that by (induction w arbitrary: n) (auto simp: hex_digit_def split: if_splits)
  have lit: "set (U ''n'') = {110}" "set (U ''r'') = {114}" "set (U ''t'') = {116}"
    "set (U ''x'') = {120}" "set (U ''u'') = {117}" "set (U ''U'') = {85}"
    by (simp_all add: U_def)
  show ?thesis using assms
    by (auto simp: py_repr_char_def lit split: if_splits dest!: hex)
qed

end
