(* ===== verification/Frame.thy ===== *)
theory Frame
  imports PyFmt
begin

text \<open>
  The frame codec of the wire protocol (crates/ec-proto/src/lib.rs): a big-endian 32-bit length,
  a kind byte and a body. JSON text is printed and parsed by serde_json and checked by the standard
  library's UTF-8 decoder; they are the parameters \<open>to_vec\<close>, \<open>from_utf8\<close> and \<open>from_str\<close>, each
  with its error text on the left.

  A blocking reader is the list of what its next \<open>read\<close> calls meet: a chunk of bytes (of which a
  call takes as much as its buffer holds), an interruption, or a failure; the empty list is the end
  of the stream. The theorems show that the frames read do not depend on how the bytes were cut.
\<close>

section \<open>Constants\<close>

definition PROTO :: int where "PROTO = 1"
definition MAGIC :: "u8 list" where
  "MAGIC = map of_nat (U ''ecnode-proto 1'' @ [10])"
definition MAX_PREAMBLE :: nat where "MAX_PREAMBLE = 64 * 1024"
definition KIND_JSON :: u8 where "KIND_JSON = 1"
definition KIND_DATA :: u8 where "KIND_DATA = 2"
definition MAX_JSON :: nat where "MAX_JSON = 1024 * 1024"
definition MAX_DATA :: nat where "MAX_DATA = 1024 * 1024"
definition WINDOW :: int where "WINDOW = 8 * 1024 * 1024"
definition MAX_ID :: int where "MAX_ID = 2147483647"
definition MAX_INFLIGHT :: nat where "MAX_INFLIGHT = 64"

definition BAD_ARGS :: ustr where "BAD_ARGS = U ''bad_args''"
definition UNKNOWN_OP :: ustr where "UNKNOWN_OP = U ''unknown_op''"
definition MONITOR_ONLY :: ustr where "MONITOR_ONLY = U ''monitor_only''"
definition POLICY_DENIED :: ustr where "POLICY_DENIED = U ''policy_denied''"
definition NOT_FOUND :: ustr where "NOT_FOUND = U ''not_found''"
definition TIMEOUT :: ustr where "TIMEOUT = U ''timeout''"
definition CANCELLED :: ustr where "CANCELLED = U ''cancelled''"
definition BUSY :: ustr where "BUSY = U ''busy''"
definition INTERNAL :: ustr where "INTERNAL = U ''internal''"

lemmas frame_consts [wire_simps] = KIND_JSON_def KIND_DATA_def MAX_JSON_def MAX_DATA_def MAX_ID_def

datatype proto_error = Invalid ustr | Truncated ustr

datatype frame = FJson obj | FData u32 "u8 list"

definition valid_id_i64 :: "int \<Rightarrow> bool" where
  "valid_id_i64 v \<longleftrightarrow> 1 \<le> v \<and> v \<le> MAX_ID"

definition valid_id :: "json \<Rightarrow> bool" where
  "valid_id v \<longleftrightarrow> (case json_i64 v of Some i \<Rightarrow> valid_id_i64 i | None \<Rightarrow> False)"

section \<open>Encoding\<close>

text \<open>\<open>u32::to_be_bytes\<close> and \<open>u32::from_be_bytes\<close>\<close>

definition to_be_bytes :: "u32 \<Rightarrow> u8 list" where
  "to_be_bytes w = [ucast (drop_bit 24 w), ucast (drop_bit 16 w), ucast (drop_bit 8 w), ucast w]"

definition from_be_bytes :: "u8 \<Rightarrow> u8 \<Rightarrow> u8 \<Rightarrow> u8 \<Rightarrow> u32" where
  "from_be_bytes a b c d = of_nat (((unat a * 256 + unat b) * 256 + unat c) * 256 + unat d)"

text \<open>\<open>u32::try_from(n).unwrap_or(u32::MAX)\<close>\<close>

definition u32_len :: "nat \<Rightarrow> u32" where
  "u32_len n = (if n < 2 ^ 32 then of_nat n else - 1)"

definition encode_json :: "(obj \<Rightarrow> ustr + u8 list) \<Rightarrow> obj \<Rightarrow> proto_error + u8 list" where
  "encode_json to_vec obj =
     (case to_vec obj of
        Inl e \<Rightarrow> Inl (Invalid (U ''cannot encode: '' @ e))
      | Inr body \<Rightarrow>
          if MAX_JSON < length body
          then Inl (Invalid (U ''message of '' @ dec (length body) @ U '' bytes is over MAX_JSON (''
                 @ dec MAX_JSON @ U '')''))
          else Inr (to_be_bytes (u32_len (length body + 1)) @ [KIND_JSON] @ body))"

definition encode_value :: "(obj \<Rightarrow> ustr + u8 list) \<Rightarrow> json \<Rightarrow> proto_error + u8 list" where
  "encode_value to_vec v =
     (case v of JObj o' \<Rightarrow> encode_json to_vec o'
      | _ \<Rightarrow> Inl (Invalid (U ''message must be a JSON object'')))"

definition encode_data :: "int \<Rightarrow> u8 list \<Rightarrow> proto_error + u8 list" where
  "encode_data stream payload =
     (if \<not> valid_id_i64 stream then Inl (Invalid (U ''stream id out of range''))
      else if MAX_DATA < length payload
      then Inl (Invalid (U ''data payload of '' @ dec (length payload) @ U '' bytes is over MAX_DATA (''
             @ dec MAX_DATA @ U '')''))
      else Inr (to_be_bytes (u32_len (length payload + 5)) @ [KIND_DATA]
             @ to_be_bytes (of_int stream) @ payload))"

section \<open>Decoding\<close>

definition decode_json ::
  "(u8 list \<Rightarrow> ustr + ustr) \<Rightarrow> (ustr \<Rightarrow> ustr + json) \<Rightarrow> u8 list \<Rightarrow> proto_error + obj" where
  "decode_json from_utf8 from_str body =
     (case from_utf8 body of
        Inl e \<Rightarrow> Inl (Invalid (U ''not JSON: '' @ take 120 e))
      | Inr text \<Rightarrow>
          (case from_str text of
             Inl e \<Rightarrow> Inl (Invalid (U ''not JSON: '' @ take 120 e))
           | Inr (JObj o') \<Rightarrow> Inr o'
           | Inr _ \<Rightarrow> Inl (Invalid (U ''message must be a JSON object''))))"

text \<open>The kind and the body length, from the five header bytes.\<close>

fun parse_header :: "u8 list \<Rightarrow> proto_error + (u8 \<times> nat)" where
  "parse_header [h0, h1, h2, h3, kind] =
     (let len = int (unat (from_be_bytes h0 h1 h2 h3)); body = len - 1 in
      if kind = KIND_JSON \<or> kind = KIND_DATA then
        (if (if kind = KIND_JSON then 2 \<le> body \<and> body \<le> int MAX_JSON
             else 4 \<le> body \<and> body \<le> 4 + int MAX_DATA)
         then Inr (kind, nat body)
         else Inl (Invalid (U ''frame length '' @ dec_int len @ U '' out of range for kind ''
                @ dec (unat kind))))
      else Inl (Invalid (U ''unknown frame kind '' @ dec (unat kind))))"
| "parse_header _ = Inl (Truncated (U ''stream ended inside a frame header''))"

fun decode_body ::
  "(u8 list \<Rightarrow> ustr + ustr) \<Rightarrow> (ustr \<Rightarrow> ustr + json) \<Rightarrow> u8 \<Rightarrow> u8 list \<Rightarrow> proto_error + frame" where
  "decode_body from_utf8 from_str kind body =
     (if kind = KIND_JSON then
        (case decode_json from_utf8 from_str body of Inl e \<Rightarrow> Inl e | Inr o' \<Rightarrow> Inr (FJson o'))
      else (case body of
          b0 # b1 # b2 # b3 # data \<Rightarrow>
            (let stream = from_be_bytes b0 b1 b2 b3 in
             if valid_id_i64 (uint stream) then Inr (FData stream data)
             else Inl (Invalid (U ''data frame with an out-of-range stream id'')))
        | _ \<Rightarrow> Inl (Invalid (U ''data frame without a stream id''))))"

declare decode_body.simps [simp del]

section \<open>The blocking reader\<close>

datatype read_ev = Chunk "u8 list" | Interrupted | IoFail

type_synonym reader = "read_ev list"

text \<open>
  \<open>read_exact_sync\<close>: up to \<open>n\<close> more bytes after those in \<open>got\<close>; fewer at the end of the stream,
  \<open>None\<close> when the stream fails. A zero-length read is the end of the stream.
\<close>

function read_exact_sync :: "nat \<Rightarrow> u8 list \<Rightarrow> reader \<Rightarrow> u8 list option \<times> reader" where
  "read_exact_sync n got r =
     (if n \<le> length got then (Some got, r)
      else case r of
        [] \<Rightarrow> (Some got, [])
      | Interrupted # r' \<Rightarrow> read_exact_sync n got r'
      | IoFail # r' \<Rightarrow> (None, r')
      | Chunk c # r' \<Rightarrow>
          (if c = [] then (Some got, r')
           else if length c \<le> n - length got then read_exact_sync n (got @ c) r'
           else (Some (got @ take (n - length got) c), Chunk (drop (n - length got) c) # r')))"
  by pat_completeness auto
termination
  by (relation "measure (\<lambda>(n, got, r). length r)") auto

declare read_exact_sync.simps [simp del]

datatype read_error = Proto proto_error | Io

text \<open>\<open>read_frame_sized_sync\<close>: the next frame and its size on the wire, \<open>None\<close> at a clean end.\<close>

definition read_frame_sized_sync ::
  "(u8 list \<Rightarrow> ustr + ustr) \<Rightarrow> (ustr \<Rightarrow> ustr + json) \<Rightarrow> reader
   \<Rightarrow> (read_error + (frame \<times> nat) option) \<times> reader" where
  "read_frame_sized_sync from_utf8 from_str r =
     (case read_exact_sync 5 [] r of
        (None, r) \<Rightarrow> (Inl Io, r)
      | (Some hdr, r) \<Rightarrow>
          (if hdr = [] then (Inr None, r)
           else if length hdr \<noteq> 5
           then (Inl (Proto (Truncated (U ''stream ended inside a frame header''))), r)
           else (case parse_header hdr of
               Inl e \<Rightarrow> (Inl (Proto e), r)
             | Inr (kind, n) \<Rightarrow>
                 (case read_exact_sync n [] r of
                    (None, r) \<Rightarrow> (Inl Io, r)
                  | (Some body, r) \<Rightarrow>
                      (if length body < n
                       then (Inl (Proto (Truncated (U ''stream ended inside a frame''))), r)
                       else (case decode_body from_utf8 from_str kind body of
                           Inl e \<Rightarrow> (Inl (Proto e), r)
                         | Inr f \<Rightarrow> (Inr (Some (f, 5 + n)), r)))))))"

definition read_frame_sync ::
  "(u8 list \<Rightarrow> ustr + ustr) \<Rightarrow> (ustr \<Rightarrow> ustr + json) \<Rightarrow> reader
   \<Rightarrow> (read_error + frame option) \<times> reader" where
  "read_frame_sync from_utf8 from_str r =
     (case read_frame_sized_sync from_utf8 from_str r of
        (Inl e, r) \<Rightarrow> (Inl e, r)
      | (Inr x, r) \<Rightarrow> (Inr (map_option fst x), r))"

section \<open>Finding the start of the protocol\<close>

text \<open>What is left of a chunk after some of it was consumed.\<close>

definition rest_of :: "u8 list \<Rightarrow> reader \<Rightarrow> reader" where
  "rest_of c r = (if c = [] then r else Chunk c # r)"

text \<open>\<open>read_line_capped\<close>: up to and including a newline (10), at most \<open>limit\<close> bytes.\<close>

function read_line_capped :: "nat \<Rightarrow> u8 list \<Rightarrow> reader \<Rightarrow> u8 list option \<times> reader" where
  "read_line_capped limit out r =
     (if limit \<le> length out then (Some out, r)
      else case r of
        [] \<Rightarrow> (Some out, [])
      | Interrupted # r' \<Rightarrow> read_line_capped limit out r'
      | IoFail # r' \<Rightarrow> (None, r')
      | Chunk c # r' \<Rightarrow>
          (if c = [] then (Some out, r')
           else let buf = take (limit - length out) c; line = takeWhile (\<lambda>b. b \<noteq> 10) buf in
             if length line < length buf
             then (Some (out @ line @ [10]), rest_of (drop (length line + 1) c) r')
             else read_line_capped limit (out @ buf) (rest_of (drop (length buf) c) r')))"
  by pat_completeness auto
termination
  by (relation "measure (\<lambda>(limit, out, r). (limit - length out) + length r)")
    (auto simp: rest_of_def min_def)

declare read_line_capped.simps [simp del]

text \<open>\<open>find_magic_sync\<close>: how many bytes of noise came before the MAGIC line.\<close>

function find_magic_from :: "nat \<Rightarrow> reader \<Rightarrow> (read_error + nat) \<times> reader" where
  "find_magic_from skipped r =
     (case read_line_capped (MAX_PREAMBLE + 1) [] r of
        (None, r') \<Rightarrow> (Inl Io, r')
      | (Some line, r') \<Rightarrow>
          (if line = [] then
             (Inl (Proto (Invalid (U ''the far side closed before speaking the ecnode protocol''))), r')
           else if ends_with line MAGIC then (Inr (skipped + length line - length MAGIC), r')
           else if MAX_PREAMBLE < skipped + length line then
             (Inl (Proto (Invalid (U ''the far side printed something other than the ecnode protocol''))), r')
           else find_magic_from (skipped + length line) r'))"
  by pat_completeness auto
termination
  by (relation "measure (\<lambda>(skipped, r). MAX_PREAMBLE + 1 - skipped)") (auto simp: neq_Nil_conv)

declare find_magic_from.simps [simp del]

definition find_magic_sync :: "reader \<Rightarrow> (read_error + nat) \<times> reader" where
  "find_magic_sync r = find_magic_from 0 r"

section \<open>Byte order\<close>

lemma unat_byte: "unat (ucast (drop_bit k w) :: u8) = (unat (w :: u32) div 2 ^ k) mod 256"
  by (simp add: unsigned_ucast_eq take_bit_eq_mod unat_drop_bit_eq flip: drop_bit_eq_div)

lemma base256: "n < 2 ^ 32 \<Longrightarrow>
    (((n div 2 ^ 24) mod 256 * 256 + (n div 2 ^ 16) mod 256) * 256 + (n div 2 ^ 8) mod 256) * 256
      + n mod 256 = (n :: nat)"
proof -
  assume n: "n < 2 ^ 32"
  have e: "n div 2 ^ 16 = n div 2 ^ 8 div 256" "n div 2 ^ 24 = n div 2 ^ 8 div 256 div 256"
    by (simp_all add: div_mult2_eq[symmetric])
  have "n div 2 ^ 8 div 256 div 256 < 256" using n by (simp add: div_mult2_eq[symmetric] less_mult_imp_div_less)
  then show ?thesis unfolding e by simp
qed

lemma from_to_be_bytes:
  "from_be_bytes (ucast (drop_bit 24 w)) (ucast (drop_bit 16 w)) (ucast (drop_bit 8 w)) (ucast w) = w"
proof -
  have "unat (ucast w :: u8) = unat w mod 256" using unat_byte[of 0 w] by simp
  moreover have "unat w < 2 ^ 32" by (rule order.strict_trans2[OF unsigned_less]) simp
  ultimately show ?thesis
    unfolding from_be_bytes_def unat_byte by (simp only: base256 of_nat_unat ucast_id)
qed

section \<open>The reader over the bytes of the stream\<close>

text \<open>A stream that does not fail and never delivers a chunk of no bytes before its end.\<close>

definition reliable :: "reader \<Rightarrow> bool" where
  "reliable r \<longleftrightarrow> (\<forall>e \<in> set r. e \<noteq> IoFail \<and> e \<noteq> Chunk [])"

fun bytes_of :: "reader \<Rightarrow> u8 list" where
  "bytes_of [] = []"
| "bytes_of (Chunk c # r) = c @ bytes_of r"
| "bytes_of (e # r) = bytes_of r"

lemma reliable_simps [simp]:
  "reliable []" "reliable (Chunk c # r) \<longleftrightarrow> c \<noteq> [] \<and> reliable r"
  "reliable (Interrupted # r) \<longleftrightarrow> reliable r" "\<not> reliable (IoFail # r)"
  by (auto simp: reliable_def)

lemma rest_of_reliable [simp]: "reliable (rest_of c r) \<longleftrightarrow> reliable r"
  by (simp add: rest_of_def)

lemma rest_of_bytes [simp]: "bytes_of (rest_of c r) = c @ bytes_of r"
  by (simp add: rest_of_def)

lemma read_exact_spec:
  assumes "reliable r" "length got \<le> n"
  obtains r' where
    "read_exact_sync n got r = (Some (got @ take (n - length got) (bytes_of r)), r')"
    "reliable r'" "bytes_of r' = drop (n - length got) (bytes_of r)"
  using assms
proof (induction n got r arbitrary: thesis rule: read_exact_sync.induct)
  case (1 n got r)
  show ?case
  proof (cases "n \<le> length got")
    case True
    with "1.prems" show ?thesis by (simp add: read_exact_sync.simps[of n got r])
  next
    case False
    show ?thesis
    proof (cases r)
      case Nil
      with "1.prems" False show ?thesis by (simp add: read_exact_sync.simps[of n got "[]"])
    next
      case (Cons e r')
      show ?thesis
      proof (cases e)
        case (Chunk c)
        show ?thesis
        proof (cases "length c \<le> n - length got")
          case True
          have c: "c \<noteq> []" and r': "reliable r'" using "1.prems"(2) Cons Chunk by auto
          have l: "length (got @ c) \<le> n" using True "1.prems"(3) by simp
          show ?thesis
            by (rule "1.IH"(1)[OF False Cons Chunk c True _ r' l], rule "1.prems"(1))
              (use Cons Chunk False True c in \<open>auto simp: read_exact_sync.simps[of n got "Chunk c # r'"]\<close>)
        next
          case gt: False
          with Cons Chunk False "1.prems"(2,3) show ?thesis
            by (intro "1.prems"(1)) (auto simp: read_exact_sync.simps[of n got "Chunk c # r'"])
        qed
      next
        case Interrupted
        with Cons False "1.prems" show ?thesis
          using "1.IH"(2)[OF False Cons Interrupted] by (auto simp: read_exact_sync.simps[of n got "Interrupted # r'"])
      qed (use Cons "1.prems" in simp)
    qed
  qed
qed

text \<open>The same read on the plain bytes of the stream.\<close>

definition frame_of_bytes ::
  "(u8 list \<Rightarrow> ustr + ustr) \<Rightarrow> (ustr \<Rightarrow> ustr + json) \<Rightarrow> u8 list
   \<Rightarrow> (read_error + (frame \<times> nat) option) \<times> u8 list" where
  "frame_of_bytes from_utf8 from_str bs =
     (if bs = [] then (Inr None, [])
      else if length bs < 5
      then (Inl (Proto (Truncated (U ''stream ended inside a frame header''))), [])
      else case parse_header (take 5 bs) of
        Inl e \<Rightarrow> (Inl (Proto e), drop 5 bs)
      | Inr (kind, n) \<Rightarrow>
          (if length bs < 5 + n
           then (Inl (Proto (Truncated (U ''stream ended inside a frame''))), [])
           else case decode_body from_utf8 from_str kind (take n (drop 5 bs)) of
             Inl e \<Rightarrow> (Inl (Proto e), drop (5 + n) bs)
           | Inr f \<Rightarrow> (Inr (Some (f, 5 + n)), drop (5 + n) bs)))"

lemma read_frame_refines:
  assumes "reliable r"
  obtains r' where
    "read_frame_sized_sync u p r = (fst (frame_of_bytes u p (bytes_of r)), r')"
    "reliable r'" "bytes_of r' = snd (frame_of_bytes u p (bytes_of r))"
proof -
  obtain r1 where r1: "read_exact_sync 5 [] r = (Some (take 5 (bytes_of r)), r1)"
    "reliable r1" "bytes_of r1 = drop 5 (bytes_of r)"
    using read_exact_spec[OF assms, of "[]" 5] by auto
  note defs = read_frame_sized_sync_def frame_of_bytes_def
  show thesis
  proof (cases "length (bytes_of r) < 5")
    case True
    then show thesis using r1 that[of r1] by (auto simp: defs)
  next
    case False
    then have ne: "bytes_of r \<noteq> []" by auto
    show thesis
    proof (cases "parse_header (take 5 (bytes_of r))")
      case (Inl e)
      then show thesis using r1 that[of r1] False ne by (simp add: defs)
    next
      case (Inr kn)
      obtain kind n where kn: "kn = (kind, n)" by (cases kn)
      obtain r2 where r2: "read_exact_sync n [] r1 = (Some (take n (drop 5 (bytes_of r))), r2)"
        "reliable r2" "bytes_of r2 = drop (n + 5) (bytes_of r)"
        using read_exact_spec[OF r1(2), of "[]" n] r1(3) by auto
      show thesis
      proof (cases "length (bytes_of r) < 5 + n")
        case True
        then have "length (bytes_of r) - 5 < n" using False by simp
        with True show thesis using r1 r2 that[of r2] False ne Inr kn by (simp add: defs)
      next
        case ge: False
        then have "\<not> length (bytes_of r) - 5 < n" using False by simp
        with ge show thesis using r1 r2(1) False ne Inr kn
          by (intro that[of r2])
            (simp_all add: defs add.commute r2(2,3) split: sum.split)
      qed
    qed
  qed
qed

text \<open>Two streams of the same bytes read alike, however they were cut into chunks.\<close>

lemma read_frame_chunking:
  assumes "reliable r" "reliable r'" "bytes_of r = bytes_of r'"
  shows "fst (read_frame_sized_sync u p r) = fst (read_frame_sized_sync u p r')"
  using read_frame_refines[OF assms(1), of u p] read_frame_refines[OF assms(2), of u p] assms(3)
  by (metis fst_conv)

section \<open>What the encoders write is what the reader returns\<close>

text \<open>
  What serde_json promises of an object it can print: its text is UTF-8, parses back to the same
  object, and is at least the two bytes of \<open>{}\<close>.
\<close>

definition codec_ok ::
  "(obj \<Rightarrow> ustr + u8 list) \<Rightarrow> (u8 list \<Rightarrow> ustr + ustr) \<Rightarrow> (ustr \<Rightarrow> ustr + json) \<Rightarrow> obj \<Rightarrow> bool" where
  "codec_ok to_vec from_utf8 from_str o' \<longleftrightarrow>
     (case to_vec o' of Inl e \<Rightarrow> True
      | Inr body \<Rightarrow> 2 \<le> length body
          \<and> (case from_utf8 body of Inl e \<Rightarrow> False | Inr t \<Rightarrow> from_str t = Inr (JObj o')))"

definition encode_frame :: "(obj \<Rightarrow> ustr + u8 list) \<Rightarrow> frame \<Rightarrow> proto_error + u8 list" where
  "encode_frame to_vec f =
     (case f of FJson o' \<Rightarrow> encode_json to_vec o' | FData s d \<Rightarrow> encode_data (uint s) d)"

fun frame_codec_ok where
  "frame_codec_ok to_vec from_utf8 from_str (FJson o') = codec_ok to_vec from_utf8 from_str o'"
| "frame_codec_ok to_vec from_utf8 from_str (FData s d) = True"

lemma u32_len_small: "n < 2 ^ 32 \<Longrightarrow> unat (u32_len n) = n"
  by (simp add: u32_len_def unat_of_nat)

lemma parse_header_be:
  "parse_header (to_be_bytes w @ [kind]) = parse_header
     [ucast (drop_bit 24 w), ucast (drop_bit 16 w), ucast (drop_bit 8 w), ucast w, kind]"
  by (simp add: to_be_bytes_def)

lemma length_to_be_bytes [simp]: "length (to_be_bytes w) = 4"
  by (simp add: to_be_bytes_def)

lemma header_json:
  "2 \<le> n \<Longrightarrow> n \<le> MAX_JSON \<Longrightarrow>
   parse_header (to_be_bytes (u32_len (Suc n)) @ [KIND_JSON]) = Inr (KIND_JSON, n)"
  unfolding parse_header_be
  by (simp add: from_to_be_bytes u32_len_small Let_def MAX_JSON_def)

lemma header_data:
  "n \<le> MAX_DATA \<Longrightarrow>
   parse_header (to_be_bytes (u32_len (n + 5)) @ [KIND_DATA]) = Inr (KIND_DATA, n + 4)"
  unfolding parse_header_be
  by (simp add: from_to_be_bytes u32_len_small Let_def MAX_DATA_def KIND_DATA_def KIND_JSON_def)

lemma decode_body_data:
  "valid_id_i64 (uint s) \<Longrightarrow> decode_body u p KIND_DATA (to_be_bytes s @ d) = Inr (FData s d)"
  by (simp add: decode_body.simps to_be_bytes_def from_to_be_bytes KIND_DATA_def KIND_JSON_def Let_def)

text \<open>A frame's bytes are a header that announces the body, and the body decodes to the frame.\<close>

lemma encode_frame_shape:
  assumes "encode_frame to_vec f = Inr bs" "frame_codec_ok to_vec u p f"
  obtains hdr kind body where "bs = hdr @ body" "length hdr = 5"
    "parse_header hdr = Inr (kind, length body)" "decode_body u p kind body = Inr f"
proof (cases f)
  case (FJson o')
  with assms obtain body where b: "to_vec o' = Inr body" "length body \<le> MAX_JSON"
    "bs = to_be_bytes (u32_len (length body + 1)) @ [KIND_JSON] @ body"
    by (auto simp: encode_frame_def encode_json_def split: sum.splits if_splits)
  from assms(2) FJson b(1) obtain t where t: "2 \<le> length body" "u body = Inr t" "p t = Inr (JObj o')"
    by (auto simp: codec_ok_def split: sum.splits)
  show thesis
    by (rule that[of "to_be_bytes (u32_len (length body + 1)) @ [KIND_JSON]" body KIND_JSON])
      (use b t FJson in \<open>simp_all add: header_json decode_body.simps decode_json_def\<close>)
next
  case (FData s d)
  with assms have b: "valid_id_i64 (uint s)" "length d \<le> MAX_DATA"
    "bs = to_be_bytes (u32_len (length d + 5)) @ [KIND_DATA] @ to_be_bytes s @ d"
    by (auto simp: encode_frame_def encode_data_def split: if_splits)
  show thesis
    by (rule that[of "to_be_bytes (u32_len (length d + 5)) @ [KIND_DATA]" "to_be_bytes s @ d" KIND_DATA])
      (use b FData in \<open>simp_all add: header_data decode_body_data add.commute[of 4] del: decode_body.simps\<close>)
qed

lemma frame_of_bytes_encode:
  assumes "encode_frame to_vec f = Inr bs" "frame_codec_ok to_vec u p f"
  shows "frame_of_bytes u p (bs @ rest) = (Inr (Some (f, length bs)), rest)"
proof -
  obtain hdr kind body where b: "bs = hdr @ body" "length hdr = 5"
    "parse_header hdr = Inr (kind, length body)" "decode_body u p kind body = Inr f"
    using assms by (rule encode_frame_shape)
  from b(2) have ne: "hdr \<noteq> []" by auto
  show ?thesis using b ne by (simp add: frame_of_bytes_def)
qed

text \<open>The session loop: at most \<open>n\<close> frames, and how the session ended if it did.\<close>

fun read_frames ::
  "(u8 list \<Rightarrow> ustr + ustr) \<Rightarrow> (ustr \<Rightarrow> ustr + json) \<Rightarrow> nat \<Rightarrow> reader
   \<Rightarrow> frame list \<times> (read_error + unit) option" where
  "read_frames u p 0 r = ([], None)"
| "read_frames u p (Suc n) r =
     (case read_frame_sync u p r of
        (Inl e, r') \<Rightarrow> ([], Some (Inl e))
      | (Inr None, r') \<Rightarrow> ([], Some (Inr ()))
      | (Inr (Some f), r') \<Rightarrow> (let (fs, e) = read_frames u p n r' in (f # fs, e)))"

lemma read_frame_sync_encoded:
  assumes "reliable r" "bytes_of r = bs @ rest"
    and "encode_frame to_vec f = Inr bs" "frame_codec_ok to_vec u p f"
  obtains r' where "read_frame_sync u p r = (Inr (Some f), r')" "reliable r'" "bytes_of r' = rest"
proof -
  obtain r' where "read_frame_sized_sync u p r = (fst (frame_of_bytes u p (bytes_of r)), r')"
    "reliable r'" "bytes_of r' = snd (frame_of_bytes u p (bytes_of r))"
    using assms(1) by (rule read_frame_refines)
  with assms show thesis
    by (intro that[of r']) (simp_all add: read_frame_sync_def frame_of_bytes_encode)
qed

lemma read_frames_encoded:
  assumes "list_all2 (\<lambda>f bs. encode_frame to_vec f = Inr bs \<and> frame_codec_ok to_vec u p f) fs bss"
    and "reliable r" "bytes_of r = concat bss"
  shows "read_frames u p (Suc (length fs)) r = (fs, Some (Inr ()))"
  using assms
proof (induction fs bss arbitrary: r rule: list_all2_induct)
  case Nil
  obtain r' where "read_frame_sized_sync u p r = (fst (frame_of_bytes u p (bytes_of r)), r')"
    using Nil(1) by (rule read_frame_refines)
  with Nil show ?case by (simp add: read_frame_sync_def frame_of_bytes_def)
next
  case (Cons f fs bs bss)
  obtain r' where r': "read_frame_sync u p r = (Inr (Some f), r')" "reliable r'" "bytes_of r' = concat bss"
    using read_frame_sync_encoded[of r bs "concat bss" to_vec f u p] Cons by auto
  have "read_frames u p (Suc (length fs)) r' = (fs, Some (Inr ()))"
    by (rule Cons.IH[OF r'(2,3)])
  then show ?case using r'(1) by simp
qed

text \<open>The far side dying inside a frame is told apart from a clean end and from a broken protocol.\<close>

lemma frame_of_bytes_prefix:
  assumes "encode_frame to_vec f = Inr bs" "frame_codec_ok to_vec u p f" "0 < k" "k < length bs"
  obtains e where "frame_of_bytes u p (take k bs) = (Inl (Proto (Truncated e)), [])"
proof -
  obtain hdr kind body where b: "bs = hdr @ body" "length hdr = 5"
    "parse_header hdr = Inr (kind, length body)" "decode_body u p kind body = Inr f"
    using assms(1,2) by (rule encode_frame_shape)
  have ne: "take k bs \<noteq> []" using assms(3,4) by auto
  show thesis
  proof (cases "k < 5")
    case True
    then show thesis using ne assms(4) that by (simp add: frame_of_bytes_def)
  next
    case False
    then have "take 5 (take k bs) = hdr" using b by (simp add: min_def)
    then show thesis using ne assms(4) that b False by (simp add: frame_of_bytes_def)
  qed
qed

lemma read_frame_sync_prefix:
  assumes "encode_frame to_vec f = Inr bs" "frame_codec_ok to_vec u p f" "0 < k" "k < length bs"
    and "reliable r" "bytes_of r = take k bs"
  shows "\<exists>e. fst (read_frame_sync u p r) = Inl (Proto (Truncated e))"
proof -
  obtain e where e: "frame_of_bytes u p (take k bs) = (Inl (Proto (Truncated e)), [])"
    using assms(1-4) by (rule frame_of_bytes_prefix)
  obtain r' where "read_frame_sized_sync u p r = (fst (frame_of_bytes u p (bytes_of r)), r')"
    using assms(5) by (rule read_frame_refines)
  with e assms(6) show ?thesis by (simp add: read_frame_sync_def)
qed

text \<open>A header is accepted only for a body within its kind's limits, so no read allocates more.\<close>

lemma parse_header_sound:
  assumes "parse_header hdr = Inr (kind, n)"
  obtains h0 h1 h2 h3 where "hdr = [h0, h1, h2, h3, kind]" "unat (from_be_bytes h0 h1 h2 h3) = n + 1"
    "kind = KIND_JSON \<and> 2 \<le> n \<and> n \<le> MAX_JSON \<or> kind = KIND_DATA \<and> 4 \<le> n \<and> n \<le> MAX_DATA + 4"
proof -
  obtain h0 h1 h2 h3 k where h: "hdr = [h0, h1, h2, h3, k]"
    using assms by (cases hdr rule: parse_header.cases) auto
  define m where "m = unat (from_be_bytes h0 h1 h2 h3)"
  have "k = kind \<and> m = n + 1 \<and> (kind = KIND_JSON \<and> 2 \<le> n \<and> n \<le> MAX_JSON
      \<or> kind = KIND_DATA \<and> 4 \<le> n \<and> n \<le> MAX_DATA + 4)"
    using assms unfolding h parse_header.simps m_def[symmetric]
    by (auto simp: Let_def KIND_JSON_def KIND_DATA_def split: if_splits)
  then show thesis using h by (intro that[of h0 h1 h2 h3]) (simp_all add: m_def)
qed

section \<open>The preamble\<close>

definition line_of :: "nat \<Rightarrow> u8 list \<Rightarrow> u8 list" where
  "line_of n bs =
     (let buf = take n bs; l = takeWhile (\<lambda>b. b \<noteq> 10) buf
      in if length l < length buf then l @ [10] else buf)"

lemma line_of_newline: "10 \<notin> set l \<Longrightarrow> length l < n \<Longrightarrow> line_of n (l @ 10 # bs) = l @ [10]"
  by (auto simp: line_of_def Let_def takeWhile_append take_Cons')

lemma takeWhile_all_length: "length (takeWhile P xs) < length xs \<longleftrightarrow> \<not> (\<forall>x \<in> set xs. P x)"
  by (induction xs) auto

lemma read_line_spec:
  assumes "reliable r" "length out \<le> limit"
  obtains r' where
    "read_line_capped limit out r = (Some (out @ line_of (limit - length out) (bytes_of r)), r')"
    "reliable r'"
    "bytes_of r' = drop (length (line_of (limit - length out) (bytes_of r))) (bytes_of r)"
  using assms
proof (induction limit out r arbitrary: thesis rule: read_line_capped.induct)
  case (1 limit out r)
  show ?case
  proof (cases "limit \<le> length out")
    case True
    with "1.prems" show ?thesis by (simp add: read_line_capped.simps[of limit out r] line_of_def)
  next
    case False
    show ?thesis
    proof (cases r)
      case Nil
      with "1.prems" False show ?thesis
        by (simp add: read_line_capped.simps[of limit out "[]"] line_of_def)
    next
      case (Cons e r')
      show ?thesis
      proof (cases e)
        case (Chunk c)
        have c: "c \<noteq> []" and rel: "reliable r'" using "1.prems"(2) Cons Chunk by auto
        define m where "m = limit - length out"
        define buf where "buf = take m c"
        define line where "line = takeWhile (\<lambda>b. b \<noteq> 10) buf"
        have app: "take m (c @ bytes_of r') = buf @ take (m - length c) (bytes_of r')"
          by (simp add: buf_def)
        show ?thesis
        proof (cases "length line < length buf")
          case True
          then have "\<exists>x \<in> set buf. x = 10" by (simp add: line_def takeWhile_all_length)
          then have tw: "takeWhile (\<lambda>b. b \<noteq> 10) (buf @ ys) = line" for ys
            by (auto simp: line_def takeWhile_append)
          have l: "line_of m (c @ bytes_of r') = line @ [10]"
            using True unfolding line_of_def app Let_def tw by simp
          have "length line + 1 \<le> length c" using True by (simp add: buf_def)
          then show ?thesis
            by (intro "1.prems"(1)[of "rest_of (drop (length line + 1) c) r'"])
              (use Cons Chunk False c rel True l in \<open>simp_all add: m_def[symmetric] buf_def[symmetric]
                line_def[symmetric] read_line_capped.simps[of limit out "Chunk c # r'"] Let_def\<close>)
        next
          case nl: False
          then have none: "\<forall>x \<in> set buf. x \<noteq> 10" by (auto simp: line_def takeWhile_all_length)
          have mb: "m - length buf = m - length c"
            by (simp add: buf_def)
          have "line_of m (c @ bytes_of r') = buf @ line_of (m - length buf) (drop (length buf) c @ bytes_of r')"
          proof -
            have "take (m - length buf) (drop (length buf) c @ bytes_of r') = take (m - length c) (bytes_of r')"
              by (simp add: mb buf_def, linarith)
            moreover have "takeWhile (\<lambda>b. b \<noteq> 10) (buf @ ys) = buf @ takeWhile (\<lambda>b. b \<noteq> 10) ys" for ys
              using none by (simp add: takeWhile_append)
            ultimately show ?thesis unfolding line_of_def app Let_def by auto
          qed
          note l = this
          have len: "length (out @ buf) \<le> limit" using False by (simp add: buf_def m_def)
          have mm: "limit - length (out @ buf) = m - length buf" by (simp add: m_def)
          have bc: "length buf \<le> length c" by (simp add: buf_def)
          have rec: "read_line_capped limit out r
              = read_line_capped limit (out @ buf) (rest_of (drop (length buf) c) r')"
            using Cons Chunk False c nl by (simp add: m_def[symmetric] buf_def[symmetric]
              line_def[symmetric] read_line_capped.simps[of limit out "Chunk c # r'"] Let_def)
          have rel': "reliable (rest_of (drop (length buf) c) r')" using rel by simp
          obtain r2 where r2: "read_line_capped limit (out @ buf) (rest_of (drop (length buf) c) r')
              = (Some ((out @ buf) @ line_of (m - length buf) (drop (length buf) c @ bytes_of r')), r2)"
            "reliable r2" "bytes_of r2 = drop (length (line_of (m - length buf)
                (drop (length buf) c @ bytes_of r'))) (drop (length buf) c @ bytes_of r')"
            using "1.IH"(1)[OF False Cons Chunk c buf_def[unfolded m_def] line_def nl _ rel' len]
            unfolding mm rest_of_bytes by blast
          have bytes: "bytes_of r = c @ bytes_of r'" using Cons Chunk by simp
          have dd: "drop (length buf + n) (c @ bytes_of r') = drop n (drop (length buf) c @ bytes_of r')" for n
            using bc by (simp add: add.commute)
          show ?thesis
            by (rule "1.prems"(1)[of r2]) (use r2 in \<open>simp_all only: rec bytes m_def[symmetric] l append_assoc
                length_append dd\<close>)
        qed
      next
        case Interrupted
        have rec: "read_line_capped limit out (Interrupted # r') = read_line_capped limit out r'"
          using Cons Interrupted False by (simp add: read_line_capped.simps[of limit out "Interrupted # r'"])
        show ?thesis
          by (rule "1.IH"(2)[OF False Cons Interrupted])
            (use "1.prems" Cons Interrupted in \<open>auto simp: rec\<close>)
      qed (use Cons "1.prems" in simp)
    qed
  qed
qed

text \<open>The MAGIC line does not occur in the noise.\<close>

definition noise_free :: "u8 list \<Rightarrow> bool" where
  "noise_free noise \<longleftrightarrow> (\<forall>i \<le> length noise. \<not> starts_with (drop i noise) MAGIC)"

lemma MAGIC_shape: "MAGIC = butlast MAGIC @ [10]" "10 \<notin> set (butlast MAGIC)" "length MAGIC = 15" "MAGIC \<noteq> []"
  by (simp_all add: MAGIC_def U_def)

lemma noise_freeD: "noise_free noise \<Longrightarrow> noise \<noteq> a @ MAGIC @ b"
  by (auto simp: noise_free_def starts_with_def dest!: spec[of _ "length a"])

lemma ends_withE: "ends_with s p \<Longrightarrow> (\<And>a. s = a @ p \<Longrightarrow> P) \<Longrightarrow> P"
  unfolding ends_with_def by (metis append_take_drop_id)

lemma find_magic_spec:
  assumes "reliable r" "bytes_of r = noise @ MAGIC @ rest" "noise_free noise"
    and "skipped + length noise + length MAGIC \<le> MAX_PREAMBLE + 1"
  shows "\<exists>r'. find_magic_from skipped r = (Inr (skipped + length noise), r') \<and> reliable r' \<and> bytes_of r' = rest"
  using assms
proof (induction "length noise" arbitrary: noise skipped r rule: less_induct)
  case less
  define lim where "lim = MAX_PREAMBLE + 1"
  obtain r' where r': "read_line_capped lim [] r = (Some (line_of lim (bytes_of r)), r')" "reliable r'"
    "bytes_of r' = drop (length (line_of lim (bytes_of r))) (bytes_of r)"
    using read_line_spec[OF less.prems(1), of "[]" lim] by auto
  have fit: "length noise + 15 \<le> lim" using less.prems(4) MAGIC_shape(3) by (simp add: lim_def)
  show ?case
  proof (cases "10 \<in> set noise")
    case False
    then have nl: "10 \<notin> set (noise @ butlast MAGIC)" using MAGIC_shape(2) by simp
    have m: "noise @ MAGIC = (noise @ butlast MAGIC) @ [10]"
      using MAGIC_shape(1) by simp
    have "bytes_of r = (noise @ MAGIC) @ rest" using less.prems(2) by simp
    then have "bytes_of r = (noise @ butlast MAGIC) @ 10 # rest" unfolding m by simp
    moreover have "length (noise @ butlast MAGIC) < lim" using fit MAGIC_shape(3) by simp
    ultimately have line: "line_of lim (bytes_of r) = noise @ MAGIC"
      unfolding m by (simp only: line_of_newline[OF nl])
    have "ends_with (noise @ MAGIC) MAGIC" by (simp add: ends_with_def)
    then show ?thesis using r' line less.prems(2) MAGIC_shape(4)
      by (simp add: find_magic_from.simps[of skipped r] lim_def)
  next
    case True
    then obtain l n2 where n2: "noise = l @ 10 # n2" "10 \<notin> set l"
      by (metis split_list_first)
    have line: "line_of lim (bytes_of r) = l @ [10]"
      using line_of_newline[OF n2(2), of lim "n2 @ MAGIC @ rest"] less.prems(2) n2(1) fit by simp
    have "\<not> ends_with (l @ [10]) MAGIC"
    proof
      assume "ends_with (l @ [10]) MAGIC"
      then obtain a where "l @ [10] = a @ MAGIC" by (rule ends_withE)
      then have "noise = a @ MAGIC @ n2" using n2(1) by (metis append.assoc append_Cons append_Nil)
      with noise_freeD[OF less.prems(3)] show False by blast
    qed
    moreover have "\<not> MAX_PREAMBLE < skipped + length (l @ [10])"
      using less.prems(4) n2(1) MAGIC_shape(3) by simp
    ultimately have rec: "find_magic_from skipped r = find_magic_from (skipped + length (l @ [10])) r'"
      using r'(1) line by (simp add: find_magic_from.simps[of skipped r] lim_def)
    have nf: "noise_free n2"
      unfolding noise_free_def
    proof (intro allI impI)
      fix i assume "i \<le> length n2"
      with less.prems(3) n2(1) show "\<not> starts_with (drop i n2) MAGIC"
        by (auto simp: noise_free_def dest!: spec[of _ "Suc (length l + i)"])
    qed
    have "bytes_of r' = n2 @ MAGIC @ rest" using r'(3) line less.prems(2) n2(1) by simp
    then show ?thesis
      using less.hyps[of n2 r' "skipped + length (l @ [10])"] r'(2) nf less.prems(4) n2(1) rec
      by (simp add: add.assoc)
  qed
qed

end
