(* ===== verification/Fifo.thy ===== *)
theory Fifo
  imports Prelude
begin

text \<open>
  The contract of a queue between two threads, as the program uses one twice in its node: the
  writer's queue of frames and a request's queue of upload chunks. A producer may be refused (the
  queue is closed, the sender broke its window); a consumer takes some items from the front. The
  clients rely on one law only: what comes out, followed by what is still inside, is what was
  accepted, in order. \<open>content\<close> is what a put adds.
\<close>

datatype 'a queue_op = Put 'a | Take

locale fifo =
  fixes content :: "'p \<Rightarrow> 'a list"
    and put :: "'p \<Rightarrow> 's \<Rightarrow> 's option"
    and take_some :: "'s \<Rightarrow> 'a list \<times> 's"
    and items :: "'s \<Rightarrow> 'a list"
    and ok :: "'s \<Rightarrow> bool"
  assumes put_items: "ok s \<Longrightarrow> put x s = Some s' \<Longrightarrow> items s' = items s @ content x \<and> ok s'"
    and take_items: "ok s \<Longrightarrow> take_some s = (xs, s') \<Longrightarrow> items s = xs @ items s' \<and> ok s'"
begin

text \<open>Any interleaving of producers and the consumer: what was accepted and what came out.\<close>

fun run :: "'p queue_op list \<Rightarrow> 's \<Rightarrow> 'a list \<times> 'a list \<times> 's" where
  "run [] s = ([], [], s)"
| "run (Put x # ops) s =
     (case put x s of
        None \<Rightarrow> run ops s
      | Some s' \<Rightarrow> (let (acc, out, t) = run ops s' in (content x @ acc, out, t)))"
| "run (Take # ops) s =
     (let (xs, s') = take_some s; (acc, out, t) = run ops s' in (acc, xs @ out, t))"

lemma run_fifo:
  "ok s \<Longrightarrow> run ops s = (acc, out, t) \<Longrightarrow> items s @ acc = out @ items t \<and> ok t"
proof (induction ops s arbitrary: acc out t rule: run.induct)
  case (1 s)
  then show ?case by simp
next
  case (2 x ops s)
  show ?case
  proof (cases "put x s")
    case None
    with 2 show ?thesis by simp
  next
    case (Some s')
    with put_items[OF "2.prems"(1) Some] "2.IH"(2)[OF Some] "2.prems" show ?thesis
      by (auto split: prod.splits)
  qed
next
  case (3 ops s)
  obtain xs s' where s': "take_some s = (xs, s')" by (metis surj_pair)
  with take_items[OF "3.prems"(1) s'] "3.IH"[OF s'[symmetric] refl] "3.prems" show ?case
    by (auto split: prod.splits)
qed

lemma no_loss: "ok s \<Longrightarrow> items s = [] \<Longrightarrow> run ops s = (acc, out, t) \<Longrightarrow> \<exists>rest. acc = out @ rest"
  using run_fifo[of s ops acc out t] by auto

end

end
