(* ===== verification/NodeStream.thy ===== *)
theory NodeStream
  imports Frame Fifo
begin

text \<open>
  One request in flight on the node (crates/ecnode/src/server.rs, \<open>RState\<close> and \<open>Request\<close>): its
  cancel state, both credit windows and its upload buffer; errors.rs gives the ways a handler ends.

  Each definition is one critical section under the request's lock. The two operations that wait
  are one turn of their waiting loop: \<open>send_turn\<close> of \<open>send_data\<close> and \<open>read_turn\<close> of \<open>read_upload\<close>;
  \<open>down\<close> says that the server is shutting down and \<open>late\<close> that the turn is past the deadline.
  Byte counters are \<open>i64\<close> in the code; the model's integers agree below 2^63 bytes.
\<close>

definition GRANT_STEP :: int where "GRANT_STEP = 1024 * 1024"
definition LINE_OPS :: "ustr list" where
  "LINE_OPS = [U ''docker.logs_follow'', U ''docker.pull'', U ''scripts.run'']"

text \<open>\<open>OpError\<close> and the other ways a handler ends.\<close>

datatype handler_error =
    HOp ustr ustr
  | HCancelled
  | HInternal ustr "ustr option"

record request =
  rid :: int
  rop :: ustr
  upload :: bool
  cancelled_flag :: bool
  hooks :: "nat list"
  send_credit :: int
  chunks :: "u8 list list"
  received :: int
  granted :: int
  consumed :: int
  ended :: bool
  violation :: "ustr option"

definition request_new :: "int \<Rightarrow> ustr \<Rightarrow> bool \<Rightarrow> request" where
  "request_new i op up =
     \<lparr>rid = i, rop = op, upload = up, cancelled_flag = False, hooks = [], send_credit = WINDOW,
      chunks = [], received = 0, granted = WINDOW, consumed = 0, ended = False, violation = None\<rparr>"

text \<open>\<open>cancel\<close>: the first call takes the hooks, to be run on a thread of their own.\<close>

definition cancel_req :: "request \<Rightarrow> nat list \<times> request" where
  "cancel_req st =
     (if cancelled_flag st then ([], st)
      else (hooks st, st\<lparr>cancelled_flag := True, hooks := []\<rparr>))"

text \<open>\<open>on_cancel\<close>: keep the hook, or run it at once (the first component).\<close>

definition on_cancel :: "bool \<Rightarrow> nat \<Rightarrow> request \<Rightarrow> nat list \<times> request" where
  "on_cancel down h st =
     (if \<not> (cancelled_flag st \<or> down) then ([], st\<lparr>hooks := hooks st @ [h]\<rparr>) else ([h], st))"

definition cancelled :: "bool \<Rightarrow> request \<Rightarrow> bool" where
  "cancelled down st \<longleftrightarrow> cancelled_flag st \<or> down"

definition add_credit :: "int \<Rightarrow> request \<Rightarrow> request" where
  "add_credit n st = st\<lparr>send_credit := min (send_credit st + n) (2 ^ 40)\<rparr>"

definition violation_text :: ustr where
  "violation_text = U ''the hub sent more upload data than the credit this node granted''"

definition add_data :: "u8 list \<Rightarrow> request \<Rightarrow> request" where
  "add_data data st =
     (if \<not> upload st \<or> ended st then st
      else (let st = st\<lparr>received := received st + int (length data)\<rparr> in
        if granted st < received st then st\<lparr>violation := Some violation_text, chunks := []\<rparr>
        else if violation st = None \<and> data \<noteq> [] then st\<lparr>chunks := chunks st @ [data]\<rparr>
        else st))"

definition end_req :: "request \<Rightarrow> request" where
  "end_req st = st\<lparr>ended := True\<rparr>"

datatype send_result =
    SendWait
  | SendErr handler_error request
  | SendFrame "u8 list" "u8 list" request

text \<open>\<open>proto_text\<close>, also \<open>ProtoError\<close>'s Display\<close>

definition proto_text :: "proto_error \<Rightarrow> ustr" where
  "proto_text e = (case e of Invalid s \<Rightarrow> s | Truncated s \<Rightarrow> s)"

text \<open>
  One turn of \<open>send_data\<close> on the bytes still to send: wait for credit, fail, or spend credit on the
  next DATA frame (the bytes it carries, the bytes left).
\<close>

definition send_turn :: "bool \<Rightarrow> bool \<Rightarrow> u8 list \<Rightarrow> request \<Rightarrow> send_result" where
  "send_turn down late view st =
     (if send_credit st \<le> 0 \<and> \<not> cancelled down st then
        (if late then SendErr (HOp TIMEOUT (U ''the hub stopped granting credit for this stream'')) st
         else SendWait)
      else if cancelled down st then SendErr HCancelled st
      else (let n = min (min (length view) (nat (send_credit st))) MAX_DATA;
                st = st\<lparr>send_credit := send_credit st - int n\<rparr>
            in case encode_data (rid st) (take n view) of
                 Inl e \<Rightarrow> SendErr (HInternal (U ''ProtoError: '' @ proto_text e) None) st
               | Inr frame \<Rightarrow> SendFrame (take n view) (drop n view) st))"

datatype read_result =
    ReadWait
  | ReadErr handler_error
  | ReadEnd
  | ReadChunk "u8 list" int request

text \<open>
  One turn of \<open>read_upload\<close>: the next chunk, the credit to grant back for it (0 for none yet) and
  the new state; \<open>ReadEnd\<close> is the empty result after the hub's \<open>end\<close>.
\<close>

definition read_turn :: "bool \<Rightarrow> bool \<Rightarrow> request \<Rightarrow> read_result" where
  "read_turn down late st =
     (if chunks st = [] \<and> \<not> ended st \<and> \<not> cancelled down st \<and> violation st = None then
        (if late then ReadErr (HOp TIMEOUT (U ''no upload data from the hub for 300 s''))
         else ReadWait)
      else if cancelled down st then ReadErr HCancelled
      else case violation st of
        Some v \<Rightarrow> ReadErr (HOp BAD_ARGS v)
      | None \<Rightarrow>
          (case chunks st of
             [] \<Rightarrow> ReadEnd
           | chunk # cs \<Rightarrow>
               (let st = st\<lparr>chunks := cs, consumed := consumed st + int (length chunk)\<rparr>;
                    grant = consumed st + WINDOW - granted st
                in if GRANT_STEP \<le> grant \<and> \<not> ended st
                   then ReadChunk chunk grant (st\<lparr>granted := granted st + grant\<rparr>)
                   else ReadChunk chunk 0 st)))"

section \<open>The upload buffer\<close>

definition buffered :: "request \<Rightarrow> u8 list" where
  "buffered st = concat (chunks st)"

text \<open>
  The counters and the buffer agree as long as the hub keeps to its credit, and what was granted is
  never more than a window beyond what was consumed. After a violation the buffer stays empty.
\<close>

definition request_ok :: "request \<Rightarrow> bool" where
  "request_ok st \<longleftrightarrow>
     granted st \<le> consumed st + WINDOW \<and> 0 \<le> consumed st
     \<and> (violation st = None \<longrightarrow> received st \<le> granted st
          \<and> received st = consumed st + int (length (buffered st)))
     \<and> (violation st \<noteq> None \<longrightarrow> chunks st = [])
     \<and> send_credit st \<le> 2 ^ 40 \<and> 0 \<le> send_credit st"

lemma request_ok_new: "request_ok (request_new i op up)"
  by (simp add: request_ok_def request_new_def buffered_def WINDOW_def)

lemma add_data_ok: "request_ok st \<Longrightarrow> request_ok (add_data data st)"
  by (auto simp: request_ok_def add_data_def buffered_def Let_def)

lemma add_credit_ok: "request_ok st \<Longrightarrow> 0 \<le> n \<Longrightarrow> request_ok (add_credit n st)"
  by (auto simp: request_ok_def add_credit_def buffered_def)

lemma end_req_ok: "request_ok st \<Longrightarrow> request_ok (end_req st)"
  by (auto simp: request_ok_def end_req_def buffered_def)

lemma cancel_req_ok: "request_ok st \<Longrightarrow> request_ok (snd (cancel_req st))"
  by (auto simp: request_ok_def cancel_req_def buffered_def)

lemma read_turn_ok:
  assumes "request_ok st" "read_turn down late st = ReadChunk c g st'"
  shows "request_ok st' \<and> 0 \<le> g \<and> buffered st = c @ buffered st' \<and> violation st' = None"
proof -
  obtain cs where cs: "chunks st = c # cs" "violation st = None"
    using assms(2) by (auto simp: read_turn_def Let_def split: if_splits list.splits option.splits)
  with assms show ?thesis
    by (auto simp: read_turn_def request_ok_def buffered_def Let_def GRANT_STEP_def WINDOW_def split: if_splits)
qed

text \<open>A turn of \<open>send_data\<close> sends at most its credit and at most one frame, and never fails to encode.\<close>

lemma send_turn_frame:
  assumes "send_turn down late view st = SendFrame d rest st'"
  shows "view = d @ rest \<and> length d \<le> MAX_DATA \<and> int (length d) \<le> send_credit st
    \<and> st' = st\<lparr>send_credit := send_credit st - int (length d)\<rparr> \<and> (view \<noteq> [] \<longrightarrow> d \<noteq> [])"
  using assms
  by (auto simp: send_turn_def Let_def min_def MAX_DATA_def le_nat_iff split: if_splits sum.splits)

lemma send_turn_encodes:
  assumes "valid_id_i64 (rid st)" "0 < send_credit st" "\<not> cancelled down st"
  shows "\<exists>d rest st'. send_turn down late view st = SendFrame d rest st'"
  using assms by (auto simp: send_turn_def encode_data_def Let_def)

lemma send_turn_ok:
  "request_ok st \<Longrightarrow> send_turn down late view st = SendFrame d rest st' \<Longrightarrow> request_ok st'"
  using send_turn_frame[of down late view st d rest st']
  by (auto simp: request_ok_def buffered_def)

text \<open>The buffer is the queue between the reader thread and the handler.\<close>

definition upload_put :: "u8 list \<Rightarrow> request \<Rightarrow> request option" where
  "upload_put d st =
     (let st' = add_data d st in
      if upload st \<and> \<not> ended st \<and> violation st' = None then Some st' else None)"

definition upload_take :: "request \<Rightarrow> u8 list \<times> request" where
  "upload_take st = (case read_turn False False st of ReadChunk c g st' \<Rightarrow> (c, st') | _ \<Rightarrow> ([], st))"

lemma upload_put_items:
  "upload_put d st = Some st' \<Longrightarrow> buffered st' = buffered st @ d"
  by (auto simp: upload_put_def add_data_def buffered_def Let_def split: if_splits)

interpretation upq: fifo "\<lambda>d. d" upload_put upload_take buffered request_ok
proof unfold_locales
  fix s x s'
  assume "request_ok s" "upload_put x s = Some s'"
  then show "buffered s' = buffered s @ x \<and> request_ok s'"
    using upload_put_items add_data_ok by (auto simp: upload_put_def Let_def split: if_splits)
next
  fix s xs s'
  assume "request_ok s" "upload_take s = (xs, s')"
  then show "buffered s = xs @ buffered s' \<and> request_ok s'"
    using read_turn_ok[of s False False] by (auto simp: upload_take_def split: read_result.splits)
qed

end
