(* ===== verification/CreditFlow.thy ===== *)
theory CreditFlow
  imports Prelude
begin

text \<open>
  The contract of credit-based flow control between one sender and one receiver, and what follows
  from it. Both directions of a stream use it: uploads (hub to node) and downloads (node to hub)
  have different code on each end, and each pair of ends interprets the locale below.

  The sender may emit a chunk only within its credit. The receiver accepts a chunk within its
  window and hands the bytes it has consumed back as grants, at least \<open>step\<close> at a time. Chunks and
  grants travel in order on two channels.
\<close>

record ('s, 'r, 'd) flow =
  sender :: 's
  receiver :: 'r
  data_q :: "'d list"
  grant_q :: "int list"

inductive flow_step ::
  "('s \<Rightarrow> 'd \<Rightarrow> 's \<Rightarrow> bool) \<Rightarrow> (int \<Rightarrow> 's \<Rightarrow> 's) \<Rightarrow> ('d \<Rightarrow> 'r \<Rightarrow> 'r option)
   \<Rightarrow> ('r \<Rightarrow> ('r \<times> int) option) \<Rightarrow> ('s, 'r, 'd) flow \<Rightarrow> ('s, 'r, 'd) flow \<Rightarrow> bool"
  for emit refill accept consume where
  flow_emit: "emit (sender f) d s' \<Longrightarrow>
    flow_step emit refill accept consume f (f\<lparr>sender := s', data_q := data_q f @ [d]\<rparr>)"
| flow_deliver: "data_q f = d # q \<Longrightarrow> accept d (receiver f) = Some r' \<Longrightarrow>
    flow_step emit refill accept consume f (f\<lparr>receiver := r', data_q := q\<rparr>)"
| flow_consume: "consume (receiver f) = Some (r', g) \<Longrightarrow>
    flow_step emit refill accept consume f
      (f\<lparr>receiver := r', grant_q := grant_q f @ (if 0 < g then [g] else [])\<rparr>)"
| flow_refill: "grant_q f = g # q \<Longrightarrow>
    flow_step emit refill accept consume f (f\<lparr>sender := refill g (sender f), grant_q := q\<rparr>)"

inductive flow_reach ::
  "('s \<Rightarrow> 'd \<Rightarrow> 's \<Rightarrow> bool) \<Rightarrow> (int \<Rightarrow> 's \<Rightarrow> 's) \<Rightarrow> ('d \<Rightarrow> 'r \<Rightarrow> 'r option)
   \<Rightarrow> ('r \<Rightarrow> ('r \<times> int) option) \<Rightarrow> 's \<Rightarrow> 'r \<Rightarrow> ('s, 'r, 'd) flow \<Rightarrow> bool"
  for emit refill accept consume s0 r0 where
  reach_start: "flow_reach emit refill accept consume s0 r0
    \<lparr>sender = s0, receiver = r0, data_q = [], grant_q = []\<rparr>"
| reach_step: "flow_reach emit refill accept consume s0 r0 f \<Longrightarrow>
    flow_step emit refill accept consume f f' \<Longrightarrow> flow_reach emit refill accept consume s0 r0 f'"

locale credit_flow =
  fixes emit :: "'s \<Rightarrow> 'd \<Rightarrow> 's \<Rightarrow> bool"
    and refill :: "int \<Rightarrow> 's \<Rightarrow> 's"
    and accept :: "'d \<Rightarrow> 'r \<Rightarrow> 'r option"
    and consume :: "'r \<Rightarrow> ('r \<times> int) option"
    and credit :: "'s \<Rightarrow> int"
    and amount :: "'d \<Rightarrow> int"
    and window :: "'r \<Rightarrow> int"
    and held :: "'r \<Rightarrow> int"
    and unacked :: "'r \<Rightarrow> int"
    and rinv :: "'r \<Rightarrow> bool"
    and win :: int
    and chunk_step :: int
  assumes emit_credit: "emit s d s' \<Longrightarrow> 0 < amount d \<and> amount d \<le> credit s \<and> credit s' = credit s - amount d"
    and refill_credit: "0 < g \<Longrightarrow> credit s + g \<le> win \<Longrightarrow> credit (refill g s) = credit s + g"
    and accept_window: "rinv r \<Longrightarrow> 0 < amount d \<Longrightarrow> amount d \<le> window r \<Longrightarrow>
      \<exists>r'. accept d r = Some r' \<and> rinv r' \<and> window r' = window r - amount d"
    and consume_window: "rinv r \<Longrightarrow> consume r = Some (r', g) \<Longrightarrow> rinv r' \<and> 0 \<le> g \<and> window r' = window r + g"
    and rinv_balance: "rinv r \<Longrightarrow> window r + held r + unacked r = win \<and> 0 \<le> held r \<and> 0 \<le> unacked r
      \<and> unacked r < chunk_step"
    and step_pos: "chunk_step \<le> win"
begin

definition balanced :: "('s, 'r, 'd) flow \<Rightarrow> bool" where
  "balanced f \<longleftrightarrow> rinv (receiver f) \<and> 0 \<le> credit (sender f)
     \<and> credit (sender f) + sum_list (map amount (data_q f)) + sum_list (grant_q f) = window (receiver f)
     \<and> (\<forall>d \<in> set (data_q f). 0 < amount d) \<and> (\<forall>g \<in> set (grant_q f). 0 < g)"

lemma sum_pos: "\<forall>g \<in> set gs. 0 < (g :: int) \<Longrightarrow> 0 \<le> sum_list gs"
  by (induction gs) auto

lemma sum_amount_pos: "\<forall>d \<in> set ds. 0 < amount d \<Longrightarrow> 0 \<le> sum_list (map amount ds)"
  by (induction ds) auto

lemma balanced_head:
  assumes "balanced f" "data_q f = d # q"
  shows "0 < amount d \<and> amount d \<le> window (receiver f)"
  using assms sum_pos[of "grant_q f"] sum_amount_pos[of q] by (auto simp: balanced_def)

lemma balanced_step: "flow_step emit refill accept consume f f' \<Longrightarrow> balanced f \<Longrightarrow> balanced f'"
proof (induction rule: flow_step.induct)
  case (flow_emit f d s')
  then show ?case using emit_credit[OF flow_emit(1)] by (auto simp: balanced_def)
next
  case (flow_deliver f d q r')
  have a: "0 < amount d" "amount d \<le> window (receiver f)" "rinv (receiver f)"
    using balanced_head[OF flow_deliver(3,1)] flow_deliver(3) by (auto simp: balanced_def)
  then obtain r2 where "accept d (receiver f) = Some r2" "rinv r2" "window r2 = window (receiver f) - amount d"
    using accept_window by blast
  with flow_deliver show ?case by (auto simp: balanced_def)
next
  case (flow_consume f r' g)
  then show ?case using consume_window[OF _ flow_consume(1)] by (auto simp: balanced_def)
next
  case (flow_refill f g q)
  have r: "rinv (receiver f)" "0 < g" using flow_refill by (auto simp: balanced_def)
  have "credit (sender f) + g \<le> window (receiver f)"
    using flow_refill sum_pos[of q] sum_amount_pos[of "data_q f"] by (auto simp: balanced_def)
  also have "\<dots> \<le> win" using rinv_balance[OF r(1)] by linarith
  finally show ?case using flow_refill refill_credit[OF r(2)] by (auto simp: balanced_def)
qed

lemma reach_balanced:
  assumes "flow_reach emit refill accept consume s0 r0 f" "rinv r0" "credit s0 = window r0" "0 \<le> credit s0"
  shows "balanced f"
  using assms
proof (induction rule: flow_reach.induct)
  case reach_start
  then show ?case by (simp add: balanced_def)
next
  case (reach_step f f')
  then show ?case by (blast intro: balanced_step)
qed

text \<open>A chunk that arrives is always within the window: the sender is never taken for a cheat.\<close>

lemma never_violated:
  assumes "balanced f" "data_q f = d # q"
  shows "accept d (receiver f) \<noteq> None"
proof -
  have "rinv (receiver f)" using assms(1) by (simp add: balanced_def)
  then show ?thesis using balanced_head[OF assms] accept_window by blast
qed

text \<open>The receiver never holds more than one window of unread bytes.\<close>

lemma held_bound: "balanced f \<Longrightarrow> held (receiver f) \<le> win"
  using rinv_balance[of "receiver f"] sum_pos[of "grant_q f"] sum_amount_pos[of "data_q f"]
  by (auto simp: balanced_def)

text \<open>No deadlock: with nothing on its way and nothing unread, the sender has credit left.\<close>

lemma credit_left:
  assumes "balanced f" "data_q f = []" "grant_q f = []" "held (receiver f) = 0"
  shows "win - chunk_step < credit (sender f)"
  using assms rinv_balance[of "receiver f"] by (auto simp: balanced_def)

end

end
