(* ===== verification/HubStream.thy ===== *)
theory HubStream
  imports NodeStream CreditFlow
begin

text \<open>
  One request in flight seen from the hub (crates/ec-hub/src/services/fleet.rs, \<open>ReqState\<close>, \<open>Req\<close>
  and \<open>LinkStream\<close>), and the two directions of its stream as instances of the credit contract:
  uploads from \<open>LinkStream::write\<close> to the node's \<open>read_upload\<close>, downloads from the node's
  \<open>send_data\<close> to \<open>LinkStream::next\<close>. Each definition is one critical section under the request's
  lock; an operation that waits is one turn of its loop.
\<close>

definition CREDIT_BATCH :: int where "CREDIT_BATCH = WINDOW div 4"
definition MAX_CREDIT :: int where "MAX_CREDIT = 2 ^ 30"

datatype stream_item = HEvent obj | HData "u8 list"

record hub_req =
  hrid :: int
  hop :: ustr
  streaming :: bool
  finished :: bool
  hres :: "obj option"
  unavailable :: "ustr option"
  queue :: "stream_item option list"
  queued_events :: nat
  cancel_sent :: bool
  uploading :: bool
  hended :: bool
  hsend_credit :: int
  recv_window :: int
  hunacked :: int

definition hub_req_new :: "int \<Rightarrow> ustr \<Rightarrow> bool \<Rightarrow> hub_req" where
  "hub_req_new i op stream =
     \<lparr>hrid = i, hop = op, streaming = stream, finished = False, hres = None, unavailable = None,
      queue = [], queued_events = 0, cancel_sent = False, uploading = False, hended = False,
      hsend_credit = WINDOW, recv_window = WINDOW, hunacked = 0\<rparr>"

definition finish :: "obj option \<Rightarrow> ustr option \<Rightarrow> hub_req \<Rightarrow> hub_req" where
  "finish res why st =
     (if finished st then st
      else (let st = st\<lparr>hres := res, unavailable := why, finished := True\<rparr>
            in if streaming st then st\<lparr>queue := queue st @ [None]\<rparr> else st))"

text \<open>The \<open>credit\<close> message: \<open>saturating_add\<close> then \<open>min(MAX_CREDIT)\<close>, far below the \<open>i64\<close> limit.\<close>

definition on_credit :: "int \<Rightarrow> hub_req \<Rightarrow> hub_req" where
  "on_credit n st =
     (if 0 < n then st\<lparr>hsend_credit := min (hsend_credit st + n) MAX_CREDIT\<rparr> else st)"

text \<open>\<open>on_data\<close>: Inl is the reason the whole link is dropped.\<close>

definition on_data :: "u8 list \<Rightarrow> hub_req \<Rightarrow> ustr + hub_req" where
  "on_data data st =
     (if \<not> streaming st then Inr st
      else (let n = int (length data) in
        if recv_window st < n then
          Inl (U ''the node sent more data on stream '' @ dec_int (hrid st)
               @ U '' than the credit this hub granted it'')
        else (let st = st\<lparr>recv_window := recv_window st - n\<rparr>
              in Inr (if data \<noteq> [] \<and> \<not> cancel_sent st
                      then st\<lparr>queue := queue st @ [Some (HData data)]\<rparr> else st))))"

text \<open>\<open>LinkStream::consumed\<close>: the credit to hand back, 0 for none yet.\<close>

definition consumed_bytes :: "nat \<Rightarrow> hub_req \<Rightarrow> int \<times> hub_req" where
  "consumed_bytes n st =
     (let st = st\<lparr>hunacked := hunacked st + int n\<rparr> in
      if CREDIT_BATCH \<le> hunacked st \<and> \<not> finished st
      then (hunacked st, st\<lparr>hunacked := 0, recv_window := recv_window st + hunacked st\<rparr>)
      else (0, st))"

text \<open>One turn of \<open>next\<close>: nothing yet, the end of the stream, or an item and a grant for it.\<close>

datatype next_result = NextWait | NextEnd | NextItem stream_item int hub_req

definition next_turn :: "hub_req \<Rightarrow> next_result" where
  "next_turn st =
     (case queue st of
        [] \<Rightarrow> NextWait
      | None # q \<Rightarrow> NextEnd
      | Some item # q \<Rightarrow>
          (let st = st\<lparr>queue := q\<rparr> in
           case item of
             HEvent e \<Rightarrow> NextItem item 0 (st\<lparr>queued_events := queued_events st - 1\<rparr>)
           | HData d \<Rightarrow> (let (g, st) = consumed_bytes (length d) st in NextItem item g st)))"

text \<open>One turn of \<open>write\<close> on the bytes still to send; the answer of a finished request is told apart
  by the caller (\<open>outcome\<close>).\<close>

datatype write_result = WriteWait | WriteFinished | WriteErr proto_error hub_req | WriteFrame "u8 list" "u8 list" hub_req

definition write_turn :: "u8 list \<Rightarrow> hub_req \<Rightarrow> write_result" where
  "write_turn data st =
     (if finished st then WriteFinished
      else if hsend_credit st \<le> 0 then WriteWait
      else (let n = min (min (length data) MAX_DATA) (nat (hsend_credit st));
                st = st\<lparr>hsend_credit := hsend_credit st - int n\<rparr>
            in case encode_data (hrid st) (take n data) of
                 Inl e \<Rightarrow> WriteErr e st
               | Inr frame \<Rightarrow> WriteFrame (take n data) (drop n data) st))"

lemma write_turn_frame:
  assumes "write_turn data st = WriteFrame d rest st'"
  shows "data = d @ rest \<and> length d \<le> MAX_DATA \<and> int (length d) \<le> hsend_credit st
    \<and> st' = st\<lparr>hsend_credit := hsend_credit st - int (length d)\<rparr> \<and> (data \<noteq> [] \<longrightarrow> d \<noteq> [])"
  using assms
  by (auto simp: write_turn_def Let_def min_def MAX_DATA_def le_nat_iff split: if_splits sum.splits)

section \<open>Uploads\<close>

definition up_emit :: "hub_req \<Rightarrow> u8 list \<Rightarrow> hub_req \<Rightarrow> bool" where
  "up_emit st d st' \<longleftrightarrow> d \<noteq> [] \<and> (\<exists>rest. write_turn (d @ rest) st = WriteFrame d rest st')"

definition up_accept :: "u8 list \<Rightarrow> request \<Rightarrow> request option" where
  "up_accept d st = (let st' = add_data d st in if violation st' = None then Some st' else None)"

definition up_consume :: "request \<Rightarrow> (request \<times> int) option" where
  "up_consume st = (case read_turn False False st of ReadChunk c g st' \<Rightarrow> Some (st', g) | _ \<Rightarrow> None)"

text \<open>A request taking an upload: not cancelled, not at its end.\<close>

definition uploading_ok :: "request \<Rightarrow> bool" where
  "uploading_ok st \<longleftrightarrow> request_ok st \<and> upload st \<and> \<not> ended st \<and> \<not> cancelled_flag st
     \<and> violation st = None \<and> consumed st + WINDOW - granted st < GRANT_STEP"

interpretation up: credit_flow up_emit on_credit up_accept up_consume
  hsend_credit "\<lambda>d. int (length d)" "\<lambda>r. granted r - received r" "\<lambda>r. int (length (buffered r))"
  "\<lambda>r. consumed r + WINDOW - granted r" uploading_ok WINDOW GRANT_STEP
proof unfold_locales
  fix s s' and d :: "u8 list" assume "up_emit s d s'"
  then obtain rest where r: "d \<noteq> []" "write_turn (d @ rest) s = WriteFrame d rest s'"
    by (auto simp: up_emit_def)
  from write_turn_frame[OF r(2)] r(1)
  show "0 < int (length d) \<and> int (length d) \<le> hsend_credit s \<and> hsend_credit s' = hsend_credit s - int (length d)"
    by auto
next
  fix g :: int and s :: hub_req assume "0 < g" "hsend_credit s + g \<le> WINDOW"
  then show "hsend_credit (on_credit g s) = hsend_credit s + g"
    by (simp add: on_credit_def MAX_CREDIT_def WINDOW_def)
next
  fix r :: request and d :: "u8 list" assume r: "uploading_ok r" and d: "0 < int (length d)" "int (length d) \<le> granted r - received r"
  have ok: "request_ok (add_data d r)" using r by (simp add: uploading_ok_def add_data_ok)
  show "\<exists>r'. up_accept d r = Some r' \<and> uploading_ok r'
      \<and> granted r' - received r' = granted r - received r - int (length d)"
    using r d ok by (auto simp: up_accept_def uploading_ok_def add_data_def Let_def)
next
  fix r r' g assume r: "uploading_ok r" and c: "up_consume r = Some (r', g)"
  then obtain ch where rt: "read_turn False False r = ReadChunk ch g r'"
    by (auto simp: up_consume_def split: read_result.splits)
  have "request_ok r" using r by (simp add: uploading_ok_def)
  from read_turn_ok[OF this rt] r rt show "uploading_ok r' \<and> 0 \<le> g \<and> granted r' - received r' = granted r - received r + g"
    by (auto simp: uploading_ok_def read_turn_def Let_def GRANT_STEP_def split: if_splits list.splits option.splits)
next
  fix r assume "uploading_ok r"
  then show "granted r - received r + int (length (buffered r)) + (consumed r + WINDOW - granted r) = WINDOW
      \<and> 0 \<le> int (length (buffered r)) \<and> 0 \<le> consumed r + WINDOW - granted r
      \<and> consumed r + WINDOW - granted r < GRANT_STEP"
    by (auto simp: uploading_ok_def request_ok_def)
qed (simp add: GRANT_STEP_def WINDOW_def)

lemma uploading_ok_new: "uploading_ok (request_new i op True)"
  by (simp add: uploading_ok_def request_ok_new) (simp add: request_new_def GRANT_STEP_def)

section \<open>Downloads\<close>

definition down_emit :: "request \<Rightarrow> u8 list \<Rightarrow> request \<Rightarrow> bool" where
  "down_emit st d st' \<longleftrightarrow> d \<noteq> [] \<and> (\<exists>rest. send_turn False False (d @ rest) st = SendFrame d rest st')"

definition down_accept :: "u8 list \<Rightarrow> hub_req \<Rightarrow> hub_req option" where
  "down_accept d st = (case on_data d st of Inl e \<Rightarrow> None | Inr st' \<Rightarrow> Some st')"

definition down_consume :: "hub_req \<Rightarrow> (hub_req \<times> int) option" where
  "down_consume st = (case next_turn st of NextItem i g st' \<Rightarrow> Some (st', g) | _ \<Rightarrow> None)"

fun item_bytes :: "stream_item option \<Rightarrow> int" where
  "item_bytes (Some (HData d)) = int (length d)"
| "item_bytes x = 0"

definition unread :: "hub_req \<Rightarrow> int" where
  "unread st = sum_list (map item_bytes (queue st))"

text \<open>A stream being read: not cancelled, not finished.\<close>

definition downloading_ok :: "hub_req \<Rightarrow> bool" where
  "downloading_ok st \<longleftrightarrow> streaming st \<and> \<not> cancel_sent st \<and> \<not> finished st
     \<and> recv_window st + unread st + hunacked st = WINDOW \<and> 0 \<le> hunacked st \<and> hunacked st < CREDIT_BATCH"

lemma unread_nonneg: "0 \<le> unread st"
proof -
  have "0 \<le> item_bytes x" for x by (cases x rule: item_bytes.cases) auto
  then show ?thesis unfolding unread_def by (intro sum_list_nonneg) auto
qed

interpretation down: credit_flow down_emit add_credit down_accept down_consume
  send_credit "\<lambda>d. int (length d)" recv_window unread hunacked downloading_ok WINDOW CREDIT_BATCH
proof unfold_locales
  fix s s' and d :: "u8 list" assume "down_emit s d s'"
  then obtain rest where r: "d \<noteq> []" "send_turn False False (d @ rest) s = SendFrame d rest s'"
    by (auto simp: down_emit_def)
  from send_turn_frame[OF r(2)] r(1)
  show "0 < int (length d) \<and> int (length d) \<le> send_credit s \<and> send_credit s' = send_credit s - int (length d)"
    by auto
next
  fix g :: int and s :: request assume "0 < g" "send_credit s + g \<le> WINDOW"
  then show "send_credit (add_credit g s) = send_credit s + g"
    by (simp add: add_credit_def WINDOW_def)
next
  fix r :: hub_req and d :: "u8 list" assume "downloading_ok r" "0 < int (length d)" "int (length d) \<le> recv_window r"
  then show "\<exists>r'. down_accept d r = Some r' \<and> downloading_ok r' \<and> recv_window r' = recv_window r - int (length d)"
    by (auto simp: down_accept_def on_data_def downloading_ok_def unread_def Let_def)
next
  fix r r' g assume "downloading_ok r" "down_consume r = Some (r', g)"
  then show "downloading_ok r' \<and> 0 \<le> g \<and> recv_window r' = recv_window r + g"
    by (auto simp: down_consume_def next_turn_def consumed_bytes_def downloading_ok_def unread_def Let_def
        CREDIT_BATCH_def WINDOW_def split: list.splits option.splits stream_item.splits if_splits)
next
  fix r assume "downloading_ok r"
  then show "recv_window r + unread r + hunacked r = WINDOW \<and> 0 \<le> unread r \<and> 0 \<le> hunacked r
      \<and> hunacked r < CREDIT_BATCH"
    using unread_nonneg[of r] by (auto simp: downloading_ok_def)
qed (simp add: CREDIT_BATCH_def WINDOW_def)

lemma downloading_ok_new: "downloading_ok (hub_req_new i op True)"
  by (simp add: downloading_ok_def hub_req_new_def unread_def CREDIT_BATCH_def WINDOW_def)

text \<open>Both directions start with one window of credit on each side.\<close>

abbreviation upload_reach :: "int \<Rightarrow> ustr \<Rightarrow> bool \<Rightarrow> (hub_req, request, u8 list) flow \<Rightarrow> bool" where
  "upload_reach i op stream \<equiv>
     flow_reach up_emit on_credit up_accept up_consume (hub_req_new i op stream) (request_new i op True)"

abbreviation download_reach :: "int \<Rightarrow> ustr \<Rightarrow> bool \<Rightarrow> (request, hub_req, u8 list) flow \<Rightarrow> bool" where
  "download_reach i op up \<equiv>
     flow_reach down_emit add_credit down_accept down_consume (request_new i op up) (hub_req_new i op True)"

lemma upload_balanced: "upload_reach i op stream f \<Longrightarrow> up.balanced f"
  by (erule up.reach_balanced)
    (simp_all add: uploading_ok_new, simp_all add: request_new_def hub_req_new_def WINDOW_def)

lemma download_balanced: "download_reach i op u f \<Longrightarrow> down.balanced f"
  by (erule down.reach_balanced)
    (simp_all add: downloading_ok_new, simp_all add: request_new_def hub_req_new_def WINDOW_def)

end
