(* ===== verification/Writer.thy ===== *)
theory Writer
  imports Fifo Frame
begin

text \<open>
  The node's single serialised writer (crates/ecnode/src/server.rs, \<open>WState\<close> and \<open>Writer\<close>).
  Producers put whole frames on a queue; DATA frames and bulk JSON wait for room. The writer thread
  takes a batch of whole frames and writes it.

  Each definition is one critical section under the writer's lock: \<open>put_step\<close> is one turn of the
  waiting loop of \<open>put\<close>, \<open>take_batch\<close> and \<open>write_failed\<close> are the two critical sections of
  \<open>run\<close>. Time is in nanoseconds; \<open>Instant::duration_since\<close> saturates at zero, as subtraction of
  natural numbers does.
\<close>

definition DATA_QUEUE_MAX :: nat where "DATA_QUEUE_MAX = 4 * 1024 * 1024"
definition JSON_QUEUE_MAX :: nat where "JSON_QUEUE_MAX = 64 * 1024 * 1024"
definition WRITE_BATCH :: nat where "WRITE_BATCH = 1024 * 1024"
definition BULK_WINDOW_NS :: nat where "BULK_WINDOW_NS = 10 * 10 ^ 9"
definition BULK_BYTES :: nat where "BULK_BYTES = 8 * 1024 * 1024"
definition BULK_FRAMES :: nat where "BULK_FRAMES = 20000"

record wstate =
  wq :: "(u8 list \<times> bool) list"
  wdata :: nat
  wjson :: nat
  wclosing :: bool
  wclosed :: bool
  win_start :: nat
  win_bytes :: nat
  win_frames :: nat

definition writer_new :: "nat \<Rightarrow> wstate" where
  "writer_new now =
     \<lparr>wq = [], wdata = 0, wjson = 0, wclosing = False, wclosed = False,
      win_start = now, win_bytes = 0, win_frames = 0\<rparr>"

definition bulk_room :: "nat \<Rightarrow> wstate \<Rightarrow> nat \<Rightarrow> bool \<times> wstate" where
  "bulk_room now st n =
     (let st = (if BULK_WINDOW_NS \<le> now - win_start st
                then st\<lparr>win_start := now, win_bytes := 0, win_frames := 0\<rparr> else st)
      in (win_frames st < BULK_FRAMES \<and> (win_bytes st + n \<le> BULK_BYTES \<or> win_bytes st = 0), st))"

definition must_wait :: "nat \<Rightarrow> wstate \<Rightarrow> nat \<Rightarrow> bool \<Rightarrow> bool \<Rightarrow> bool \<times> wstate" where
  "must_wait now st n data bulk =
     (if data then (0 < wdata st \<and> DATA_QUEUE_MAX < wdata st + n, st)
      else if 0 < wjson st \<and> JSON_QUEUE_MAX < wjson st + n then (True, st)
      else if bulk then (let (room, st) = bulk_room now st n in (\<not> room, st))
      else (False, st))"

datatype put_result = PutWait wstate | PutRefused wstate | PutDone wstate

text \<open>What \<open>put\<close> does to the state once it need not wait.\<close>

definition enqueue :: "u8 list \<Rightarrow> bool \<Rightarrow> bool \<Rightarrow> wstate \<Rightarrow> wstate" where
  "enqueue frame data bulk st =
     (let st = (if bulk then st\<lparr>win_bytes := win_bytes st + length frame,
                                win_frames := win_frames st + 1\<rparr> else st);
          st = (if data then st\<lparr>wdata := wdata st + length frame\<rparr>
                else st\<lparr>wjson := wjson st + length frame\<rparr>)
      in st\<lparr>wq := wq st @ [(frame, data)]\<rparr>)"

text \<open>One turn of \<open>put\<close>; \<open>aborted\<close> is what the caller's abort callback answers.\<close>

definition put_step :: "nat \<Rightarrow> u8 list \<Rightarrow> bool \<Rightarrow> bool \<Rightarrow> bool \<Rightarrow> wstate \<Rightarrow> put_result" where
  "put_step now frame data bulk aborted st =
     (if wclosed st \<or> wclosing st then PutRefused st
      else (let (wait, st) = must_wait now st (length frame) data bulk in
        if wait then (if aborted then PutRefused st else PutWait st)
        else PutDone (enqueue frame data bulk st)))"

text \<open>\<open>while size < WRITE_BATCH\<close>: pop whole frames from the front.\<close>

function pop_frames :: "nat \<Rightarrow> wstate \<Rightarrow> u8 list \<times> wstate" where
  "pop_frames sz st =
     (if sz < WRITE_BATCH then
        (case wq st of
           [] \<Rightarrow> ([], st)
         | (frame, is_data) # q \<Rightarrow>
             (let st = st\<lparr>wq := q\<rparr>;
                  st = (if is_data then st\<lparr>wdata := wdata st - length frame\<rparr>
                        else st\<lparr>wjson := wjson st - length frame\<rparr>);
                  (batch, st) = pop_frames (sz + length frame) st
              in (frame @ batch, st)))
      else ([], st))"
  by pat_completeness auto
termination
  by (relation "measure (\<lambda>(sz, st). length (wq st))") auto

declare pop_frames.simps [simp del]

datatype run_result = RunWait | RunStop wstate | RunBatch "u8 list" wstate

text \<open>The first critical section of \<open>run\<close>: wait, stop, or take a batch.\<close>

definition take_batch :: "wstate \<Rightarrow> run_result" where
  "take_batch st =
     (if wq st = [] then (if wclosed st \<or> wclosing st then RunStop (st\<lparr>wclosed := True\<rparr>) else RunWait)
      else (let (batch, st) = pop_frames 0 st in RunBatch batch st))"

text \<open>The output failed: nothing more is accepted or written.\<close>

definition write_failed :: "wstate \<Rightarrow> wstate" where
  "write_failed st = st\<lparr>wclosed := True, wq := [], wdata := 0, wjson := 0\<rparr>"

text \<open>\<open>close\<close>: stop accepting; later (queue empty, closed or deadline) closed for good.\<close>

definition close_begin :: "wstate \<Rightarrow> wstate" where
  "close_begin st = st\<lparr>wclosing := True\<rparr>"

definition close_end :: "wstate \<Rightarrow> wstate" where
  "close_end st = st\<lparr>wclosed := True\<rparr>"

section \<open>The queue\<close>

definition queued :: "wstate \<Rightarrow> u8 list" where
  "queued st = concat (map fst (wq st))"

definition frame_bytes :: "bool \<Rightarrow> (u8 list \<times> bool) list \<Rightarrow> nat" where
  "frame_bytes d q = sum_list (map (\<lambda>f. length (fst f)) (filter (\<lambda>f. snd f = d) q))"

text \<open>The two counters are the bytes of the queue, and each is within its limit or is one frame.\<close>

definition within_or_single :: "nat \<Rightarrow> nat \<Rightarrow> bool \<Rightarrow> (u8 list \<times> bool) list \<Rightarrow> bool" where
  "within_or_single limit n d q \<longleftrightarrow>
     n \<le> limit \<or> (\<exists>f \<in> set q. snd f = d \<and> n = length (fst f))"

definition writer_ok :: "wstate \<Rightarrow> bool" where
  "writer_ok st \<longleftrightarrow>
     wdata st = frame_bytes True (wq st) \<and> wjson st = frame_bytes False (wq st)
     \<and> within_or_single DATA_QUEUE_MAX (wdata st) True (wq st)
     \<and> within_or_single JSON_QUEUE_MAX (wjson st) False (wq st)
     \<and> win_frames st \<le> BULK_FRAMES"

lemma frame_bytes_simps [simp]:
  "frame_bytes d [] = 0"
  "frame_bytes d (f # q) = (if snd f = d then length (fst f) else 0) + frame_bytes d q"
  "frame_bytes d (q @ q') = frame_bytes d q + frame_bytes d q'"
  by (simp_all add: frame_bytes_def)

lemma frame_bytes_mem: "f \<in> set q \<Longrightarrow> snd f = d \<Longrightarrow> length (fst f) \<le> frame_bytes d q"
  by (induction q) auto

lemma must_wait_same_queue:
  "must_wait now st n data bulk = (w, st') \<Longrightarrow>
   wq st' = wq st \<and> wdata st' = wdata st \<and> wjson st' = wjson st
   \<and> wclosed st' = wclosed st \<and> wclosing st' = wclosing st"
  by (auto simp: must_wait_def bulk_room_def Let_def split: if_splits prod.splits)

lemma must_wait_win_frames:
  "must_wait now st n data bulk = (w, st') \<Longrightarrow> win_frames st \<le> BULK_FRAMES \<Longrightarrow>
   win_frames st' \<le> BULK_FRAMES \<and> (\<not> w \<longrightarrow> bulk \<longrightarrow> \<not> data \<longrightarrow> win_frames st' < BULK_FRAMES)"
  by (auto simp: must_wait_def bulk_room_def Let_def split: if_splits prod.splits)

lemma enqueue_queue: "wq (enqueue frame data bulk st) = wq st @ [(frame, data)]"
  by (simp add: enqueue_def Let_def)

lemma writer_ok_new: "writer_ok (writer_new now)"
  by (simp add: writer_ok_def writer_new_def within_or_single_def)

lemma within_pop:
  assumes "within_or_single bound (frame_bytes d ((fr, e) # q)) d ((fr, e) # q)"
  shows "within_or_single bound (frame_bytes d q) d q"
proof (cases "frame_bytes d ((fr, e) # q) \<le> bound")
  case True
  then show ?thesis by (simp add: within_or_single_def)
next
  case False
  with assms obtain f where f: "f \<in> set ((fr, e) # q)" "snd f = d"
    "frame_bytes d ((fr, e) # q) = length (fst f)"
    unfolding within_or_single_def by blast
  show ?thesis
  proof (cases "f \<in> set q")
    case True
    then have "length (fst f) \<le> frame_bytes d q" using f(2) by (rule frame_bytes_mem)
    then have "frame_bytes d q = length (fst f)" using f(3) by simp
    with True f(2) show ?thesis by (auto simp: within_or_single_def)
  next
    case nq: False
    then have "frame_bytes d q = 0" using f by auto
    then show ?thesis by (simp add: within_or_single_def)
  qed
qed

definition pop_one :: "u8 list \<Rightarrow> bool \<Rightarrow> (u8 list \<times> bool) list \<Rightarrow> wstate \<Rightarrow> wstate" where
  "pop_one frame d q st = (if d then st\<lparr>wq := q, wdata := wdata st - length frame\<rparr>
        else st\<lparr>wq := q, wjson := wjson st - length frame\<rparr>)"

lemma writer_ok_pop_one:
  assumes "writer_ok st" "wq st = (frame, d) # q"
  shows "writer_ok (pop_one frame d q st)"
  using assms within_pop[of DATA_QUEUE_MAX True frame d q] within_pop[of JSON_QUEUE_MAX False frame d q]
  by (cases d) (simp_all add: writer_ok_def pop_one_def, metis+)

text \<open>A batch is whole frames from the front, and the counters follow.\<close>

lemma pop_frames_spec:
  "pop_frames sz st = (batch, st') \<Longrightarrow> writer_ok st \<Longrightarrow>
   queued st = batch @ queued st' \<and> writer_ok st' \<and> (\<exists>taken. wq st = taken @ wq st')
   \<and> wclosed st' = wclosed st \<and> wclosing st' = wclosing st"
proof (induction sz st arbitrary: batch st' rule: pop_frames.induct)
  case (1 sz st)
  show ?case
  proof (cases "sz < WRITE_BATCH \<and> wq st \<noteq> []")
    case False
    with "1.prems" show ?thesis by (auto simp: pop_frames.simps[of sz st] split: if_splits list.splits)
  next
    case True
    then obtain frame d q where q: "wq st = (frame, d) # q" by (metis neq_Nil_conv surj_pair)
    define st1 where "st1 = pop_one frame d q st"
    obtain b where b: "pop_frames (sz + length frame) st1 = (b, st')" "batch = frame @ b"
      using "1.prems"(1) True q
      by (auto simp: pop_frames.simps[of sz st] st1_def pop_one_def Let_def split: prod.splits if_splits)
    have ok1: "writer_ok st1" and q1: "wq st1 = q"
      "wclosed st1 = wclosed st" "wclosing st1 = wclosing st"
      using writer_ok_pop_one[OF "1.prems"(2) q] by (simp_all add: st1_def pop_one_def)
    have ih: "pop_frames (sz + length frame) st1 = (b, st') \<Longrightarrow> writer_ok st1 \<Longrightarrow>
      queued st1 = b @ queued st' \<and> writer_ok st' \<and> (\<exists>taken. wq st1 = taken @ wq st')
      \<and> wclosed st' = wclosed st1 \<and> wclosing st' = wclosing st1"
      using "1.IH"[of "(frame, d)" q frame d "st\<lparr>wq := q\<rparr>" st1 b st'] True q
      by (simp add: st1_def pop_one_def)
    from ih[OF b(1) ok1] q q1 b(2) show ?thesis by (auto simp: queued_def)
  qed
qed

lemma within_push:
  assumes "within_or_single bound n d q" "n = frame_bytes d q"
    and "d = e \<longrightarrow> \<not> (0 < n \<and> bound < n + length fr)"
  shows "within_or_single bound (frame_bytes d (q @ [(fr, e)])) d (q @ [(fr, e)])"
proof (cases "d = e")
  case True
  with assms show ?thesis by (auto simp: within_or_single_def)
next
  case False
  with assms(1,2) show ?thesis by (auto simp: within_or_single_def)
qed

text \<open>DATA frames are never bulk in the code (\<open>put(frame, true, false, ..)\<close>).\<close>

lemma put_step_ok:
  assumes "writer_ok st" "put_step now frame data bulk aborted st = r" "\<not> (data \<and> bulk)"
  shows "case r of PutWait st' \<Rightarrow> writer_ok st' \<and> wq st' = wq st
    | PutRefused st' \<Rightarrow> writer_ok st' \<and> wq st' = wq st
    | PutDone st' \<Rightarrow> writer_ok st' \<and> wq st' = wq st @ [(frame, data)] \<and> \<not> wclosed st \<and> \<not> wclosing st
        \<and> wclosed st' = wclosed st \<and> wclosing st' = wclosing st"
proof (cases "wclosed st \<or> wclosing st")
  case True
  with assms show ?thesis by (auto simp: put_step_def)
next
  case False
  obtain w st1 where mw: "must_wait now st (length frame) data bulk = (w, st1)" by (metis surj_pair)
  note same = must_wait_same_queue[OF mw]
  have wf: "win_frames st1 \<le> BULK_FRAMES" and wf': "\<not> w \<Longrightarrow> bulk \<Longrightarrow> win_frames st1 < BULK_FRAMES"
    using must_wait_win_frames[OF mw] assms(1,3) by (auto simp: writer_ok_def)
  have ok1: "writer_ok st1" using same wf assms(1) unfolding writer_ok_def by metis
  show ?thesis
  proof (cases w)
    case True
    with False mw assms(2) ok1 same show ?thesis by (auto simp: put_step_def)
  next
    case nw: False
    have room: "\<not> (0 < (if data then wdata st1 else wjson st1) \<and>
        (if data then DATA_QUEUE_MAX else JSON_QUEUE_MAX) < (if data then wdata st1 else wjson st1) + length frame)"
      using mw nw same by (auto simp: must_wait_def split: if_splits)
    have r: "r = PutDone (enqueue frame data bulk st1)"
      using assms(2) False mw nw by (simp add: put_step_def)
    have "within_or_single DATA_QUEUE_MAX (frame_bytes True (wq st1 @ [(frame, data)])) True (wq st1 @ [(frame, data)])"
      by (rule within_push) (use ok1 room in \<open>auto simp: writer_ok_def\<close>)
    moreover have "within_or_single JSON_QUEUE_MAX (frame_bytes False (wq st1 @ [(frame, data)])) False (wq st1 @ [(frame, data)])"
      by (rule within_push) (use ok1 room in \<open>auto simp: writer_ok_def\<close>)
    ultimately have "writer_ok (enqueue frame data bulk st1)"
      using ok1 wf' nw unfolding writer_ok_def enqueue_queue
      by (auto simp: enqueue_def Let_def add.commute)
    then show ?thesis using r same False by (simp add: enqueue_queue) (simp add: enqueue_def Let_def)
  qed
qed

lemma write_failed_ok: "writer_ok st \<Longrightarrow> writer_ok (write_failed st)"
  by (simp add: writer_ok_def write_failed_def within_or_single_def)

section \<open>The writer as a queue\<close>

record put_call =
  at_time :: nat
  bytes :: "u8 list"
  is_data :: bool
  is_bulk :: bool

definition writer_put :: "put_call \<Rightarrow> wstate \<Rightarrow> wstate option" where
  "writer_put p st =
     (if is_data p \<and> is_bulk p then None
      else case put_step (at_time p) (bytes p) (is_data p) (is_bulk p) False st of
        PutDone st' \<Rightarrow> Some st' | _ \<Rightarrow> None)"

definition writer_take :: "wstate \<Rightarrow> u8 list \<times> wstate" where
  "writer_take st = (case take_batch st of
      RunWait \<Rightarrow> ([], st) | RunStop st' \<Rightarrow> ([], st') | RunBatch b st' \<Rightarrow> (b, st'))"

lemma queued_push: "wq st' = wq st @ [(fr, d)] \<Longrightarrow> queued st' = queued st @ fr"
  by (simp add: queued_def)

interpretation wq: fifo bytes writer_put writer_take queued writer_ok
proof unfold_locales
  fix s :: wstate and p s'
  assume ok: "writer_ok s" and p: "writer_put p s = Some s'"
  then have "\<not> (is_data p \<and> is_bulk p)"
    "put_step (at_time p) (bytes p) (is_data p) (is_bulk p) False s = PutDone s'"
    by (auto simp: writer_put_def split: if_splits put_result.splits)
  from put_step_ok[OF ok this(2,1)] show "queued s' = queued s @ bytes p \<and> writer_ok s'"
    by (auto intro: queued_push)
next
  fix s :: wstate and xs s'
  assume ok: "writer_ok s" and t: "writer_take s = (xs, s')"
  show "queued s = xs @ queued s' \<and> writer_ok s'"
  proof (cases "wq s = []")
    case True
    with t ok show ?thesis
      by (auto simp: writer_take_def take_batch_def queued_def writer_ok_def split: if_splits)
  next
    case False
    with t have "pop_frames 0 s = (xs, s')"
      by (auto simp: writer_take_def take_batch_def split: prod.splits)
    from pop_frames_spec[OF this ok] show ?thesis by blast
  qed
qed

section \<open>The writer and its output\<close>

text \<open>
  The threads around one writer: producers, the writer thread (a batch it holds, what it has
  written), and the closing thread. A failed write leaves any prefix of the batch on the output.
\<close>

record wsys =
  wst :: wstate
  batch :: "u8 list option"
  written :: "u8 list"
  accepted :: "u8 list"
  dead :: bool

definition wsys_init :: "nat \<Rightarrow> wsys" where
  "wsys_init now = \<lparr>wst = writer_new now, batch = None, written = [], accepted = [], dead = False\<rparr>"

inductive wstep :: "wsys \<Rightarrow> wsys \<Rightarrow> bool" where
  put_done: "\<not> (data \<and> bulk) \<Longrightarrow> put_step now frame data bulk ab (wst s) = PutDone st' \<Longrightarrow>
    wstep s (s\<lparr>wst := st', accepted := accepted s @ frame\<rparr>)"
| put_wait: "\<not> (data \<and> bulk) \<Longrightarrow> put_step now frame data bulk ab (wst s) = PutWait st' \<Longrightarrow>
    wstep s (s\<lparr>wst := st'\<rparr>)"
| put_refused: "\<not> (data \<and> bulk) \<Longrightarrow> put_step now frame data bulk ab (wst s) = PutRefused st' \<Longrightarrow>
    wstep s (s\<lparr>wst := st'\<rparr>)"
| run_batch: "\<not> dead s \<Longrightarrow> batch s = None \<Longrightarrow> take_batch (wst s) = RunBatch b st' \<Longrightarrow>
    wstep s (s\<lparr>wst := st', batch := Some b\<rparr>)"
| run_stop: "\<not> dead s \<Longrightarrow> batch s = None \<Longrightarrow> take_batch (wst s) = RunStop st' \<Longrightarrow>
    wstep s (s\<lparr>wst := st', dead := True\<rparr>)"
| write_ok: "batch s = Some b \<Longrightarrow> wstep s (s\<lparr>batch := None, written := written s @ b\<rparr>)"
| write_err: "batch s = Some (b @ rest) \<Longrightarrow>
    wstep s (s\<lparr>wst := write_failed (wst s), batch := None, written := written s @ b, dead := True\<rparr>)"
| close1: "wstep s (s\<lparr>wst := close_begin (wst s)\<rparr>)"
| close2: "wstep s (s\<lparr>wst := close_end (wst s)\<rparr>)"

inductive_cases wstepE: "wstep s t"

inductive writer_reach :: "wsys \<Rightarrow> bool" where
  start: "writer_reach (wsys_init now)"
| step: "writer_reach s \<Longrightarrow> wstep s t \<Longrightarrow> writer_reach t"

definition pending_batch :: "wsys \<Rightarrow> u8 list" where
  "pending_batch s = (case batch s of None \<Rightarrow> [] | Some b \<Rightarrow> b)"

text \<open>
  While the output works, what was accepted is what was written, the batch in hand and the queue,
  in that order; after a failure what was written is a prefix of it.
\<close>

definition wsys_ok :: "wsys \<Rightarrow> bool" where
  "wsys_ok s \<longleftrightarrow> writer_ok (wst s) \<and> (dead s \<longrightarrow> batch s = None \<and> wclosed (wst s))
     \<and> (\<not> dead s \<longrightarrow> accepted s = written s @ pending_batch s @ queued (wst s))
     \<and> (\<exists>rest. accepted s = written s @ rest)"

lemma wsys_ok_step: "wstep s t \<Longrightarrow> wsys_ok s \<Longrightarrow> wsys_ok t"
proof (induction rule: wstep.induct)
  case (put_done data bulk now frame ab s st')
  from put_step_ok[OF _ put_done(2,1)] put_done(3) show ?case
    by (auto simp: wsys_ok_def pending_batch_def queued_def)
next
  case (put_wait data bulk now frame ab s st')
  from put_step_ok[OF _ put_wait(2,1)] put_wait(2,3) show ?case
    by (auto simp: wsys_ok_def pending_batch_def queued_def put_step_def split: if_splits prod.splits)
next
  case (put_refused data bulk now frame ab s st')
  have "wclosed st' = wclosed (wst s)"
    using put_refused(2) must_wait_same_queue by (auto simp: put_step_def split: if_splits prod.splits)
  with put_step_ok[OF _ put_refused(2,1)] put_refused(3) show ?case
    by (auto simp: wsys_ok_def pending_batch_def queued_def)
next
  case (run_batch s b st')
  then have "pop_frames 0 (wst s) = (b, st')"
    by (auto simp: take_batch_def split: if_splits prod.splits)
  from pop_frames_spec[OF this] run_batch show ?case
    by (auto simp: wsys_ok_def pending_batch_def)
next
  case (run_stop s st')
  then show ?case
    by (auto simp: wsys_ok_def pending_batch_def take_batch_def writer_ok_def split: if_splits prod.splits)
next
  case (write_err s b rest)
  then show ?case by (auto simp: wsys_ok_def pending_batch_def write_failed_ok) (simp add: write_failed_def)
qed (auto simp: wsys_ok_def pending_batch_def close_begin_def close_end_def writer_ok_def queued_def)

lemma writer_reach_ok: "writer_reach s \<Longrightarrow> wsys_ok s"
proof (induction rule: writer_reach.induct)
  case (start now)
  show ?case using writer_ok_new[of now]
    by (simp add: wsys_ok_def wsys_init_def pending_batch_def queued_def writer_new_def)
next
  case (step s t)
  then show ?case by (blast intro: wsys_ok_step)
qed

section \<open>The writer thread ends\<close>

text \<open>
  \<open>run\<close> over an output that works, on its own (nobody else calls the writer meanwhile): the bytes it
  writes and the state it leaves. Waiting for a frame that never comes is not returning.
\<close>

partial_function (option) run_loop :: "wstate \<Rightarrow> (u8 list \<times> wstate) option" where
  "run_loop st =
     (case take_batch st of
        RunWait \<Rightarrow> run_loop st
      | RunStop st' \<Rightarrow> Some ([], st')
      | RunBatch b st' \<Rightarrow>
          Option.bind (run_loop st') (\<lambda>(written, st''). Some (b @ written, st'')))"

lemma pop_frames_shrinks:
  "pop_frames 0 st = (b, st') \<Longrightarrow> wq st \<noteq> [] \<Longrightarrow> writer_ok st \<Longrightarrow> length (wq st') < length (wq st)"
proof -
  assume p: "pop_frames 0 st = (b, st')" and q: "wq st \<noteq> []" and ok: "writer_ok st"
  obtain frame d q where w: "wq st = (frame, d) # q" using q by (metis neq_Nil_conv surj_pair)
  obtain b' where b: "pop_frames (length frame) (pop_one frame d q st) = (b', st')"
    using p w by (auto simp: pop_frames.simps[of 0] pop_one_def WRITE_BATCH_def Let_def split: prod.splits if_splits)
  obtain taken where "q = taken @ wq st'"
    using pop_frames_spec[OF b writer_ok_pop_one[OF ok w]] by (auto simp: pop_one_def split: if_splits)
  then show ?thesis using w by simp
qed

text \<open>
  C38. Closing ends the writer: whatever is queued when no more frames are accepted, the writer's loop
  returns after writing exactly the queued bytes in order, and leaves the writer closed and empty.
\<close>

theorem writer_drains:
  assumes "writer_ok st" "wclosing st \<or> wclosed st"
  shows "\<exists>st'. run_loop st = Some (queued st, st') \<and> wq st' = [] \<and> wclosed st'"
  using assms
proof (induction "length (wq st)" arbitrary: st rule: less_induct)
  case less
  show ?case
  proof (cases "wq st = []")
    case True
    then have "run_loop st = Some ([], st\<lparr>wclosed := True\<rparr>)"
      using less.prems by (subst run_loop.simps) (auto simp: take_batch_def)
    then show ?thesis using True by (simp add: queued_def)
  next
    case False
    obtain b st1 where p: "pop_frames 0 st = (b, st1)" by (metis surj_pair)
    note s = pop_frames_spec[OF p less.prems(1)]
    obtain st' where st': "run_loop st1 = Some (queued st1, st')" "wq st' = []" "wclosed st'"
      using less.hyps[OF pop_frames_shrinks[OF p False less.prems(1)]] s less.prems(2) by auto
    have "run_loop st = Some (b @ queued st1, st')"
      using p False st'(1) by (subst run_loop.simps) (simp add: take_batch_def)
    then show ?thesis using s st' by simp
  qed
qed

lemma writer_drains_witness:
  "\<exists>st'. run_loop ((writer_new 0)\<lparr>wq := [([1, 2], True), ([3], False)], wdata := 2, wjson := 1, wclosing := True\<rparr>)
     = Some ([1, 2, 3], st') \<and> wclosed st'"
proof -
  let ?st = "(writer_new 0)\<lparr>wq := [([1, 2], True), ([3], False)], wdata := 2, wjson := 1, wclosing := True\<rparr>"
  have "writer_ok ?st" "wclosing ?st" "queued ?st = [1, 2, 3]"
    by (simp_all add: writer_ok_def writer_new_def within_or_single_def DATA_QUEUE_MAX_def JSON_QUEUE_MAX_def BULK_FRAMES_def queued_def)
  with writer_drains[of ?st] show ?thesis by auto
qed

end
