(* ===== verification/Clean.thy ===== *)
theory Clean
  imports Json
begin

text \<open>
  Whitelist cleaning (crates/ec-proto/src/clean.rs). \<open>clean\<close> rebuilds an untrusted value from a
  \<open>spec\<close>; \<open>clean_json\<close> bounds a value of any shape with a budget that the whole walk shares.

  The theory proves what both sides of the wire rely on: whatever comes in, the cleaned value has
  exactly the shape of its specification (\<open>conforms\<close>), and a value that already has it passes
  through unchanged (\<open>canonical\<close>), so cleaning on the node and again on the hub loses nothing.
\<close>

definition MAX_NUM :: rat where "MAX_NUM = 10 ^ 15"
definition JSON_MAX_DEPTH :: nat where "JSON_MAX_DEPTH = 8"
definition JSON_MAX_ITEMS :: nat where "JSON_MAX_ITEMS = 512"
definition JSON_MAX_NODES :: int where "JSON_MAX_NODES = 4000"
definition JSON_MAX_STR :: nat where "JSON_MAX_STR = 4096"

datatype spec =
    SInt
  | SNum
  | SBool
  | SJson
  | SStr nat
  | SList spec nat
  | SMap spec nat
  | SObj "(ustr \<times> spec) list"

fun spec_fields :: "spec \<Rightarrow> (ustr \<times> spec) list" where
  "spec_fields (SObj f) = f"
| "spec_fields s = []"

text \<open>\<open>v.chars().take(n).filter(|&c| c != '\0')\<close>\<close>

definition cap_str :: "ustr \<Rightarrow> nat \<Rightarrow> ustr" where
  "cap_str v n = filter (\<lambda>c. c \<noteq> 0) (take n v)"

text \<open>\<open>k.replace('\0', "")\<close>\<close>

definition strip_nul :: "ustr \<Rightarrow> ustr" where
  "strip_nul k = filter (\<lambda>c. c \<noteq> 0) k"

definition key_ok :: "ustr \<Rightarrow> bool" where
  "key_ok k \<longleftrightarrow> 0 < length k \<and> length k \<le> 256"

definition int_of :: "num \<Rightarrow> num option" where
  "int_of n =
     (case as_i64 n of
        Some i \<Rightarrow> (if \<bar>i\<bar> \<le> 2 ^ 53 then Some (num_of_int i) else None)
      | None \<Rightarrow>
          (case as_u64 n of
             Some u \<Rightarrow> (if u \<le> 2 ^ 53 then Some (PosInt u) else None)
           | None \<Rightarrow> None))"

section \<open>Values of any shape\<close>

text \<open>
  \<open>clean_json_inner\<close> with its \<open>&mut budget\<close> passed and returned. The loops over an array or an
  object take at most \<open>JSON_MAX_ITEMS\<close> items; the second argument counts what is left of them.
\<close>

fun clean_json_inner :: "json \<Rightarrow> nat \<Rightarrow> int \<Rightarrow> json \<times> int"
  and clean_json_items :: "json list \<Rightarrow> nat \<Rightarrow> nat \<Rightarrow> int \<Rightarrow> json list \<times> int"
  and clean_json_members :: "(ustr \<times> json) list \<Rightarrow> nat \<Rightarrow> nat \<Rightarrow> int \<Rightarrow> obj \<Rightarrow> obj \<times> int"
where
  "clean_json_inner v depth budget =
     (let budget = budget - 1 in
      if budget < 0 \<or> JSON_MAX_DEPTH < depth then (JNull, budget)
      else case v of
        JNull \<Rightarrow> (v, budget)
      | JBool b \<Rightarrow> (v, budget)
      | JNum n \<Rightarrow> (if is_f64 n then (v, budget)
                   else (case int_of n of Some m \<Rightarrow> (JNum m, budget) | None \<Rightarrow> (JNull, budget)))
      | JStr s \<Rightarrow> (JStr (cap_str s JSON_MAX_STR), budget)
      | JArr a \<Rightarrow> (let (xs, budget) = clean_json_items a JSON_MAX_ITEMS (depth + 1) budget
                   in (JArr xs, budget))
      | JObj m \<Rightarrow> (let (out, budget) = clean_json_members m JSON_MAX_ITEMS (depth + 1) budget []
                   in (JObj out, budget)))"
| "clean_json_items [] left depth budget = ([], budget)"
| "clean_json_items (x # xs) left depth budget =
     (case left of 0 \<Rightarrow> ([], budget)
      | Suc left' \<Rightarrow>
          (let (y, budget) = clean_json_inner x depth budget;
               (ys, budget) = clean_json_items xs left' depth budget
           in (y # ys, budget)))"
| "clean_json_members [] left depth budget out = (out, budget)"
| "clean_json_members ((k, x) # m) left depth budget out =
     (case left of 0 \<Rightarrow> (out, budget)
      | Suc left' \<Rightarrow>
          (if key_ok k then
             (let (y, budget) = clean_json_inner x depth budget
              in clean_json_members m left' depth budget (obj_insert (strip_nul k) y out))
           else clean_json_members m left' depth budget out))"

declare clean_json_inner.simps [simp del]

definition clean_json :: "json \<Rightarrow> json" where
  "clean_json v = fst (clean_json_inner v 0 JSON_MAX_NODES)"

section \<open>Cleaning against a specification\<close>

definition clean_num :: "num \<Rightarrow> json" where
  "clean_num n =
     (if \<not> is_f64 n \<and> int_of n = None then JNull
      else if \<bar>num_val n\<bar> \<le> MAX_NUM then JNum n else JNull)"

fun clean :: "json \<Rightarrow> spec \<Rightarrow> json" where
  "clean v SInt =
     (case v of JNum n \<Rightarrow> (if is_f64 n then JNull
                            else (case int_of n of Some m \<Rightarrow> JNum m | None \<Rightarrow> JNull))
      | _ \<Rightarrow> JNull)"
| "clean v SNum = (case v of JNum n \<Rightarrow> clean_num n | _ \<Rightarrow> JNull)"
| "clean v SBool = (case v of JBool b \<Rightarrow> v | _ \<Rightarrow> JNull)"
| "clean v SJson = (if v = JNull then JNull else clean_json v)"
| "clean v (SStr n) = (case v of JStr s \<Rightarrow> JStr (cap_str s n) | _ \<Rightarrow> JNull)"
| "clean v (SList sub cap) =
     (case v of JArr a \<Rightarrow> JArr (filter (\<lambda>x. x \<noteq> JNull) (map (\<lambda>x. clean x sub) (take cap a)))
      | _ \<Rightarrow> JNull)"
| "clean v (SMap sub cap) =
     (case v of JObj m \<Rightarrow>
        JObj (obj_of (map (\<lambda>(k, c). (strip_nul k, c))
          (filter (\<lambda>(k, c). key_ok k \<and> c \<noteq> JNull)
            (map (\<lambda>(k, x). (k, clean x sub)) (take cap m)))))
      | _ \<Rightarrow> JNull)"
| "clean v (SObj fs) =
     (case v of JObj m \<Rightarrow> JObj (obj_of (map (\<lambda>(k, sub). (k, clean (obj_get_or_null m k) sub)) fs))
      | _ \<Rightarrow> JNull)"

definition clean_obj :: "json \<Rightarrow> spec \<Rightarrow> obj" where
  "clean_obj v sp = (case clean v sp of JObj m \<Rightarrow> m | _ \<Rightarrow> [])"

section \<open>The shape of a cleaned value\<close>

text \<open>The number of values that are not null.\<close>

fun vals :: "json \<Rightarrow> nat" where
  "vals JNull = 0"
| "vals (JArr xs) = Suc (sum_list (map vals xs))"
| "vals (JObj m) = Suc (sum_list (map (\<lambda>(k, x). vals x) m))"
| "vals v = 1"

definition text_within :: "nat \<Rightarrow> ustr \<Rightarrow> bool" where
  "text_within n s \<longleftrightarrow> length s \<le> n \<and> 0 \<notin> set s"

text \<open>
  A key of a cleaned map: no NUL, at most 256 characters. \<open>strict\<close> asks for a non-empty one too:
  a key made of NUL characters only passes the length check and becomes the empty key.
\<close>

definition key_within :: "bool \<Rightarrow> ustr \<Rightarrow> bool" where
  "key_within strict k \<longleftrightarrow> text_within 256 k \<and> (strict \<longrightarrow> k \<noteq> [])"

fun bounded :: "bool \<Rightarrow> nat \<Rightarrow> json \<Rightarrow> bool" where
  "bounded strict depth v \<longleftrightarrow> v = JNull \<or> depth \<le> JSON_MAX_DEPTH \<and>
     (case v of
        JNull \<Rightarrow> True
      | JBool b \<Rightarrow> True
      | JNum n \<Rightarrow> is_f64 n \<or> int_of n = Some n
      | JStr s \<Rightarrow> text_within JSON_MAX_STR s
      | JArr a \<Rightarrow> length a \<le> JSON_MAX_ITEMS \<and> (\<forall>x \<in> set a. bounded strict (Suc depth) x)
      | JObj m \<Rightarrow> length m \<le> JSON_MAX_ITEMS \<and> obj_wf m
          \<and> (\<forall>(k, x) \<in> set m. key_within strict k \<and> bounded strict (Suc depth) x))"

declare bounded.simps [simp del]

fun conforms :: "bool \<Rightarrow> json \<Rightarrow> spec \<Rightarrow> bool" where
  "conforms strict v SInt \<longleftrightarrow> (case v of JNull \<Rightarrow> True | JNum n \<Rightarrow> int_of n = Some n | _ \<Rightarrow> False)"
| "conforms strict v SNum \<longleftrightarrow>
     (case v of JNull \<Rightarrow> True
      | JNum n \<Rightarrow> (is_f64 n \<or> int_of n \<noteq> None) \<and> \<bar>num_val n\<bar> \<le> MAX_NUM
      | _ \<Rightarrow> False)"
| "conforms strict v SBool \<longleftrightarrow> (case v of JNull \<Rightarrow> True | JBool b \<Rightarrow> True | _ \<Rightarrow> False)"
| "conforms strict v SJson \<longleftrightarrow>
     bounded strict 0 v \<and> int (vals v) \<le> JSON_MAX_NODES
     \<and> (strict \<longrightarrow> int (nodes v) \<le> JSON_MAX_NODES)"
| "conforms strict v (SStr n) \<longleftrightarrow> (case v of JNull \<Rightarrow> True | JStr s \<Rightarrow> text_within n s | _ \<Rightarrow> False)"
| "conforms strict v (SList sub cap) \<longleftrightarrow>
     (case v of JNull \<Rightarrow> True
      | JArr a \<Rightarrow> length a \<le> cap \<and> (\<forall>x \<in> set a. x \<noteq> JNull \<and> conforms strict x sub)
      | _ \<Rightarrow> False)"
| "conforms strict v (SMap sub cap) \<longleftrightarrow>
     (case v of JNull \<Rightarrow> True
      | JObj m \<Rightarrow> length m \<le> cap \<and> obj_wf m
          \<and> (\<forall>(k, x) \<in> set m. key_within strict k \<and> x \<noteq> JNull \<and> conforms strict x sub)
      | _ \<Rightarrow> False)"
| "conforms strict v (SObj fs) \<longleftrightarrow>
     (case v of JNull \<Rightarrow> True
      | JObj m \<Rightarrow> map fst m = map fst fs
          \<and> (\<forall>(k, sub) \<in> set fs. conforms strict (obj_get_or_null m k) sub)
      | _ \<Rightarrow> False)"

text \<open>A specification names no field twice, at any level.\<close>

fun spec_wf :: "spec \<Rightarrow> bool" where
  "spec_wf (SList sub cap) = spec_wf sub"
| "spec_wf (SMap sub cap) = spec_wf sub"
| "spec_wf (SObj fs) = (distinct (map fst fs) \<and> (\<forall>(k, sub) \<in> set fs. spec_wf sub))"
| "spec_wf s = True"

subsection \<open>Numbers and text\<close>

lemma int_of_idem: "int_of n = Some m \<Longrightarrow> int_of m = Some m"
  by (cases n) (auto simp: int_of_def num_of_int_def nat_le_iff split: if_splits option.splits)

lemma int_of_not_f64: "int_of n = Some m \<Longrightarrow> \<not> is_f64 m"
  by (cases n) (auto simp: int_of_def num_of_int_def split: if_splits option.splits)

lemma cap_str_within [simp]: "text_within n (cap_str s n)"
  by (auto simp: text_within_def cap_str_def intro: le_trans[OF length_filter_le])

lemma filter_nul_id: "0 \<notin> set s \<Longrightarrow> filter (\<lambda>c. c \<noteq> 0) s = s"
  by (induction s) auto

lemma cap_str_id: "text_within n s \<Longrightarrow> cap_str s n = s"
  unfolding text_within_def cap_str_def by (metis filter_nul_id take_all)

lemma strip_nul_within: "key_ok k \<Longrightarrow> key_within False (strip_nul k)"
  by (auto simp: key_ok_def key_within_def text_within_def strip_nul_def
      intro: le_trans[OF length_filter_le])

lemma strip_nul_id: "key_within strict k \<Longrightarrow> strip_nul k = k"
  unfolding key_within_def text_within_def strip_nul_def by (metis filter_nul_id)

lemma key_ok_strict: "key_within True k \<Longrightarrow> key_ok k"
  by (simp add: key_within_def text_within_def key_ok_def)

subsection \<open>What the budgeted walk leaves\<close>

lemma clean_json_items_length: "length (fst (clean_json_items xs left d b)) \<le> left"
proof (induction xs arbitrary: left b)
  case (Cons x xs)
  show ?case using Cons[of _ "snd (clean_json_inner x d b)"]
    by (auto simp: Let_def split: nat.split prod.split) (metis fst_conv snd_conv)+
qed simp

lemma members_invariant:
  assumes "clean_json_members m left d b out = (out', b')" "Q out"
    and "\<And>k x y c c' o'. (k, x) \<in> set m \<Longrightarrow> key_ok k \<Longrightarrow> clean_json_inner x d c = (y, c')
      \<Longrightarrow> Q o' \<Longrightarrow> Q (obj_insert (strip_nul k) y o')"
  shows "Q out'"
  using assms
proof (induction m arbitrary: left b out)
  case (Cons kx m)
  obtain k x where kx: "kx = (k, x)" by (cases kx)
  show ?case
  proof (cases left)
    case (Suc l)
    obtain y c where y: "clean_json_inner x d b = (y, c)" by (metis surj_pair)
    have step: "Q (obj_insert (strip_nul k') y' o')"
      if "(k', x') \<in> set m" "key_ok k'" "clean_json_inner x' d e = (y', e')" "Q o'" for k' x' y' e e' o'
      by (rule Cons.prems(3)[OF _ that(2-4)]) (simp add: that(1))
    show ?thesis
    proof (cases "key_ok k")
      case True
      have "Q (obj_insert (strip_nul k) y out)"
        by (rule Cons.prems(3)[OF _ True y Cons.prems(2)]) (simp add: kx)
      moreover have "clean_json_members m l d c (obj_insert (strip_nul k) y out) = (out', b')"
        using Cons.prems(1) True kx y Suc by simp
      ultimately show ?thesis using Cons.IH step by blast
    next
      case False
      then have "clean_json_members m l d b out = (out', b')" using Cons.prems(1) kx Suc by simp
      then show ?thesis using Cons.IH Cons.prems(2) step by blast
    qed
  qed (use Cons.prems kx in simp)
qed simp

lemma members_length:
  "clean_json_members m left d b out = (out', b') \<Longrightarrow> length out' \<le> left + length out"
proof (induction m arbitrary: left b out)
  case (Cons kx m)
  obtain k x where kx: "kx = (k, x)" by (cases kx)
  show ?case
  proof (cases left)
    case (Suc l)
    have "length (obj_insert (strip_nul k) y out) \<le> Suc (length out)" for y
      by (simp add: length_obj_insert)
    then have "length (obj_insert (strip_nul k) y out) + l \<le> left + length out" for y
      using Suc by (metis add_Suc_right add.commute add_le_mono le_refl plus_1_eq_Suc add_Suc)
    with Suc show ?thesis using Cons.IH[of l] Cons.prems kx
      by (fastforce simp: Let_def add.commute split: if_splits prod.splits intro: le_trans)
  qed (use Cons.prems kx in simp)
qed simp

lemma clean_json_inner_bounded:
  "bounded False d (fst (clean_json_inner v d b))"
  "\<forall>y \<in> set (fst (clean_json_items xs left d b)). bounded False d y"
  "\<forall>(k, y) \<in> set out. key_within False k \<and> bounded False d y \<Longrightarrow>
   \<forall>(k, y) \<in> set (fst (clean_json_members m left d b out)). key_within False k \<and> bounded False d y"
proof (induction v d b and xs left d b and m left d b out
    rule: clean_json_inner_clean_json_items_clean_json_members.induct)
  case (1 v d b)
  show ?case
  proof (cases "b - 1 < 0 \<or> JSON_MAX_DEPTH < d")
    case True
    then show ?thesis by (simp add: clean_json_inner.simps[of v d b] bounded.simps)
  next
    case False
    then have d: "d \<le> JSON_MAX_DEPTH" by simp
    show ?thesis
    proof (cases v)
      case (JArr a)
      obtain ys b' where ys: "clean_json_items a JSON_MAX_ITEMS (Suc d) (b - 1) = (ys, b')"
        by (metis surj_pair)
      with False JArr show ?thesis
        using "1.IH"(1)[OF refl False JArr] clean_json_items_length[of a JSON_MAX_ITEMS "Suc d" "b - 1"]
        by (simp add: clean_json_inner.simps[of "JArr a" d b] bounded.simps[of _ d] d split: prod.splits)
    next
      case (JObj m)
      obtain o' b' where o': "clean_json_members m JSON_MAX_ITEMS (Suc d) (b - 1) [] = (o', b')"
        by (metis surj_pair)
      have "obj_wf o'" using members_invariant[OF o', of obj_wf] by simp
      moreover have "length o' \<le> JSON_MAX_ITEMS" using members_length[OF o'] by simp
      ultimately show ?thesis using "1.IH"(2)[OF refl False JObj] False JObj o'
        by (simp add: clean_json_inner.simps[of "JObj m" d b] bounded.simps[of _ d] d)
    next
      case (JNum n)
      with False show ?thesis
        by (auto simp: clean_json_inner.simps[of "JNum n" d b] bounded.simps d Let_def
            dest: int_of_idem split: option.splits)
    qed (use False in \<open>simp_all add: clean_json_inner.simps[of _ d b] bounded.simps d\<close>)
  qed
next
  case (3 x xs left d b)
  then show ?case by (auto simp: Let_def split: nat.splits prod.splits)
next
  case (5 k x m left d b out)
  show ?case
  proof (cases left)
    case (Suc l)
    show ?thesis
    proof (cases "key_ok k")
      case True
      obtain y c where y: "clean_json_inner x d b = (y, c)" by (metis surj_pair)
      have "bounded False d y" using "5.IH"(1)[OF Suc True] y by simp
      then have "\<forall>(k', y') \<in> set (obj_insert (strip_nul k) y out). key_within False k' \<and> bounded False d y'"
        using "5.prems" set_obj_insert[of "strip_nul k" y out] strip_nul_within[OF True] by blast
      from "5.IH"(2)[OF Suc True y[symmetric] refl this] show ?thesis using Suc True y by simp
    next
      case False
      then show ?thesis using "5.IH"(3)[OF Suc False "5.prems"] Suc by simp
    qed
  qed (use "5.prems" in simp)
qed simp_all

subsection \<open>The node budget\<close>

lemma sum_vals_insert:
  "sum_list (map (\<lambda>(k, x). vals x) (obj_insert k y m)) \<le> vals y + sum_list (map (\<lambda>(k, x). vals x) m)"
  by (induction m) auto

text \<open>Every value kept costs one unit of the budget, whatever is replaced or cut.\<close>

lemma clean_json_inner_budget:
  "clean_json_inner v d b = (y, b') \<Longrightarrow> int (vals y) + max 0 b' \<le> max 0 b"
  "clean_json_items xs left d b = (ys, b') \<Longrightarrow> int (sum_list (map vals ys)) + max 0 b' \<le> max 0 b"
  "clean_json_members m left d b out = (out', b') \<Longrightarrow>
     int (sum_list (map (\<lambda>(k, x). vals x) out')) + max 0 b'
     \<le> int (sum_list (map (\<lambda>(k, x). vals x) out)) + max 0 b"
proof (induction v d b and xs left d b and m left d b out arbitrary: y b' and ys b' and out' b'
    rule: clean_json_inner_clean_json_items_clean_json_members.induct)
  case (1 v d b)
  show ?case
  proof (cases "b - 1 < 0 \<or> JSON_MAX_DEPTH < d")
    case True
    with "1.prems" show ?thesis by (auto simp: clean_json_inner.simps[of v d b] Let_def)
  next
    case False
    show ?thesis
    proof (cases v)
      case (JArr a)
      obtain ys c where ys: "clean_json_items a JSON_MAX_ITEMS (Suc d) (b - 1) = (ys, c)"
        by (metis surj_pair)
      with False JArr "1.prems" show ?thesis
        using "1.IH"(1)[OF refl False JArr, of ys c]
        by (auto simp: clean_json_inner.simps[of "JArr a" d b])
    next
      case (JObj m)
      obtain o' c where o': "clean_json_members m JSON_MAX_ITEMS (Suc d) (b - 1) [] = (o', c)"
        by (metis surj_pair)
      with False JObj "1.prems" show ?thesis
        using "1.IH"(2)[OF refl False JObj, of o' c]
        by (auto simp: clean_json_inner.simps[of "JObj m" d b])
    qed (use False "1.prems" in \<open>auto simp: clean_json_inner.simps[of _ d b] Let_def
        split: if_splits option.splits\<close>)
  qed
next
  case (3 x xs left d b)
  show ?case
  proof (cases left)
    case (Suc l)
    obtain y c where y: "clean_json_inner x d b = (y, c)" by (metis surj_pair)
    obtain zs e where zs: "clean_json_items xs l d c = (zs, e)" by (metis surj_pair)
    show ?thesis
      using "3.IH"(1)[OF Suc y] "3.IH"(2)[OF Suc y[symmetric] refl zs] "3.prems" Suc y zs by auto
  qed (use "3.prems" in auto)
next
  case (5 k x m left d b out)
  show ?case
  proof (cases left)
    case (Suc l)
    show ?thesis
    proof (cases "key_ok k")
      case True
      obtain y c where y: "clean_json_inner x d b = (y, c)" by (metis surj_pair)
      show ?thesis
        using "5.IH"(1)[OF Suc True y] "5.IH"(2)[OF Suc True y[symmetric] refl, of out' b']
          "5.prems" Suc True y sum_vals_insert[of "strip_nul k" y out] by auto
    next
      case False
      then show ?thesis using "5.IH"(3)[OF Suc False, of out' b'] "5.prems" Suc by simp
    qed
  qed (use "5.prems" in simp)
qed auto

text \<open>A value within every bound passes unchanged and costs exactly its number of nodes.\<close>

lemma clean_json_inner_id:
  "bounded True d v \<Longrightarrow> int (nodes v) \<le> b \<Longrightarrow> clean_json_inner v d b = (v, b - int (nodes v))"
  "\<forall>x \<in> set xs. bounded True d x \<Longrightarrow> int (sum_list (map nodes xs)) \<le> b \<Longrightarrow> length xs \<le> left \<Longrightarrow>
   clean_json_items xs left d b = (xs, b - int (sum_list (map nodes xs)))"
  "\<forall>(k, x) \<in> set m. key_within True k \<and> bounded True d x \<Longrightarrow>
   int (sum_list (map (\<lambda>kv. nodes (snd kv)) m)) \<le> b \<Longrightarrow> length m \<le> left \<Longrightarrow>
   distinct (map fst out @ map fst m) \<Longrightarrow>
   clean_json_members m left d b out = (out @ m, b - int (sum_list (map (\<lambda>kv. nodes (snd kv)) m)))"
proof (induction v d b and xs left d b and m left d b out
    rule: clean_json_inner_clean_json_items_clean_json_members.induct)
  case (1 v d b)
  show ?case
  proof (cases "b - 1 < 0 \<or> JSON_MAX_DEPTH < d")
    case True
    with "1.prems" have "v = JNull" by (cases v) (auto simp: bounded.simps)
    with True "1.prems" show ?thesis by (auto simp: clean_json_inner.simps[of _ d b] Let_def)
  next
    case False
    show ?thesis
    proof (cases v)
      case (JArr a)
      with "1.prems" show ?thesis
        using "1.IH"(1)[OF refl False JArr] False
        by (auto simp: clean_json_inner.simps[of "JArr a" d b] bounded.simps[of _ d] Let_def)
    next
      case (JObj m)
      with "1.prems" show ?thesis
        using "1.IH"(2)[OF refl False JObj] False
        by (auto simp: clean_json_inner.simps[of "JObj m" d b] bounded.simps[of _ d] obj_wf_def Let_def)
    next
      case (JNum n)
      with False "1.prems" show ?thesis
        by (auto simp: clean_json_inner.simps[of "JNum n" d b] bounded.simps[of _ d] Let_def
            dest: int_of_not_f64)
    qed (use False "1.prems" in \<open>auto simp: clean_json_inner.simps[of _ d b] bounded.simps[of _ d]
        cap_str_id Let_def\<close>)
  qed
next
  case (3 x xs left d b)
  then show ?case by (cases left) (auto simp: Let_def)
next
  case (5 k x m left d b out)
  then obtain l where l: "left = Suc l" by (cases left) auto
  have k: "key_ok k" "strip_nul k = k"
    using "5.prems"(1) by (auto intro: key_ok_strict strip_nul_id)
  have x: "clean_json_inner x d b = (x, b - int (nodes x))"
    using "5.IH"(1)[OF l k(1)] "5.prems" by auto
  have ins: "obj_insert k x out = out @ [(k, x)]"
    using "5.prems"(4) by (intro obj_insert_fresh) auto
  show ?case
    using "5.IH"(2)[OF l k(1) x[symmetric] refl] "5.prems" k x l ins by auto
qed simp_all

section \<open>The contract of cleaning\<close>

lemma conforms_JNull [simp]: "conforms strict JNull sp"
  by (cases sp) (auto simp: bounded.simps JSON_MAX_NODES_def)

lemma clean_JNull [simp]: "clean JNull sp = JNull"
  by (cases sp) auto

lemma clean_json_conforms: "bounded False 0 (clean_json v) \<and> int (vals (clean_json v)) \<le> JSON_MAX_NODES"
proof -
  obtain y b' where y: "clean_json_inner v 0 JSON_MAX_NODES = (y, b')" by (metis surj_pair)
  show ?thesis
    using clean_json_inner_bounded(1)[of 0 v JSON_MAX_NODES] clean_json_inner_budget(1)[OF y] y
    by (simp add: clean_json_def JSON_MAX_NODES_def)
qed

lemma clean_json_id: "bounded True 0 v \<Longrightarrow> int (nodes v) \<le> JSON_MAX_NODES \<Longrightarrow> clean_json v = v"
  by (simp add: clean_json_def clean_json_inner_id(1))

lemma clean_conforms_spec: "spec_wf sp \<Longrightarrow> conforms False (clean v sp) sp"
proof (induction sp arbitrary: v)
  case SJson
  then show ?case using clean_json_conforms by (auto simp: bounded.simps JSON_MAX_NODES_def)
next
  case (SList sub cap)
  have "length (filter P (map f (take cap a))) \<le> cap" for P and f :: "json \<Rightarrow> json" and a
    by (rule le_trans[OF length_filter_le]) simp
  with SList show ?case by (auto split: json.splits)
next
  case (SMap sub cap)
  show ?case
  proof (cases v)
    case (JObj m)
    define kvs where "kvs = map (\<lambda>(k, c). (strip_nul k, c)) (filter (\<lambda>(k, c). key_ok k \<and> c \<noteq> JNull)
      (map (\<lambda>(k, x). (k, clean x sub)) (take cap m)))"
    have "length kvs \<le> cap"
      unfolding kvs_def length_map by (rule le_trans[OF length_filter_le]) simp
    then have "length (obj_of kvs) \<le> cap" using length_obj_of_le le_trans by blast
    moreover have "\<forall>(k, x) \<in> set kvs. key_within False k \<and> x \<noteq> JNull \<and> conforms False x sub"
      using SMap by (auto simp: kvs_def strip_nul_within)
    ultimately show ?thesis using set_obj_of[of kvs] JObj by (auto simp flip: kvs_def)
  qed auto
next
  case (SObj fs)
  show ?case
  proof (cases v)
    case (JObj m)
    define kvs where "kvs = map (\<lambda>(k, sub). (k, clean (obj_get_or_null m k) sub)) fs"
    have keys: "map fst kvs = map fst fs" by (auto simp: kvs_def)
    then have of: "obj_of kvs = kvs" using SObj.prems by (simp add: obj_of_distinct)
    have "conforms False (obj_get_or_null kvs k) sub" if "(k, sub) \<in> set fs" for k sub
    proof -
      have "(k, clean (obj_get_or_null m k) sub) \<in> set kvs" using that by (force simp: kvs_def)
      then have "obj_get_or_null kvs k = clean (obj_get_or_null m k) sub"
        using SObj.prems keys by (simp add: obj_get_or_null_def obj_get_in obj_wf_def)
      moreover have "spec_wf sub" using SObj.prems that by auto
      ultimately show ?thesis using SObj.IH[OF that] by (simp add: snds.simps)
    qed
    then show ?thesis using JObj of keys by (auto simp flip: kvs_def)
  qed auto
qed (auto simp: clean_num_def int_of_idem split: json.splits option.splits)

lemma clean_id: "spec_wf sp \<Longrightarrow> conforms True v sp \<Longrightarrow> clean v sp = v"
proof (induction sp arbitrary: v)
  case SJson
  then show ?case by (auto intro: clean_json_id)
next
  case (SStr n)
  then show ?case by (auto simp: cap_str_id split: json.splits)
next
  case (SList sub cap)
  show ?case
  proof (cases v)
    case (JArr a)
    with SList have "\<forall>x \<in> set a. clean x sub = x \<and> x \<noteq> JNull" by auto
    then have "map (\<lambda>x. clean x sub) a = a" "filter (\<lambda>x. x \<noteq> JNull) a = a"
      by (simp_all add: map_idI)
    with JArr SList.prems show ?thesis by simp
  qed (use SList.prems in auto)
next
  case (SMap sub cap)
  show ?case
  proof (cases v)
    case (JObj m)
    with SMap have m: "\<forall>(k, x) \<in> set m. key_ok k \<and> strip_nul k = k \<and> clean x sub = x \<and> x \<noteq> JNull"
      by (auto simp: key_ok_strict strip_nul_id)
    have 1: "map (\<lambda>(k, x). (k, clean x sub)) m = m" using m by (intro map_idI) auto
    have 2: "filter (\<lambda>(k, c). key_ok k \<and> c \<noteq> JNull) m = m" using m by (intro filter_True) auto
    have 3: "map (\<lambda>(k, c). (strip_nul k, c)) m = m" using m by (intro map_idI) auto
    have "obj_of m = m" using SMap.prems JObj by (simp add: obj_of_distinct obj_wf_def)
    with 1 2 3 JObj SMap.prems show ?thesis by simp
  qed (use SMap.prems in auto)
next
  case (SObj fs)
  show ?case
  proof (cases v)
    case (JObj m)
    with SObj.prems have keys: "map fst m = map fst fs" and d: "distinct (map fst m)" by auto
    have "(k, clean (obj_get_or_null m k) sub) = (k, obj_get_or_null m k)" if "(k, sub) \<in> set fs" for k sub
    proof -
      have "spec_wf sub" "conforms True (obj_get_or_null m k) sub" using SObj.prems JObj that by auto
      then show ?thesis using SObj.IH[OF that, of sub] by (simp add: snds.simps)
    qed
    then have "map (\<lambda>(k, sub). (k, clean (obj_get_or_null m k) sub)) fs
        = map (\<lambda>k. (k, obj_get_or_null m k)) (map fst m)"
      by (auto simp: keys)
    also have "\<dots> = m"
      using d by (auto simp: obj_get_or_null_def obj_get_in obj_wf_def intro!: map_idI)
    finally show ?thesis using JObj d by (simp add: obj_of_distinct)
  qed (use SObj.prems in auto)
qed (auto simp: clean_num_def dest: int_of_not_f64 split: json.splits option.splits)

lemma spec_wf_fields: "spec_wf (SObj fs) \<Longrightarrow> (k, sub) \<in> set fs \<Longrightarrow> spec_wf sub"
  by auto

text \<open>\<open>clean(...)\<close> of an object specification as an object.\<close>

lemma clean_obj_conforms:
  assumes "spec_wf (SObj fs)" "is_object v"
  shows "conforms False (JObj (clean_obj v (SObj fs))) (SObj fs)"
    and "map fst (clean_obj v (SObj fs)) = map fst fs"
proof -
  obtain m where "v = JObj m" using assms(2) by (cases v) auto
  then have "clean v (SObj fs) = JObj (clean_obj v (SObj fs))" by (simp add: clean_obj_def)
  with clean_conforms_spec[OF assms(1), of v]
  show "conforms False (JObj (clean_obj v (SObj fs))) (SObj fs)" by simp
  then show "map fst (clean_obj v (SObj fs)) = map fst fs" by simp
qed

lemma clean_obj_get:
  assumes "distinct (map fst fs)"
  shows "obj_get (clean_obj (JObj m) (SObj fs)) k =
    (case map_of fs k of None \<Rightarrow> None | Some sub \<Rightarrow> Some (clean (obj_get_or_null m k) sub))"
proof -
  let ?kvs = "map (\<lambda>(k, sub). (k, clean (obj_get_or_null m k) sub)) fs"
  have "obj_of ?kvs = ?kvs"
    using assms by (intro obj_of_distinct) (simp add: comp_def case_prod_unfold)
  moreover have "map_of ?kvs k = map_option (clean (obj_get_or_null m k)) (map_of fs k)"
    by (induction fs) auto
  ultimately show ?thesis
    by (auto simp: clean_obj_def obj_get_def split: option.splits)
qed

end
