(* ===== verification/Specs.thy ===== *)
theory Specs
  imports Clean
begin

text \<open>
  Every message, argument, result and event shape of protocol version 1, transcribed from
  crates/ec-proto/src/specs.rs in the same field order, with the lookup functions over the four
  tables. The lemmas at the end are the contract tests of the tables: no field is named twice at
  any level, every operation has its argument and result shape, every required argument is a
  declared field, and what a node in monitor mode may run is a list of known operations.
\<close>

section \<open>Limits (crates/ec-proto/src/lib.rs)\<close>

definition MAX_METRICS_TEXT :: nat where "MAX_METRICS_TEXT = 512 * 1024"
definition MAX_LOG_TEXT :: nat where "MAX_LOG_TEXT = 768 * 1024"
definition MAX_FILE_CONTENT :: nat where "MAX_FILE_CONTENT = 128 * 1024"

section \<open>The shapes\<close>

definition gpu_static_spec :: spec where
  "gpu_static_spec = SObj
     [(U ''index'', SInt),
      (U ''uuid'', SStr 96),
      (U ''name'', SStr 128),
      (U ''total_bytes'', SInt),
      (U ''compute_capability'', SStr 16),
      (U ''unified_memory'', SBool),
      (U ''pci_bus_id'', SStr 32)]"

definition root_spec :: spec where
  "root_spec = SObj
     [(U ''id'', SStr 32),
      (U ''path'', SStr 512),
      (U ''kind'', SStr 16),
      (U ''writable'', SBool),
      (U ''label'', SStr 64)]"

definition script_action_spec :: spec where
  "script_action_spec = SObj
     [(U ''name'', SStr 32),
      (U ''label'', SStr 64),
      (U ''args'', SList (SStr 64) 32),
      (U ''confirm'', SBool),
      (U ''danger'', SBool)]"

definition script_spec :: spec where
  "script_spec = SObj
     [(U ''name'', SStr 32),
      (U ''label'', SStr 64),
      (U ''engine'', SStr 32),
      (U ''description'', SStr 500),
      (U ''actions'', SList (script_action_spec) 16),
      (U ''containers'', SList (SStr 128) 16),
      (U ''status_action'', SStr 32)]"

definition policy_spec :: spec where
  "policy_spec = SObj
     [(U ''path'', SStr 512),
      (U ''mode'', SStr 16),
      (U ''error'', SStr 500),
      (U ''engine_images'', SList (SStr 256) 64),
      (U ''gateway_image'', SStr 256),
      (U ''engine_network'', SStr 64),
      (U ''port_range'', SList (SInt) 2),
      (U ''discovery_ports'', SList (SInt) 128),
      (U ''model_roots'', SList (root_spec) 32),
      (U ''scripts'', SList (script_spec) 32),
      (U ''allow_pull'', SBool),
      (U ''allow_delete'', SBool),
      (U ''allow_ipc_host'', SBool),
      (U ''external_control'', SStr 16),
      (U ''max_shm_gib'', SNum)]"

definition hello_spec :: spec where
  "hello_spec = SObj
     [(U ''proto'', SInt),
      (U ''version'', SStr 32),
      (U ''node_id'', SStr 64),
      (U ''host'', SObj [(U ''hostname'', SStr 253), (U ''arch'', SStr 32), (U ''os'', SStr 128), (U ''kernel'', SStr 128), (U ''cpu_model'', SStr 128), (U ''cpu_cores'', SInt), (U ''cpu_threads'', SInt), (U ''ram_total_bytes'', SInt), (U ''boot_time'', SNum), (U ''python'', SStr 32)]),
      (U ''gpu'', SObj [(U ''driver'', SStr 64), (U ''cuda'', SStr 32), (U ''source'', SStr 16), (U ''error'', SStr 500)]),
      (U ''gpus'', SList (gpu_static_spec) 16),
      (U ''docker'', SObj [(U ''available'', SBool), (U ''context'', SStr 64), (U ''rootless'', SBool), (U ''version'', SStr 64), (U ''nvidia_runtime'', SBool), (U ''error'', SStr 500)]),
      (U ''addresses'', SList (SObj [(U ''iface'', SStr 32), (U ''addr'', SStr 64), (U ''prefix'', SInt)]) 64),
      (U ''policy'', policy_spec),
      (U ''forced_cmd'', SBool),
      (U ''via_ssh'', SBool)]"

definition gpu_proc_spec :: spec where
  "gpu_proc_spec = SObj
     [(U ''pid'', SInt),
      (U ''used_bytes'', SInt),
      (U ''container'', SStr 128),
      (U ''name'', SStr 64)]"

definition gpu_sample_spec :: spec where
  "gpu_sample_spec = SObj
     [(U ''util_pct'', SNum),
      (U ''mem_used_bytes'', SInt),
      (U ''mem_total_bytes'', SInt),
      (U ''temp_c'', SNum),
      (U ''power_w'', SNum),
      (U ''power_limit_w'', SNum),
      (U ''fan_pct'', SNum),
      (U ''procs'', SList (gpu_proc_spec) 32)]"

definition mem_spec :: spec where
  "mem_spec = SObj
     [(U ''total'', SInt),
      (U ''available'', SInt),
      (U ''free'', SInt),
      (U ''cached'', SInt),
      (U ''shmem'', SInt),
      (U ''swap_total'', SInt),
      (U ''swap_free'', SInt)]"

definition cg_mem_spec :: spec where
  "cg_mem_spec = SObj
     [(U ''current'', SInt),
      (U ''anon'', SInt),
      (U ''file'', SInt),
      (U ''shmem'', SInt),
      (U ''kernel'', SInt),
      (U ''source'', SStr 8)]"

definition sample_spec :: spec where
  "sample_spec = SObj
     [(U ''seq'', SInt),
      (U ''t'', SNum),
      (U ''gpus'', SMap (gpu_sample_spec) 16),
      (U ''mem'', mem_spec),
      (U ''cpu'', SObj [(U ''load1'', SNum), (U ''load5'', SNum), (U ''load15'', SNum), (U ''util_pct'', SNum)]),
      (U ''containers'', SMap (SObj [(U ''mem'', cg_mem_spec), (U ''cpu_pct'', SNum)]) 256)]"

definition mount_spec :: spec where
  "mount_spec = SObj
     [(U ''mount'', SStr 512),
      (U ''fstype'', SStr 32),
      (U ''source'', SStr 512),
      (U ''device'', SStr 64),
      (U ''model'', SStr 128),
      (U ''size'', SInt),
      (U ''used'', SInt),
      (U ''free'', SInt),
      (U ''readonly'', SBool),
      (U ''remote'', SBool),
      (U ''remote_host'', SStr 253),
      (U ''remote_path'', SStr 512),
      (U ''roots'', SList (SStr 32) 32)]"

definition disks_spec :: spec where
  "disks_spec = SObj
     [(U ''t'', SNum),
      (U ''mounts'', SList (mount_spec) 64)]"

definition port_map_spec :: spec where
  "port_map_spec = SObj
     [(U ''host_ip'', SStr 64),
      (U ''host_port'', SInt),
      (U ''container_port'', SInt)]"

definition container_mount_spec :: spec where
  "container_mount_spec = SObj
     [(U ''source'', SStr 512),
      (U ''dest'', SStr 512),
      (U ''ro'', SBool),
      (U ''root'', SStr 32),
      (U ''rel'', SStr 1024)]"

definition container_spec :: spec where
  "container_spec = SObj
     [(U ''name'', SStr 128),
      (U ''id'', SStr 64),
      (U ''image'', SStr 256),
      (U ''image_id'', SStr 80),
      (U ''state'', SStr 16),
      (U ''status'', SStr 128),
      (U ''created'', SNum),
      (U ''started_at'', SNum),
      (U ''pid'', SInt),
      (U ''exit_code'', SInt),
      (U ''labels'', SMap (SStr 256) 48),
      (U ''engine'', SStr 32),
      (U ''managed'', SBool),
      (U ''role'', SStr 16),
      (U ''instance'', SStr 64),
      (U ''ports'', SList (port_map_spec) 20),
      (U ''argv'', SList (SStr 1024) 400),
      (U ''params'', SMap (SStr 200) 60),
      (U ''gpus'', SList (SStr 96) 16),
      (U ''all_gpus'', SBool),
      (U ''mounts'', SList (container_mount_spec) 32),
      (U ''network_mode'', SStr 64),
      (U ''compose_project'', SStr 128),
      (U ''compose_service'', SStr 128)]"

definition endpoint_spec :: spec where
  "endpoint_spec = SObj
     [(U ''port'', SInt),
      (U ''container'', SStr 128),
      (U ''engine'', SStr 32),
      (U ''models'', SList (SStr 200) 20),
      (U ''health_status'', SInt),
      (U ''models_status'', SInt),
      (U ''metrics_status'', SInt),
      (U ''auth_required'', SBool)]"

definition script_status_spec :: spec where
  "script_status_spec = SObj
     [(U ''name'', SStr 32),
      (U ''status'', SStr 16),
      (U ''detail'', SStr 500),
      (U ''checked_at'', SNum)]"

definition inventory_spec :: spec where
  "inventory_spec = SObj
     [(U ''t'', SNum),
      (U ''containers'', SList (container_spec) 256),
      (U ''endpoints'', SList (endpoint_spec) 64),
      (U ''scripts'', SList (script_status_spec) 32)]"

definition metrics_spec :: spec where
  "metrics_spec = SObj
     [(U ''t'', SNum),
      (U ''port'', SInt),
      (U ''container'', SStr 128),
      (U ''engine'', SStr 32),
      (U ''status'', SInt),
      (U ''text'', SStr MAX_METRICS_TEXT)]"

definition models_changed_spec :: spec where
  "models_changed_spec = SObj
     [(U ''generation'', SInt),
      (U ''t'', SNum)]"

definition log_spec :: spec where
  "log_spec = SObj
     [(U ''level'', SStr 8),
      (U ''msg'', SStr 1000)]"

definition fatal_spec :: spec where
  "fatal_spec = SObj
     [(U ''error'', SStr 1000)]"

definition pong_spec :: spec where
  "pong_spec = SObj
     [(U ''id'', SInt)]"

definition credit_spec :: spec where
  "credit_spec = SObj
     [(U ''id'', SInt),
      (U ''bytes'', SInt)]"

definition error_spec :: spec where
  "error_spec = SObj
     [(U ''code'', SStr 64),
      (U ''message'', SStr 1000)]"

definition PUSH_TYPES :: "ustr list" where
  "PUSH_TYPES =
     [U ''hello'', U ''sample'', U ''disks'', U ''inventory'', U ''metrics'', U ''models_changed'', U ''log'', U ''fatal'', U ''pong'', U ''credit'']"

definition PUSH :: "(ustr \<times> spec) list" where
  "PUSH =
     [(U ''hello'', hello_spec),
      (U ''sample'', sample_spec),
      (U ''disks'', disks_spec),
      (U ''inventory'', inventory_spec),
      (U ''metrics'', metrics_spec),
      (U ''models_changed'', models_changed_spec),
      (U ''log'', log_spec),
      (U ''fatal'', fatal_spec),
      (U ''pong'', pong_spec),
      (U ''credit'', credit_spec)]"

definition run_mount_spec :: spec where
  "run_mount_spec = SObj
     [(U ''root'', SStr 32),
      (U ''rel'', SStr 1024),
      (U ''dest'', SStr 512),
      (U ''ro'', SBool)]"

definition run_volume_spec :: spec where
  "run_volume_spec = SObj
     [(U ''name'', SStr 64),
      (U ''dest'', SStr 512)]"

definition run_spec_spec :: spec where
  "run_spec_spec = SObj
     [(U ''name'', SStr 64),
      (U ''instance'', SStr 64),
      (U ''image'', SStr 256),
      (U ''argv'', SList (SStr 4096) 512),
      (U ''container_port'', SInt),
      (U ''gpu_uuids'', SList (SStr 96) 16),
      (U ''network_alias'', SStr 64),
      (U ''labels'', SMap (SStr 256) 32),
      (U ''env'', SMap (SStr 4096) 128),
      (U ''secret_env'', SMap (SStr 4096) 16),
      (U ''mounts'', SList (run_mount_spec) 16),
      (U ''volumes'', SList (run_volume_spec) 8),
      (U ''shm_size'', SStr 16),
      (U ''ipc_host'', SBool),
      (U ''files'', SMap (SStr MAX_FILE_CONTENT) 4),
      (U ''ulimits'', SMap (SStr 32) 4)]"

definition OPS :: "ustr list" where
  "OPS =
     [U ''node.info'', U ''metrics.configure'', U ''docker.render'', U ''docker.run'', U ''docker.stop'', U ''docker.start'', U ''docker.rm'', U ''docker.inspect'', U ''docker.logs'', U ''docker.logs_follow'', U ''docker.image_present'', U ''docker.images'', U ''docker.pull'', U ''docker.external'', U ''net.ensure_internal'', U ''gateway.start'', U ''http.request'', U ''fs.stat'', U ''fs.write'', U ''fs.read'', U ''fs.symlink'', U ''fs.put_small'', U ''fs.delete'', U ''models.scan'', U ''models.list'', U ''models.config'', U ''scripts.run'']"

definition MONITOR_OPS :: "ustr list" where
  "MONITOR_OPS =
     [U ''node.info'', U ''metrics.configure'', U ''docker.render'', U ''docker.inspect'', U ''docker.logs'', U ''docker.logs_follow'', U ''docker.image_present'', U ''docker.images'', U ''http.request'', U ''fs.stat'', U ''fs.read'', U ''models.scan'', U ''models.list'', U ''models.config'']"

definition UPLOAD_OPS :: "ustr list" where
  "UPLOAD_OPS =
     [U ''fs.write'', U ''http.request'']"

definition ARGS :: "(ustr \<times> spec) list" where
  "ARGS =
     [(U ''node.info'', SObj []),
      (U ''metrics.configure'', SObj [(U ''interval_s'', SNum), (U ''families'', SMap (SList (SStr 64) 32) 16)]),
      (U ''docker.render'', SObj [(U ''spec'', run_spec_spec)]),
      (U ''docker.run'', SObj [(U ''spec'', run_spec_spec)]),
      (U ''docker.stop'', SObj [(U ''name'', SStr 128), (U ''timeout_s'', SInt), (U ''role'', SStr 16), (U ''instance'', SStr 64)]),
      (U ''docker.start'', SObj [(U ''name'', SStr 128), (U ''role'', SStr 16), (U ''instance'', SStr 64)]),
      (U ''docker.rm'', SObj [(U ''name'', SStr 128), (U ''role'', SStr 16), (U ''instance'', SStr 64)]),
      (U ''docker.inspect'', SObj [(U ''name'', SStr 128)]),
      (U ''docker.logs'', SObj [(U ''name'', SStr 128), (U ''tail'', SInt)]),
      (U ''docker.logs_follow'', SObj [(U ''name'', SStr 128), (U ''tail'', SInt)]),
      (U ''docker.image_present'', SObj [(U ''image'', SStr 256)]),
      (U ''docker.images'', SObj []),
      (U ''docker.pull'', SObj [(U ''image'', SStr 256)]),
      (U ''docker.external'', SObj [(U ''name'', SStr 128), (U ''action'', SStr 16)]),
      (U ''net.ensure_internal'', SObj []),
      (U ''gateway.start'', SObj [(U ''name'', SStr 128), (U ''instance'', SStr 64), (U ''host_port'', SInt), (U ''engine_host'', SStr 64), (U ''engine_port'', SInt)]),
      (U ''http.request'', SObj [(U ''port'', SInt), (U ''method'', SStr 8), (U ''path'', SStr 2048), (U ''headers'', SMap (SStr 4096) 32), (U ''body_len'', SInt), (U ''timeout_s'', SNum)]),
      (U ''fs.stat'', SObj [(U ''root'', SStr 32), (U ''paths'', SList (SStr 1024) 256)]),
      (U ''fs.write'', SObj [(U ''root'', SStr 32), (U ''rel'', SStr 1024), (U ''size'', SInt), (U ''sha256'', SStr 64), (U ''offset'', SInt)]),
      (U ''fs.read'', SObj [(U ''root'', SStr 32), (U ''rel'', SStr 1024), (U ''offset'', SInt), (U ''length'', SInt)]),
      (U ''fs.symlink'', SObj [(U ''root'', SStr 32), (U ''link'', SStr 1024), (U ''target'', SStr 1024)]),
      (U ''fs.put_small'', SObj [(U ''root'', SStr 32), (U ''rel'', SStr 1024), (U ''content_b64'', SStr (128 * 1024))]),
      (U ''fs.delete'', SObj [(U ''root'', SStr 32), (U ''rel'', SStr 1024)]),
      (U ''models.scan'', SObj [(U ''roots'', SList (SStr 32) 32), (U ''force'', SBool)]),
      (U ''models.list'', SObj [(U ''cursor'', SInt), (U ''limit'', SInt)]),
      (U ''models.config'', SObj [(U ''root'', SStr 32), (U ''rel'', SStr 1024)]),
      (U ''scripts.run'', SObj [(U ''name'', SStr 32), (U ''action'', SStr 32), (U ''arg'', SStr 64)])]"

definition required :: "ustr \<Rightarrow> ustr list" where
  "required op =
     (if op \<in> set [U ''metrics.configure''] then [U ''families'']
      else if op \<in> set [U ''docker.render'', U ''docker.run''] then [U ''spec'']
      else if op \<in> set [U ''docker.stop'', U ''docker.start'', U ''docker.rm'', U ''docker.inspect'', U ''docker.logs'', U ''docker.logs_follow''] then [U ''name'']
      else if op \<in> set [U ''docker.image_present'', U ''docker.pull''] then [U ''image'']
      else if op \<in> set [U ''docker.external'', U ''scripts.run''] then [U ''name'', U ''action'']
      else if op \<in> set [U ''gateway.start''] then [U ''name'', U ''instance'', U ''host_port'', U ''engine_host'', U ''engine_port'']
      else if op \<in> set [U ''http.request''] then [U ''port'', U ''method'', U ''path'']
      else if op \<in> set [U ''fs.stat''] then [U ''root'', U ''paths'']
      else if op \<in> set [U ''fs.write''] then [U ''root'', U ''rel'', U ''size'']
      else if op \<in> set [U ''fs.read'', U ''fs.delete'', U ''models.config''] then [U ''root'', U ''rel'']
      else if op \<in> set [U ''fs.symlink''] then [U ''root'', U ''link'', U ''target'']
      else if op \<in> set [U ''fs.put_small''] then [U ''root'', U ''rel'', U ''content_b64'']
      else [])"

definition REQUIRED_OPS :: "ustr list" where
  "REQUIRED_OPS =
     [U ''metrics.configure'', U ''docker.render'', U ''docker.run'', U ''docker.stop'', U ''docker.start'', U ''docker.rm'', U ''docker.inspect'', U ''docker.logs'', U ''docker.logs_follow'', U ''docker.image_present'', U ''docker.pull'', U ''docker.external'', U ''gateway.start'', U ''http.request'', U ''fs.stat'', U ''fs.write'', U ''fs.read'', U ''fs.symlink'', U ''fs.put_small'', U ''fs.delete'', U ''models.config'', U ''scripts.run'']"

definition image_spec :: spec where
  "image_spec = SObj
     [(U ''ref'', SStr 256),
      (U ''id'', SStr 80),
      (U ''size'', SInt),
      (U ''created'', SNum),
      (U ''arch'', SStr 16)]"

definition model_entry_spec :: spec where
  "model_entry_spec = SObj
     [(U ''root'', SStr 32),
      (U ''rel'', SStr 1024),
      (U ''format'', SStr 16),
      (U ''name'', SStr 256),
      (U ''revision'', SStr 64),
      (U ''size'', SInt),
      (U ''files'', SInt),
      (U ''mtime'', SNum),
      (U ''atime'', SNum),
      (U ''quant'', SStr 32),
      (U ''params'', SInt),
      (U ''arch'', SStr 64),
      (U ''context'', SInt),
      (U ''shards'', SInt),
      (U ''meta'', SJson),
      (U ''warnings'', SList (SStr 300) 8)]"

definition root_scan_spec :: spec where
  "root_scan_spec = SObj
     [(U ''root'', SStr 32),
      (U ''scanned_at'', SNum),
      (U ''complete'', SBool),
      (U ''entries'', SInt),
      (U ''error'', SStr 500),
      (U ''duration_s'', SNum)]"

definition RESULTS :: "(ustr \<times> spec) list" where
  "RESULTS =
     [(U ''node.info'', hello_spec),
      (U ''metrics.configure'', SObj []),
      (U ''docker.render'', SObj [(U ''argv'', SList (SStr 4096) 1024)]),
      (U ''docker.run'', SObj [(U ''id'', SStr 64)]),
      (U ''docker.stop'', SObj []),
      (U ''docker.start'', SObj []),
      (U ''docker.rm'', SObj []),
      (U ''docker.inspect'', SObj [(U ''info'', container_spec)]),
      (U ''docker.logs'', SObj [(U ''text'', SStr MAX_LOG_TEXT), (U ''truncated'', SBool)]),
      (U ''docker.logs_follow'', SObj [(U ''lines'', SInt)]),
      (U ''docker.image_present'', SObj [(U ''present'', SBool), (U ''id'', SStr 80)]),
      (U ''docker.images'', SObj [(U ''images'', SList (image_spec) 512)]),
      (U ''docker.pull'', SObj [(U ''id'', SStr 80)]),
      (U ''docker.external'', SObj []),
      (U ''net.ensure_internal'', SObj [(U ''network'', SStr 64)]),
      (U ''gateway.start'', SObj [(U ''id'', SStr 64)]),
      (U ''http.request'', SObj [(U ''status'', SInt), (U ''bytes'', SInt)]),
      (U ''fs.stat'', SObj [(U ''items'', SList (SObj [(U ''rel'', SStr 1024), (U ''exists'', SBool), (U ''is_dir'', SBool), (U ''size'', SInt), (U ''partial'', SInt)]) 256)]),
      (U ''fs.write'', SObj [(U ''size'', SInt), (U ''sha256'', SStr 64)]),
      (U ''fs.read'', SObj [(U ''size'', SInt)]),
      (U ''fs.symlink'', SObj []),
      (U ''fs.put_small'', SObj []),
      (U ''fs.delete'', SObj [(U ''freed'', SInt)]),
      (U ''models.scan'', SObj [(U ''generation'', SInt)]),
      (U ''models.list'', SObj [(U ''generation'', SInt), (U ''entries'', SList (model_entry_spec) 200), (U ''next_cursor'', SInt), (U ''roots'', SList (root_scan_spec) 32)]),
      (U ''models.config'', SObj [(U ''config'', SJson)]),
      (U ''scripts.run'', SObj [(U ''rc'', SInt)])]"

definition EVENTS :: "(ustr \<times> spec) list" where
  "EVENTS =
     [(U ''http.request'', SObj [(U ''status'', SInt), (U ''headers'', SMap (SStr 4096) 64)]),
      (U ''docker.logs_follow'', SObj [(U ''line'', SStr 8192)]),
      (U ''docker.pull'', SObj [(U ''line'', SStr 1024)]),
      (U ''scripts.run'', SObj [(U ''stream'', SStr 8), (U ''line'', SStr 8192)])]"

section \<open>Lookup\<close>

definition push :: "ustr \<Rightarrow> spec option" where
  "push t = map_of PUSH t"

definition is_op :: "ustr \<Rightarrow> bool" where
  "is_op op \<longleftrightarrow> op \<in> set OPS"

definition is_monitor_op :: "ustr \<Rightarrow> bool" where
  "is_monitor_op op \<longleftrightarrow> op \<in> set MONITOR_OPS"

definition args :: "ustr \<Rightarrow> spec option" where
  "args op = map_of ARGS op"

definition results :: "ustr \<Rightarrow> spec" where
  "results op = (case map_of RESULTS op of None \<Rightarrow> SObj [] | Some s \<Rightarrow> s)"

definition events :: "ustr \<Rightarrow> spec" where
  "events op = (case map_of EVENTS op of None \<Rightarrow> SObj [] | Some s \<Rightarrow> s)"

section \<open>The tables are well formed\<close>

lemmas spec_defs =
  gpu_static_spec_def root_spec_def script_action_spec_def script_spec_def policy_spec_def hello_spec_def gpu_proc_spec_def gpu_sample_spec_def mem_spec_def cg_mem_spec_def sample_spec_def mount_spec_def disks_spec_def port_map_spec_def container_mount_spec_def container_spec_def endpoint_spec_def script_status_spec_def inventory_spec_def metrics_spec_def models_changed_spec_def log_spec_def fatal_spec_def pong_spec_def credit_spec_def error_spec_def run_mount_spec_def run_volume_spec_def run_spec_spec_def image_spec_def model_entry_spec_def root_scan_spec_def

fun is_obj_spec :: "spec \<Rightarrow> bool" where
  "is_obj_spec (SObj fs) = True"
| "is_obj_spec s = False"

text \<open>An object specification that names no field twice: what every table entry is.\<close>

definition entry_ok :: "spec \<Rightarrow> bool" where
  "entry_ok s \<longleftrightarrow> spec_wf s \<and> is_obj_spec s"

lemma entry_okE: "entry_ok s \<Longrightarrow> (\<And>fs. s = SObj fs \<Longrightarrow> spec_wf (SObj fs) \<Longrightarrow> P) \<Longrightarrow> P"
  by (cases s) (auto simp: entry_ok_def)

lemma entry_ok_Nil: "entry_ok (SObj [])"
  by (simp add: entry_ok_def)

lemma PUSH_ok: "list_all (\<lambda>e. entry_ok (snd e)) PUSH"
  by (simp add: PUSH_def entry_ok_def spec_defs)

lemma ARGS_ok: "list_all (\<lambda>e. entry_ok (snd e)) ARGS"
  by (simp add: ARGS_def entry_ok_def spec_defs)

lemma RESULTS_ok: "list_all (\<lambda>e. entry_ok (snd e)) RESULTS"
  by (simp add: RESULTS_def entry_ok_def spec_defs)

lemma EVENTS_ok: "list_all (\<lambda>e. entry_ok (snd e)) EVENTS"
  by (simp add: EVENTS_def entry_ok_def)

lemma error_spec_ok: "entry_ok error_spec"
  by (simp add: error_spec_def entry_ok_def)

lemma table_ok: "list_all (\<lambda>e. entry_ok (snd e)) t \<Longrightarrow> map_of t k = Some s \<Longrightarrow> entry_ok s"
  by (auto simp: list_all_iff dest!: map_of_SomeD)

lemma push_ok: "push t = Some s \<Longrightarrow> entry_ok s"
  unfolding push_def by (rule table_ok[OF PUSH_ok])

lemma args_ok: "args op = Some s \<Longrightarrow> entry_ok s"
  unfolding args_def by (rule table_ok[OF ARGS_ok])

lemma results_ok: "entry_ok (results op)"
  by (auto simp: results_def entry_ok_Nil split: option.splits intro: table_ok[OF RESULTS_ok])

lemma events_ok: "entry_ok (events op)"
  by (auto simp: events_def entry_ok_Nil split: option.splits intro: table_ok[OF EVENTS_ok])

lemma keys_ARGS: "map fst ARGS = OPS"
  by (simp add: ARGS_def OPS_def)

lemma keys_RESULTS: "map fst RESULTS = OPS"
  by (simp add: RESULTS_def OPS_def)

lemma keys_PUSH: "map fst PUSH = PUSH_TYPES"
  by (simp add: PUSH_def PUSH_TYPES_def)

lemma args_Some_iff: "(\<exists>s. args op = Some s) \<longleftrightarrow> is_op op"
  unfolding args_def is_op_def keys_ARGS[symmetric] set_map
  by (metis map_of_eq_None_iff option.exhaust option.distinct(1))

lemma MONITOR_OPS_sub: "set MONITOR_OPS \<subseteq> set OPS"
  by (simp add: MONITOR_OPS_def OPS_def)

text \<open>Every required argument of an operation is a field of its argument shape.\<close>

lemma required_fields: "list_all (\<lambda>(op, s). set (required op) \<subseteq> fst ` set (spec_fields s)) ARGS"
  by (simp add: ARGS_def required_def run_spec_spec_def)

lemma required_ops: "required op \<noteq> [] \<longleftrightarrow> op \<in> set REQUIRED_OPS"
  by (simp add: required_def REQUIRED_OPS_def)

lemma required_is_field: "args op = Some s \<Longrightarrow> k \<in> set (required op) \<Longrightarrow> k \<in> fst ` set (spec_fields s)"
  using required_fields by (fastforce simp: args_def list_all_iff dest!: map_of_SomeD)

end
