(* ===== verification/Sanitize.thy ===== *)
theory Sanitize
  imports Frame Specs
begin

text \<open>
  The sanitizers (crates/ec-proto/src/sanitize.rs): on the hub, what a node pushed, answered or
  reported is rebuilt from its whitelist; on the node, the arguments of a request are cleaned, and
  a request whose strict fields (paths, links, container and image names, command lines) would not
  survive the cleaning is refused.
\<close>

section \<open>Hub side\<close>

definition truthy :: "json \<Rightarrow> bool" where
  "truthy v =
     (case v of
        JNull \<Rightarrow> False
      | JBool b \<Rightarrow> b
      | JNum n \<Rightarrow> num_val n \<noteq> 0
      | JStr s \<Rightarrow> s \<noteq> []
      | JArr a \<Rightarrow> a \<noteq> []
      | JObj m \<Rightarrow> m \<noteq> [])"

text \<open>\<open>g.get("uuid").is_some_and(truthy)\<close>; \<open>Value::get\<close> of a key is None for a non-object.\<close>

definition has_uuid :: "json \<Rightarrow> bool" where
  "has_uuid g = (case g of JObj m \<Rightarrow> (case obj_get m (U ''uuid'') of Some v \<Rightarrow> truthy v | None \<Rightarrow> False)
                 | _ \<Rightarrow> False)"

definition sanitize_push :: "obj \<Rightarrow> proto_error + obj option" where
  "sanitize_push msg =
     (case obj_get msg (U ''type'') of
        Some (JStr t) \<Rightarrow>
          (case push t of
             None \<Rightarrow> Inr None
           | Some spec \<Rightarrow>
               (let out = obj_insert (U ''type'') (JStr t) (clean_obj (JObj msg) spec) in
                if t = U ''hello'' then
                  (if obj_get_or_null out (U ''proto'') = JNull
                   then Inl (Invalid (U ''hello carries no protocol version''))
                   else
                     (let gpus = (case obj_get out (U ''gpus'') of
                          Some (JArr a) \<Rightarrow> filter has_uuid a | _ \<Rightarrow> [])
                      in Inr (Some (obj_insert (U ''gpus'') (JArr gpus) out))))
                else Inr (Some out)))
      | _ \<Rightarrow> Inr None)"

text \<open>\<open>pick(k, dflt)\<close> of an error object.\<close>

definition pick :: "obj \<Rightarrow> ustr \<Rightarrow> ustr \<Rightarrow> json" where
  "pick err k dflt = (case obj_get err k of
      Some v \<Rightarrow> (if truthy v then v else JStr dflt) | None \<Rightarrow> JStr dflt)"

definition sanitize_res :: "obj \<Rightarrow> ustr \<Rightarrow> obj" where
  "sanitize_res msg op =
     (let out = [(U ''id'', clean (obj_get_or_null msg (U ''id'')) SInt)];
          ok = (obj_get msg (U ''ok'') = Some (JBool True));
          out = obj_insert (U ''ok'') (JBool ok) out
      in if ok then
           obj_insert (U ''result'')
             (JObj (clean_obj (obj_get_or_null msg (U ''result'')) (results op))) out
         else
           (let err = clean_obj (obj_get_or_null msg (U ''error'')) error_spec;
                e = obj_of [(U ''code'', pick err (U ''code'') INTERNAL),
                            (U ''message'', pick err (U ''message'')
                               (U ''the node refused without saying why''))]
            in obj_insert (U ''error'') (JObj e) out))"

definition sanitize_event :: "obj \<Rightarrow> ustr \<Rightarrow> obj" where
  "sanitize_event msg op =
     obj_insert (U ''event'')
       (JObj (clean_obj (obj_get_or_null msg (U ''event'')) (events op)))
       [(U ''id'', clean (obj_get_or_null msg (U ''id'')) SInt)]"

section \<open>Node side\<close>

definition clean_args :: "ustr \<Rightarrow> json \<Rightarrow> proto_error + obj" where
  "clean_args op v =
     (case args op of
        None \<Rightarrow> Inl (Invalid (U ''unknown op '' @ py_repr op))
      | Some spec \<Rightarrow> Inr (clean_obj (if is_object v then v else JObj []) spec))"

definition STRICT_FIELDS :: "ustr list" where
  "STRICT_FIELDS = [U ''rel'', U ''link'', U ''target'', U ''name'', U ''image'', U ''argv'']"

text \<open>\<open>{at}[{i}]\<close>\<close>

definition at_index :: "ustr \<Rightarrow> nat \<Rightarrow> ustr" where
  "at_index here i = here @ U ''['' @ dec i @ U '']''"

text \<open>Why a strict value would not survive, else None.\<close>

fun strict :: "json \<Rightarrow> spec \<Rightarrow> ustr \<Rightarrow> ustr option" where
  "strict v (SStr n) here =
     (case v of JStr s \<Rightarrow>
        (if 0 \<in> set s then Some (here @ U '' contains a NUL character'')
         else if n < length s then Some (here @ U '' is longer than '' @ dec n @ U '' characters'')
         else None)
      | _ \<Rightarrow> None)"
| "strict v (SList sub cap) here =
     (case v of JArr a \<Rightarrow>
        (if cap < length a then Some (here @ U '' has more than '' @ dec cap @ U '' items'')
         else find_mapi (\<lambda>i x. strict x sub (at_index here i)) 0 a)
      | _ \<Rightarrow> None)"
| "strict v spec here = None"

text \<open>The search for strict fields, through objects and lists of objects.\<close>

fun overlong_in :: "json \<Rightarrow> spec \<Rightarrow> ustr \<Rightarrow> ustr option" where
  "overlong_in v (SObj fs) here =
     (case v of JObj m \<Rightarrow>
        find_mapi (\<lambda>i (k, sub). (case obj_get m k of
            None \<Rightarrow> None
          | Some x \<Rightarrow>
              (let here' = (if here = [] then k else here @ U ''.'' @ k) in
               if k \<in> set STRICT_FIELDS then strict x sub here' else overlong_in x sub here'))) 0 fs
      | _ \<Rightarrow> None)"
| "overlong_in v (SList sub cap) here =
     (case v of JArr a \<Rightarrow> find_mapi (\<lambda>i x. overlong_in x sub (at_index here i)) 0 (take cap a)
      | _ \<Rightarrow> None)"
| "overlong_in v spec here = None"

definition overlong_args :: "ustr \<Rightarrow> json \<Rightarrow> ustr option" where
  "overlong_args op v =
     (case args op of
        None \<Rightarrow> None
      | Some spec \<Rightarrow>
          map_option (\<lambda>why. op @ U '': '' @ why @ U ''; the node refuses it rather than cut it short'')
            (overlong_in v spec []))"

definition is_missing :: "json option \<Rightarrow> bool" where
  "is_missing v =
     (case v of
        None \<Rightarrow> True
      | Some JNull \<Rightarrow> True
      | Some (JStr s) \<Rightarrow> s = []
      | Some (JArr a) \<Rightarrow> a = []
      | Some _ \<Rightarrow> False)"

definition missing_args :: "ustr \<Rightarrow> obj \<Rightarrow> ustr list" where
  "missing_args op cleaned = filter (\<lambda>k. is_missing (obj_get cleaned k)) (required op)"

section \<open>Strict fields survive cleaning\<close>

text \<open>A text, or a list of texts: the types the strict check covers.\<close>

fun texts :: "json \<Rightarrow> spec \<Rightarrow> bool" where
  "texts v (SStr n) = (case v of JStr s \<Rightarrow> True | _ \<Rightarrow> False)"
| "texts v (SList sub cap) = (case v of JArr a \<Rightarrow> (\<forall>x \<in> set a. texts x sub) | _ \<Rightarrow> False)"
| "texts v spec = False"

text \<open>
  What the node may rely on when the strict check passes: \<open>survives v c spec\<close> says that in the
  cleaned value \<open>c\<close> of \<open>v\<close> every strict field that was a text (or a list of texts) is exactly the
  one that was sent, at every level the search reaches.
\<close>

fun survives :: "json \<Rightarrow> json \<Rightarrow> spec \<Rightarrow> bool" where
  "survives v c (SObj fs) \<longleftrightarrow>
     (case v of JObj m \<Rightarrow>
        (case c of JObj cm \<Rightarrow>
           (\<forall>(k, sub) \<in> set fs. \<forall>x. obj_get m k = Some x \<longrightarrow>
              (if k \<in> set STRICT_FIELDS then texts x sub \<longrightarrow> obj_get cm k = Some x
               else survives x (obj_get_or_null cm k) sub))
         | _ \<Rightarrow> False)
      | _ \<Rightarrow> True)"
| "survives v c (SList sub cap) \<longleftrightarrow>
     (case v of JArr a \<Rightarrow>
        (case c of JArr b \<Rightarrow>
           (\<forall>y \<in> set b. \<exists>x \<in> set (take cap a). y = clean x sub \<and> survives x y sub)
         | _ \<Rightarrow> False)
      | _ \<Rightarrow> True)"
| "survives v c spec = True"

lemma strict_None_clean: "strict v sub here = None \<Longrightarrow> texts v sub \<Longrightarrow> clean v sub = v \<and> v \<noteq> JNull"
proof (induction sub arbitrary: v here)
  case (SStr n)
  then show ?case by (auto simp: cap_str_id text_within_def split: json.splits if_splits)
next
  case (SList sub cap)
  show ?case
  proof (cases v)
    case (JArr a)
    with SList.prems have len: "length a \<le> cap"
      and each: "\<forall>j < length a. strict (a ! j) sub (at_index here j) = None"
      by (auto simp: find_mapi_None split: if_splits)
    have "clean x sub = x \<and> x \<noteq> JNull" if xa: "x \<in> set a" for x
    proof -
      obtain j where j: "j < length a" "x = a ! j" using xa by (auto simp: in_set_conv_nth)
      then have "strict x sub (at_index here j) = None" using each by simp
      moreover have "texts x sub" using SList.prems(2) JArr xa by simp
      ultimately show ?thesis by (rule SList.IH)
    qed
    then have "map (\<lambda>x. clean x sub) a = a" "filter (\<lambda>x. x \<noteq> JNull) a = a"
      by (intro map_idI filter_True; simp)+
    with JArr len show ?thesis by simp
  qed (use SList.prems in auto)
qed (auto split: json.splits)

lemma find_mapi_NoneD: "find_mapi f i xs = None \<Longrightarrow> x \<in> set xs \<Longrightarrow> \<exists>j. f j x = None"
  by (auto simp: find_mapi_None in_set_conv_nth)

lemma overlong_None_survives:
  "overlong_in v sp here = None \<Longrightarrow> spec_wf sp \<Longrightarrow> survives v (clean v sp) sp"
proof (induction sp arbitrary: v here)
  case (SObj fs)
  show ?case
  proof (cases v)
    case (JObj m)
    have d: "distinct (map fst fs)" using SObj.prems(2) by simp
    obtain cm where cm: "clean v (SObj fs) = JObj cm" using JObj by simp
    then have co: "cm = clean_obj (JObj m) (SObj fs)" using JObj by (simp add: clean_obj_def)
    have "if k \<in> set STRICT_FIELDS then texts x sub \<longrightarrow> obj_get cm k = Some x
        else survives x (obj_get_or_null cm k) sub"
      if e: "(k, sub) \<in> set fs" and x: "obj_get m k = Some x" for k sub x
    proof -
      obtain h where h: "(if k \<in> set STRICT_FIELDS then strict x sub h else overlong_in x sub h) = None"
        using find_mapi_NoneD[OF _ e] SObj.prems(1) JObj x by (fastforce simp: Let_def)
      have get: "obj_get cm k = Some (clean x sub)"
        using clean_obj_get[OF d, of m k] e x d by (simp add: co obj_get_or_null_def)
      have wf: "spec_wf sub" using SObj.prems(2) e by auto
      show ?thesis
      proof (cases "k \<in> set STRICT_FIELDS")
        case True
        with h get strict_None_clean[of x sub h] show ?thesis by auto
      next
        case False
        with h have "survives x (clean x sub) sub"
          using SObj.IH[OF e] wf by (simp add: snds.simps)
        with False get show ?thesis by (simp add: obj_get_or_null_def)
      qed
    qed
    then show ?thesis unfolding cm using JObj by auto
  qed auto
next
  case (SList sub cap)
  show ?case
  proof (cases v)
    case (JArr a)
    have "survives x (clean x sub) sub" if "x \<in> set (take cap a)" for x
      using find_mapi_NoneD[OF _ that] SList JArr by fastforce
    with JArr show ?thesis by auto
  qed auto
qed auto

lemma clean_args_survive:
  assumes "overlong_args op v = None" "clean_args op v = Inr c" "args op = Some sp"
  shows "is_object v \<Longrightarrow> survives v (JObj c) sp"
proof -
  assume v: "is_object v"
  obtain fs where fs: "sp = SObj fs" "spec_wf (SObj fs)" using args_ok[OF assms(3)] by (rule entry_okE)
  have "overlong_in v sp [] = None" using assms(1,3) by (simp add: overlong_args_def)
  then have "survives v (clean v sp) sp" using fs by (intro overlong_None_survives) auto
  moreover have "clean v sp = JObj c" using assms(2,3) v fs
    by (cases v) (auto simp: clean_args_def clean_obj_def)
  ultimately show ?thesis by simp
qed

section \<open>What reaches the other side\<close>

lemma clean_args_Inr_iff: "(\<exists>c. clean_args op v = Inr c) \<longleftrightarrow> is_op op"
  unfolding args_Some_iff[symmetric] by (auto simp: clean_args_def split: option.splits)

lemma clean_args_get:
  assumes "clean_args op (JObj m) = Inr c" "args op = Some (SObj fs)" "map_of fs k = Some sub"
  shows "obj_get c k = Some (clean (obj_get_or_null m k) sub)"
proof -
  have "distinct (map fst fs)" using args_ok[OF assms(2)] by (auto simp: entry_ok_def)
  with assms show ?thesis using clean_obj_get[of fs m k] by (auto simp: clean_args_def)
qed

lemma push_no_type: "push t = Some (SObj fs) \<Longrightarrow> U ''type'' \<notin> fst ` set fs"
proof -
  have "list_all (\<lambda>e. U ''type'' \<notin> fst ` set (spec_fields (snd e))) PUSH"
    by (simp add: PUSH_def spec_defs)
  then show "push t = Some (SObj fs) \<Longrightarrow> U ''type'' \<notin> fst ` set fs"
    by (force simp: push_def list_all_iff dest!: map_of_SomeD)
qed

text \<open>A pushed message rebuilt from the shape of its type.\<close>

definition rebuilt :: "obj \<Rightarrow> ustr \<Rightarrow> (ustr \<times> spec) list \<Rightarrow> obj" where
  "rebuilt msg t fs = clean_obj (JObj msg) (SObj fs) @ [(U ''type'', JStr t)]"

lemma push_shape:
  assumes "push t = Some sp"
  obtains fs where "sp = SObj fs" "spec_wf (SObj fs)" "distinct (map fst fs)" "U ''type'' \<notin> fst ` set fs"
    "obj_insert (U ''type'') (JStr t) (clean_obj (JObj msg) sp) = rebuilt msg t fs"
proof -
  obtain fs where fs: "sp = SObj fs" "spec_wf (SObj fs)" using push_ok[OF assms] by (rule entry_okE)
  have n: "U ''type'' \<notin> fst ` set fs" using push_no_type assms fs by blast
  moreover have "map fst (clean_obj (JObj msg) (SObj fs)) = map fst fs"
    by (rule clean_obj_conforms) (use fs in simp_all)
  then have "U ''type'' \<notin> fst ` set (clean_obj (JObj msg) (SObj fs))" using n by (metis set_map)
  ultimately show thesis using that fs by (simp add: rebuilt_def obj_insert_fresh)
qed

lemma rebuilt_keys: "spec_wf (SObj fs) \<Longrightarrow> map fst (rebuilt msg t fs) = map fst fs @ [U ''type'']"
  using clean_obj_conforms(2)[of fs "JObj msg"] by (simp add: rebuilt_def)

lemma obj_get_append: "obj_get (a @ b) k = (case obj_get a k of None \<Rightarrow> obj_get b k | Some v \<Rightarrow> Some v)"
  by (induction a) auto

lemma rebuilt_get:
  assumes "spec_wf (SObj fs)" "(k, sub) \<in> set fs"
  shows "obj_get (rebuilt msg t fs) k = Some (clean (obj_get_or_null msg k) sub)"
    and "conforms False (clean (obj_get_or_null msg k) sub) sub"
proof -
  have "distinct (map fst fs)" using assms(1) by simp
  then show "obj_get (rebuilt msg t fs) k = Some (clean (obj_get_or_null msg k) sub)"
    using clean_obj_get[of fs msg k] assms(2) by (simp add: rebuilt_def obj_get_append)
  show "conforms False (clean (obj_get_or_null msg k) sub) sub"
    by (rule clean_conforms_spec[OF spec_wf_fields[OF assms]])
qed

lemma rebuilt_type:
  assumes "spec_wf (SObj fs)" "U ''type'' \<notin> fst ` set fs"
  shows "obj_get (rebuilt msg t fs) (U ''type'') = Some (JStr t)"
proof -
  have "fst ` set (clean_obj (JObj msg) (SObj fs)) = fst ` set fs"
    using clean_obj_conforms(2)[OF assms(1), of "JObj msg"] by (metis is_object.simps(1) set_map)
  then have "obj_get (clean_obj (JObj msg) (SObj fs)) (U ''type'') = None"
    using assms(2) by (simp add: obj_get_None_iff)
  then show ?thesis by (simp add: rebuilt_def obj_get_append)
qed

lemma sanitize_push_cases:
  assumes "sanitize_push msg = Inr (Some out)"
  obtains t fs where "obj_get msg (U ''type'') = Some (JStr t)" "push t = Some (SObj fs)" "spec_wf (SObj fs)"
    "U ''type'' \<notin> fst ` set fs" "t \<noteq> U ''hello'' \<and> out = rebuilt msg t fs
     \<or> t = U ''hello'' \<and> obj_get_or_null (rebuilt msg t fs) (U ''proto'') \<noteq> JNull
       \<and> (\<exists>gs. (\<forall>g \<in> set gs. has_uuid g) \<and> out = obj_insert (U ''gpus'') (JArr gs) (rebuilt msg t fs))"
proof -
  obtain t sp where t: "obj_get msg (U ''type'') = Some (JStr t)" "push t = Some sp"
    using assms by (auto simp: sanitize_push_def split: option.splits json.splits)
  obtain fs where fs: "sp = SObj fs" "spec_wf (SObj fs)" "U ''type'' \<notin> fst ` set fs"
    "obj_insert (U ''type'') (JStr t) (clean_obj (JObj msg) sp) = rebuilt msg t fs"
    using push_shape[OF t(2)] by metis
  let ?gs = "case obj_get (rebuilt msg t fs) (U ''gpus'') of Some (JArr a) \<Rightarrow> filter has_uuid a | _ \<Rightarrow> []"
  have gs: "\<forall>g \<in> set ?gs. has_uuid g" by (auto split: option.splits json.splits)
  show thesis
  proof (cases "t = U ''hello''")
    case True
    with t fs assms have "obj_get_or_null (rebuilt msg t fs) (U ''proto'') \<noteq> JNull"
      "out = obj_insert (U ''gpus'') (JArr ?gs) (rebuilt msg t fs)"
      by (auto simp: sanitize_push_def Let_def split: if_splits)
    with True gs show thesis by (intro that[OF t(1) _ fs(2,3)]) (use t fs in blast)+
  next
    case False
    then show thesis
      by (intro that[OF t(1) _ fs(2,3)]) (use t fs assms in \<open>auto simp: sanitize_push_def Let_def\<close>)
  qed
qed

section \<open>Answers\<close>

lemma sanitize_res_ok:
  "obj_get msg (U ''ok'') = Some (JBool True) \<Longrightarrow> sanitize_res msg op =
     [(U ''id'', clean (obj_get_or_null msg (U ''id'')) SInt), (U ''ok'', JBool True),
      (U ''result'', JObj (clean_obj (obj_get_or_null msg (U ''result'')) (results op)))]"
  by (simp add: sanitize_res_def)

definition res_error :: "obj \<Rightarrow> obj" where
  "res_error msg = clean_obj (obj_get_or_null msg (U ''error'')) error_spec"

lemma sanitize_res_err:
  "obj_get msg (U ''ok'') \<noteq> Some (JBool True) \<Longrightarrow> sanitize_res msg op =
     [(U ''id'', clean (obj_get_or_null msg (U ''id'')) SInt), (U ''ok'', JBool False),
      (U ''error'', JObj [(U ''code'', pick (res_error msg) (U ''code'') INTERNAL),
         (U ''message'', pick (res_error msg) (U ''message'') (U ''the node refused without saying why''))])]"
  by (simp add: sanitize_res_def res_error_def obj_of_def om.ins_all_def Let_def)

lemma pick_text:
  assumes "res_error msg = [] \<or> conforms False (JObj (res_error msg)) error_spec"
    and "(k, SStr n) \<in> set [(U ''code'', SStr 64), (U ''message'', SStr 1000)]" "length dflt \<le> n" "dflt \<noteq> []"
  shows "\<exists>t. pick (res_error msg) k dflt = JStr t \<and> t \<noteq> [] \<and> length t \<le> n"
proof (cases "obj_get (res_error msg) k")
  case None
  then show ?thesis using assms by (simp add: pick_def)
next
  case (Some v)
  with assms(1,2) have "conforms False v (SStr n)"
    by (auto simp: error_spec_def obj_get_or_null_def)
  with Some show ?thesis using assms(3,4)
    by (cases v) (auto simp: pick_def truthy_def text_within_def)
qed

lemma clean_obj_shape:
  assumes "entry_ok sp"
  shows "clean_obj v sp = [] \<or> conforms False (JObj (clean_obj v sp)) sp"
proof -
  obtain fs where fs: "sp = SObj fs" "spec_wf (SObj fs)" using assms by (rule entry_okE)
  show ?thesis
  proof (cases "is_object v")
    case True
    then show ?thesis using clean_obj_conforms(1)[OF fs(2)] fs(1) by blast
  next
    case False
    then show ?thesis using fs(1) by (cases v) (auto simp: clean_obj_def)
  qed
qed

lemma clean_obj_id:
  assumes "entry_ok sp" "conforms True (JObj r) sp"
  shows "clean_obj (JObj r) sp = r"
proof -
  have "clean (JObj r) sp = JObj r" using assms by (intro clean_id) (auto simp: entry_ok_def)
  then show ?thesis by (simp add: clean_obj_def)
qed

lemma clean_id_int: "valid_id_i64 i \<Longrightarrow> clean (json_int i) SInt = json_int i"
  by (auto simp: valid_id_i64_def MAX_ID_def json_int_def int_of_def num_of_int_def)

end
