(* ===== verification/Msg.thy ===== *)
theory Msg
  imports Json
begin

text \<open>
  Message builders of both sides (crates/ec-proto/src/msg.rs): the same keys in the same order.
\<close>

definition req :: "int \<Rightarrow> ustr \<Rightarrow> obj option \<Rightarrow> obj" where
  "req rid op args =
     [(U ''type'', JStr (U ''req'')), (U ''id'', json_int rid), (U ''op'', JStr op),
      (U ''args'', JObj (case args of None \<Rightarrow> [] | Some a \<Rightarrow> a))]"

definition res_ok :: "int \<Rightarrow> obj option \<Rightarrow> obj" where
  "res_ok rid result =
     [(U ''type'', JStr (U ''res'')), (U ''id'', json_int rid), (U ''ok'', JBool True),
      (U ''result'', JObj (case result of None \<Rightarrow> [] | Some r \<Rightarrow> r))]"

definition res_err :: "int \<Rightarrow> ustr \<Rightarrow> ustr \<Rightarrow> obj" where
  "res_err rid code message =
     [(U ''type'', JStr (U ''res'')), (U ''id'', json_int rid), (U ''ok'', JBool False),
      (U ''error'', JObj [(U ''code'', JStr code), (U ''message'', JStr (take 1000 message))])]"

definition event :: "int \<Rightarrow> obj \<Rightarrow> obj" where
  "event rid ev =
     [(U ''type'', JStr (U ''event'')), (U ''id'', json_int rid), (U ''event'', JObj ev)]"

definition credit :: "int \<Rightarrow> nat \<Rightarrow> obj" where
  "credit rid nbytes =
     [(U ''type'', JStr (U ''credit'')), (U ''id'', json_int rid), (U ''bytes'', JNum (PosInt nbytes))]"

definition end_msg :: "int \<Rightarrow> obj" where
  "end_msg rid = [(U ''type'', JStr (U ''end'')), (U ''id'', json_int rid)]"

definition cancel_msg :: "int \<Rightarrow> obj" where
  "cancel_msg rid = [(U ''type'', JStr (U ''cancel'')), (U ''id'', json_int rid)]"

definition ping :: "int \<Rightarrow> obj" where
  "ping rid = [(U ''type'', JStr (U ''ping'')), (U ''id'', json_int rid)]"

definition pong :: "int \<Rightarrow> obj" where
  "pong rid = [(U ''type'', JStr (U ''pong'')), (U ''id'', json_int rid)]"

lemmas msg_defs = req_def res_ok_def res_err_def event_def credit_def end_msg_def cancel_msg_def
  ping_def pong_def

end
