(* ===== verification/PyPath.thy ===== *)
theory PyPath
  imports Json
begin

text \<open>
  Python's posixpath on the node (crates/ecnode/src/util/py.rs) and \<open>inside\<close> of
  crates/ecnode/src/confine.rs. A path is a list of characters: the code works on the UTF-8 bytes,
  and the only bytes it looks at, the slash (47) and the dot, are ASCII, so cutting at bytes and at
  characters agree.
\<close>

abbreviation slash :: nat where "slash \<equiv> 47"
abbreviation dot_seg :: ustr where "dot_seg \<equiv> [46]"
abbreviation dotdot_seg :: ustr where "dotdot_seg \<equiv> [46, 46]"

definition norm_initial :: "ustr \<Rightarrow> ustr" where
  "norm_initial path =
     (if starts_with path [slash] then
        (if starts_with path [slash, slash] \<and> \<not> starts_with path [slash, slash, slash]
         then [slash, slash] else [slash])
      else [])"

text \<open>One turn of the loop over the components.\<close>

definition norm_step :: "ustr \<Rightarrow> ustr \<Rightarrow> ustr list \<Rightarrow> ustr list" where
  "norm_step initial seg comps =
     (if seg = [] \<or> seg = dot_seg then comps
      else if seg \<noteq> dotdot_seg \<or> (initial = [] \<and> comps = []) \<or> (comps \<noteq> [] \<and> last comps = dotdot_seg)
      then comps @ [seg]
      else if comps \<noteq> [] then butlast comps
      else comps)"

definition normpath :: "ustr \<Rightarrow> ustr" where
  "normpath path =
     (if path = [] then dot_seg
      else (let initial = norm_initial path;
                comps = fold (norm_step initial) (split_on slash path) [];
                out = initial @ join_with [slash] comps
            in if out = [] then dot_seg else out))"

definition join_path :: "ustr \<Rightarrow> ustr \<Rightarrow> ustr" where
  "join_path a rest =
     (if starts_with rest [slash] then rest
      else if a = [] \<or> ends_with a [slash] then a @ rest
      else a @ [slash] @ rest)"

definition join_paths :: "ustr \<Rightarrow> ustr list \<Rightarrow> ustr" where
  "join_paths a parts = fold (\<lambda>p out. join_path out p) parts a"

text \<open>\<open>while head.ends_with(b"/") { head.pop(); }\<close>\<close>

definition strip_slashes :: "ustr \<Rightarrow> ustr" where
  "strip_slashes s = rev (dropWhile (\<lambda>c. c = slash) (rev s))"

text \<open>\<open>split\<close>: everything up to the last slash, and what follows it.\<close>

definition split_path :: "ustr \<Rightarrow> ustr \<times> ustr" where
  "split_path p =
     (let tail = rev (takeWhile (\<lambda>c. c \<noteq> slash) (rev p));
          head = take (length p - length tail) p
      in (if head \<noteq> [] \<and> (\<exists>c \<in> set head. c \<noteq> slash) then strip_slashes head else head, tail))"

definition dirname :: "ustr \<Rightarrow> ustr" where
  "dirname p = fst (split_path p)"

definition basename :: "ustr \<Rightarrow> ustr" where
  "basename p = snd (split_path p)"

text \<open>\<open>cwd\<close> is the process's working directory.\<close>

definition abspath :: "ustr \<Rightarrow> ustr \<Rightarrow> ustr" where
  "abspath cwd p =
     (if starts_with p [slash] then normpath p else normpath (join_path cwd p))"

section \<open>realpath\<close>

text \<open>
  What the file system says of a path while \<open>realpath\<close> runs: not a symlink (or not there), a symlink
  and its target, or one that vanished between \<open>lstat\<close> and \<open>readlink\<close>.
\<close>

datatype link = NoLink | LinkTo ustr | LinkGone

text \<open>The next component and what remains, as the loop cuts them.\<close>

definition next_comp :: "ustr \<Rightarrow> ustr \<times> ustr" where
  "next_comp rest =
     (let name = takeWhile (\<lambda>c. c \<noteq> slash) rest in (name, drop (Suc (length name)) rest))"

definition pop_comp :: "ustr \<Rightarrow> ustr" where
  "pop_comp path =
     (if path = [] then dotdot_seg
      else (let (head, tail) = split_path path in
            if tail = dotdot_seg then join_path (join_path head dotdot_seg) dotdot_seg else head))"

text \<open>
  \<open>join_realpath\<close>: the loop over \<open>rest\<close>. The call for a symlink's target first takes a leading slash
  and the depth limit into account (\<open>enter\<close>). The result is the path, whether it could be
  resolved, and the cache.
\<close>

type_synonym seen = "(ustr \<times> ustr option) list"

definition enter_rest :: "ustr \<Rightarrow> ustr \<Rightarrow> ustr \<times> ustr" where
  "enter_rest path rest = (if starts_with rest [slash] then ([slash], drop 1 rest) else (path, rest))"

lemma next_comp_decreases: "(name, rest') = next_comp rest \<Longrightarrow> rest \<noteq> [] \<Longrightarrow> length rest' < length rest"
  by (cases rest) (auto simp: next_comp_def Let_def)

function realpath_loop :: "(ustr \<Rightarrow> link) \<Rightarrow> nat \<Rightarrow> seen \<Rightarrow> ustr \<Rightarrow> ustr \<Rightarrow> ustr \<times> bool \<times> seen" where
  "realpath_loop fs depth seen path rest =
     (if rest = [] then (path, True, seen)
      else (let (name, rest') = next_comp rest in
        if name = [] \<or> name = dot_seg then realpath_loop fs depth seen path rest'
        else if name = dotdot_seg then realpath_loop fs depth seen (pop_comp path) rest'
        else (let newpath = join_path path name in
          case fs newpath of
            NoLink \<Rightarrow> realpath_loop fs depth seen newpath rest'
          | LinkGone \<Rightarrow>
              (case obj_get seen newpath of
                 Some (Some resolved) \<Rightarrow> realpath_loop fs depth seen resolved rest'
               | Some None \<Rightarrow> (join_path newpath rest', False, seen)
               | None \<Rightarrow> realpath_loop fs depth (obj_insert newpath None seen) newpath rest')
          | LinkTo target \<Rightarrow>
              (case obj_get seen newpath of
                 Some (Some resolved) \<Rightarrow> realpath_loop fs depth seen resolved rest'
               | Some None \<Rightarrow> (join_path newpath rest', False, seen)
               | None \<Rightarrow>
                   (case (if 256 < Suc depth
                          then (join_path (fst (enter_rest path target)) (snd (enter_rest path target)), False,
                                obj_insert newpath None seen)
                          else realpath_loop fs (Suc depth) (obj_insert newpath None seen)
                                 (fst (enter_rest path target)) (snd (enter_rest path target))) of
                      (resolved, ok, seen2) \<Rightarrow>
                        if \<not> ok then (join_path resolved rest', False, seen2)
                        else realpath_loop fs depth (obj_insert newpath (Some resolved) seen2) resolved rest')))))"
  by pat_completeness auto
termination
  by (relation "measures [\<lambda>(fs, depth, seen, path, rest). 257 - depth, \<lambda>(fs, depth, seen, path, rest). length rest]")
    (auto dest: next_comp_decreases)

declare realpath_loop.simps [simp del]

definition realpath :: "ustr \<Rightarrow> (ustr \<Rightarrow> link) \<Rightarrow> ustr \<Rightarrow> ustr" where
  "realpath cwd fs p =
     (let (path, rest) = enter_rest [] p in abspath cwd (fst (realpath_loop fs 0 [] path rest)))"

text \<open>\<open>confine::inside\<close>\<close>

definition inside :: "ustr \<Rightarrow> ustr \<Rightarrow> bool" where
  "inside c r \<longleftrightarrow>
     c = r \<or> (let e = strip_slashes r in length e < length c \<and> starts_with c e \<and> c ! length e = slash)"

section \<open>Normal absolute paths\<close>

definition clean_seg :: "ustr \<Rightarrow> bool" where
  "clean_seg s \<longleftrightarrow> s \<noteq> [] \<and> s \<noteq> dot_seg \<and> s \<noteq> dotdot_seg \<and> slash \<notin> set s"

lemma clean_seg_Nil [simp]: "\<not> clean_seg []"
  by (simp add: clean_seg_def)

lemma clean_seg_slash: "clean_seg s \<Longrightarrow> slash \<notin> set s"
  by (simp add: clean_seg_def)

definition abs_path :: "ustr list \<Rightarrow> ustr" where
  "abs_path cs = slash # join_with [slash] cs"

lemma starts_with_Cons [simp]: "starts_with (x # xs) (y # ys) \<longleftrightarrow> x = y \<and> starts_with xs ys"
  by (auto simp: starts_with_def)

lemma starts_with_Nil [simp]: "starts_with xs []" "starts_with [] (y # ys) \<longleftrightarrow> False"
  by (auto simp: starts_with_def)

lemma join_with_snoc: "join_with sep (xs @ [y]) = (if xs = [] then y else join_with sep xs @ sep @ y)"
  by (induction sep xs rule: join_with.induct) auto

lemma join_with_Cons: "join_with sep (x # xs) = (if xs = [] then x else x @ sep @ join_with sep xs)"
  by (cases xs) auto

lemma join_with_clean_hd:
  "\<forall>s \<in> set cs. clean_seg s \<Longrightarrow> cs \<noteq> [] \<Longrightarrow> \<exists>c r. join_with [slash] cs = c # r \<and> c \<noteq> slash"
  by (cases cs) (auto simp: join_with_Cons clean_seg_def neq_Nil_conv)

lemma abs_path_initial: "\<forall>s \<in> set cs. clean_seg s \<Longrightarrow> norm_initial (abs_path cs) = [slash]"
  using join_with_clean_hd[of cs] by (cases "cs = []") (auto simp: norm_initial_def abs_path_def)

lemma norm_step_clean:
  assumes "\<forall>s \<in> set comps. clean_seg s" "slash \<notin> set seg"
  shows "\<forall>s \<in> set (norm_step [slash] seg comps). clean_seg s"
proof -
  consider "seg = [] \<or> seg = dot_seg" | "seg = dotdot_seg" | "clean_seg seg"
    using assms(2) by (auto simp: clean_seg_def)
  then show ?thesis
  proof cases
    case 2
    have "comps = [] \<or> last comps \<noteq> dotdot_seg"
      using assms(1) last_in_set[of comps] by (fastforce simp: clean_seg_def)
    with 2 assms(1) show ?thesis by (auto simp: norm_step_def dest: in_set_butlastD)
  next
    case 3
    then have "norm_step [slash] seg comps = comps @ [seg]" by (auto simp: norm_step_def clean_seg_def)
    with 3 assms(1) show ?thesis by simp
  qed (use assms in \<open>simp add: norm_step_def\<close>)
qed

lemma fold_norm_step_clean:
  "\<forall>s \<in> set comps. clean_seg s \<Longrightarrow> \<forall>s \<in> set segs. slash \<notin> set s \<Longrightarrow>
   \<forall>s \<in> set (fold (norm_step [slash]) segs comps). clean_seg s"
proof (induction segs arbitrary: comps)
  case (Cons a segs)
  show ?case unfolding fold_simps
    by (rule Cons.IH) (use Cons.prems norm_step_clean in auto)
qed simp

lemma fold_norm_step_id:
  "\<forall>s \<in> set segs. clean_seg s \<Longrightarrow> fold (norm_step i) segs comps = comps @ segs"
  by (induction segs arbitrary: comps) (auto simp: norm_step_def clean_seg_def)

lemma split_abs_path:
  "\<forall>s \<in> set cs. clean_seg s \<Longrightarrow> split_on slash (abs_path cs) = (if cs = [] then [[], []] else [] # cs)"
  using split_on_join_with[of cs slash] by (auto simp: abs_path_def clean_seg_def)

lemma normpath_abs_path:
  assumes "\<forall>s \<in> set cs. clean_seg s"
  shows "normpath (abs_path cs) = abs_path cs"
proof -
  have "fold (norm_step [slash]) (split_on slash (abs_path cs)) [] = cs"
    using fold_norm_step_id[OF assms] by (auto simp: split_abs_path[OF assms] norm_step_def)
  then show ?thesis using abs_path_initial[OF assms] by (simp add: normpath_def abs_path_def Let_def)
qed

lemma normpath_absolute:
  assumes "starts_with p [slash]" "\<not> starts_with p [slash, slash]"
  obtains cs where "normpath p = abs_path cs" "\<forall>s \<in> set cs. clean_seg s"
    "cs = fold (norm_step [slash]) (split_on slash p) []"
proof
  let ?cs = "fold (norm_step [slash]) (split_on slash p) []"
  have i: "norm_initial p = [slash]" "p \<noteq> []" using assms by (auto simp: norm_initial_def)
  then show "normpath p = abs_path ?cs" by (simp add: normpath_def abs_path_def Let_def)
  show "\<forall>s \<in> set ?cs. clean_seg s"
    using fold_norm_step_clean[of "[]" "split_on slash p"] split_on_parts[of _ slash p] by auto
qed simp

lemma abs_path_inj:
  assumes "\<forall>s \<in> set cs. clean_seg s" "\<forall>s \<in> set ds. clean_seg s" "abs_path cs = abs_path ds"
  shows "cs = ds"
proof -
  have e: "(if cs = [] then [[], []] else [] # cs) = (if ds = [] then [[], []] else [] # ds)"
    using split_abs_path[OF assms(1)] split_abs_path[OF assms(2)] assms(3) by simp
  have "cs \<noteq> [[]]" "ds \<noteq> [[]]" using assms(1,2) by auto
  with e show ?thesis by (cases "cs = []"; cases "ds = []") auto
qed

section \<open>inside\<close>

lemma strip_slashes_id: "s = [] \<or> last s \<noteq> slash \<Longrightarrow> strip_slashes s = s"
  by (cases s rule: rev_cases) (auto simp: strip_slashes_def)

lemma last_join_clean:
  "\<forall>s \<in> set cs. clean_seg s \<Longrightarrow> cs \<noteq> [] \<Longrightarrow> join_with [slash] cs \<noteq> [] \<and> last (join_with [slash] cs) \<noteq> slash"
proof (cases cs rule: rev_cases)
  case (snoc ys y)
  assume "\<forall>s \<in> set cs. clean_seg s"
  then have y: "y \<noteq> []" "slash \<notin> set y" using snoc by (auto simp: clean_seg_def)
  then have "last y \<noteq> slash" using last_in_set[of y] by metis
  with y show ?thesis using snoc by (simp add: join_with_snoc)
qed simp

lemma abs_path_append:
  "es \<noteq> [] \<Longrightarrow> abs_path (ds @ es) = (if ds = [] then [] else abs_path ds) @ slash # join_with [slash] es"
proof (induction ds)
  case (Cons d ds)
  then show ?case by (cases "ds = []") (auto simp: abs_path_def join_with_Cons)
qed (simp add: abs_path_def)

lemma strip_abs_path:
  "\<forall>s \<in> set ds. clean_seg s \<Longrightarrow> strip_slashes (abs_path ds) = (if ds = [] then [] else abs_path ds)"
  using last_join_clean[of ds]
  by (auto simp: abs_path_def strip_slashes_id) (simp add: strip_slashes_def)

text \<open>On normal absolute paths \<open>inside\<close> compares whole components.\<close>

lemma inside_abs_path:
  assumes "\<forall>s \<in> set cs. clean_seg s" "\<forall>s \<in> set ds. clean_seg s"
  shows "inside (abs_path cs) (abs_path ds) \<longleftrightarrow> (\<exists>es. cs = ds @ es)"
proof
  assume "\<exists>es. cs = ds @ es"
  then obtain es where es: "cs = ds @ es" by blast
  show "inside (abs_path cs) (abs_path ds)"
  proof (cases "es = []")
    case False
    then show ?thesis using es assms(2)
      by (auto simp: inside_def strip_abs_path abs_path_append starts_with_def nth_append)
  qed (use es in \<open>simp add: inside_def\<close>)
next
  assume i: "inside (abs_path cs) (abs_path ds)"
  show "\<exists>es. cs = ds @ es"
  proof (cases "abs_path cs = abs_path ds \<or> ds = []")
    case True
    then show ?thesis using abs_path_inj[OF assms] by auto
  next
    case False
    let ?e = "abs_path ds"
    have e: "length ?e < length (abs_path cs)" "take (length ?e) (abs_path cs) = ?e" "abs_path cs ! length ?e = slash"
      using i False assms(2) by (auto simp: inside_def strip_abs_path starts_with_def Let_def)
    then obtain r where r: "abs_path cs = ?e @ slash # r"
      by (metis append_take_drop_id Cons_nth_drop_Suc)
    have "split_on slash (abs_path cs) = ([] # ds) @ split_on slash r"
    proof -
      have "abs_path cs = slash # join_with [slash] ds @ slash # r" using r by (simp add: abs_path_def)
      also have "join_with [slash] ds @ slash # r = join_with [slash] (ds @ [r])" using False by (simp add: join_with_snoc)
      finally have "split_on slash (abs_path cs) = [] # split_on slash (join_with [slash] ds @ slash # r)"
        using False by (simp add: join_with_snoc)
      moreover have "split_on slash (join_with [slash] ds @ slash # r) = ds @ split_on slash r"
        using conjunct2[OF False[unfolded de_Morgan_disj]] assms(2)
      proof (induction ds)
        case (Cons d ds)
        then show ?case by (cases "ds = []") (simp_all add: join_with_Cons split_on_append_sep clean_seg_slash)
      qed simp
      ultimately show ?thesis by simp
    qed
    then have e: "(if cs = [] then [[], []] else [] # cs) = [] # ds @ split_on slash r"
      using split_abs_path[OF assms(1)] by simp
    have "ds \<noteq> []" using False by simp
    then have "[[]] \<noteq> ds @ split_on slash r" by (cases ds) auto
    with e have "cs = ds @ split_on slash r" by (cases "cs = []") auto
    then show ?thesis by blast
  qed
qed

section \<open>realpath on normal absolute paths\<close>

lemma takeWhile_notin: "c \<notin> set s \<Longrightarrow> takeWhile (\<lambda>x. x \<noteq> c) (s @ c # t) = s"
  by (induction s) auto

lemma next_comp_cases:
  assumes "next_comp rest = (name, rest')"
  shows "slash \<notin> set name" and "rest = name \<and> rest' = [] \<or> rest = name @ slash # rest'"
proof -
  have n: "name = takeWhile (\<lambda>c. c \<noteq> slash) rest" "rest' = drop (Suc (length name)) rest"
    using assms by (auto simp: next_comp_def Let_def)
  show "slash \<notin> set name" using n(1) by (auto dest: set_takeWhileD)
  show "rest = name \<and> rest' = [] \<or> rest = name @ slash # rest'"
  proof (cases "slash \<in> set rest")
    case True
    then obtain a b where "rest = a @ slash # b" "slash \<notin> set a" by (metis split_list_first)
    then show ?thesis using n by (simp add: takeWhile_notin)
  next
    case False
    then have "takeWhile (\<lambda>c. c \<noteq> slash) rest = rest" by (induction rest) auto
    with n have "name = rest" "rest' = []" by (metis, metis drop_all le_SucI order_refl)
    then show ?thesis by simp
  qed
qed

lemma abs_path_snoc: "abs_path (cs @ [c]) = (if cs = [] then [] else abs_path cs) @ slash # c"
  using abs_path_append[of "[c]" cs] by simp

lemma strip_slashes_snoc: "strip_slashes (s @ [slash]) = strip_slashes s"
  by (simp add: strip_slashes_def)

lemma split_path_last:
  assumes "slash \<notin> set c"
  shows "split_path (pre @ slash # c) =
    (if \<exists>x \<in> set pre. x \<noteq> slash then strip_slashes pre else pre @ [slash], c)"
proof -
  have "takeWhile (\<lambda>c. c \<noteq> slash) (rev c @ slash # rev pre) = rev c" using assms by (intro takeWhile_notin) simp
  then have t: "takeWhile (\<lambda>c. c \<noteq> slash) (rev (pre @ slash # c)) = rev c" by simp
  show ?thesis unfolding split_path_def t Let_def by (simp add: strip_slashes_snoc)
qed

lemma ends_with_single: "ends_with s [x] \<longleftrightarrow> s \<noteq> [] \<and> last s = x"
  by (cases s rule: rev_cases) (auto simp: ends_with_def)

lemma join_nonslash:
  assumes "\<forall>s \<in> set cs. clean_seg s" "cs \<noteq> []"
  shows "\<exists>x \<in> set (abs_path cs). x \<noteq> slash"
  using join_with_clean_hd[OF assms] by (auto simp: abs_path_def)

lemma split_path_abs:
  assumes "\<forall>s \<in> set cs. clean_seg s" "clean_seg c"
  shows "split_path (abs_path (cs @ [c])) = (abs_path cs, c)"
proof (cases "cs = []")
  case True
  then show ?thesis using split_path_last[of c "[]"] assms(2)
    by (simp add: abs_path_snoc clean_seg_slash) (simp add: abs_path_def)
next
  case False
  then show ?thesis using split_path_last[of c "abs_path cs"] join_nonslash[OF assms(1)] assms
    by (simp add: abs_path_snoc clean_seg_slash strip_abs_path)
qed

lemma join_path_abs:
  assumes "\<forall>s \<in> set cs. clean_seg s" "clean_seg c"
  shows "join_path (abs_path cs) c = abs_path (cs @ [c])"
proof -
  have c: "\<not> starts_with c [slash]" using assms(2) by (cases c) (auto simp: clean_seg_def)
  show ?thesis
  proof (cases "cs = []")
    case True
    then show ?thesis using c by (simp add: join_path_def abs_path_def ends_with_def)
  next
    case False
    then have "\<not> ends_with (abs_path cs) [slash]"
      using last_join_clean[OF assms(1)] by (simp add: ends_with_single abs_path_def)
    then show ?thesis using c False by (simp add: join_path_def abs_path_snoc) (simp add: abs_path_def)
  qed
qed

lemma pop_comp_abs:
  assumes "\<forall>s \<in> set cs. clean_seg s"
  shows "pop_comp (abs_path cs) = abs_path (butlast cs)"
proof (cases cs rule: rev_cases)
  case Nil
  then show ?thesis by (simp add: pop_comp_def abs_path_def split_path_def Let_def)
next
  case (snoc ys y)
  then have "split_path (abs_path cs) = (abs_path ys, y)" "y \<noteq> dotdot_seg" "abs_path cs \<noteq> []"
    using split_path_abs assms by (auto simp: clean_seg_def) (simp add: abs_path_def)
  then show ?thesis using snoc by (simp add: pop_comp_def)
qed

text \<open>No component of the path is a symlink.\<close>

definition link_free :: "(ustr \<Rightarrow> link) \<Rightarrow> ustr list \<Rightarrow> bool" where
  "link_free fs cs \<longleftrightarrow> (\<forall>s \<in> set cs. clean_seg s) \<and> (\<forall>n < length cs. fs (abs_path (take (Suc n) cs)) = NoLink)"

lemma link_free_Nil: "link_free fs []"
  by (simp add: link_free_def)

lemma link_free_butlast: "link_free fs cs \<Longrightarrow> link_free fs (butlast cs)"
  by (auto simp: link_free_def take_butlast dest: in_set_butlastD)

lemma link_free_snoc:
  "link_free fs cs \<Longrightarrow> clean_seg c \<Longrightarrow> fs (abs_path (cs @ [c])) = NoLink \<Longrightarrow> link_free fs (cs @ [c])"
  by (auto simp: link_free_def less_Suc_eq)

definition seen_ok :: "(ustr \<Rightarrow> link) \<Rightarrow> seen \<Rightarrow> bool" where
  "seen_ok fs seen \<longleftrightarrow> (\<forall>k r. obj_get seen k = Some (Some r) \<longrightarrow> (\<exists>cs. r = abs_path cs \<and> link_free fs cs))"

lemma seen_ok_Nil: "seen_ok fs []"
  by (simp add: seen_ok_def)

lemma seen_ok_insert:
  "seen_ok fs seen \<Longrightarrow> v = None \<or> (\<exists>cs. v = Some (abs_path cs) \<and> link_free fs cs) \<Longrightarrow> seen_ok fs (obj_insert k v seen)"
  by (auto simp: seen_ok_def split: if_splits)

lemma realpath_loop_link_free:
  assumes "\<forall>p. fs p \<noteq> LinkGone"
  shows "path = abs_path cs \<Longrightarrow> link_free fs cs \<Longrightarrow> seen_ok fs seen \<Longrightarrow>
    realpath_loop fs depth seen path rest = (r, ok, seen') \<Longrightarrow>
    seen_ok fs seen' \<and> (ok \<longrightarrow> (\<exists>ds. r = abs_path ds \<and> link_free fs ds))"
  using assms
proof (induction fs depth seen path rest arbitrary: cs r ok seen' rule: realpath_loop.induct)
  case (1 fs depth seen path rest)
  show ?case
  proof (cases "rest = []")
    case True
    then show ?thesis using "1.prems" by (auto simp: realpath_loop.simps[of fs depth seen "abs_path cs" "[]"])
  next
    case False
    obtain name rest' where nc: "next_comp rest = (name, rest')" by (metis surj_pair)
    note eq = "1.prems"(4)[unfolded realpath_loop.simps[of fs depth seen path rest]]
    note nc' = nc[symmetric]
    have clean: "\<forall>s \<in> set cs. clean_seg s" using "1.prems"(2) by (simp add: link_free_def)
    consider "name = [] \<or> name = dot_seg" | "name = dotdot_seg" | "clean_seg name"
      using next_comp_cases(1)[OF nc] by (auto simp: clean_seg_def)
    then show ?thesis
    proof cases
      case 1
      show ?thesis
        by (rule "1.IH"(1)[OF False nc' refl 1 "1.prems"(1,2,3) _ "1.prems"(5)]) (use eq False nc 1 in simp)
    next
      case 2
      have "link_free fs (butlast cs)" by (rule link_free_butlast[OF "1.prems"(2)])
      then show ?thesis using "1.prems" eq False nc 2 pop_comp_abs[OF clean]
        by (intro "1.IH"(2)[OF False nc' refl]) auto
    next
      case 3
      then have nm: "name \<noteq> []" "name \<noteq> dot_seg" "name \<noteq> dotdot_seg" by (auto simp: clean_seg_def)
      let ?np = "join_path path name"
      have np: "?np = abs_path (cs @ [name])" using "1.prems"(1) join_path_abs[OF clean 3] by simp
      note step = nc' refl
      have skip: "\<not> (name = [] \<or> name = dot_seg)" using nm by simp
      show ?thesis
      proof (cases "fs ?np")
        case NoLink
        then have "link_free fs (cs @ [name])" using link_free_snoc[OF "1.prems"(2) 3] np by simp
        from "1.IH"(3)[OF False step skip nm(3) refl NoLink np this "1.prems"(3) _ "1.prems"(5)]
        show ?thesis using eq False nc nm NoLink by simp
      next
        case LinkGone
        then show ?thesis using "1.prems"(5) by blast
      next
        case (LinkTo t)
        show ?thesis
        proof (cases "obj_get seen ?np")
          case (Some v)
          show ?thesis
          proof (cases v)
            case None
            then show ?thesis using eq False nc nm LinkTo Some "1.prems"(3) by simp
          next
            case (Some res)
            obtain ds where ds: "res = abs_path ds" "link_free fs ds"
              using "1.prems"(3) \<open>obj_get seen ?np = Some v\<close> Some unfolding seen_ok_def by blast
            from "1.IH"(6)[OF False step skip nm(3) refl LinkTo \<open>obj_get seen ?np = Some v\<close> Some ds "1.prems"(3) _ "1.prems"(5)]
            show ?thesis using eq False nc nm LinkTo \<open>obj_get seen ?np = Some v\<close> Some by simp
          qed
        next
          case None
          define inner where "inner = (if 256 < Suc depth
            then (join_path (fst (enter_rest path t)) (snd (enter_rest path t)), False, obj_insert ?np None seen)
            else realpath_loop fs (Suc depth) (obj_insert ?np None seen)
                   (fst (enter_rest path t)) (snd (enter_rest path t)))"
          obtain res ok1 seen2 where inn: "inner = (res, ok1, seen2)" by (metis prod_cases3)
          have so: "seen_ok fs (obj_insert ?np None seen)" using seen_ok_insert[OF "1.prems"(3)] by simp
          obtain es where es: "fst (enter_rest path t) = abs_path es" "link_free fs es"
          proof (cases "starts_with t [slash]")
            case True
            then show thesis using that[of "[]"] link_free_Nil by (simp add: enter_rest_def abs_path_def)
          next
            case False
            then show thesis using that[of cs] "1.prems"(1,2) by (simp add: enter_rest_def)
          qed
          have in_ok: "seen_ok fs seen2 \<and> (ok1 \<longrightarrow> (\<exists>ds. res = abs_path ds \<and> link_free fs ds))"
          proof (cases "256 < Suc depth")
            case True
            then show ?thesis using inn so by (simp add: inner_def)
          next
            case False
            from "1.IH"(4)[OF \<open>rest \<noteq> []\<close> step skip nm(3) refl LinkTo None False es so _ "1.prems"(5)]
            show ?thesis using inn False by (simp add: inner_def)
          qed
          have eq2: "(if \<not> ok1 then (join_path res rest', False, seen2)
              else realpath_loop fs depth (obj_insert ?np (Some res) seen2) res rest') = (r, ok, seen')"
            using eq False nc nm LinkTo None inn unfolding inner_def by (simp add: Let_def split: if_splits)
          show ?thesis
          proof (cases ok1)
            case True
            then obtain ds where ds: "res = abs_path ds" "link_free fs ds" using in_ok by blast
            have s2: "seen_ok fs (obj_insert ?np (Some res) seen2)"
              using seen_ok_insert[of fs seen2 "Some res"] in_ok ds by blast
            have i: "(res, ok1, seen2) = (if 256 < Suc depth
              then (join_path (fst (enter_rest path t)) (snd (enter_rest path t)), False, obj_insert ?np None seen)
              else realpath_loop fs (Suc depth) (obj_insert ?np None seen)
                     (fst (enter_rest path t)) (snd (enter_rest path t)))"
              using inn by (simp add: inner_def)
            from "1.IH"(5)[OF False step skip nm(3) refl LinkTo None i refl _ ds s2 _ "1.prems"(5)]
            show ?thesis using eq2 True by simp
          next
            case False
            then show ?thesis using eq2 in_ok by auto
          qed
        qed
      qed
    qed
  qed
qed

lemma realpath_link_free:
  assumes "\<forall>p. fs p \<noteq> LinkGone" "starts_with p [slash]"
    and "realpath_loop fs 0 [] [slash] (drop 1 p) = (r, True, seen')"
  obtains ds where "realpath cwd fs p = abs_path ds" "link_free fs ds"
proof -
  have "[slash] = abs_path []" by (simp add: abs_path_def)
  from realpath_loop_link_free[OF assms(1) this link_free_Nil seen_ok_Nil assms(3)]
  obtain ds where ds: "r = abs_path ds" "link_free fs ds" by blast
  then have "abspath cwd r = abs_path ds"
    by (simp add: abspath_def normpath_abs_path link_free_def) (simp add: abs_path_def)
  with assms(2,3) ds that show thesis by (simp add: realpath_def enter_rest_def)
qed

text \<open>Without symlinks \<open>realpath\<close> is \<open>normpath\<close>.\<close>

lemma realpath_loop_no_links:
  assumes "\<forall>p. fs p = NoLink" "\<forall>s \<in> set cs. clean_seg s"
  shows "realpath_loop fs d seen (abs_path cs) rest
    = (abs_path (fold (norm_step [slash]) (split_on slash rest) cs), True, seen)"
  using assms(2)
proof (induction "length rest" arbitrary: rest cs rule: less_induct)
  case less
  show ?case
  proof (cases "rest = []")
    case True
    then show ?thesis by (simp add: realpath_loop.simps[of fs d seen "abs_path cs" "[]"] norm_step_def)
  next
    case False
    obtain name rest' where nc: "next_comp rest = (name, rest')" by (metis surj_pair)
    let ?cs = "norm_step [slash] name cs"
    have sl: "slash \<notin> set name" by (rule next_comp_cases(1)[OF nc])
    have cl: "\<forall>s \<in> set ?cs. clean_seg s" by (rule norm_step_clean[OF less.prems sl])
    have "length rest' < length rest" using next_comp_decreases[of name rest' rest] nc False by simp
    note IH = less.hyps[OF this cl]
    have f: "fold (norm_step [slash]) (split_on slash rest) cs = fold (norm_step [slash]) (split_on slash rest') ?cs"
      using next_comp_cases(2)[OF nc] sl
      by (auto simp: split_on_no_sep split_on_append_sep) (simp add: norm_step_def)
    have step: "realpath_loop fs d seen (abs_path cs) rest = realpath_loop fs d seen (abs_path ?cs) rest'"
    proof -
      consider "name = [] \<or> name = dot_seg" | "name = dotdot_seg" | "clean_seg name"
        using sl by (auto simp: clean_seg_def)
      then show ?thesis
      proof cases
        case 1
        then show ?thesis using False nc by (simp add: realpath_loop.simps[of fs d seen "abs_path cs" rest] norm_step_def)
      next
        case 2
        have "cs = [] \<or> last cs \<noteq> dotdot_seg"
          using less.prems last_in_set[of cs] by (metis clean_seg_def)
        then have "?cs = butlast cs" using 2 by (auto simp: norm_step_def)
        then show ?thesis using False nc 2 pop_comp_abs[OF less.prems]
          by (simp add: realpath_loop.simps[of fs d seen "abs_path cs" rest])
      next
        case 3
        then have n: "name \<noteq> []" "name \<noteq> dot_seg" "name \<noteq> dotdot_seg" by (simp_all add: clean_seg_def)
        then have "?cs = cs @ [name]" by (simp add: norm_step_def)
        then show ?thesis using False nc n assms(1) join_path_abs[OF less.prems 3]
          by (simp add: realpath_loop.simps[of fs d seen "abs_path cs" rest])
      qed
    qed
    show ?thesis unfolding step IH f ..
  qed
qed

lemma realpath_no_links:
  assumes "\<forall>p. fs p = NoLink" "starts_with p [slash]" "\<not> starts_with p [slash, slash]"
  shows "realpath cwd fs p = normpath p"
proof -
  obtain cs where cs: "normpath p = abs_path cs" "\<forall>s \<in> set cs. clean_seg s"
    "cs = fold (norm_step [slash]) (split_on slash p) []"
    using assms(2,3) by (rule normpath_absolute)
  obtain q where q: "p = slash # q" using assms(2) by (cases p) auto
  have "cs = fold (norm_step [slash]) (split_on slash q) []" using cs(3) q by (simp add: norm_step_def)
  then have "realpath_loop fs 0 [] [slash] q = (abs_path cs, True, [])"
    using realpath_loop_no_links[OF assms(1), of "[]" 0 "[]" q] by (simp add: abs_path_def)
  then show ?thesis using q cs
    by (simp add: realpath_def enter_rest_def abspath_def normpath_abs_path) (simp add: abs_path_def)
qed

section \<open>Normal forms and realpath\<close>

text \<open>
  Normalising an absolute path yields a slash and the components that remain, none of them
  empty, \<open>.\<close> or \<open>..\<close>; normalising again changes nothing; and where nothing on the machine is a
  symlink, \<open>realpath\<close> gives the same path as \<open>normpath\<close>.
\<close>

theorem normpath_canonical:
  assumes "starts_with p [slash]" "\<not> starts_with p [slash, slash]"
  shows "(\<exists>cs. normpath p = abs_path cs \<and> (\<forall>s \<in> set cs. clean_seg s)) \<and> normpath (normpath p) = normpath p
    \<and> realpath d (\<lambda>_. NoLink) p = normpath p"
proof -
  obtain cs where "normpath p = abs_path cs" "\<forall>s \<in> set cs. clean_seg s" using normpath_absolute[OF assms] .
  then show ?thesis using normpath_abs_path realpath_no_links[OF _ assms] by auto
qed

lemma normpath_canonical_witness:
  "normpath (U ''/a/./b//../c/'') = U ''/a/c'' \<and> normpath (U ''/a/c'') = U ''/a/c''
   \<and> realpath (U ''/'') (\<lambda>_. NoLink) (U ''/a/./b//../c/'') = U ''/a/c''"
proof -
  have n: "normpath (U ''/a/./b//../c/'') = U ''/a/c''"
    by (simp add: U_def normpath_def Let_def norm_initial_def norm_step_def)
  show ?thesis using normpath_canonical[of "U ''/a/./b//../c/''" "U ''/''"] n by (simp add: U_def)
qed

text \<open>
  When \<open>realpath\<close> of an absolute path gets to the end of it, no component of the result is a
  symlink, whatever chains, cycles and relative targets lie on the way (the cache of links already
  followed included), so a check on the result is a check on where the path leads.
\<close>

theorem realpath_resolved:
  assumes "\<forall>p. fs p \<noteq> LinkGone" "starts_with p [slash]" "realpath_loop fs 0 [] [slash] (drop 1 p) = (r, True, seen')"
  shows "\<exists>ds. realpath d fs p = abs_path ds \<and> (\<forall>s \<in> set ds. clean_seg s)
    \<and> (\<forall>n < length ds. fs (abs_path (take (Suc n) ds)) = NoLink)"
  using realpath_link_free[OF assms] unfolding link_free_def by metis

lemma realpath_resolved_witness:
  "\<exists>ds fs. fs (U ''/m'') = LinkTo (U ''data/x'') \<and> realpath (U ''/'') fs (U ''/m/y'') = abs_path ds
     \<and> (\<forall>n < length ds. fs (abs_path (take (Suc n) ds)) = NoLink)"
proof -
  let ?fs = "\<lambda>p. if p = U ''/m'' then LinkTo (U ''data/x'') else NoLink"
  have "\<exists>r seen'. realpath_loop ?fs 0 [] [slash] (drop 1 (U ''/m/y'')) = (r, True, seen')"
    by (simp add: U_def realpath_loop.simps next_comp_def join_path_def ends_with_def enter_rest_def obj_get_def)
  then obtain r seen' where l: "realpath_loop ?fs 0 [] [slash] (drop 1 (U ''/m/y'')) = (r, True, seen')" by blast
  have g: "\<forall>p. ?fs p \<noteq> LinkGone" and s: "starts_with (U ''/m/y'') [slash]" by (simp_all add: U_def)
  obtain ds where "realpath (U ''/'') ?fs (U ''/m/y'') = abs_path ds" "\<forall>n < length ds. ?fs (abs_path (take (Suc n) ds)) = NoLink"
    using realpath_resolved[OF g s l, of "U ''/''"] by blast
  then show ?thesis by (intro exI[of _ ds] exI[of _ ?fs]) simp
qed

end
