(* ===== verification/Regexp.thy ===== *)
theory Regexp
  imports Json
begin

text \<open>
  The regular expressions the policy checks use (crates/ecnode/src/policy.rs), matched against a
  whole text (\<open>\A(?:p)\z\<close>). A class is a list of character ranges. \<open>matches\<close> runs derivatives;
  \<open>lang\<close> is what a pattern means, and \<open>matches_iff\<close> says they agree.
\<close>

datatype re =
    Zero
  | One
  | Cls "(nat \<times> nat) list"
  | Seq re re
  | Alt re re
  | Star re

definition in_cls :: "nat \<Rightarrow> (nat \<times> nat) list \<Rightarrow> bool" where
  "in_cls c cs \<longleftrightarrow> (\<exists>(lo, hi) \<in> set cs. lo \<le> c \<and> c \<le> hi)"

inductive_set star :: "ustr set \<Rightarrow> ustr set" for A where
  star_Nil: "[] \<in> star A"
| star_append: "u \<in> A \<Longrightarrow> v \<in> star A \<Longrightarrow> u @ v \<in> star A"

fun lang :: "re \<Rightarrow> ustr set" where
  "lang Zero = {}"
| "lang One = {[]}"
| "lang (Cls cs) = {[c] | c. in_cls c cs}"
| "lang (Seq r s) = {u @ v | u v. u \<in> lang r \<and> v \<in> lang s}"
| "lang (Alt r s) = lang r \<union> lang s"
| "lang (Star r) = star (lang r)"

section \<open>Matching by derivatives\<close>

fun nullable :: "re \<Rightarrow> bool" where
  "nullable Zero = False"
| "nullable One = True"
| "nullable (Cls cs) = False"
| "nullable (Seq r s) = (nullable r \<and> nullable s)"
| "nullable (Alt r s) = (nullable r \<or> nullable s)"
| "nullable (Star r) = True"

fun mk_seq :: "re \<Rightarrow> re \<Rightarrow> re" where
  "mk_seq Zero s = Zero"
| "mk_seq One s = s"
| "mk_seq r s = (if s = Zero then Zero else Seq r s)"

fun mk_alt :: "re \<Rightarrow> re \<Rightarrow> re" where
  "mk_alt Zero s = s"
| "mk_alt r s = (if s = Zero then r else if r = s then r else Alt r s)"

fun deriv :: "nat \<Rightarrow> re \<Rightarrow> re" where
  "deriv c Zero = Zero"
| "deriv c One = Zero"
| "deriv c (Cls cs) = (if in_cls c cs then One else Zero)"
| "deriv c (Seq r s) =
     (if nullable r then mk_alt (mk_seq (deriv c r) s) (deriv c s) else mk_seq (deriv c r) s)"
| "deriv c (Alt r s) = mk_alt (deriv c r) (deriv c s)"
| "deriv c (Star r) = mk_seq (deriv c r) (Star r)"

fun matches :: "re \<Rightarrow> ustr \<Rightarrow> bool" where
  "matches r [] = nullable r"
| "matches r (c # s) = matches (deriv c r) s"

lemma nullable_lang: "nullable r \<longleftrightarrow> [] \<in> lang r"
  by (induction r) (auto intro: star.intros)

lemma lang_mk_seq [simp]: "lang (mk_seq r s) = lang (Seq r s)"
  by (cases "(r, s)" rule: mk_seq.cases) auto

lemma mk_alt_if: "mk_alt r s = (if r = Zero then s else if s = Zero then r else if r = s then r else Alt r s)"
  by (cases r) simp_all

lemma lang_mk_alt [simp]: "lang (mk_alt r s) = lang r \<union> lang s"
  unfolding mk_alt_if by simp

lemma star_ConsD: "w \<in> star A \<Longrightarrow> w = c # s \<Longrightarrow> \<exists>u v. c # u \<in> A \<and> v \<in> star A \<and> s = u @ v"
proof (induction arbitrary: c s rule: star.induct)
  case (star_append u v)
  then show ?case by (cases u) auto
qed simp

lemma lang_deriv: "s \<in> lang (deriv c r) \<longleftrightarrow> c # s \<in> lang r"
proof (induction r arbitrary: s)
  case (Seq r1 r2)
  have "c # s \<in> lang (Seq r1 r2) \<longleftrightarrow>
      (\<exists>u v. s = u @ v \<and> c # u \<in> lang r1 \<and> v \<in> lang r2) \<or> ([] \<in> lang r1 \<and> c # s \<in> lang r2)"
    by (auto simp: Cons_eq_append_conv)
  then show ?case by (auto simp: Seq.IH nullable_lang)
next
  case (Star r)
  show ?case
  proof
    assume "s \<in> lang (deriv c (Star r))"
    then obtain u v where "s = u @ v" "c # u \<in> lang r" "v \<in> star (lang r)" by (auto simp: Star.IH)
    then show "c # s \<in> lang (Star r)" using star.star_append[of "c # u" "lang r" v] by simp
  next
    assume "c # s \<in> lang (Star r)"
    then show "s \<in> lang (deriv c (Star r))" using star_ConsD[of "c # s" "lang r" c s] by (auto simp: Star.IH)
  qed
qed auto

lemma matches_iff: "matches r s \<longleftrightarrow> s \<in> lang r"
  by (induction s arbitrary: r) (simp_all add: nullable_lang lang_deriv)

section \<open>Derived forms\<close>

definition Chr :: "nat \<Rightarrow> re" where "Chr c = Cls [(c, c)]"
definition Opt :: "re \<Rightarrow> re" where "Opt r = Alt r One"
definition Plus :: "re \<Rightarrow> re" where "Plus r = Seq r (Star r)"

fun Lit :: "ustr \<Rightarrow> re" where
  "Lit [] = One"
| "Lit (c # s) = Seq (Chr c) (Lit s)"

text \<open>\<open>r{n}\<close> and \<open>r{0,n}\<close>\<close>

fun Rep :: "re \<Rightarrow> nat \<Rightarrow> re" where
  "Rep r 0 = One"
| "Rep r (Suc n) = Seq r (Rep r n)"

fun UpTo :: "re \<Rightarrow> nat \<Rightarrow> re" where
  "UpTo r 0 = One"
| "UpTo r (Suc n) = Opt (Seq r (UpTo r n))"

section \<open>What a pattern cannot produce\<close>

fun avoids :: "nat \<Rightarrow> re \<Rightarrow> bool" where
  "avoids c Zero = True"
| "avoids c One = True"
| "avoids c (Cls cs) = (\<not> in_cls c cs)"
| "avoids c (Seq r s) = (avoids c r \<and> avoids c s)"
| "avoids c (Alt r s) = (avoids c r \<and> avoids c s)"
| "avoids c (Star r) = avoids c r"

lemma star_avoids: "w \<in> star A \<Longrightarrow> \<forall>u \<in> A. c \<notin> set u \<Longrightarrow> c \<notin> set w"
  by (induction rule: star.induct) auto

lemma avoids_lang: "avoids c r \<Longrightarrow> s \<in> lang r \<Longrightarrow> c \<notin> set s"
proof (induction r arbitrary: s)
  case (Star r)
  then show ?case using star_avoids[of s "lang r" c] by auto
qed auto

lemma avoids_Rep [simp]: "avoids c (Rep r n) \<longleftrightarrow> n = 0 \<or> avoids c r"
  by (induction n) auto

lemma avoids_UpTo [simp]: "avoids c (UpTo r n) \<longleftrightarrow> n = 0 \<or> avoids c r"
  by (induction n) (auto simp: Opt_def)

lemma in_cls_one: "in_cls x [(c, c)] \<longleftrightarrow> x = c"
  by (auto simp: in_cls_def)

lemma lang_Chr [simp]: "lang (Chr c) = {[c]}"
  by (simp add: Chr_def in_cls_one)

lemma lang_Lit [simp]: "lang (Lit s) = {s}"
  by (induction s) simp_all

lemma lang_Opt [simp]: "lang (Opt r) = insert [] (lang r)"
  by (auto simp: Opt_def)

lemma lang_UpTo_length: "\<forall>u \<in> lang r. length u = 1 \<Longrightarrow> s \<in> lang (UpTo r n) \<Longrightarrow> length s \<le> n"
proof (induction n arbitrary: s)
  case (Suc n)
  then show ?case by fastforce
qed simp

lemma lang_Rep_length: "\<forall>u \<in> lang r. length u = 1 \<Longrightarrow> s \<in> lang (Rep r n) \<Longrightarrow> length s = n"
  by (induction n arbitrary: s) auto

end
