(* ===== verification/Image.thy ===== *)
theory Image
  imports Regexp
begin

text \<open>
  Image references and the policy's image patterns (crates/ecnode/src/policy.rs, \<open>split_image\<close>,
  \<open>image_matches\<close>), and the other name patterns of the policy file.
\<close>

section \<open>The patterns\<close>

definition low_num :: re where "low_num = Cls [(97, 122), (48, 57)]"
definition alnum :: re where "alnum = Cls [(65, 90), (97, 122), (48, 57)]"
definition alnum_dash :: re where "alnum_dash = Cls [(65, 90), (97, 122), (48, 57), (45, 45)]"
definition digit :: re where "digit = Cls [(48, 57)]"
definition hex_low :: re where "hex_low = Cls [(97, 102), (48, 57)]"
definition tag_first :: re where "tag_first = Cls [(65, 90), (97, 122), (48, 57), (95, 95)]"
definition tag_char :: re where "tag_char = Cls [(65, 90), (97, 122), (48, 57), (95, 95), (46, 46), (45, 45)]"
definition name_char :: re where "name_char = Cls [(97, 122), (48, 57), (95, 95), (45, 45)]"

definition COMP :: re where
  "COMP = Seq (Plus low_num)
     (Star (Seq (Alt (Cls [(46, 46), (95, 95)]) (Alt (Lit [95, 95]) (Plus (Chr 45)))) (Plus low_num)))"

definition dom_label :: re where
  "dom_label = Seq alnum (Opt (Seq (Star alnum_dash) alnum))"

definition DOMAIN :: re where
  "DOMAIN = Seq (Seq dom_label (Seq (Star (Seq (Chr 46) dom_label))
      (Opt (Seq (Chr 58) (Seq digit (UpTo digit 4)))))) (Chr 47)"

definition TAG :: re where "TAG = Seq tag_first (UpTo tag_char 127)"
definition DIGEST :: re where "DIGEST = Seq (Lit (U ''sha256:'')) (Rep hex_low 64)"
definition repo_re :: re where "repo_re = Seq (Opt DOMAIN) (Seq COMP (Star (Seq (Chr 47) COMP)))"

definition ROOT_ID :: re where "ROOT_ID = Seq low_num (UpTo name_char 31)"
definition SCRIPT_NAME :: re where "SCRIPT_NAME = Seq low_num (UpTo name_char 31)"
definition NETWORK :: re where "NETWORK = Seq alnum (UpTo tag_char 63)"
definition CONTEXT :: re where
  "CONTEXT = Seq alnum (UpTo (Cls [(65, 90), (97, 122), (48, 57), (95, 95), (46, 46), (43, 43), (45, 45)]) 63)"
definition BINARY :: re where
  "BINARY = (let c = Cls [(65, 90), (97, 122), (48, 57), (95, 95), (46, 46), (47, 47), (43, 43), (45, 45)]
     in Seq (Chr 47) (Seq c (UpTo c 254)))"

section \<open>Image references\<close>

text \<open>
  The ways to cut a text into the groups of \<open>IMAGE_REF\<close>:
  \<open>(?P<repo>..)(?::(?P<tag>..))?(?:@(?P<digest>..))?\<close>. There is never more than one
  (\<open>captures_unique\<close> below), so which one the regex engine would prefer does not matter.
\<close>

definition suffix_parts :: "ustr \<Rightarrow> (ustr option \<times> ustr option) list" where
  "suffix_parts s =
     (case s of
        [] \<Rightarrow> [(None, None)]
      | c # t \<Rightarrow>
          (if c = 58 then
             (if matches TAG t then [(Some t, None)] else [])
             @ concat (map (\<lambda>j. case drop j t of
                  [] \<Rightarrow> []
                | a # d \<Rightarrow> (if a = 64 \<and> matches TAG (take j t) \<and> matches DIGEST d
                            then [(Some (take j t), Some d)] else [])) [0..<length t])
           else if c = 64 \<and> matches DIGEST t then [(None, Some t)]
           else []))"

definition captures :: "ustr \<Rightarrow> (ustr \<times> ustr option \<times> ustr option) list" where
  "captures r = concat (map (\<lambda>i. if suffix_parts (drop i r) \<noteq> [] \<and> matches repo_re (take i r)
      then map (Pair (take i r)) (suffix_parts (drop i r)) else []) [0..<Suc (length r)])"

definition split_image :: "ustr \<Rightarrow> (ustr \<times> ustr option \<times> ustr option) option" where
  "split_image r =
     (if 256 < length r then None
      else (case captures r of [] \<Rightarrow> None | c # _ \<Rightarrow> Some c))"

definition valid_image :: "ustr \<Rightarrow> bool" where
  "valid_image r \<longleftrightarrow> split_image r \<noteq> None"

text \<open>\<open>PAT_TAG\<close> and \<open>PAT_DIGEST\<close>: a repository and a fixed ending.\<close>

definition pat_repo :: "ustr \<Rightarrow> ustr \<Rightarrow> ustr option" where
  "pat_repo ending p =
     (let r = take (length p - length ending) p
      in if ends_with p ending \<and> matches repo_re r then Some r else None)"

definition PAT_TAG :: "ustr \<Rightarrow> ustr option" where "PAT_TAG = pat_repo (U '':*'')"
definition PAT_DIGEST :: "ustr \<Rightarrow> ustr option" where "PAT_DIGEST = pat_repo (U ''@sha256:*'')"

definition image_matches :: "ustr \<Rightarrow> ustr \<Rightarrow> bool" where
  "image_matches pattern img =
     (case split_image img of
        None \<Rightarrow> False
      | Some (repo, tag, digest) \<Rightarrow>
          (case PAT_TAG pattern of
             Some r \<Rightarrow> r = repo \<and> tag \<noteq> None \<and> digest = None
           | None \<Rightarrow>
               (case PAT_DIGEST pattern of
                  Some r \<Rightarrow> r = repo \<and> digest \<noteq> None \<and> tag = None
                | None \<Rightarrow> valid_image pattern \<and> img = pattern)))"

definition valid_image_pattern :: "ustr \<Rightarrow> bool" where
  "valid_image_pattern p \<longleftrightarrow> PAT_TAG p \<noteq> None \<or> PAT_DIGEST p \<noteq> None \<or> valid_image p"

section \<open>A reference has one reading\<close>

lemmas re_defs = COMP_def dom_label_def DOMAIN_def TAG_def DIGEST_def repo_re_def low_num_def alnum_def
  alnum_dash_def digit_def hex_low_def tag_first_def tag_char_def Plus_def Opt_def Chr_def

lemma avoids_Lit: "c \<notin> set s \<Longrightarrow> avoids c (Lit s)"
  by (induction s) (auto simp: Chr_def in_cls_def)

lemma repo_avoids: "s \<in> lang repo_re \<Longrightarrow> 64 \<notin> set s"
  by (rule avoids_lang[of 64 repo_re]) (simp_all add: re_defs in_cls_def)

lemma tag_avoids: "s \<in> lang TAG \<Longrightarrow> 64 \<notin> set s \<and> 47 \<notin> set s \<and> 58 \<notin> set s"
  using avoids_lang[of 64 TAG s] avoids_lang[of 47 TAG s] avoids_lang[of 58 TAG s]
  by (simp add: re_defs in_cls_def)

lemma digest_avoids: "s \<in> lang DIGEST \<Longrightarrow> 64 \<notin> set s \<and> 47 \<notin> set s \<and> 42 \<notin> set s"
proof -
  have "64 \<notin> set (U ''sha256:'')" "47 \<notin> set (U ''sha256:'')" "42 \<notin> set (U ''sha256:'')"
    by (simp_all add: U_def)
  then have "avoids 64 DIGEST" "avoids 47 DIGEST" "avoids 42 DIGEST"
    by (simp_all add: DIGEST_def hex_low_def in_cls_def avoids_Lit)
  then show "s \<in> lang DIGEST \<Longrightarrow> 64 \<notin> set s \<and> 47 \<notin> set s \<and> 42 \<notin> set s" using avoids_lang by blast
qed

text \<open>In a repository a colon (a registry's port) is always followed by a slash.\<close>

lemma repo_colon:
  assumes "s \<in> lang repo_re" "s = a @ 58 # b"
  shows "47 \<in> set b"
proof -
  obtain d t where dt: "s = d @ t" "d = [] \<or> d \<in> lang DOMAIN" "t \<in> lang (Seq COMP (Star (Seq (Chr 47) COMP)))"
    using assms(1) unfolding repo_re_def by auto
  have "58 \<notin> set t" using dt(3) by (rule avoids_lang[rotated]) (simp add: re_defs in_cls_def)
  then have "\<exists>r. d = a @ 58 # r \<and> b = r @ t"
    using dt(1) assms(2) by (auto simp: append_eq_append_conv2 Cons_eq_append_conv)
  then obtain r where r: "d = a @ 58 # r" "b = r @ t" by blast
  then obtain e where "d = e @ [47]" using dt(2) by (auto simp: DOMAIN_def)
  with r have "47 \<in> set r" by (cases r rule: rev_cases) auto
  with r(2) show ?thesis by simp
qed

text \<open>What follows the repository.\<close>

inductive suffix :: "ustr option \<Rightarrow> ustr option \<Rightarrow> ustr \<Rightarrow> bool" where
  suffix_none: "suffix None None []"
| suffix_tag: "t \<in> lang TAG \<Longrightarrow> suffix (Some t) None (58 # t)"
| suffix_digest: "d \<in> lang DIGEST \<Longrightarrow> suffix None (Some d) (64 # d)"
| suffix_both: "t \<in> lang TAG \<Longrightarrow> d \<in> lang DIGEST \<Longrightarrow> suffix (Some t) (Some d) (58 # t @ 64 # d)"

inductive_cases suffixE: "suffix t d s"

lemma suffix_parts_both:
  "x \<in> set (concat (map (\<lambda>j. case drop j s of
        [] \<Rightarrow> []
      | a # d \<Rightarrow> (if a = 64 \<and> matches TAG (take j s) \<and> matches DIGEST d
                  then [(Some (take j s), Some d)] else [])) [0..<length s]))
   \<longleftrightarrow> (\<exists>t d. s = t @ 64 # d \<and> t \<in> lang TAG \<and> d \<in> lang DIGEST \<and> x = (Some t, Some d))" (is "?L \<longleftrightarrow> ?R")
proof
  assume ?L
  then obtain j where j: "j < length s" "x \<in> set (case drop j s of [] \<Rightarrow> []
      | a # d \<Rightarrow> (if a = 64 \<and> matches TAG (take j s) \<and> matches DIGEST d
                  then [(Some (take j s), Some d)] else []))" by auto
  then obtain a d where d: "drop j s = a # d" by (cases "drop j s") auto
  then have "s = take j s @ a # d" by (metis append_take_drop_id)
  with j d show ?R by (auto simp: matches_iff split: if_splits)
next
  assume ?R
  then obtain t d where "s = t @ 64 # d" "t \<in> lang TAG" "d \<in> lang DIGEST" "x = (Some t, Some d)" by blast
  then show ?L by (auto simp: matches_iff intro!: bexI[of _ "length t"])
qed

lemma suffix_parts_iff: "(t, d) \<in> set (suffix_parts s) \<longleftrightarrow> suffix t d s"
proof (cases s)
  case Nil
  then show ?thesis by (auto simp: suffix_parts_def intro: suffix.intros elim: suffixE)
next
  case (Cons c u)
  show ?thesis
  proof (cases "c = 58")
    case True
    have "(t, d) \<in> set (suffix_parts s) \<longleftrightarrow> (u \<in> lang TAG \<and> t = Some u \<and> d = None)
        \<or> (\<exists>t' d'. u = t' @ 64 # d' \<and> t' \<in> lang TAG \<and> d' \<in> lang DIGEST \<and> (t, d) = (Some t', Some d'))"
      unfolding suffix_parts_def Cons using True suffix_parts_both[of "(t, d)" u] by (auto simp: matches_iff)
    also have "\<dots> \<longleftrightarrow> suffix t d s"
      unfolding Cons True by (auto intro: suffix.intros elim!: suffixE)
    finally show ?thesis .
  next
    case False
    then show ?thesis unfolding Cons
      by (auto simp: suffix_parts_def matches_iff intro: suffix.intros elim!: suffixE)
  qed
qed

lemma split_at_64:
  assumes "t @ 64 # d = t' @ 64 # d'" "(64 :: nat) \<notin> set t" "64 \<notin> set t'"
  shows "t = t' \<and> d = d'"
  using assms by (auto simp: append_eq_append_conv2 Cons_eq_append_conv append_eq_Cons_conv)

lemma suffix_unique: "suffix t d s \<Longrightarrow> suffix t' d' s \<Longrightarrow> t = t' \<and> d = d'"
proof (induction rule: suffix.induct)
  case (suffix_tag u)
  from suffix_tag(2) show ?case using tag_avoids[OF suffix_tag(1)] by (auto elim!: suffixE)
next
  case (suffix_both u v)
  from suffix_both(3) show ?case
  proof (cases rule: suffix.cases)
    case (suffix_both u' v')
    then show ?thesis using split_at_64[of u v u' v'] tag_avoids suffix_both.hyps by auto
  next
    case suffix_tag
    then show ?thesis using tag_avoids[of "u @ 64 # v"] by auto
  qed auto
qed (auto elim: suffixE)

lemma captures_iff: "(repo, t, d) \<in> set (captures r) \<longleftrightarrow> (\<exists>s. r = repo @ s \<and> repo \<in> lang repo_re \<and> suffix t d s)"
proof
  assume "(repo, t, d) \<in> set (captures r)"
  then obtain i where "matches repo_re (take i r)" "repo = take i r" "(t, d) \<in> set (suffix_parts (drop i r))"
    by (auto simp: captures_def simp del: upt_Suc split: if_splits)
  then show "\<exists>s. r = repo @ s \<and> repo \<in> lang repo_re \<and> suffix t d s"
    by (intro exI[of _ "drop i r"]) (simp add: matches_iff suffix_parts_iff)
next
  assume "\<exists>s. r = repo @ s \<and> repo \<in> lang repo_re \<and> suffix t d s"
  then obtain s where s: "r = repo @ s" "repo \<in> lang repo_re" "(t, d) \<in> set (suffix_parts s)"
    by (auto simp: suffix_parts_iff)
  then have "suffix_parts s \<noteq> []" by auto
  with s show "(repo, t, d) \<in> set (captures r)"
    by (auto simp: captures_def matches_iff intro!: bexI[of _ "length repo"])
qed

text \<open>Two readings cannot disagree on where the repository ends.\<close>

lemma suffix_head: "suffix t d (c # s) \<Longrightarrow> c = 64 \<or> c = 58 \<and> 47 \<notin> set s"
  by (erule suffixE) (auto dest: tag_avoids digest_avoids)

lemma repo_longer:
  assumes "repo @ x \<in> lang repo_re" "suffix t d (x @ s)"
  shows "x = []"
proof (cases x)
  case (Cons c y)
  with assms(2) have "c = 64 \<or> c = 58 \<and> 47 \<notin> set (y @ s)" using suffix_head[of t d c "y @ s"] by simp
  then show ?thesis
    using repo_avoids[OF assms(1)] repo_colon[OF assms(1), of repo y] Cons by auto
qed simp

lemma captures_unique:
  assumes "(repo, t, d) \<in> set (captures r)" "(repo', t', d') \<in> set (captures r)"
  shows "repo = repo' \<and> t = t' \<and> d = d'"
proof -
  obtain s s' where s: "r = repo @ s" "repo \<in> lang repo_re" "suffix t d s"
    "r = repo' @ s'" "repo' \<in> lang repo_re" "suffix t' d' s'"
    using assms unfolding captures_iff by blast
  then obtain x where "repo = repo' @ x \<and> x @ s = s' \<or> repo @ x = repo' \<and> s = x @ s'"
    by (auto simp: append_eq_append_conv2)
  then have "repo = repo' \<and> s = s'" using repo_longer s by fastforce
  with s suffix_unique show ?thesis by blast
qed

lemma split_image_iff:
  "split_image r = Some (repo, t, d) \<longleftrightarrow>
     length r \<le> 256 \<and> (\<exists>s. r = repo @ s \<and> repo \<in> lang repo_re \<and> suffix t d s)"
proof -
  have "(case captures r of [] \<Rightarrow> None | c # _ \<Rightarrow> Some c) = Some (repo, t, d) \<longleftrightarrow> (repo, t, d) \<in> set (captures r)"
  proof (cases "captures r")
    case (Cons a list)
    obtain a1 a2 a3 where a: "a = (a1, a2, a3)" by (metis prod_cases3)
    have "(repo, t, d) \<in> set (captures r) \<longleftrightarrow> (repo, t, d) = a"
      using captures_unique[of repo t d r a1 a2 a3] Cons a by (metis list.set_intros(1))
    then show ?thesis using Cons by auto
  qed simp
  then show ?thesis by (auto simp: split_image_def captures_iff)
qed

section \<open>What a pattern admits\<close>

lemma ends_with_iff: "ends_with s p \<longleftrightarrow> (\<exists>a. s = a @ p)"
  by (auto simp: ends_with_def) (metis append_take_drop_id)

lemma pat_repo_iff: "pat_repo e p = Some r \<longleftrightarrow> p = r @ e \<and> r \<in> lang repo_re"
  by (auto simp: pat_repo_def Let_def ends_with_iff matches_iff)

lemma pat_repo_own: "r \<in> lang repo_re \<Longrightarrow> pat_repo e (r @ e) = Some r"
  by (simp add: pat_repo_iff)

lemma star_not_in:
  assumes "split_image r \<noteq> None"
  shows "42 \<notin> set r"
proof -
  obtain repo t d where "split_image r = Some (repo, t, d)" using assms by auto
  then obtain s where s: "r = repo @ s" "repo \<in> lang repo_re" "suffix t d s"
    by (auto simp: split_image_iff)
  have "42 \<notin> set repo" using s(2) by (rule avoids_lang[rotated]) (simp add: re_defs in_cls_def)
  moreover have "42 \<notin> set u" if "u \<in> lang TAG" for u
    using that by (rule avoids_lang[rotated]) (simp add: re_defs in_cls_def)
  moreover have "42 \<notin> set u" if "u \<in> lang DIGEST" for u
    using that digest_avoids by blast
  ultimately show ?thesis using s(1,3) by (auto elim!: suffixE)
qed

lemma image_matches_cases:
  "image_matches p i \<longleftrightarrow>
     (\<exists>repo t d. split_image i = Some (repo, t, d) \<and>
        (p = i \<or> p = repo @ U '':*'' \<and> t \<noteq> None \<and> d = None \<or> p = repo @ U ''@sha256:*'' \<and> d \<noteq> None \<and> t = None))"
proof (cases "split_image i")
  case None
  then show ?thesis by (simp add: image_matches_def)
next
  case (Some c)
  obtain repo t d where c: "c = (repo, t, d)" by (metis prod_cases3)
  have repo: "repo \<in> lang repo_re" using Some c by (auto simp: split_image_iff)
  have i42: "42 \<notin> set i" by (rule star_not_in) (simp add: Some)
  have e: "set (U '':*'') = {58, 42}" "set (U ''@sha256:*'') \<supseteq> {42}" by (simp_all add: U_def)
  consider r where "PAT_TAG p = Some r" | r where "PAT_TAG p = None" "PAT_DIGEST p = Some r"
    | "PAT_TAG p = None" "PAT_DIGEST p = None" by fastforce
  then show ?thesis
  proof cases
    case 1
    then have p: "p = r @ U '':*''" "r \<in> lang repo_re" by (simp_all add: PAT_TAG_def pat_repo_iff)
    from p(2) have r64: "64 \<notin> set r" by (rule repo_avoids)
    have "p \<noteq> i" "p \<noteq> repo @ U ''@sha256:*''" using p(1) i42 e r64 by auto (auto simp add: U_def append_eq_append_conv2)
    then show ?thesis using 1 p(1) Some c by (auto simp: image_matches_def)
  next
    case 2
    then have p: "p = r @ U ''@sha256:*''" by (simp add: PAT_DIGEST_def pat_repo_iff)
    then have "p \<noteq> i" using i42 e by auto
    moreover have "p \<noteq> repo @ U '':*''" using 2(1) pat_repo_own[OF repo] by (auto simp: PAT_TAG_def)
    ultimately show ?thesis using 2 p Some c by (auto simp: image_matches_def)
  next
    case 3
    have "p \<noteq> repo @ U '':*''" "p \<noteq> repo @ U ''@sha256:*''"
      using 3 pat_repo_own[OF repo] by (auto simp: PAT_TAG_def PAT_DIGEST_def)
    then show ?thesis using 3 Some c by (auto simp: image_matches_def valid_image_def)
  qed
qed

section \<open>What an image reference and a pattern mean\<close>

text \<open>
  Splitting an image reference finds exactly the parts the grammar allows: at most 256
  characters, a repository, then optionally a colon and a tag, then optionally an at sign and a
  sha256 digest. So a reference never has two readings, and what is rejected has none.
\<close>

theorem image_grammar:
  "split_image r = Some (repo, t, d) \<longleftrightarrow>
     length r \<le> 256 \<and> repo \<in> lang repo_re \<and> set_option t \<subseteq> lang TAG \<and> set_option d \<subseteq> lang DIGEST
     \<and> r = repo @ (case t of None \<Rightarrow> [] | Some x \<Rightarrow> 58 # x) @ (case d of None \<Rightarrow> [] | Some x \<Rightarrow> 64 # x)"
proof -
  have "suffix t d s \<longleftrightarrow> set_option t \<subseteq> lang TAG \<and> set_option d \<subseteq> lang DIGEST
      \<and> s = (case t of None \<Rightarrow> [] | Some x \<Rightarrow> 58 # x) @ (case d of None \<Rightarrow> [] | Some x \<Rightarrow> 64 # x)" for s
    by (cases t; cases d) (auto elim: suffixE intro: suffix.intros)
  then show ?thesis by (auto simp: split_image_iff)
qed

text \<open>
  A policy's image pattern admits a valid reference only if it is that reference, or names that
  reference's repository literally and asks for any tag (of a reference without digest) or any digest
  (of a reference without tag). No pattern reaches another repository or registry.
\<close>

theorem image_admission:
  "image_matches p i \<longleftrightarrow>
     (\<exists>repo t d. split_image i = Some (repo, t, d) \<and>
        (p = i \<or> p = repo @ U '':*'' \<and> t \<noteq> None \<and> d = None \<or> p = repo @ U ''@sha256:*'' \<and> d \<noteq> None \<and> t = None))"
  by (rule image_matches_cases)
end
