(* ===== verification/Policy.thy ===== *)
theory Policy
  imports PyFmt PyPath Image Sanitize "HOL-Library.List_Lexorder"
begin

text \<open>
  The node's local policy (crates/ecnode/src/policy.rs): its data, what \<open>hello\<close> reports of it, and
  the policy a node runs with when it has no usable file.
\<close>

definition ETC_POLICY :: ustr where "ETC_POLICY = U ''/etc/ecnode/policy.json''"
definition USER_POLICY :: ustr where "USER_POLICY = U ''.config/ecnode/policy.json''"
definition MAX_POLICY_BYTES :: nat where "MAX_POLICY_BYTES = 256 * 1024"
definition SYSTEM_DIRS :: "ustr list" where "SYSTEM_DIRS = [U ''/etc/'']"
definition MODES :: "ustr list" where "MODES = [U ''monitor'', U ''manage'']"
definition KINDS :: "ustr list" where
  "KINDS = [U ''auto'', U ''hf-home'', U ''hf-hub'', U ''gguf'', U ''plain'', U ''ollama'', U ''other'']"
definition EXTERNAL :: "ustr list" where "EXTERNAL = [U ''none'', U ''stop_start'']"
definition DEFAULT_NETWORK :: ustr where "DEFAULT_NETWORK = U ''engine-console-engines''"
definition DEFAULT_PORTS :: "int \<times> int" where "DEFAULT_PORTS = (18000, 18099)"
definition DEFAULT_DISCOVERY :: "int list" where "DEFAULT_DISCOVERY = [8000, 8080, 11434, 30000]"
definition DEFAULT_IMAGES :: "ustr list" where
  "DEFAULT_IMAGES = [U ''vllm/vllm-openai:*'', U ''lmsysorg/sglang:*'', U ''nvcr.io/nvidia/tensorrt-llm/release:*'',
     U ''ghcr.io/ggml-org/llama.cpp@sha256:*'', U ''ollama/ollama:*'']"
definition FORBIDDEN_ROOTS :: "ustr list" where
  "FORBIDDEN_ROOTS = map U [''/'', ''/etc'', ''/proc'', ''/sys'', ''/dev'', ''/boot'', ''/root'', ''/run'', ''/var'',
     ''/usr'', ''/bin'', ''/sbin'', ''/lib'', ''/lib32'', ''/lib64'', ''/libx32'', ''/home'', ''/tmp'', ''/opt'',
     ''/srv'', ''/mnt'', ''/media'', ''/snap'', ''/var/run'', ''/var/lib'', ''/usr/local'']"

record root =
  rt_id :: ustr
  rt_path :: ustr
  rt_kind :: ustr
  rt_writable :: bool
  rt_label :: ustr

record script_action =
  sa_name :: ustr
  sa_label :: ustr
  sa_argv :: "ustr list"
  sa_args :: "ustr list"
  sa_confirm :: bool
  sa_danger :: bool

record script =
  sc_name :: ustr
  sc_label :: ustr
  sc_engine :: "ustr option"
  sc_description :: ustr
  sc_containers :: "ustr list"
  sc_status_action :: "ustr option"
  sc_timeout_s :: int
  sc_actions :: "script_action list"

record policy =
  pol_path :: "ustr option"
  pol_mode :: ustr
  pol_error :: "ustr option"
  docker_binary :: ustr
  docker_context :: "ustr option"
  engine_images :: "ustr list"
  gateway_image :: "ustr option"
  engine_network :: ustr
  port_range :: "int \<times> int"
  discovery_ports :: "int list"
  model_roots :: "root list"
  scripts :: "script list"
  allow_pull :: bool
  allow_delete :: bool
  allow_ipc_host :: bool
  external_control :: ustr
  max_shm_gib :: rat
  pol_home :: "ustr option"

definition python_default :: policy where
  "python_default =
     \<lparr>pol_path = None, pol_mode = U ''monitor'', pol_error = None, docker_binary = U ''docker'',
      docker_context = None, engine_images = [], gateway_image = None, engine_network = DEFAULT_NETWORK,
      port_range = DEFAULT_PORTS, discovery_ports = DEFAULT_DISCOVERY, model_roots = [], scripts = [],
      allow_pull = False, allow_delete = False, allow_ipc_host = False, external_control = U ''none'',
      max_shm_gib = 64, pol_home = None\<rparr>"

definition monitor_policy :: "ustr option \<Rightarrow> ustr option \<Rightarrow> policy" where
  "monitor_policy path error =
     python_default\<lparr>pol_path := path, pol_error := error, discovery_ports := []\<rparr>"

definition manage :: "policy \<Rightarrow> bool" where
  "manage p \<longleftrightarrow> pol_mode p = U ''manage''"

definition find_root :: "policy \<Rightarrow> ustr \<Rightarrow> root option" where
  "find_root p i = find (\<lambda>r. rt_id r = i) (model_roots p)"

definition root_of :: "policy \<Rightarrow> json \<Rightarrow> root option" where
  "root_of p v = (case v of JStr s \<Rightarrow> find_root p s | _ \<Rightarrow> None)"

definition find_script :: "policy \<Rightarrow> ustr \<Rightarrow> script option" where
  "find_script p n = find (\<lambda>s. sc_name s = n) (scripts p)"

definition find_action :: "script \<Rightarrow> ustr \<Rightarrow> script_action option" where
  "find_action s n = find (\<lambda>a. sa_name a = n) (sc_actions s)"

definition image_allowed :: "policy \<Rightarrow> ustr \<Rightarrow> bool" where
  "image_allowed p img \<longleftrightarrow> (\<exists>pat \<in> set (engine_images p). image_matches pat img)"

definition policy_where :: "policy \<Rightarrow> ustr" where
  "policy_where p = (case pol_path p of Some s \<Rightarrow> s | None \<Rightarrow> ETC_POLICY)"

section \<open>What hello reports\<close>

definition opt_str :: "ustr option \<Rightarrow> json" where
  "opt_str v = (case v of None \<Rightarrow> JNull | Some s \<Rightarrow> JStr s)"

definition root_summary :: "root \<Rightarrow> obj" where
  "root_summary r =
     [(U ''id'', JStr (rt_id r)), (U ''path'', JStr (rt_path r)), (U ''kind'', JStr (rt_kind r)),
      (U ''writable'', JBool (rt_writable r)),
      (U ''label'', JStr (if rt_label r = [] then rt_id r else rt_label r))]"

definition action_summary :: "script_action \<Rightarrow> obj" where
  "action_summary a =
     [(U ''name'', JStr (sa_name a)), (U ''label'', JStr (sa_label a)), (U ''args'', JArr (map JStr (sa_args a))),
      (U ''confirm'', JBool (sa_confirm a)), (U ''danger'', JBool (sa_danger a))]"

definition script_summary :: "script \<Rightarrow> obj" where
  "script_summary s =
     [(U ''name'', JStr (sc_name s)), (U ''label'', JStr (sc_label s)), (U ''engine'', opt_str (sc_engine s)),
      (U ''description'', JStr (sc_description s)),
      (U ''actions'', JArr (map (\<lambda>a. JObj (action_summary a)) (sc_actions s))),
      (U ''containers'', JArr (map JStr (sc_containers s))), (U ''status_action'', opt_str (sc_status_action s))]"

definition policy_summary :: "policy \<Rightarrow> obj" where
  "policy_summary p =
     [(U ''path'', opt_str (pol_path p)), (U ''mode'', JStr (pol_mode p)), (U ''error'', opt_str (pol_error p)),
      (U ''engine_images'', JArr (map JStr (engine_images p))), (U ''gateway_image'', opt_str (gateway_image p)),
      (U ''engine_network'', JStr (engine_network p)),
      (U ''port_range'', JArr [json_int (fst (port_range p)), json_int (snd (port_range p))]),
      (U ''discovery_ports'', JArr (map json_int (discovery_ports p))),
      (U ''model_roots'', JArr (map (\<lambda>r. JObj (root_summary r)) (model_roots p))),
      (U ''scripts'', JArr (map (\<lambda>s. JObj (script_summary s)) (scripts p))),
      (U ''allow_pull'', JBool (allow_pull p)), (U ''allow_delete'', JBool (allow_delete p)),
      (U ''allow_ipc_host'', JBool (allow_ipc_host p)), (U ''external_control'', JStr (external_control p)),
      (U ''max_shm_gib'', JNum (Float (max_shm_gib p)))]"

section \<open>Fields of a policy document\<close>

text \<open>A refusal is a \<open>PolicyError\<close>, its message.\<close>

definition keys :: "obj \<Rightarrow> ustr list \<Rightarrow> ustr \<Rightarrow> ustr + unit" where
  "keys m allowed loc =
     (case find (\<lambda>k. \<not> starts_with k [95] \<and> k \<notin> set allowed) (map fst m) of
        None \<Rightarrow> Inr ()
      | Some k \<Rightarrow> Inl (loc @ U '': unknown key '' @ py_repr k @ U '' (allowed: ''
                       @ join_with (U '', '') (sort allowed) @ U '')''))"

definition bool_field :: "obj \<Rightarrow> ustr \<Rightarrow> ustr \<Rightarrow> bool \<Rightarrow> ustr + bool" where
  "bool_field m key loc dflt =
     (case obj_get m key of
        None \<Rightarrow> Inr dflt
      | Some (JBool b) \<Rightarrow> Inr b
      | Some _ \<Rightarrow> Inl (loc @ U ''.'' @ key @ U '' must be true or false''))"

definition str_field :: "obj \<Rightarrow> ustr \<Rightarrow> ustr \<Rightarrow> nat \<Rightarrow> ustr option \<Rightarrow> re option \<Rightarrow> bool \<Rightarrow> ustr + ustr option" where
  "str_field m key loc limit dflt pattern req =
     (let v = obj_get m key in
      if v = None \<or> v = Some JNull then
        (if req then Inl (loc @ U ''.'' @ key @ U '' is required'') else Inr dflt)
      else (case v of
        Some (JStr s) \<Rightarrow>
          if s \<noteq> [] \<and> length s \<le> limit \<and> 0 \<notin> set s then
            (case pattern of
               None \<Rightarrow> Inr (Some s)
             | Some p \<Rightarrow>
                 if matches p s then Inr (Some s)
                 else Inl (loc @ U ''.'' @ key @ U '': '' @ py_repr s @ U '' is not a valid value''))
          else Inl (loc @ U ''.'' @ key @ U '' must be a non-empty string of at most '' @ dec limit @ U '' characters'')
      | _ \<Rightarrow> Inl (loc @ U ''.'' @ key @ U '' must be a non-empty string of at most '' @ dec limit @ U '' characters'')))"

definition int_field :: "json \<Rightarrow> ustr \<Rightarrow> int \<Rightarrow> int \<Rightarrow> ustr + int" where
  "int_field v loc lo hi =
     (let bad = Inl (loc @ U '' must be a whole number from '' @ dec_int lo @ U '' to '' @ dec_int hi) in
      case v of
        JNum n \<Rightarrow>
          (if is_f64 n then bad
           else (case as_i64 n of Some i \<Rightarrow> (if lo \<le> i \<and> i \<le> hi then Inr i else bad) | None \<Rightarrow> bad))
      | _ \<Rightarrow> bad)"

definition list_field :: "obj \<Rightarrow> ustr \<Rightarrow> ustr \<Rightarrow> nat \<Rightarrow> ustr + json list" where
  "list_field m key loc cap =
     (case obj_get m key of
        None \<Rightarrow> Inr []
      | Some JNull \<Rightarrow> Inr []
      | Some (JArr a) \<Rightarrow> (if length a \<le> cap then Inr a
          else Inl (loc @ U ''.'' @ key @ U '' must be a list of at most '' @ dec cap @ U '' items''))
      | Some _ \<Rightarrow> Inl (loc @ U ''.'' @ key @ U '' must be a list of at most '' @ dec cap @ U '' items''))"

text \<open>\<open>.filter(|s| !s.is_empty()).unwrap_or(d)\<close>\<close>

definition nonempty_or :: "ustr \<Rightarrow> ustr option \<Rightarrow> ustr" where
  "nonempty_or d v = (case v of None \<Rightarrow> d | Some s \<Rightarrow> (if s = [] then d else s))"

definition unwrap_or :: "'a \<Rightarrow> 'a option \<Rightarrow> 'a" where
  "unwrap_or d v = (case v of None \<Rightarrow> d | Some x \<Rightarrow> x)"

definition py_eq_one :: "json \<Rightarrow> bool" where
  "py_eq_one v = (case v of JBool b \<Rightarrow> b | JNum n \<Rightarrow> num_val n = 1 | _ \<Rightarrow> False)"

definition str_in :: "json option \<Rightarrow> ustr list \<Rightarrow> bool" where
  "str_in v s = (case v of Some (JStr t) \<Rightarrow> t \<in> set s | _ \<Rightarrow> False)"

section \<open>Automation for parsing\<close>

lemma str_Inr:
  "str_field m key loc limit dflt pattern req = Inr r \<longleftrightarrow>
     (if obj_get m key = None \<or> obj_get m key = Some JNull then \<not> req \<and> r = dflt
      else \<exists>s. obj_get m key = Some (JStr s) \<and> r = Some s \<and> s \<noteq> [] \<and> length s \<le> limit \<and> 0 \<notin> set s
             \<and> (\<forall>p. pattern = Some p \<longrightarrow> s \<in> lang p))"
  by (auto simp: str_field_def Let_def matches_iff split: option.splits json.splits if_splits)

lemma as_i64_not_f64: "as_i64 n = Some i \<Longrightarrow> \<not> is_f64 n"
  by (cases n) auto

lemma int_Inr: "int_field v loc lo hi = Inr i \<longleftrightarrow> json_i64 v = Some i \<and> lo \<le> i \<and> i \<le> hi"
  by (cases v) (auto simp: int_field_def Let_def as_i64_not_f64 split: option.splits)

lemma list_Inr:
  "list_field m key loc cap = Inr xs \<longleftrightarrow>
     (obj_get m key = None \<or> obj_get m key = Some JNull) \<and> xs = []
     \<or> obj_get m key = Some (JArr xs) \<and> length xs \<le> cap"
  by (auto simp: list_field_def split: option.splits json.splits if_splits)

end
