(* ===== verification/Server.thy ===== *)
theory Server
  imports NodeStream Msg Policy
begin

text \<open>
  The session of the node (crates/ecnode/src/server.rs, \<open>Shared\<close>, \<open>reader\<close>, \<open>on_message\<close>, \<open>on_req\<close>,
  \<open>handle\<close>, \<open>shutdown\<close>): which requests are admitted, what each is answered, and the table of requests
  in flight. \<open>ss_out\<close> is the sequence of frames given to the writer, with the bulk flag of each.

  \<open>srv_env\<close> is what one step takes from outside: the JSON printer, the printer of floats and the secret
  scrubber (messages only), the policy in force, and whether the operating system starts a thread.
\<close>

record srv_env =
  se_vec :: "obj \<Rightarrow> ustr + u8 list"
  se_repr :: "rat \<Rightarrow> ustr"
  se_scrub :: "ustr \<Rightarrow> ustr"
  se_pol :: policy
  se_spawn :: bool

record session =
  requests :: "(int \<times> request) list"
  max_inflight :: nat
  ss_down :: bool
  exit_code :: int
  ss_out :: "(u8 list \<times> bool) list"
  ran_hooks :: "nat list"
  stopped :: bool

definition session_new :: "nat \<Rightarrow> session" where
  "session_new limit =
     \<lparr>requests = [], max_inflight = limit, ss_down = False, exit_code = 0, ss_out = [], ran_hooks = [], stopped = False\<rparr>"

section \<open>Sending\<close>

text \<open>The frame \<open>Shared::send\<close> gives the writer, if any: an answer that cannot be sent is replaced.\<close>

definition frame_of :: "srv_env \<Rightarrow> obj \<Rightarrow> u8 list option" where
  "frame_of e m =
     (case encode_json (se_vec e) m of
        Inr f \<Rightarrow> Some f
      | Inl err \<Rightarrow>
          if obj_get m (U ''type'') = Some (JStr (U ''res'')) then
            (let i = unwrap_or 0 (json_i64 (obj_get_or_null m (U ''id''))) in
             case encode_json (se_vec e) (res_err i INTERNAL (U ''the result was too large or malformed to send'')) of
               Inr f \<Rightarrow> Some f
             | Inl _ \<Rightarrow> None)
          else None)"

definition send :: "srv_env \<Rightarrow> obj \<Rightarrow> bool \<Rightarrow> session \<Rightarrow> session" where
  "send e m bulk s = (case frame_of e m of None \<Rightarrow> s | Some f \<Rightarrow> s\<lparr>ss_out := ss_out s @ [(f, bulk)]\<rparr>)"

text \<open>A pushed message, rebuilt from its whitelist.\<close>

definition pushed :: "obj \<Rightarrow> obj option" where
  "pushed m =
     (case obj_get m (U ''type'') of
        Some (JStr t) \<Rightarrow>
          (case push t of
             None \<Rightarrow> None
           | Some spec \<Rightarrow> Some (obj_insert (U ''type'') (JStr t) (clean_obj (JObj m) spec)))
      | _ \<Rightarrow> None)"

definition push_msg :: "srv_env \<Rightarrow> obj \<Rightarrow> bool \<Rightarrow> session \<Rightarrow> session" where
  "push_msg e m bulk s = (case pushed m of None \<Rightarrow> s | Some m' \<Rightarrow> send e m' bulk s)"

definition log_msg :: "srv_env \<Rightarrow> ustr \<Rightarrow> ustr \<Rightarrow> obj" where
  "log_msg e level text =
     [(U ''type'', JStr (U ''log'')), (U ''level'', JStr level), (U ''msg'', JStr (take_chars (se_scrub e text) 1000))]"

definition log :: "srv_env \<Rightarrow> ustr \<Rightarrow> ustr \<Rightarrow> session \<Rightarrow> session" where
  "log e level text s = push_msg e (log_msg e level text) False s"

section \<open>Admission\<close>

definition value_int :: "json option \<Rightarrow> int option" where
  "value_int v = (case v of Some (JNum n) \<Rightarrow> (if is_f64 n then None else as_i64 n) | _ \<Rightarrow> None)"

text \<open>\<open>int_of(..).filter(valid_id_i64)\<close>\<close>

definition msg_id :: "obj \<Rightarrow> int option" where
  "msg_id m = (case value_int (obj_get m (U ''id'')) of
      Some i \<Rightarrow> (if valid_id_i64 i then Some i else None) | None \<Rightarrow> None)"

definition known_op :: "json option \<Rightarrow> ustr option" where
  "known_op v = (case v of Some (JStr op) \<Rightarrow> (if is_op op then Some op else None) | _ \<Rightarrow> None)"

definition is_upload :: "ustr \<Rightarrow> obj \<Rightarrow> bool" where
  "is_upload op got \<longleftrightarrow> op = U ''fs.write''
     \<or> op = U ''http.request'' \<and> 0 < unwrap_or 0 (value_int (obj_get got (U ''body_len'')))"

definition unknown_op_text :: "srv_env \<Rightarrow> json option \<Rightarrow> ustr" where
  "unknown_op_text e v =
     U ''this node does not know the op '' @ py_repr (take_chars (str_value (se_repr e) (unwrap_or JNull v)) 64)
     @ U '' (ecnode protocol '' @ dec_int PROTO @ U '')''"

definition monitor_text :: "policy \<Rightarrow> ustr \<Rightarrow> ustr" where
  "monitor_text p op =
     U ''this node's policy is in monitor mode''
     @ (case pol_error p of None \<Rightarrow> [] | Some e \<Rightarrow> U '' ('' @ e @ U '')'')
     @ U '', so '' @ op @ U '', which would change the machine, is refused; an administrator can set ''
     @ U ''\"mode\": \"manage\" in '' @ policy_where p"

text \<open>What becomes of a request: dropped, logged and dropped, refused, or admitted.\<close>

datatype verdict = Drop | Duplicate | Refuse ustr ustr | Admit ustr obj

text \<open>The decisions of \<open>on_req\<close> in its order, up to the table of requests.\<close>

definition judge :: "srv_env \<Rightarrow> obj \<Rightarrow> int \<Rightarrow> session \<Rightarrow> verdict" where
  "judge e m i s =
     (case known_op (obj_get m (U ''op'')) of
        None \<Rightarrow> Refuse UNKNOWN_OP (unknown_op_text e (obj_get m (U ''op'')))
      | Some op \<Rightarrow>
          if \<not> is_monitor_op op \<and> \<not> manage (se_pol e) then Refuse MONITOR_ONLY (monitor_text (se_pol e) op)
          else (let raw_args = obj_get_or_null m (U ''args'') in
            case clean_args op raw_args of
              Inl _ \<Rightarrow> Drop
            | Inr got \<Rightarrow>
                (case overlong_args op raw_args of
                   Some why \<Rightarrow> Refuse BAD_ARGS why
                 | None \<Rightarrow>
                     (let missing = missing_args op got in
                      if missing \<noteq> [] then Refuse BAD_ARGS (op @ U '' needs '' @ join_with (U '', '') missing)
                      else if obj_get (requests s) i \<noteq> None then Duplicate
                      else if max_inflight s \<le> length (requests s) then
                        Refuse BUSY (U ''this node is already running '' @ dec (max_inflight s)
                          @ U '' requests; try again shortly'')
                      else Admit op got))))"

text \<open>\<open>on_req\<close>: the new state, and the request whose handler was started.\<close>

definition on_req :: "srv_env \<Rightarrow> obj \<Rightarrow> session \<Rightarrow> session \<times> (int \<times> ustr \<times> obj) option" where
  "on_req e m s =
     (case msg_id m of
        None \<Rightarrow> (s, None)
      | Some i \<Rightarrow>
          (case judge e m i s of
             Drop \<Rightarrow> (s, None)
           | Refuse code why \<Rightarrow> (send e (res_err i code why) False s, None)
           | Duplicate \<Rightarrow>
               (log e (U ''warn'') (U ''ignored request '' @ dec_int i @ U '': that id is already in flight'') s, None)
           | Admit op got \<Rightarrow>
               (let s = s\<lparr>requests := obj_insert i (request_new i op (is_upload op got)) (requests s)\<rparr> in
                if se_spawn e then (s, Some (i, op, got))
                else (let s = s\<lparr>requests := tab_remove i (requests s)\<rparr> in
                      (send e (res_err i INTERNAL (U ''the node could not start a thread for this request'')) False s,
                       None)))))"

section \<open>The other messages\<close>

definition update :: "int \<Rightarrow> (request \<Rightarrow> request) \<Rightarrow> session \<Rightarrow> session" where
  "update i f s =
     (case obj_get (requests s) i of
        None \<Rightarrow> s
      | Some r \<Rightarrow> s\<lparr>requests := obj_insert i (f r) (requests s)\<rparr>)"

definition do_cancel :: "int \<Rightarrow> session \<Rightarrow> session" where
  "do_cancel i s =
     (case obj_get (requests s) i of
        None \<Rightarrow> s
      | Some r \<Rightarrow> (let (hs, r') = cancel_req r in
          s\<lparr>requests := obj_insert i r' (requests s), ran_hooks := ran_hooks s @ hs\<rparr>))"

definition on_message :: "srv_env \<Rightarrow> obj \<Rightarrow> session \<Rightarrow> session \<times> (int \<times> ustr \<times> obj) option" where
  "on_message e m s =
     (let t = json_str (obj_get_or_null m (U ''type'')) in
      if t = Some (U ''req'') then on_req e m s
      else (case msg_id m of
          None \<Rightarrow> (s, None)
        | Some i \<Rightarrow>
            (if t = Some (U ''ping'') then send e (pong i) False s
             else if t = Some (U ''cancel'') then do_cancel i s
             else if t = Some (U ''credit'') then
               (case value_int (obj_get m (U ''bytes'')) of
                  Some n \<Rightarrow> (if 0 < n \<and> n \<le> 2 ^ 40 then update i (add_credit n) s else s)
                | None \<Rightarrow> s)
             else if t = Some (U ''end'') then update i end_req s
             else s, None)))"

text \<open>One frame from the hub.\<close>

definition on_frame :: "srv_env \<Rightarrow> frame \<Rightarrow> session \<Rightarrow> session \<times> (int \<times> ustr \<times> obj) option" where
  "on_frame e f s =
     (case f of
        FData stream data \<Rightarrow> (update (uint stream) (add_data data) s, None)
      | FJson m \<Rightarrow> on_message e m s)"

text \<open>How the reader loop ends: end of input, a broken protocol, or a read error.\<close>

definition reader_end :: "(read_error + unit) \<Rightarrow> session \<Rightarrow> session" where
  "reader_end r s =
     (case r of
        Inl (Proto e) \<Rightarrow> s\<lparr>exit_code := 2, ss_down := True\<rparr>
      | _ \<Rightarrow> s\<lparr>ss_down := True\<rparr>)"

section \<open>Handlers\<close>

datatype outcome = HResult obj | HFailed handler_error | HPanic

definition internal_res :: "int \<Rightarrow> ustr \<Rightarrow> ustr \<Rightarrow> obj" where
  "internal_res i op kind =
     res_err i INTERNAL (U ''the node hit an unexpected error in '' @ op @ U '' ('' @ kind @ U ''); see the node's stderr'')"

definition res_of :: "srv_env \<Rightarrow> int \<Rightarrow> ustr \<Rightarrow> outcome \<Rightarrow> obj" where
  "res_of e i op oc =
     (case oc of
        HResult r \<Rightarrow> res_ok i (Some (clean_obj (JObj r) (results op)))
      | HFailed HCancelled \<Rightarrow> res_err i CANCELLED (U ''cancelled'')
      | HFailed (HOp code message) \<Rightarrow> res_err i code (se_scrub e message)
      | HFailed (HInternal kind loc) \<Rightarrow> internal_res i op kind
      | HPanic \<Rightarrow> internal_res i op (U ''panic''))"

definition res_code :: "obj \<Rightarrow> ustr" where
  "res_code res =
     (case obj_get res (U ''error'') of
        Some (JObj err) \<Rightarrow> unwrap_or [] (json_str (obj_get_or_null err (U ''code'')))
      | _ \<Rightarrow> [])"

definition final_res :: "srv_env \<Rightarrow> int \<Rightarrow> ustr \<Rightarrow> outcome \<Rightarrow> bool \<Rightarrow> obj" where
  "final_res e i op oc was_cancelled =
     (let res = res_of e i op oc in
      if was_cancelled \<and> obj_get res (U ''ok'') \<noteq> Some (JBool True) \<and> res_code res \<noteq> CANCELLED
      then res_err i CANCELLED (U ''cancelled'') else res)"

text \<open>The end of \<open>handle\<close>: the answer goes out, and then the request leaves the table.\<close>

definition answer_handler :: "srv_env \<Rightarrow> int \<Rightarrow> outcome \<Rightarrow> session \<Rightarrow> session" where
  "answer_handler e i oc s =
     (case obj_get (requests s) i of
        None \<Rightarrow> s
      | Some r \<Rightarrow> send e (final_res e i (rop r) oc (cancelled (ss_down s) r)) False s)"

definition retire :: "int \<Rightarrow> session \<Rightarrow> session" where
  "retire i s = s\<lparr>requests := tab_remove i (requests s)\<rparr>"

text \<open>\<open>Request::event\<close>\<close>

definition send_event :: "srv_env \<Rightarrow> int \<Rightarrow> obj \<Rightarrow> session \<Rightarrow> session" where
  "send_event e i ev s =
     (case obj_get (requests s) i of
        None \<Rightarrow> s
      | Some r \<Rightarrow> send e (event i (clean_obj (JObj ev) (events (rop r)))) (rop r \<in> set LINE_OPS) s)"

text \<open>\<open>shutdown\<close>: every request is cancelled, and the writer is closed.\<close>

definition shutdown :: "session \<Rightarrow> session" where
  "shutdown s =
     (let cs = map (\<lambda>(i, r). (i, cancel_req r)) (requests s) in
      s\<lparr>ss_down := True, requests := map (\<lambda>(i, hr). (i, snd hr)) cs,
        ran_hooks := ran_hooks s @ concat (map (\<lambda>(i, hr). fst hr) cs), stopped := True\<rparr>)"

section \<open>Inventory changes\<close>

definition strip_items :: "obj \<Rightarrow> ustr \<Rightarrow> ustr \<Rightarrow> json" where
  "strip_items m k dropped =
     JArr (case obj_get m k of
        Some (JArr a) \<Rightarrow> map (\<lambda>c. case c of JObj c' \<Rightarrow> JObj (obj_remove dropped c') | _ \<Rightarrow> c) a
      | _ \<Rightarrow> [])"

definition inventory_key :: "obj \<Rightarrow> json" where
  "inventory_key m =
     JArr [strip_items m (U ''containers'') (U ''status''), obj_get_or_null m (U ''endpoints''),
           strip_items m (U ''scripts'') (U ''checked_at'')]"

text \<open>One round of the inventory loop: \<open>put_ok\<close> is whether the writer took the message.\<close>

definition inventory_due :: "rat \<Rightarrow> rat \<Rightarrow> json option \<times> rat option \<Rightarrow> json \<Rightarrow> bool" where
  "inventory_due now period st key \<longleftrightarrow>
     fst st \<noteq> Some key \<or> (case snd st of None \<Rightarrow> True | Some t \<Rightarrow> period \<le> now - t)"

definition inventory_round ::
  "rat \<Rightarrow> rat \<Rightarrow> bool \<Rightarrow> obj \<Rightarrow> json option \<times> rat option \<Rightarrow> obj option \<times> (json option \<times> rat option)" where
  "inventory_round now period put_ok fresh st =
     (let key = inventory_key fresh in
      if inventory_due now period st key then
        (let m = obj_of ((U ''type'', JStr (U ''inventory'')) # fresh)
         in (pushed m, if put_ok \<and> pushed m \<noteq> None then (Some key, Some now) else st))
      else (None, st))"

end
