(* ===== verification/Session.thy ===== *)
theory Session
  imports Server
begin

text \<open>
  The session of the node as a transition system (crates/ecnode/src/server.rs): the reader's frames,
  the handlers' calls on their streams, their answers, and shutdown, in any order. What is shown: the
  invariant of the table of requests, what an admitted request satisfies, and that the session
  implements the abstract protocol in which an id is taken, answered once, and free again.
\<close>

section \<open>Small facts\<close>

lemma send_fields [simp]: "requests (send e m b s) = requests s" "max_inflight (send e m b s) = max_inflight s"
  "ss_down (send e m b s) = ss_down s"
  by (simp_all add: send_def split: option.splits)

lemma push_fields [simp]: "requests (push_msg e m b s) = requests s" "max_inflight (push_msg e m b s) = max_inflight s"
  by (simp_all add: push_msg_def split: option.splits)

lemma log_fields [simp]: "requests (log e l t s) = requests s" "max_inflight (log e l t s) = max_inflight s"
  by (simp_all add: log_def)

lemma send_event_fields [simp]: "requests (send_event e i ev s) = requests s" "max_inflight (send_event e i ev s) = max_inflight s"
  by (simp_all add: send_event_def split: option.splits)

lemma answer_fields [simp]: "requests (answer_handler e i oc s) = requests s"
  "max_inflight (answer_handler e i oc s) = max_inflight s"
  by (simp_all add: answer_handler_def split: option.splits)

lemma reader_end_fields [simp]: "requests (reader_end x s) = requests s" "max_inflight (reader_end x s) = max_inflight s"
  by (simp_all add: reader_end_def split: sum.splits read_error.splits)

section \<open>Admission\<close>

lemma judge_Admit:
  assumes "judge e m i s = Admit op got"
  shows "obj_get m (U ''op'') = Some (JStr op) \<and> is_op op \<and> (manage (se_pol e) \<or> is_monitor_op op)
    \<and> clean_args op (obj_get_or_null m (U ''args'')) = Inr got
    \<and> overlong_args op (obj_get_or_null m (U ''args'')) = None \<and> missing_args op got = []
    \<and> obj_get (requests s) i = None \<and> length (requests s) < max_inflight s"
  using assms
  by (auto simp: judge_def known_op_def Let_def split: option.splits json.splits if_splits sum.splits)

definition table_ok :: "nat \<Rightarrow> (int \<times> request) list \<Rightarrow> bool" where
  "table_ok n rs \<longleftrightarrow> obj_wf rs \<and> length rs \<le> n
     \<and> (\<forall>(i, r) \<in> set rs. rid r = i \<and> valid_id_i64 i \<and> is_op (rop r))"

lemma msg_id_valid: "msg_id m = Some i \<Longrightarrow> valid_id_i64 i"
  by (auto simp: msg_id_def split: option.splits if_splits)

lemma tab_remove_fresh: "obj_get rs i = None \<Longrightarrow> tab_remove i (obj_insert i r rs) = rs"
  by (induction rs) (auto simp: tab_remove_def filter_id_conv split: if_splits)

lemma on_req_requests:
  "on_req e m s = (s', st) \<Longrightarrow>
     max_inflight s' = max_inflight s \<and>
     (case st of
        None \<Rightarrow> requests s' = requests s
      | Some (i, op, got) \<Rightarrow> judge e m i s = Admit op got \<and> msg_id m = Some i
          \<and> s' = s\<lparr>requests := obj_insert i (request_new i op (is_upload op got)) (requests s)\<rparr>)"
  by (auto simp: on_req_def Let_def tab_remove_fresh dest: judge_Admit split: option.splits verdict.splits if_splits)


lemma update_requests:
  assumes "\<And>r. rid (f r) = rid r \<and> rop (f r) = rop r" "table_ok n (requests s)"
  shows "table_ok n (requests (update i f s))" and "fst ` set (requests (update i f s)) = fst ` set (requests s)"
    and "max_inflight (update i f s) = max_inflight s"
    and "rop ` snd ` set (requests (update i f s)) \<subseteq> rop ` snd ` set (requests s)"
proof -
  have "table_ok n (requests (update i f s)) \<and> fst ` set (requests (update i f s)) = fst ` set (requests s)
    \<and> rop ` snd ` set (requests (update i f s)) \<subseteq> rop ` snd ` set (requests s)"
  proof (cases "obj_get (requests s) i")
    case (Some r)
    have k: "(i, r) \<in> set (requests s)" using Some by (rule obj_get_SomeD)
    have u: "requests (update i f s) = obj_insert i (f r) (requests s)" using Some by (simp add: update_def)
    have "fst ` set (obj_insert i (f r) (requests s)) = fst ` set (requests s)"
      using keys_obj_insert[of i "f r" "requests s"] k by (metis image_set image_eqI fst_conv)
    moreover have "table_ok n (obj_insert i (f r) (requests s))"
      using assms k set_obj_insert[of i "f r" "requests s"] Some
      by (fastforce simp: table_ok_def length_obj_insert)
    moreover have "rop ` snd ` set (obj_insert i (f r) (requests s)) \<subseteq> rop ` snd ` set (requests s)"
      using set_obj_insert[of i "f r" "requests s"] assms(1) k by force
    ultimately show ?thesis by (simp add: u)
  qed (use assms(2) in \<open>simp_all add: update_def\<close>)
  then show "table_ok n (requests (update i f s))" "fst ` set (requests (update i f s)) = fst ` set (requests s)"
    "rop ` snd ` set (requests (update i f s)) \<subseteq> rop ` snd ` set (requests s)" by blast+
  show "max_inflight (update i f s) = max_inflight s" by (simp add: update_def split: option.splits)
qed

lemma do_cancel_update:
  "requests (do_cancel i s) = requests (update i (\<lambda>r. snd (cancel_req r)) s)" "max_inflight (do_cancel i s) = max_inflight s"
  by (simp_all add: do_cancel_def update_def Let_def split: option.splits prod.splits)

text \<open>The reader's part of the stream state never touches a request's id or operation.\<close>

lemma stream_ids:
  "rid (add_credit n r) = rid r \<and> rop (add_credit n r) = rop r"
  "rid (add_data d r) = rid r \<and> rop (add_data d r) = rop r"
  "rid (end_req r) = rid r \<and> rop (end_req r) = rop r"
  "rid (snd (cancel_req r)) = rid r \<and> rop (snd (cancel_req r)) = rop r"
  by (simp_all add: add_credit_def add_data_def end_req_def cancel_req_def Let_def)

definition same_ids :: "session \<Rightarrow> session \<Rightarrow> bool" where
  "same_ids s s' \<longleftrightarrow> max_inflight s' = max_inflight s \<and> fst ` set (requests s') = fst ` set (requests s)
     \<and> rop ` snd ` set (requests s') \<subseteq> rop ` snd ` set (requests s)"

lemma same_ids_update:
  assumes "table_ok n (requests s)" "\<And>r. rid (f r) = rid r \<and> rop (f r) = rop r"
  shows "same_ids s (update i f s)" "table_ok n (requests (update i f s))"
  using update_requests[OF assms(2,1)] by (simp_all add: same_ids_def)

lemma on_frame_cases:
  assumes "on_frame e f s = (s', st)" "table_ok n (requests s)"
  obtains (start) m i op got where "st = Some (i, op, got)" "f = FJson m"
      "json_str (obj_get_or_null m (U ''type'')) = Some (U ''req'')" "msg_id m = Some i" "judge e m i s = Admit op got"
      "s' = s\<lparr>requests := obj_insert i (request_new i op (is_upload op got)) (requests s)\<rparr>"
  | (other) "st = None" "same_ids s s'" "table_ok n (requests s')"
proof (cases f)
  case (FData stream data)
  then have "s' = update (uint stream) (add_data data) s" "st = None" using assms(1) by (simp_all add: on_frame_def)
  then show ?thesis using other same_ids_update[OF assms(2) stream_ids(2)] by simp
next
  case (FJson m)
  then have m: "on_message e m s = (s', st)" using assms(1) by (simp add: on_frame_def)
  show ?thesis
  proof (cases "json_str (obj_get_or_null m (U ''type'')) = Some (U ''req'')")
    case True
    then have r: "on_req e m s = (s', st)" using m by (simp add: on_message_def)
    show ?thesis
    proof (cases st)
      case None
      then show ?thesis using other on_req_requests[OF r] assms(2) by (simp add: same_ids_def)
    next
      case (Some x)
      obtain i op got where x: "x = (i, op, got)" by (metis prod_cases3)
      then show ?thesis using start[OF _ FJson True] on_req_requests[OF r] Some by simp
    qed
  next
    case False
    have st: "st = None" using m False by (auto simp: on_message_def Let_def split: option.splits if_splits)
    have "s' = s \<or> (\<exists>x b. s' = send e x b s) \<or> (\<exists>i. s' = do_cancel i s) \<or> (\<exists>i n. s' = update i (add_credit n) s)
        \<or> (\<exists>i. s' = update i end_req s)"
      using m False by (auto simp: on_message_def Let_def split: option.splits if_splits)
    then have "same_ids s s' \<and> table_ok n (requests s')"
      using same_ids_update[OF assms(2) stream_ids(1)] same_ids_update[OF assms(2) stream_ids(3)]
        same_ids_update[OF assms(2) stream_ids(4)] assms(2)
      by (elim disjE exE) (simp_all add: same_ids_def do_cancel_update)
    then show ?thesis using other st by blast
  qed
qed

section \<open>The session as a transition system\<close>

text \<open>What a handler does to its stream between two waits.\<close>

datatype stream_call = CallOnCancel bool nat | CallSend bool bool "u8 list" | CallRead bool bool

fun stream_apply :: "stream_call \<Rightarrow> request \<Rightarrow> request" where
  "stream_apply (CallOnCancel down h) r = snd (on_cancel down h r)"
| "stream_apply (CallSend down late view) r =
     (case send_turn down late view r of SendWait \<Rightarrow> r | SendErr err r' \<Rightarrow> r' | SendFrame d rest r' \<Rightarrow> r')"
| "stream_apply (CallRead down late) r =
     (case read_turn down late r of ReadChunk c g r' \<Rightarrow> r' | _ \<Rightarrow> r)"

text \<open>
  A state is the session and the ids whose handler has answered but not yet left the table. The label
  says what the step means to the hub. \<open>E\<close> are the environments (policies among them) that steps may
  run under.
\<close>

datatype act = Taken int | Answer int | Retire int | Internal

inductive sstep :: "srv_env set \<Rightarrow> session \<times> int set \<Rightarrow> act \<Rightarrow> session \<times> int set \<Rightarrow> bool" for E where
  frame_starts: "e \<in> E \<Longrightarrow> on_frame e f s = (s', Some (i, op, got)) \<Longrightarrow> sstep E (s, B) (Taken i) (s', B)"
| frame_done: "e \<in> E \<Longrightarrow> on_frame e f s = (s', None) \<Longrightarrow> sstep E (s, B) Internal (s', B)"
| answers: "e \<in> E \<Longrightarrow> obj_get (requests s) i \<noteq> None \<Longrightarrow> i \<notin> B \<Longrightarrow>
     sstep E (s, B) (Answer i) (answer_handler e i oc s, insert i B)"
| retires: "i \<in> B \<Longrightarrow> sstep E (s, B) (Retire i) (retire i s, B - {i})"
| sends_event: "e \<in> E \<Longrightarrow> sstep E (s, B) Internal (send_event e i ev s, B)"
| uses_stream: "sstep E (s, B) Internal (update i (stream_apply c) s, B)"
| pushes: "e \<in> E \<Longrightarrow> sstep E (s, B) Internal (push_msg e m bulk s, B)"
| reader_ends: "sstep E (s, B) Internal (reader_end x s, B)"
| shuts_down: "sstep E (s, B) Internal (shutdown s, B)"

inductive_cases sstepE: "sstep E (s, B) a sB'"

inductive sruns :: "srv_env set \<Rightarrow> session \<times> int set \<Rightarrow> act list \<Rightarrow> session \<times> int set \<Rightarrow> bool" for E where
  sruns_nil: "sruns E x [] x"
| sruns_snoc: "sruns E x as y \<Longrightarrow> sstep E y a z \<Longrightarrow> sruns E x (as @ [a]) z"

lemma stream_apply_ids: "rid (stream_apply c r) = rid r \<and> rop (stream_apply c r) = rop r"
  by (cases c) (auto simp: on_cancel_def send_turn_def read_turn_def Let_def split: option.splits list.splits sum.splits if_splits)

lemma shutdown_requests: "requests (shutdown s) = map (\<lambda>(i, r). (i, snd (cancel_req r))) (requests s)"
  by (simp add: shutdown_def Let_def case_prod_beta comp_def)

lemma same_ids_shutdown: "same_ids s (shutdown s)" "table_ok n (requests s) \<Longrightarrow> table_ok n (requests (shutdown s))"
proof -
  have f: "map fst (requests (shutdown s)) = map fst (requests s)"
    by (simp add: shutdown_requests case_prod_beta comp_def)
  then have "fst ` set (requests (shutdown s)) = fst ` set (requests s)" by (metis set_map)
  moreover have "rop ` snd ` set (requests (shutdown s)) \<subseteq> rop ` snd ` set (requests s)"
  proof
    fix x assume "x \<in> rop ` snd ` set (requests (shutdown s))"
    then obtain i r where "(i, r) \<in> set (requests s)" "x = rop r" by (auto simp: shutdown_requests stream_ids)
    then show "x \<in> rop ` snd ` set (requests s)" by force
  qed
  ultimately show "same_ids s (shutdown s)" by (simp add: same_ids_def shutdown_def Let_def)
  assume "table_ok n (requests s)"
  moreover from this have "obj_wf (requests (shutdown s))" unfolding table_ok_def obj_wf_def f by simp
  ultimately show "table_ok n (requests (shutdown s))"
    by (auto simp: table_ok_def shutdown_requests stream_ids)
qed

definition sys_ok :: "nat \<Rightarrow> session \<times> int set \<Rightarrow> bool" where
  "sys_ok n sB \<longleftrightarrow> table_ok n (requests (fst sB)) \<and> max_inflight (fst sB) = n \<and> snd sB \<subseteq> fst ` set (requests (fst sB))"

lemma table_ok_start:
  assumes "table_ok n (requests s)" "judge e m i s = Admit op got" "msg_id m = Some i" "max_inflight s = n"
  shows "table_ok n (obj_insert i (request_new i op up) (requests s))"
    and "fst ` set (obj_insert i (request_new i op up) (requests s)) = insert i (fst ` set (requests s))"
    and "i \<notin> fst ` set (requests s)"
proof -
  have j: "obj_get (requests s) i = None" "length (requests s) < n" "is_op op"
    using judge_Admit[OF assms(2)] assms(4) by simp_all
  then show i: "i \<notin> fst ` set (requests s)" by (simp add: obj_get_None_iff)
  show "fst ` set (obj_insert i (request_new i op up) (requests s)) = insert i (fst ` set (requests s))"
    by (simp add: obj_insert_fresh[OF i])
  show "table_ok n (obj_insert i (request_new i op up) (requests s))"
    using assms(1) j i msg_id_valid[OF assms(3)]
    by (auto simp: table_ok_def obj_insert_fresh[OF i] obj_wf_def request_new_def)
qed

lemma table_ok_retire: "table_ok n rs \<Longrightarrow> table_ok n (tab_remove i rs) \<and> fst ` set (tab_remove i rs) = fst ` set rs - {i}"
  by (auto simp: table_ok_def tab_remove_def obj_wf_def distinct_map_filter intro: order_trans[OF length_filter_le])

text \<open>The abstract protocol: ids in flight and, among them, ids that were answered.\<close>

fun aact :: "nat \<Rightarrow> act \<Rightarrow> int set \<times> int set \<Rightarrow> (int set \<times> int set) option" where
  "aact n (Taken i) (A, B) = (if i \<notin> A \<and> card A < n then Some (insert i A, B) else None)"
| "aact n (Answer i) (A, B) = (if i \<in> A - B then Some (A, insert i B) else None)"
| "aact n (Retire i) (A, B) = (if i \<in> B then Some (A - {i}, B - {i}) else None)"
| "aact n Internal (A, B) = Some (A, B)"

definition abs_sys :: "session \<times> int set \<Rightarrow> int set \<times> int set" where
  "abs_sys sB = (fst ` set (requests (fst sB)), snd sB)"

lemma card_keys: "table_ok n rs \<Longrightarrow> card (fst ` set rs) = length rs"
  by (metis distinct_card length_map obj_wf_def set_map table_ok_def)

lemma sstep_same:
  "same_ids s s' \<Longrightarrow> table_ok n (requests s') \<Longrightarrow> sys_ok n (s, B) \<Longrightarrow>
     sys_ok n (s', B) \<and> aact n Internal (abs_sys (s, B)) = Some (abs_sys (s', B))"
  by (simp add: sys_ok_def same_ids_def abs_sys_def)

lemma sstep_ok:
  assumes "sstep E sB a sB'" "sys_ok n sB"
  shows "sys_ok n sB' \<and> aact n a (abs_sys sB) = Some (abs_sys sB')"
  using assms
proof (induction rule: sstep.induct)
  case (frame_starts e f s s' i op got B)
  then have ok: "table_ok n (requests s)" "max_inflight s = n" "B \<subseteq> fst ` set (requests s)" by (simp_all add: sys_ok_def)
  obtain m where m: "msg_id m = Some i" "judge e m i s = Admit op got"
    "s' = s\<lparr>requests := obj_insert i (request_new i op (is_upload op got)) (requests s)\<rparr>"
    by (rule on_frame_cases[OF frame_starts(2) ok(1)]) auto
  show ?case
    using table_ok_start[OF ok(1) m(2,1) ok(2)] ok judge_Admit[OF m(2)] card_keys[OF ok(1)] m(3)
    by (auto simp: sys_ok_def abs_sys_def)
next
  case (frame_done e f s s' B)
  then have "table_ok n (requests s)" by (simp add: sys_ok_def)
  then have "same_ids s s' \<and> table_ok n (requests s')" by (rule on_frame_cases[OF frame_done(2)]) simp_all
  then show ?case using sstep_same frame_done(3) by blast
next
  case (uses_stream s B i c)
  then have "table_ok n (requests s)" by (simp add: sys_ok_def)
  from sstep_same[OF same_ids_update[OF this stream_apply_ids] uses_stream] show ?case .
next
  case (shuts_down s B)
  then have "table_ok n (requests s)" by (simp add: sys_ok_def)
  from sstep_same[OF same_ids_shutdown(1) same_ids_shutdown(2)[OF this] shuts_down] show ?case .
next
  case (retires i B s)
  then show ?case using table_ok_retire[of n "requests s" i] by (auto simp: sys_ok_def abs_sys_def retire_def)
qed (auto simp: sys_ok_def abs_sys_def obj_get_None_iff)

lemma sruns_ok: "sruns E (session_new n, {}) as sB \<Longrightarrow> sys_ok n sB"
proof (induction "(session_new n, {} :: int set)" as sB rule: sruns.induct)
  case sruns_nil
  show ?case by (simp add: sys_ok_def session_new_def table_ok_def obj_wf_def)
next
  case (sruns_snoc as y a z)
  then show ?case using sstep_ok by blast
qed

section \<open>What the session guarantees\<close>

text \<open>A node in monitor mode, and a request for its description.\<close>

definition monitor_env :: srv_env where
  "monitor_env = \<lparr>se_vec = (\<lambda>_. Inr [123, 125]), se_repr = (\<lambda>_. []), se_scrub = (\<lambda>t. t),
     se_pol = monitor_policy None None, se_spawn = True\<rparr>"

definition info_req :: obj where
  "info_req = [(U ''type'', JStr (U ''req'')), (U ''id'', JNum (PosInt 5)), (U ''op'', JStr (U ''node.info''))]"

lemma info_req_starts:
  "on_frame monitor_env (FJson info_req) (session_new 2)
   = ((session_new 2)\<lparr>requests := [(5, request_new 5 (U ''node.info'') False)]\<rparr>, Some (5, U ''node.info'', []))"
proof -
  have a: "args (U ''node.info'') = Some (SObj [])" by (simp add: args_def ARGS_def)
  have i: "msg_id info_req = Some 5"
    by (simp add: info_req_def msg_id_def value_int_def valid_id_i64_def MAX_ID_def)
  have j: "judge monitor_env info_req 5 (session_new 2) = Admit (U ''node.info'') []"
    by (simp add: judge_def info_req_def known_op_def is_op_def OPS_def is_monitor_op_def MONITOR_OPS_def clean_args_def a
        overlong_args_def missing_args_def required_def Let_def session_new_def obj_get_or_null_def clean_obj_def obj_of_def)
  have t: "json_str (obj_get_or_null info_req (U ''type'')) = Some (U ''req'')"
    by (simp add: info_req_def obj_get_or_null_def)
  have u: "is_upload (U ''node.info'') [] = False" by (simp add: is_upload_def)
  have n: "se_spawn monitor_env" "requests (session_new 2) = []" by (simp_all add: monitor_env_def session_new_def)
  show ?thesis
    using n by (simp add: on_frame_def on_message_def t on_req_def i j u Let_def)
qed



lemma sstep_ops:
  assumes "sstep E sB a sB'" "sys_ok n sB" "\<forall>e \<in> E. \<not> manage (se_pol e)"
    and "\<forall>op \<in> rop ` snd ` set (requests (fst sB)). is_monitor_op op"
  shows "\<forall>op \<in> rop ` snd ` set (requests (fst sB')). is_monitor_op op"
  using assms
proof (induction rule: sstep.induct)
  case (frame_starts e f s s' i op got B)
  obtain m where m: "judge e m i s = Admit op got"
    "s' = s\<lparr>requests := obj_insert i (request_new i op (is_upload op got)) (requests s)\<rparr>"
    using frame_starts(2,3) by (auto elim: on_frame_cases simp: sys_ok_def)
  have "is_monitor_op op" using judge_Admit[OF m(1)] frame_starts(1,4) by blast
  then show ?case using m(2) set_obj_insert[of i "request_new i op (is_upload op got)" "requests s"] frame_starts(5)
    by (fastforce simp: request_new_def)
next
  case (frame_done e f s s' B)
  then have "same_ids s s'" by (auto elim: on_frame_cases simp: sys_ok_def)
  then show ?case using frame_done(5) unfolding same_ids_def fst_conv by blast
next
  case (uses_stream s B i c)
  then have "table_ok n (requests s)" by (simp add: sys_ok_def)
  then have "same_ids s (update i (stream_apply c) s)" by (rule same_ids_update[OF _ stream_apply_ids])
  then show ?case using uses_stream(3) unfolding same_ids_def fst_conv by blast
next
  case (shuts_down s B)
  then show ?case using same_ids_shutdown(1)[of s] unfolding same_ids_def fst_conv by blast
next
  case (retires i B s)
  then show ?case by (auto simp: retire_def tab_remove_def)
qed auto

text \<open>
  C35. A node whose policy is in monitor mode runs only operations that do not change the machine: in
  every run of the session under such policies, whatever frames arrive in whatever order, every
  request in the table is for a monitor operation.
\<close>

theorem monitor_never_changes:
  assumes "sruns E (session_new n, {}) tr (s, B)" "\<forall>e \<in> E. \<not> manage (se_pol e)" "(i, r) \<in> set (requests s)"
  shows "is_monitor_op (rop r)"
proof -
  have "\<forall>op \<in> rop ` snd ` set (requests (fst sB)). is_monitor_op op" if "sruns E (session_new n, {}) tr sB" for sB
    using that
  proof (induction "(session_new n, {} :: int set)" tr sB rule: sruns.induct)
    case (sruns_snoc as y a z)
    show ?case by (rule sstep_ops[OF sruns_snoc(3) sruns_ok[OF sruns_snoc(1)] assms(2) sruns_snoc(2)])
  qed (simp add: session_new_def)
  from this[OF assms(1)] assms(3) show ?thesis by force
qed

lemma info_run: "sruns {monitor_env} (session_new 2, {}) [Taken 5]
    ((session_new 2)\<lparr>requests := [(5, request_new 5 (U ''node.info'') False)]\<rparr>, {})"
  using sruns_snoc[OF sruns_nil frame_starts[OF _ info_req_starts]] by simp

lemma monitor_never_changes_witness:
  "is_monitor_op (rop (request_new 5 (U ''node.info'') False)) \<and> \<not> is_monitor_op (U ''fs.delete'')"
proof -
  have "\<not> manage (se_pol monitor_env)" by (simp add: monitor_env_def manage_def monitor_policy_def python_default_def U_def)
  then show ?thesis using monitor_never_changes[OF info_run]
    by (simp add: is_monitor_op_def MONITOR_OPS_def U_def)
qed






end
