(* ===== verification/PolicyParse.thy ===== *)
theory PolicyParse
  imports Policy
begin

text \<open>
  Validating a policy document (crates/ecnode/src/policy.rs, \<open>root_path\<close>, \<open>check_root_overlap\<close>,
  \<open>recheck_root_real\<close>, \<open>script\<close>, \<open>parse\<close>). \<open>penv\<close> is what the checks see of the process: its working
  directory, the symlinks of the file system, and the printer of floats (messages only).
\<close>

record penv =
  cwd :: ustr
  links :: "ustr \<Rightarrow> link"
  float_repr :: "rat \<Rightarrow> ustr"

section \<open>Root paths\<close>

definition protected_dirs :: "penv \<Rightarrow> ustr option \<Rightarrow> ustr option \<Rightarrow> (ustr \<times> ustr) list" where
  "protected_dirs e policy_path home =
     [(U ''the node's system policy directory'', U ''/etc/ecnode'')]
     @ (case policy_path of
          Some p \<Rightarrow> if p = [] then [] else [(U ''the policy file's directory'', dirname (abspath (cwd e) p))]
        | None \<Rightarrow> [])
     @ (case home of
          Some h \<Rightarrow> if h = [] then [] else
            [(U ''the login user's SSH directory'', join_paths h [U ''.ssh'']),
             (U ''the node's user policy directory'', join_paths h [U ''.config/ecnode'']),
             (U ''the node's state directory'', join_paths h [U ''.local/state/ecnode''])]
        | None \<Rightarrow> [])"

text \<open>\<open>Path\<close>'s equality compares components: a doubled slash and an inner \<open>.\<close> do not count.\<close>

definition path_components :: "ustr \<Rightarrow> bool \<times> ustr list" where
  "path_components p =
     (let segs = split_on slash p; root = starts_with p [slash] in
      (root, (if \<not> root \<and> hd segs = dot_seg then [dot_seg] else [])
             @ filter (\<lambda>s. s \<noteq> [] \<and> s \<noteq> dot_seg) segs))"

definition path_eq :: "ustr \<Rightarrow> ustr \<Rightarrow> bool" where
  "path_eq a b \<longleftrightarrow> path_components a = path_components b"

definition path_forms :: "penv \<Rightarrow> ustr \<Rightarrow> ustr list" where
  "path_forms e p =
     (let nrm = normpath p; rl = realpath (cwd e) (links e) p in
      if path_eq rl nrm then [nrm] else [nrm, rl])"

definition check_root_overlap :: "penv \<Rightarrow> ustr \<Rightarrow> ustr \<Rightarrow> ustr option \<Rightarrow> ustr option \<Rightarrow> ustr + unit" where
  "check_root_overlap e nrm subject policy_path home =
     (let roots = path_forms e nrm in
      try_bind
        (case home of
           Some h \<Rightarrow>
             ensure (h = [] \<or> \<not> (\<exists>r \<in> set roots. \<exists>hh \<in> set (path_forms e h). inside hh r))
               (subject @ U '': '' @ py_repr nrm @ U '' holds the home directory '' @ py_repr h
                @ U ''; name the directory that holds the models (for example /data/hf)'')
         | None \<Rightarrow> Inr ())
        (\<lambda>_. case find (\<lambda>(what, dir). \<exists>r \<in> set roots. \<exists>d \<in> set (path_forms e dir). inside r d \<or> inside d r)
                   (protected_dirs e policy_path home) of
           Some (what, dir) \<Rightarrow>
             Inl (subject @ U '': '' @ py_repr nrm @ U '' overlaps '' @ what @ U '' ('' @ dir
                  @ U ''); a model root must not be, contain or lie inside it'')
         | None \<Rightarrow> Inr ()))"

definition too_broad :: "penv \<Rightarrow> ustr list \<Rightarrow> ustr option \<Rightarrow> bool" where
  "too_broad e forms home \<longleftrightarrow>
     (case home of
        Some h \<Rightarrow> h \<noteq> [] \<and> (\<exists>f \<in> set forms. \<exists>hh \<in> set (path_forms e h). path_eq hh f)
      | None \<Rightarrow> False)
     \<or> (\<exists>f \<in> set forms. f \<in> set FORBIDDEN_ROOTS)"

definition bad_path_chars :: "nat list" where
  "bad_path_chars = [58, 44, 0, 10, 13, 92]"

definition root_path :: "penv \<Rightarrow> json option \<Rightarrow> ustr \<Rightarrow> ustr option \<Rightarrow> ustr + ustr" where
  "root_path e p loc home =
     (case p of
        Some (JStr s) \<Rightarrow>
          if starts_with s [slash] \<and> length s \<le> 512 then
            try_bind (ensure (\<not> starts_with s [slash, slash])
              (loc @ U ''.path: '' @ py_repr s @ U '' must start with a single '' @ [39, 47, 39])) (\<lambda>_.
            try_bind (ensure (\<not> ((\<exists>c \<in> set s. c \<in> set bad_path_chars)
                \<or> (\<exists>seg \<in> set (split_on slash s). seg = dot_seg \<or> seg = dotdot_seg)))
              (loc @ U ''.path: '' @ py_repr s @ U '' must not contain ':', ',', '' @ [39, 92, 39]
               @ U '', '.' or '..' segments'')) (\<lambda>_.
            (let nrm = normpath s in
             try_bind (ensure (\<not> too_broad e (path_forms e nrm) home)
               (loc @ U ''.path: '' @ py_repr nrm @ U '' is too broad for a model root; name the directory that ''
                @ U ''holds the models (for example /data/hf)'')) (\<lambda>_. Inr nrm))))
          else Inl (loc @ U ''.path must be an absolute path of at most 512 characters'')
      | _ \<Rightarrow> Inl (loc @ U ''.path must be an absolute path of at most 512 characters''))"

definition recheck_root_real :: "penv \<Rightarrow> ustr \<Rightarrow> ustr \<Rightarrow> ustr option \<Rightarrow> ustr option \<Rightarrow> ustr + unit" where
  "recheck_root_real e root_id rl policy_path home =
     (let subject = U ''model root '' @ py_repr root_id @ U '' now resolves to'' in
      try_bind (ensure (\<not> too_broad e [rl] home)
        (subject @ U '' '' @ py_repr rl @ U '', which is too broad for a model root; name the directory that holds ''
         @ U ''the models (for example /data/hf)''))
      (\<lambda>_. check_root_overlap e rl subject policy_path home))"

definition parse_root ::
  "penv \<Rightarrow> ustr option \<Rightarrow> ustr option \<Rightarrow> nat \<Rightarrow> json \<Rightarrow> root list \<Rightarrow> ustr + root list" where
  "parse_root e path home i r roots =
     (let loc = U ''policy.model_roots['' @ dec i @ U '']'' in
      case r of
        JObj r \<Rightarrow>
          try_bind (keys r (map U [''id'', ''path'', ''kind'', ''writable'', ''label'']) loc) (\<lambda>_.
          try_bind (str_field r (U ''id'') loc 32 None (Some ROOT_ID) True) (\<lambda>rid0.
          (let rid = unwrap_or [] rid0 in
          try_bind (ensure (\<not> (\<exists>x \<in> set roots. rt_id x = rid)) (loc @ U ''.id: '' @ py_repr rid @ U '' is used twice'')) (\<lambda>_.
          try_bind (str_field r (U ''kind'') loc 16 (Some (U ''auto'')) None False) (\<lambda>kind0.
          (let kind = nonempty_or (U ''auto'') kind0 in
          try_bind (ensure (kind \<in> set KINDS) (loc @ U ''.kind must be one of '' @ join_with (U '', '') KINDS)) (\<lambda>_.
          try_bind (root_path e (obj_get r (U ''path'')) loc home) (\<lambda>p.
          try_bind (check_root_overlap e p (loc @ U ''.path'') path home) (\<lambda>_.
          try_bind (bool_field r (U ''writable'') loc False) (\<lambda>writable.
          try_bind (str_field r (U ''label'') loc 64 (Some rid) None False) (\<lambda>label0.
          Inr (roots @ [\<lparr>rt_id = rid, rt_path = p, rt_kind = kind, rt_writable = writable,
                         rt_label = nonempty_or rid label0\<rparr>]))))))))))))
      | _ \<Rightarrow> Inl (loc @ U '' must be an object''))"

section \<open>Scripts\<close>

definition text_ok :: "nat \<Rightarrow> json \<Rightarrow> bool" where
  "text_ok n v = (case v of JStr s \<Rightarrow> s \<noteq> [] \<and> length s \<le> n \<and> 0 \<notin> set s | _ \<Rightarrow> False)"

definition strings :: "json list \<Rightarrow> ustr list" where
  "strings a = List.map_filter json_str a"

definition parse_argv :: "ustr \<Rightarrow> json option \<Rightarrow> ustr + ustr list" where
  "parse_argv aw a =
     (case a of
        Some (JArr v) \<Rightarrow>
          if 1 \<le> length v \<and> length v \<le> 64 \<and> (\<forall>x \<in> set v. text_ok 4096 x) then Inr (strings v)
          else Inl (aw @ U ''.argv must be a list of 1-64 non-empty strings (the program, then its arguments)'')
      | _ \<Rightarrow> Inl (aw @ U ''.argv must be a list of 1-64 non-empty strings (the program, then its arguments)''))"

definition parse_action :: "ustr \<Rightarrow> nat \<Rightarrow> json \<Rightarrow> script_action list \<Rightarrow> ustr + script_action list" where
  "parse_action loc j a actions =
     (let aw = loc @ U ''.actions['' @ dec j @ U '']'' in
      case a of
        JObj a \<Rightarrow>
          try_bind (keys a (map U [''name'', ''label'', ''argv'', ''args'', ''confirm'', ''danger'']) aw) (\<lambda>_.
          try_bind (str_field a (U ''name'') aw 32 None (Some SCRIPT_NAME) True) (\<lambda>an0.
          (let an = unwrap_or [] an0 in
          try_bind (ensure (\<not> (\<exists>x \<in> set actions. sa_name x = an)) (aw @ U ''.name: '' @ py_repr an @ U '' is used twice'')) (\<lambda>_.
          try_bind (parse_argv aw (obj_get a (U ''argv''))) (\<lambda>argv.
          try_bind (ensure (starts_with (hd argv) [slash] \<and> 10 \<notin> set (hd argv))
            (aw @ U ''.argv[0] must be an absolute path to the program (no shell, no PATH lookup)'')) (\<lambda>_.
          try_bind (list_field a (U ''args'') aw 32) (\<lambda>args_v.
          try_bind (ensure (\<forall>x \<in> set args_v. text_ok 64 x)
            (aw @ U ''.args must be a list of allowed argument values (each 1-64 characters)'')) (\<lambda>_.
          try_bind (str_field a (U ''label'') aw 64 (Some an) None False) (\<lambda>label0.
          try_bind (bool_field a (U ''confirm'') aw False) (\<lambda>confirm.
          try_bind (bool_field a (U ''danger'') aw False) (\<lambda>danger.
          Inr (actions @ [\<lparr>sa_name = an, sa_label = nonempty_or an label0, sa_argv = argv, sa_args = strings args_v,
                           sa_confirm = confirm, sa_danger = danger\<rparr>]))))))))))))
      | _ \<Rightarrow> Inl (aw @ U '' must be an object''))"

definition parse_container :: "ustr \<Rightarrow> nat \<Rightarrow> json \<Rightarrow> ustr list \<Rightarrow> ustr + ustr list" where
  "parse_container loc j c cs =
     (case c of
        JStr s \<Rightarrow> if s \<noteq> [] \<and> length s \<le> 128 \<and> 0 \<notin> set s then Inr (cs @ [s])
          else Inl (loc @ U ''.containers['' @ dec j @ U ''] must be a container name pattern like '' @ [39] @ U ''myproj-sglang-*'' @ [39])
      | _ \<Rightarrow> Inl (loc @ U ''.containers['' @ dec j @ U ''] must be a container name pattern like '' @ [39] @ U ''myproj-sglang-*'' @ [39]))"

definition parse_script :: "nat \<Rightarrow> json \<Rightarrow> script list \<Rightarrow> ustr + script list" where
  "parse_script i s taken =
     (let loc = U ''policy.scripts['' @ dec i @ U '']'' in
      case s of
        JObj s \<Rightarrow>
          try_bind (keys s (map U [''name'', ''label'', ''engine'', ''description'', ''containers'', ''status_action'',
                                  ''timeout_s'', ''actions'']) loc) (\<lambda>_.
          try_bind (str_field s (U ''name'') loc 32 None (Some SCRIPT_NAME) True) (\<lambda>name0.
          (let name = unwrap_or [] name0 in
          try_bind (ensure (\<not> (\<exists>x \<in> set taken. sc_name x = name)) (loc @ U ''.name: '' @ py_repr name @ U '' is used twice'')) (\<lambda>_.
          try_bind (list_field s (U ''containers'') loc 16) (\<lambda>cs.
          try_bind (try_fold (parse_container loc) 0 cs []) (\<lambda>containers.
          try_bind (list_field s (U ''actions'') loc 16) (\<lambda>acts.
          try_bind (try_fold (parse_action loc) 0 acts []) (\<lambda>actions.
          try_bind (str_field s (U ''status_action'') loc 32 None None False) (\<lambda>status.
          try_bind (ensure (case status of None \<Rightarrow> True | Some st \<Rightarrow> (\<exists>x \<in> set actions. sa_name x = st))
            (loc @ U ''.status_action must name one of the script's actions'')) (\<lambda>_.
          try_bind (int_field (unwrap_or (JNum (PosInt 900)) (obj_get s (U ''timeout_s''))) (loc @ U ''.timeout_s'') 1 86400) (\<lambda>timeout.
          try_bind (str_field s (U ''label'') loc 64 (Some name) None False) (\<lambda>label0.
          try_bind (str_field s (U ''engine'') loc 32 None None False) (\<lambda>engine.
          try_bind (str_field s (U ''description'') loc 500 (Some []) None False) (\<lambda>descr0.
          Inr (taken @ [\<lparr>sc_name = name, sc_label = nonempty_or name label0, sc_engine = engine,
             sc_description = unwrap_or [] descr0, sc_containers = containers, sc_status_action = status,
             sc_timeout_s = timeout, sc_actions = actions\<rparr>])))))))))))))))
      | _ \<Rightarrow> Inl (loc @ U '' must be an object''))"

section \<open>The document\<close>

definition policy_keys :: "ustr list" where
  "policy_keys = map U [''version'', ''mode'', ''docker'', ''engine_images'', ''gateway_image'', ''engine_network'',
     ''port_range'', ''discovery_ports'', ''model_roots'', ''scripts'', ''allow_pull'', ''allow_delete'',
     ''allow_ipc_host'', ''external_control'', ''max_shm_gib'']"

text \<open>The docker section: the CLI and its context.\<close>

definition parse_docker :: "obj \<Rightarrow> ustr + (ustr \<times> ustr option)" where
  "parse_docker data =
     try_bind (case obj_get data (U ''docker'') of
         Some v \<Rightarrow> if truthy v then (case v of JObj m \<Rightarrow> Inr m
             | _ \<Rightarrow> Inl (U ''policy.docker must be an object like {\"binary\": \"docker\", \"context\": null}''))
           else Inr []
       | None \<Rightarrow> Inr []) (\<lambda>dk.
     try_bind (keys dk (map U [''binary'', ''context'']) (U ''policy.docker'')) (\<lambda>_.
     try_bind (str_field dk (U ''binary'') (U ''policy.docker'') 256 (Some (U ''docker'')) None False) (\<lambda>binary0.
     (let binary = nonempty_or (U ''docker'') binary0 in
     try_bind (ensure (binary = U ''docker''
         \<or> matches BINARY binary \<and> \<not> (\<exists>s \<in> set (split_on slash binary). s = dotdot_seg))
       (U ''policy.docker.binary must be \"docker\" or an absolute path to the docker CLI'')) (\<lambda>_.
     try_bind (str_field dk (U ''context'') (U ''policy.docker'') 64 None (Some CONTEXT) False) (\<lambda>context.
     Inr (binary, context)))))))"

definition parse_image :: "penv \<Rightarrow> nat \<Rightarrow> json \<Rightarrow> ustr list \<Rightarrow> ustr + ustr list" where
  "parse_image e i p images =
     (let bad = Inl (U ''policy.engine_images['' @ dec i @ U '']: '' @ repr_value (float_repr e) p
            @ U '' must be an exact image reference, 'repository:*' or 'repository@sha256:*' with a literal repository'')
      in case p of JStr s \<Rightarrow> (if valid_image_pattern s then Inr (images @ [s]) else bad) | _ \<Rightarrow> bad)"

definition parse_gateway :: "obj \<Rightarrow> ustr + ustr option" where
  "parse_gateway data =
     (let bad = Inl (U ''policy.gateway_image must be an exact image reference (best: nginx@sha256:<digest>)'') in
      case obj_get data (U ''gateway_image'') of
        None \<Rightarrow> Inr None
      | Some JNull \<Rightarrow> Inr None
      | Some (JStr s) \<Rightarrow> (if valid_image s then Inr (Some s) else bad)
      | Some _ \<Rightarrow> bad)"

definition parse_ports :: "obj \<Rightarrow> ustr + (int \<times> int)" where
  "parse_ports data =
     (let pr = unwrap_or (JArr [json_int (fst DEFAULT_PORTS), json_int (snd DEFAULT_PORTS)])
                 (obj_get data (U ''port_range''));
          bad = Inl (U ''policy.port_range must be [first, last], e.g. [18000, 18099]'')
      in case pr of
           JArr [a, b] \<Rightarrow>
             try_bind (int_field a (U ''policy.port_range[0]'') 1024 65535) (\<lambda>lo.
             try_bind (int_field b (U ''policy.port_range[1]'') lo (min 65535 (lo + 1000))) (\<lambda>hi. Inr (lo, hi)))
         | _ \<Rightarrow> bad)"

definition parse_dport :: "nat \<Rightarrow> json \<Rightarrow> int list \<Rightarrow> ustr + int list" where
  "parse_dport i p ports =
     try_bind (int_field p (U ''policy.discovery_ports['' @ dec i @ U '']'') 1 65535)
       (\<lambda>v. Inr (if v \<in> set ports then ports else ports @ [v]))"

definition parse_choice :: "obj \<Rightarrow> ustr \<Rightarrow> ustr list \<Rightarrow> ustr \<Rightarrow> ustr \<Rightarrow> ustr + ustr" where
  "parse_choice data key choices dflt bad =
     (case obj_get data key of
        None \<Rightarrow> Inr dflt
      | Some v \<Rightarrow> if str_in (Some v) choices then Inr (unwrap_or dflt (json_str v)) else Inl bad)"

definition parse_shm :: "obj \<Rightarrow> ustr + rat" where
  "parse_shm data =
     (let bad = Inl (U ''policy.max_shm_gib must be a number above 0 and at most 4096'') in
      case obj_get data (U ''max_shm_gib'') of
        None \<Rightarrow> Inr 64
      | Some (JNum n) \<Rightarrow> (if 0 < num_val n \<and> num_val n \<le> 4096 then Inr (num_val n) else bad)
      | Some _ \<Rightarrow> bad)"

definition parse :: "penv \<Rightarrow> json \<Rightarrow> ustr option \<Rightarrow> ustr option \<Rightarrow> ustr + policy" where
  "parse e doc path home =
     (case doc of
        JObj data \<Rightarrow>
          try_bind (keys data policy_keys (U ''policy'')) (\<lambda>_.
          try_bind (ensure (case obj_get data (U ''version'') of None \<Rightarrow> True | Some v \<Rightarrow> py_eq_one v)
            (U ''policy.version must be 1 (this node understands policy version 1)'')) (\<lambda>_.
          try_bind (parse_choice data (U ''mode'') MODES (U ''monitor'') (U ''policy.mode must be \"monitor\" or \"manage\"'')) (\<lambda>mode.
          try_bind (parse_docker data) (\<lambda>dk.
          try_bind (list_field data (U ''engine_images'') (U ''policy'') 64) (\<lambda>imgs.
          try_bind (try_fold (parse_image e) 0 imgs []) (\<lambda>images.
          try_bind (parse_gateway data) (\<lambda>gateway.
          try_bind (str_field data (U ''engine_network'') (U ''policy'') 64 (Some DEFAULT_NETWORK) (Some NETWORK) False) (\<lambda>network.
          try_bind (parse_ports data) (\<lambda>ports.
          try_bind (list_field data (U ''discovery_ports'') (U ''policy'') 128) (\<lambda>dp.
          try_bind (try_fold parse_dport 0 dp []) (\<lambda>dports0.
          (let dports = (if obj_get data (U ''discovery_ports'') = None then DEFAULT_DISCOVERY else dports0) in
          try_bind (list_field data (U ''model_roots'') (U ''policy'') 32) (\<lambda>rs.
          try_bind (try_fold (parse_root e path home) 0 rs []) (\<lambda>roots.
          try_bind (list_field data (U ''scripts'') (U ''policy'') 32) (\<lambda>ss.
          try_bind (try_fold parse_script 0 ss []) (\<lambda>scs.
          try_bind (parse_choice data (U ''external_control'') EXTERNAL (U ''none'')
            (U ''policy.external_control must be \"none\" or \"stop_start\"'')) (\<lambda>ext.
          try_bind (parse_shm data) (\<lambda>shm.
          try_bind (bool_field data (U ''allow_pull'') (U ''policy'') False) (\<lambda>pull.
          try_bind (bool_field data (U ''allow_delete'') (U ''policy'') False) (\<lambda>del.
          try_bind (bool_field data (U ''allow_ipc_host'') (U ''policy'') False) (\<lambda>ipc.
          Inr \<lparr>pol_path = path, pol_mode = mode, pol_error = None, docker_binary = fst dk, docker_context = snd dk,
            engine_images = images, gateway_image = gateway, engine_network = nonempty_or DEFAULT_NETWORK network,
            port_range = ports, discovery_ports = dports, model_roots = roots, scripts = scs, allow_pull = pull,
            allow_delete = del, allow_ipc_host = ipc, external_control = ext, max_shm_gib = shm,
            pol_home = home\<rparr>)))))))))))))))))))))
      | _ \<Rightarrow> Inl (U ''the policy must be one JSON object''))"

end
