(* ===== verification/PolicyOk.thy ===== *)
theory PolicyOk
  imports PolicyParse
begin

text \<open>
  What every accepted policy satisfies: the well-formedness of roots, scripts and the document, and
  what it means for a root path on the file system (component by component).
\<close>

lemma try_bind_InrE: "try_bind x f = Inr b \<Longrightarrow> (\<And>a. x = Inr a \<Longrightarrow> f a = Inr b \<Longrightarrow> P) \<Longrightarrow> P"
  by (cases x) auto

definition text_within1 :: "nat \<Rightarrow> ustr \<Rightarrow> bool" where
  "text_within1 n s \<longleftrightarrow> s \<noteq> [] \<and> length s \<le> n \<and> 0 \<notin> set s"

definition action_ok :: "script_action \<Rightarrow> bool" where
  "action_ok a \<longleftrightarrow> sa_name a \<in> lang SCRIPT_NAME \<and> sa_argv a \<noteq> [] \<and> length (sa_argv a) \<le> 64
     \<and> starts_with (hd (sa_argv a)) [slash] \<and> 10 \<notin> set (hd (sa_argv a))
     \<and> (\<forall>s \<in> set (sa_argv a). text_within1 4096 s)
     \<and> length (sa_args a) \<le> 32 \<and> (\<forall>s \<in> set (sa_args a). text_within1 64 s)"

definition script_ok :: "script \<Rightarrow> bool" where
  "script_ok s \<longleftrightarrow> sc_name s \<in> lang SCRIPT_NAME \<and> (\<forall>a \<in> set (sc_actions s). action_ok a)
     \<and> distinct (map sa_name (sc_actions s)) \<and> (\<forall>c \<in> set (sc_containers s). text_within1 128 c)
     \<and> (\<forall>st. sc_status_action s = Some st \<longrightarrow> find_action s st \<noteq> None)
     \<and> 1 \<le> sc_timeout_s s \<and> sc_timeout_s s \<le> 86400"

definition root_ok :: "penv \<Rightarrow> ustr option \<Rightarrow> ustr option \<Rightarrow> root \<Rightarrow> bool" where
  "root_ok e path home r \<longleftrightarrow> rt_id r \<in> lang ROOT_ID \<and> rt_kind r \<in> set KINDS
     \<and> (\<exists>cs. cs \<noteq> [] \<and> (\<forall>s \<in> set cs. clean_seg s) \<and> rt_path r = abs_path cs)
     \<and> \<not> too_broad e (path_forms e (rt_path r)) home
     \<and> (\<forall>subject. check_root_overlap e (rt_path r) subject path home = Inr ())"

definition policy_ok :: "penv \<Rightarrow> policy \<Rightarrow> bool" where
  "policy_ok e p \<longleftrightarrow> pol_mode p \<in> set MODES
     \<and> (\<forall>img \<in> set (engine_images p). valid_image_pattern img)
     \<and> (\<forall>img. gateway_image p = Some img \<longrightarrow> valid_image img)
     \<and> 1024 \<le> fst (port_range p) \<and> fst (port_range p) \<le> snd (port_range p) \<and> snd (port_range p) \<le> 65535
     \<and> snd (port_range p) \<le> fst (port_range p) + 1000
     \<and> (\<forall>d \<in> set (discovery_ports p). 1 \<le> d \<and> d \<le> 65535) \<and> distinct (discovery_ports p)
     \<and> (\<forall>r \<in> set (model_roots p). root_ok e (pol_path p) (pol_home p) r) \<and> distinct (map rt_id (model_roots p))
     \<and> (\<forall>s \<in> set (scripts p). script_ok s) \<and> distinct (map sc_name (scripts p))
     \<and> external_control p \<in> set EXTERNAL \<and> 0 < max_shm_gib p \<and> max_shm_gib p \<le> 4096"

lemma overlap_subject:
  "check_root_overlap e n s p h = Inr () \<Longrightarrow> check_root_overlap e n s' p h = Inr ()"
  by (auto simp: check_root_overlap_def res_simps Let_def split: option.splits)

lemma abs_path_root: "abs_path [] \<in> set FORBIDDEN_ROOTS"
  by (simp add: FORBIDDEN_ROOTS_def abs_path_def U_def)

lemma root_path_ok:
  assumes "root_path e p loc home = Inr n"
  shows "\<not> too_broad e (path_forms e n) home" and "\<exists>cs. cs \<noteq> [] \<and> (\<forall>s \<in> set cs. clean_seg s) \<and> n = abs_path cs"
proof -
  obtain s where s: "starts_with s [slash]" "\<not> starts_with s [slash, slash]" "n = normpath s"
    "\<not> too_broad e (path_forms e n) home"
    using assms by (auto simp: root_path_def res_simps Let_def split: option.splits json.splits if_splits)
  then show "\<not> too_broad e (path_forms e n) home" by simp
  obtain cs where cs: "n = abs_path cs" "\<forall>s \<in> set cs. clean_seg s"
    using normpath_absolute[OF s(1,2)] s(3) by metis
  have "hd (path_forms e n) = abs_path cs" "path_forms e n \<noteq> []"
    using cs normpath_abs_path[OF cs(2)] by (auto simp: path_forms_def Let_def)
  then have "abs_path cs \<in> set (path_forms e n)" by (metis hd_in_set)
  then have "cs \<noteq> []" using s(4) abs_path_root by (auto simp: too_broad_def)
  with cs show "\<exists>cs. cs \<noteq> [] \<and> (\<forall>s \<in> set cs. clean_seg s) \<and> n = abs_path cs" by blast
qed

lemma str_required:
  "str_field m key loc n dflt (Some p) True = Inr r \<Longrightarrow> \<exists>s. r = Some s \<and> s \<in> lang p \<and> s \<noteq> [] \<and> length s \<le> n"
  by (auto simp: str_Inr split: if_splits)

lemma parse_root_ok:
  assumes "parse_root e path home i r roots = Inr roots'"
    and "(\<forall>r \<in> set roots. root_ok e path home r) \<and> distinct (map rt_id roots)"
  shows "(\<forall>r \<in> set roots'. root_ok e path home r) \<and> distinct (map rt_id roots')"
proof -
  have "\<exists>m loc rid0 kind0 p u w l. (str_field m (U ''id'') loc 32 None (Some ROOT_ID) True = Inr rid0)
    \<and> (\<not> (\<exists>x \<in> set roots. rt_id x = unwrap_or [] rid0))
    \<and> (nonempty_or (U ''auto'') kind0 \<in> set KINDS)
    \<and> (root_path e (obj_get m (U ''path'')) loc home = Inr p)
    \<and> (check_root_overlap e p (loc @ U ''.path'') path home = Inr u)
    \<and> (roots @ [\<lparr>rt_id = unwrap_or [] rid0, rt_path = p, rt_kind = nonempty_or (U ''auto'') kind0,
       rt_writable = w, rt_label = l\<rparr>] = roots')"
    using assms(1)[unfolded parse_root_def Let_def]
    by (cases r; simp only: json.case sum.distinct)
      (elim try_bind_InrE, simp only: ensure_Inr sum.inject, intro exI conjI, assumption+)
  then obtain m loc rid0 kind0 p u w l where r: "str_field m (U ''id'') loc 32 None (Some ROOT_ID) True = Inr rid0"
    "\<not> (\<exists>x \<in> set roots. rt_id x = unwrap_or [] rid0)" "nonempty_or (U ''auto'') kind0 \<in> set KINDS"
    "root_path e (obj_get m (U ''path'')) loc home = Inr p"
    "check_root_overlap e p (loc @ U ''.path'') path home = Inr u"
    "roots @ [\<lparr>rt_id = unwrap_or [] rid0, rt_path = p, rt_kind = nonempty_or (U ''auto'') kind0,
       rt_writable = w, rt_label = l\<rparr>] = roots'"
    by blast
  have i: "unwrap_or [] rid0 \<in> lang ROOT_ID" using str_required[OF r(1)] by (auto simp: unwrap_or_def)
  have "root_ok e path home \<lparr>rt_id = unwrap_or [] rid0, rt_path = p, rt_kind = nonempty_or (U ''auto'') kind0,
       rt_writable = w, rt_label = l\<rparr>"
    using i r(3) root_path_ok[OF r(4)] overlap_subject[of e p _ path home] r(5) by (simp add: root_ok_def)
  moreover have "unwrap_or [] rid0 \<notin> rt_id ` set roots" using r(2) by force
  ultimately show ?thesis using assms(2) unfolding r(6)[symmetric] by simp
qed

lemma strings_ok: "\<forall>x \<in> set v. text_ok n x \<Longrightarrow> length (strings v) = length v \<and> (\<forall>s \<in> set (strings v). text_within1 n s)"
  by (induction v) (auto simp: strings_def text_ok_def text_within1_def List.map_filter_simps split: json.splits)

lemma parse_argv_ok:
  assumes "parse_argv aw a = Inr argv"
  shows "argv \<noteq> []" "length argv \<le> 64" "\<forall>s \<in> set argv. text_within1 4096 s"
proof -
  obtain v where v: "1 \<le> length v" "length v \<le> 64" "\<forall>x \<in> set v. text_ok 4096 x" "argv = strings v"
    using assms by (auto simp: parse_argv_def split: option.splits json.splits if_splits)
  with strings_ok[OF v(3)] show "argv \<noteq> []" "length argv \<le> 64" "\<forall>s \<in> set argv. text_within1 4096 s" by auto
qed

lemma parse_action_ok:
  assumes "parse_action loc j a acts = Inr acts'"
    and "(\<forall>a \<in> set acts. action_ok a) \<and> distinct (map sa_name acts)"
  shows "(\<forall>a \<in> set acts'. action_ok a) \<and> distinct (map sa_name acts')"
proof -
  have "\<exists>m aw an0 argv args_v l c d. str_field m (U ''name'') aw 32 None (Some SCRIPT_NAME) True = Inr an0
    \<and> \<not> (\<exists>x \<in> set acts. sa_name x = unwrap_or [] an0)
    \<and> parse_argv aw (obj_get m (U ''argv'')) = Inr argv
    \<and> (starts_with (hd argv) [slash] \<and> 10 \<notin> set (hd argv))
    \<and> list_field m (U ''args'') aw 32 = Inr args_v \<and> (\<forall>x \<in> set args_v. text_ok 64 x)
    \<and> acts @ [\<lparr>sa_name = unwrap_or [] an0, sa_label = l, sa_argv = argv, sa_args = strings args_v,
       sa_confirm = c, sa_danger = d\<rparr>] = acts'"
    using assms(1)[unfolded parse_action_def Let_def]
    by (cases a; simp only: json.case sum.distinct)
      (elim try_bind_InrE, simp only: ensure_Inr sum.inject, intro exI conjI, (assumption | elim conjE, assumption)+)
  then obtain m aw an0 argv args_v l c d where r: "str_field m (U ''name'') aw 32 None (Some SCRIPT_NAME) True = Inr an0"
    "\<not> (\<exists>x \<in> set acts. sa_name x = unwrap_or [] an0)" "parse_argv aw (obj_get m (U ''argv'')) = Inr argv"
    "starts_with (hd argv) [slash]" "10 \<notin> set (hd argv)" "list_field m (U ''args'') aw 32 = Inr args_v"
    "\<forall>x \<in> set args_v. text_ok 64 x"
    "acts @ [\<lparr>sa_name = unwrap_or [] an0, sa_label = l, sa_argv = argv, sa_args = strings args_v,
       sa_confirm = c, sa_danger = d\<rparr>] = acts'"
    by blast
  have n: "unwrap_or [] an0 \<in> lang SCRIPT_NAME" using str_required[OF r(1)] by (auto simp: unwrap_or_def)
  have l: "length args_v \<le> 32" using r(6) by (auto simp: list_Inr)
  have "action_ok \<lparr>sa_name = unwrap_or [] an0, sa_label = l, sa_argv = argv, sa_args = strings args_v,
       sa_confirm = c, sa_danger = d\<rparr>"
    using n l r(4,5) parse_argv_ok[OF r(3)] strings_ok[OF r(7)] by (simp add: action_ok_def)
  moreover have "unwrap_or [] an0 \<notin> sa_name ` set acts" using r(2) by force
  ultimately show ?thesis using assms(2) unfolding r(8)[symmetric] by simp
qed

lemma parse_container_ok:
  "parse_container loc j c cs = Inr cs' \<Longrightarrow> \<forall>c \<in> set cs. text_within1 128 c \<Longrightarrow> \<forall>c \<in> set cs'. text_within1 128 c"
  by (auto simp: parse_container_def text_within1_def split: json.splits if_splits)

lemma find_action_iff: "find_action s n \<noteq> None \<longleftrightarrow> (\<exists>a \<in> set (sc_actions s). sa_name a = n)"
  by (auto simp: find_action_def find_None_iff)

lemma parse_script_ok:
  assumes "parse_script i s taken = Inr taken'"
    and "(\<forall>s \<in> set taken. script_ok s) \<and> distinct (map sc_name taken)"
  shows "(\<forall>s \<in> set taken'. script_ok s) \<and> distinct (map sc_name taken')"
proof -
  have "\<exists>m loc name0 cs containers acts actions status timeout l en de t.
      str_field m (U ''name'') loc 32 None (Some SCRIPT_NAME) True = Inr name0
    \<and> \<not> (\<exists>x \<in> set taken. sc_name x = unwrap_or [] name0)
    \<and> try_fold (parse_container loc) 0 cs [] = Inr containers \<and> try_fold (parse_action loc) 0 acts [] = Inr actions
    \<and> (case status of None \<Rightarrow> True | Some st \<Rightarrow> (\<exists>x \<in> set actions. sa_name x = st))
    \<and> int_field t (loc @ U ''.timeout_s'') 1 86400 = Inr timeout
    \<and> taken @ [\<lparr>sc_name = unwrap_or [] name0, sc_label = l, sc_engine = en, sc_description = de,
        sc_containers = containers, sc_status_action = status, sc_timeout_s = timeout, sc_actions = actions\<rparr>] = taken'"
    using assms(1)[unfolded parse_script_def Let_def]
    by (cases s; simp only: json.case sum.distinct)
      (elim try_bind_InrE, simp only: ensure_Inr sum.inject, intro exI conjI, assumption+)
  then obtain m loc name0 cs containers acts actions status timeout l en de t where
    r: "str_field m (U ''name'') loc 32 None (Some SCRIPT_NAME) True = Inr name0"
    "\<not> (\<exists>x \<in> set taken. sc_name x = unwrap_or [] name0)"
    "try_fold (parse_container loc) 0 cs [] = Inr containers" "try_fold (parse_action loc) 0 acts [] = Inr actions"
    "case status of None \<Rightarrow> True | Some st \<Rightarrow> (\<exists>x \<in> set actions. sa_name x = st)"
    "int_field t (loc @ U ''.timeout_s'') 1 86400 = Inr timeout"
    "taken @ [\<lparr>sc_name = unwrap_or [] name0, sc_label = l, sc_engine = en, sc_description = de,
        sc_containers = containers, sc_status_action = status, sc_timeout_s = timeout, sc_actions = actions\<rparr>] = taken'"
    by (elim exE conjE) (rule that)
  have n: "unwrap_or [] name0 \<in> lang SCRIPT_NAME" using str_required[OF r(1)] by (auto simp: unwrap_or_def)
  have c: "\<forall>c \<in> set containers. text_within1 128 c"
    by (rule try_fold_invariant[OF r(3)]) (simp, blast dest: parse_container_ok)
  have a: "(\<forall>a \<in> set actions. action_ok a) \<and> distinct (map sa_name actions)"
    by (rule try_fold_invariant[OF r(4)]) (simp, blast dest: parse_action_ok)
  let ?s = "\<lparr>sc_name = unwrap_or [] name0, sc_label = l, sc_engine = en, sc_description = de,
        sc_containers = containers, sc_status_action = status, sc_timeout_s = timeout, sc_actions = actions\<rparr>"
  have "\<forall>st. status = Some st \<longrightarrow> find_action ?s st \<noteq> None"
    unfolding find_action_iff using r(5) by (auto split: option.splits)
  then have "script_ok ?s" using n c a r(6) by (simp add: script_ok_def int_Inr)
  moreover have "unwrap_or [] name0 \<notin> sc_name ` set taken" using r(2) by force
  ultimately show ?thesis using assms(2) unfolding r(7)[symmetric] by simp
qed

lemma parse_image_ok:
  "parse_image e i p is = Inr is' \<Longrightarrow> \<forall>p \<in> set is. valid_image_pattern p \<Longrightarrow> \<forall>p \<in> set is'. valid_image_pattern p"
  by (auto simp: parse_image_def Let_def split: json.splits if_splits)

lemma parse_dport_ok:
  "parse_dport i p ps = Inr ps' \<Longrightarrow> (\<forall>d \<in> set ps. 1 \<le> d \<and> d \<le> 65535) \<and> distinct ps
   \<Longrightarrow> (\<forall>d \<in> set ps'. 1 \<le> d \<and> d \<le> 65535) \<and> distinct ps'"
  by (auto simp: parse_dport_def res_simps int_Inr split: if_splits)

lemma parse_ports_ok:
  "parse_ports data = Inr (lo, hi) \<Longrightarrow> 1024 \<le> lo \<and> lo \<le> hi \<and> hi \<le> 65535 \<and> hi \<le> lo + 1000"
  by (auto simp: parse_ports_def Let_def res_simps int_Inr split: json.splits list.splits)

lemma parse_choice_ok: "parse_choice data k cs d bad = Inr x \<Longrightarrow> d \<in> set cs \<Longrightarrow> x \<in> set cs"
  by (auto simp: parse_choice_def str_in_def unwrap_or_def split: option.splits if_splits json.splits)

lemma parse_gateway_ok: "parse_gateway data = Inr (Some g) \<Longrightarrow> valid_image g"
  by (auto simp: parse_gateway_def Let_def split: option.splits json.splits if_splits)

lemma parse_shm_ok: "parse_shm data = Inr x \<Longrightarrow> 0 < x \<and> x \<le> 4096"
  by (auto simp: parse_shm_def Let_def split: option.splits json.splits if_splits)

lemma parse_ok:
  assumes "parse e doc path home = Inr p"
  shows "policy_ok e p \<and> pol_path p = path \<and> pol_home p = home \<and> pol_error p = None"
proof -
  have "\<exists>data mode b1 dk imgs images gateway network ports dp dports0 rs roots ss scs b2 ext shm pull del ipc.
      parse_choice data (U ''mode'') MODES (U ''monitor'') b1 = Inr mode
    \<and> try_fold (parse_image e) 0 imgs [] = Inr images \<and> parse_gateway data = Inr gateway
    \<and> parse_ports data = Inr ports \<and> try_fold parse_dport 0 dp [] = Inr dports0
    \<and> try_fold (parse_root e path home) 0 rs [] = Inr roots \<and> try_fold parse_script 0 ss [] = Inr scs
    \<and> parse_choice data (U ''external_control'') EXTERNAL (U ''none'') b2 = Inr ext \<and> parse_shm data = Inr shm
    \<and> \<lparr>pol_path = path, pol_mode = mode, pol_error = None, docker_binary = fst dk, docker_context = snd dk,
         engine_images = images, gateway_image = gateway, engine_network = nonempty_or DEFAULT_NETWORK network,
         port_range = ports, discovery_ports = (if obj_get data (U ''discovery_ports'') = None then DEFAULT_DISCOVERY else dports0),
         model_roots = roots, scripts = scs, allow_pull = pull, allow_delete = del, allow_ipc_host = ipc,
         external_control = ext, max_shm_gib = shm, pol_home = home\<rparr> = p"
    using assms(1)[unfolded parse_def Let_def]
    by (cases doc; simp only: json.case sum.distinct)
      (elim try_bind_InrE, simp only: ensure_Inr sum.inject, intro exI conjI, assumption+)
  then obtain data mode b1 dk imgs images gateway network ports dp dports0 rs roots ss scs b2 ext shm pull del ipc where
    r: "parse_choice data (U ''mode'') MODES (U ''monitor'') b1 = Inr mode"
    "try_fold (parse_image e) 0 imgs [] = Inr images" "parse_gateway data = Inr gateway"
    "parse_ports data = Inr ports" "try_fold parse_dport 0 dp [] = Inr dports0"
    "try_fold (parse_root e path home) 0 rs [] = Inr roots" "try_fold parse_script 0 ss [] = Inr scs"
    "parse_choice data (U ''external_control'') EXTERNAL (U ''none'') b2 = Inr ext" "parse_shm data = Inr shm"
    "\<lparr>pol_path = path, pol_mode = mode, pol_error = None, docker_binary = fst dk, docker_context = snd dk,
         engine_images = images, gateway_image = gateway, engine_network = nonempty_or DEFAULT_NETWORK network,
         port_range = ports, discovery_ports = (if obj_get data (U ''discovery_ports'') = None then DEFAULT_DISCOVERY else dports0),
         model_roots = roots, scripts = scs, allow_pull = pull, allow_delete = del, allow_ipc_host = ipc,
         external_control = ext, max_shm_gib = shm, pol_home = home\<rparr> = p"
    by (elim exE conjE) (rule that)
  have mode: "mode \<in> set MODES" using parse_choice_ok[OF r(1)] by (simp add: MODES_def)
  have ext: "ext \<in> set EXTERNAL" using parse_choice_ok[OF r(8)] by (simp add: EXTERNAL_def)
  have images: "\<forall>img \<in> set images. valid_image_pattern img"
    by (rule try_fold_invariant[OF r(2)]) (simp, blast dest: parse_image_ok)
  have dports: "(\<forall>d \<in> set dports0. 1 \<le> d \<and> d \<le> 65535) \<and> distinct dports0"
    by (rule try_fold_invariant[OF r(5)]) (simp, blast dest: parse_dport_ok)
  have roots: "(\<forall>r \<in> set roots. root_ok e path home r) \<and> distinct (map rt_id roots)"
    by (rule try_fold_invariant[OF r(6)]) (simp, blast dest: parse_root_ok)
  have scs: "(\<forall>s \<in> set scs. script_ok s) \<and> distinct (map sc_name scs)"
    by (rule try_fold_invariant[OF r(7)]) (simp, blast dest: parse_script_ok)
  have ports: "1024 \<le> fst ports \<and> fst ports \<le> snd ports \<and> snd ports \<le> 65535 \<and> snd ports \<le> fst ports + 1000"
    using parse_ports_ok[of data "fst ports" "snd ports"] r(4) by simp
  have g: "\<forall>img. gateway = Some img \<longrightarrow> valid_image img" using parse_gateway_ok r(3) by blast
  have dd: "(\<forall>d \<in> set DEFAULT_DISCOVERY. 1 \<le> d \<and> d \<le> 65535) \<and> distinct DEFAULT_DISCOVERY"
    by (simp add: DEFAULT_DISCOVERY_def)
  show ?thesis unfolding r(10)[symmetric] policy_ok_def
    using mode ext images dports roots scs ports g dd parse_shm_ok[OF r(9)] by simp
qed

end
