(* ===== verification/RootGuard.thy ===== *)
theory RootGuard
  imports PolicyOk "HOL-Library.Sublist"
begin

text \<open>
  What the checks on model roots (crates/ecnode/src/policy.rs, \<open>check_root_overlap\<close>, \<open>too_broad\<close>)
  mean on the file system, component by component: a root stays clear of the home directory and of
  the node's own files. Last, the homes for which the checks look at the wrong text.
\<close>

section \<open>Roots stay clear of the protected directories\<close>

lemma join_path_clean:
  assumes "\<forall>s \<in> set es. clean_seg s" "es \<noteq> []" "\<forall>s \<in> set hs. clean_seg s"
  shows "join_path (abs_path hs) (join_with [slash] es) = abs_path (hs @ es)"
proof -
  have "\<not> starts_with (join_with [slash] es) [slash]"
    using join_with_clean_hd[OF assms(1,2)] by auto
  then show ?thesis
    using last_join_clean[OF assms(3)]
    by (auto simp: join_path_def abs_path_append[OF assms(2)] ends_with_single) (auto simp: abs_path_def)
qed

lemma path_forms_norm: "normpath p \<in> set (path_forms e p)"
  by (simp add: path_forms_def Let_def)

lemma inside_prefix:
  "\<forall>s \<in> set cs. clean_seg s \<Longrightarrow> \<forall>s \<in> set ds. clean_seg s \<Longrightarrow> inside (abs_path cs) (abs_path ds) \<longleftrightarrow> prefix ds cs"
  by (simp add: inside_abs_path prefix_def)

text \<open>The directories a root must stay clear of, as components below the root directory.\<close>

definition guarded :: "ustr list \<Rightarrow> ustr list list" where
  "guarded hs = [[U ''etc'', U ''ecnode''], hs @ [U ''.ssh''], hs @ [U ''.config'', U ''ecnode''],
                 hs @ [U ''.local'', U ''state'', U ''ecnode'']]"

lemma guarded_segs: "clean_seg (U ''.ssh'')" "clean_seg (U ''.config'')" "clean_seg (U ''ecnode'')"
  "clean_seg (U ''.local'')" "clean_seg (U ''state'')" "clean_seg (U ''etc'')"
  by (simp_all add: clean_seg_def U_def)

lemma guarded_clean: "\<forall>s \<in> set hs. clean_seg s \<Longrightarrow> ds \<in> set (guarded hs) \<Longrightarrow> \<forall>s \<in> set ds. clean_seg s"
  by (auto simp: guarded_def guarded_segs)

lemma protected_guarded:
  assumes "\<forall>s \<in> set hs. clean_seg s"
  shows "map snd (protected_dirs e None (Some (abs_path hs))) = map abs_path (guarded hs)"
    and "set (map abs_path (guarded hs)) \<subseteq> set (map snd (protected_dirs e path (Some (abs_path hs))))"
proof -
  have j: "join_path (abs_path hs) (U ''.ssh'') = abs_path (hs @ [U ''.ssh''])"
    "join_path (abs_path hs) (join_with [slash] [U ''.config'', U ''ecnode'']) = abs_path (hs @ [U ''.config'', U ''ecnode''])"
    "join_path (abs_path hs) (join_with [slash] [U ''.local'', U ''state'', U ''ecnode''])
      = abs_path (hs @ [U ''.local'', U ''state'', U ''ecnode''])"
    using assms guarded_segs by (simp add: join_path_abs) (rule join_path_clean; simp add: guarded_segs assms)+
  moreover have "join_with [slash] [U ''.config'', U ''ecnode''] = U ''.config/ecnode''"
    "join_with [slash] [U ''.local'', U ''state'', U ''ecnode''] = U ''.local/state/ecnode''"
    "abs_path [U ''etc'', U ''ecnode''] = U ''/etc/ecnode''"
    by (simp_all add: U_def abs_path_def)
  moreover have "abs_path hs \<noteq> []" by (simp add: abs_path_def)
  ultimately show "map snd (protected_dirs e None (Some (abs_path hs))) = map abs_path (guarded hs)"
    "set (map abs_path (guarded hs)) \<subseteq> set (map snd (protected_dirs e path (Some (abs_path hs))))"
    by (auto simp: guarded_def protected_dirs_def join_paths_def)
qed

text \<open>The overlap check in terms of all forms of the paths involved.\<close>

lemma overlap_iff:
  "check_root_overlap e n subject path home = Inr () \<longleftrightarrow>
     (\<forall>h. home = Some h \<longrightarrow> h = [] \<or> \<not> (\<exists>r \<in> set (path_forms e n). \<exists>hh \<in> set (path_forms e h). inside hh r))
     \<and> (\<forall>dir \<in> set (map snd (protected_dirs e path home)). \<forall>r \<in> set (path_forms e n). \<forall>d \<in> set (path_forms e dir).
           \<not> inside r d \<and> \<not> inside d r)"
proof -
  have "find (\<lambda>(what, dir). \<exists>r \<in> set (path_forms e n). \<exists>d \<in> set (path_forms e dir). inside r d \<or> inside d r)
      (protected_dirs e path home) = None
    \<longleftrightarrow> (\<forall>dir \<in> set (map snd (protected_dirs e path home)). \<forall>r \<in> set (path_forms e n). \<forall>d \<in> set (path_forms e dir).
           \<not> inside r d \<and> \<not> inside d r)"
    unfolding find_None_iff by fastforce
  then show ?thesis
    by (cases home) (auto simp: check_root_overlap_def Let_def res_simps split: option.splits if_splits)
qed

lemma overlap_guarded:
  assumes "check_root_overlap e (abs_path cs) subject path (Some (abs_path hs)) = Inr ()"
    and cs: "\<forall>s \<in> set cs. clean_seg s" and hs: "\<forall>s \<in> set hs. clean_seg s"
  shows "\<not> prefix cs hs \<and> (\<forall>ds \<in> set (guarded hs). \<not> prefix cs ds \<and> \<not> prefix ds cs)"
proof -
  have n: "\<And>xs. \<forall>s \<in> set xs. clean_seg s \<Longrightarrow> abs_path xs \<in> set (path_forms e (abs_path xs))"
    using path_forms_norm[of _ e] normpath_abs_path by metis
  have h: "abs_path hs \<noteq> []" by (simp add: abs_path_def)
  have "\<not> inside (abs_path hs) (abs_path cs)" using assms(1) n[OF cs] n[OF hs] h unfolding overlap_iff by blast
  moreover have "\<not> prefix cs ds \<and> \<not> prefix ds cs" if d: "ds \<in> set (guarded hs)" for ds
  proof -
    have c: "\<forall>s \<in> set ds. clean_seg s" by (rule guarded_clean[OF hs d])
    have "abs_path ds \<in> set (map snd (protected_dirs e path (Some (abs_path hs))))"
      using protected_guarded(2)[OF hs] d by fastforce
    then have "\<not> inside (abs_path cs) (abs_path ds) \<and> \<not> inside (abs_path ds) (abs_path cs)"
      using assms(1) n[OF c] n[OF cs] unfolding overlap_iff by blast
    then show ?thesis using inside_prefix c cs by blast
  qed
  ultimately show ?thesis using inside_prefix cs hs by blast
qed

text \<open>Without symlinks a path has one form, and the checks are exactly the componentwise ones.\<close>

lemma path_components_abs: "\<forall>s \<in> set cs. clean_seg s \<Longrightarrow> path_components (abs_path cs) = (True, cs)"
proof -
  assume c: "\<forall>s \<in> set cs. clean_seg s"
  then have "filter (\<lambda>s. s \<noteq> [] \<and> s \<noteq> dot_seg) cs = cs" by (auto simp: filter_id_conv clean_seg_def)
  then show ?thesis using split_abs_path[OF c] by (auto simp: path_components_def Let_def abs_path_def)
qed

lemma path_eq_abs:
  "\<forall>s \<in> set cs. clean_seg s \<Longrightarrow> \<forall>s \<in> set ds. clean_seg s \<Longrightarrow> path_eq (abs_path cs) (abs_path ds) \<longleftrightarrow> cs = ds"
  by (simp add: path_eq_def path_components_abs)

lemma path_forms_bare:
  assumes "\<forall>p. links e p = NoLink" and c: "\<forall>s \<in> set cs. clean_seg s"
  shows "path_forms e (abs_path cs) = [abs_path cs]"
proof -
  have "\<not> starts_with (abs_path cs) [slash, slash]"
    using join_with_clean_hd[OF c] by (cases "cs = []") (auto simp: abs_path_def)
  moreover have "starts_with (abs_path cs) [slash]" by (simp add: abs_path_def)
  ultimately show ?thesis
    using realpath_no_links[OF assms(1)] by (simp add: path_forms_def normpath_abs_path[OF c] path_eq_def)
qed

lemma overlap_bare:
  assumes l: "\<forall>p. links e p = NoLink" and cs: "\<forall>s \<in> set cs. clean_seg s" and hs: "\<forall>s \<in> set hs. clean_seg s"
  shows "check_root_overlap e (abs_path cs) subject None (Some (abs_path hs)) = Inr ()
    \<longleftrightarrow> \<not> prefix cs hs \<and> (\<forall>ds \<in> set (guarded hs). \<not> prefix cs ds \<and> \<not> prefix ds cs)"
proof
  assume "check_root_overlap e (abs_path cs) subject None (Some (abs_path hs)) = Inr ()"
  then show "\<not> prefix cs hs \<and> (\<forall>ds \<in> set (guarded hs). \<not> prefix cs ds \<and> \<not> prefix ds cs)"
    using overlap_guarded cs hs by blast
next
  assume r: "\<not> prefix cs hs \<and> (\<forall>ds \<in> set (guarded hs). \<not> prefix cs ds \<and> \<not> prefix ds cs)"
  have "\<not> inside (abs_path cs) (abs_path ds) \<and> \<not> inside (abs_path ds) (abs_path cs)
      \<and> path_forms e (abs_path ds) = [abs_path ds]" if "ds \<in> set (guarded hs)" for ds
    using r that guarded_clean[OF hs that] inside_prefix cs path_forms_bare[OF l] by blast
  then have "\<forall>dir \<in> set (map abs_path (guarded hs)). \<not> inside (abs_path cs) dir \<and> \<not> inside dir (abs_path cs)
      \<and> path_forms e dir = [dir]" by auto
  moreover have "\<not> inside (abs_path hs) (abs_path cs)" using r inside_prefix cs hs by blast
  ultimately show "check_root_overlap e (abs_path cs) subject None (Some (abs_path hs)) = Inr ()"
    unfolding overlap_iff protected_guarded(1)[OF hs] using path_forms_bare[OF l cs] path_forms_bare[OF l hs] by auto
qed

lemma too_broad_bare:
  assumes l: "\<forall>p. links e p = NoLink" and cs: "\<forall>s \<in> set cs. clean_seg s" and hs: "\<forall>s \<in> set hs. clean_seg s"
  shows "too_broad e (path_forms e (abs_path cs)) (Some (abs_path hs)) \<longleftrightarrow> cs = hs \<or> abs_path cs \<in> set FORBIDDEN_ROOTS"
proof -
  have "abs_path hs \<noteq> []" by (simp add: abs_path_def)
  then show ?thesis using path_forms_bare[OF l cs] path_forms_bare[OF l hs] path_eq_abs[OF hs cs]
    by (auto simp: too_broad_def)
qed

section \<open>An example machine\<close>

text \<open>A machine without symlinks, and a small document, for the examples below.\<close>

definition bare_env :: penv where
  "bare_env = \<lparr>cwd = U ''/'', links = (\<lambda>_. NoLink), float_repr = (\<lambda>_. [])\<rparr>"

definition sample_root :: json where
  "sample_root = JObj [(U ''id'', JStr (U ''hf'')), (U ''path'', JStr (U ''/data/hf''))]"

definition sample_doc :: json where
  "sample_doc = JObj [(U ''mode'', JStr (U ''manage'')), (U ''model_roots'', JArr [sample_root])]"

abbreviation bob :: "ustr list" where "bob \<equiv> [U ''home'', U ''bob'']"

lemma bob_clean: "\<forall>s \<in> set bob. clean_seg s" "\<forall>s \<in> set [U ''data'', U ''hf'']. clean_seg s"
  by (simp_all add: clean_seg_def U_def)

lemma bare_links: "\<forall>p. links bare_env p = NoLink"
  by (simp add: bare_env_def)

lemma sample_root_parsed:
  "parse_root bare_env None (Some (abs_path bob)) 0 sample_root [] =
     Inr [\<lparr>rt_id = U ''hf'', rt_path = U ''/data/hf'', rt_kind = U ''auto'', rt_writable = False, rt_label = U ''hf''\<rparr>]"
proof -
  have p: "U ''/data/hf'' = abs_path [U ''data'', U ''hf'']" by (simp add: abs_path_def U_def)
  have n: "normpath (U ''/data/hf'') = U ''/data/hf''" unfolding p by (rule normpath_abs_path[OF bob_clean(2)])
  have f: "U ''/data/hf'' \<notin> set FORBIDDEN_ROOTS" by (simp add: FORBIDDEN_ROOTS_def U_def)
  have id: "matches ROOT_ID (U ''hf'')" by code_simp
  have b: "\<not> too_broad bare_env (path_forms bare_env (U ''/data/hf'')) (Some (abs_path bob))"
    using f too_broad_bare[OF bare_links bob_clean(2,1)] unfolding p by (simp add: U_def)
  have s: "starts_with (U ''/data/hf'') [slash]" "\<not> starts_with (U ''/data/hf'') [slash, slash]"
    "length (U ''/data/hf'') \<le> 512" "\<not> (\<exists>c \<in> set (U ''/data/hf''). c \<in> set bad_path_chars)"
    "\<not> (\<exists>seg \<in> set (split_on slash (U ''/data/hf'')). seg = dot_seg \<or> seg = dotdot_seg)"
    by (simp_all add: U_def bad_path_chars_def)
  have rp: "root_path bare_env (Some (JStr (U ''/data/hf''))) loc (Some (abs_path bob)) = Inr (U ''/data/hf'')" for loc
    unfolding root_path_def using b s by (simp add: n res_simps Let_def)
  have o: "check_root_overlap bare_env (U ''/data/hf'') loc None (Some (abs_path bob)) = Inr ()" for loc
    unfolding p overlap_bare[OF bare_links bob_clean(2,1)] by (simp add: guarded_def U_def)
  have k: "keys [(U ''id'', JStr (U ''hf'')), (U ''path'', JStr (U ''/data/hf''))]
     (map U [''id'', ''path'', ''kind'', ''writable'', ''label'']) loc = Inr ()" for loc
    by (simp add: keys_def res_simps)
  show ?thesis
    unfolding parse_root_def sample_root_def
    by (simp add: k rp o res_simps str_field_def bool_field_def id nonempty_or_def unwrap_or_def Let_def)
      (simp add: U_def KINDS_def keys_def)
qed

lemma sample_parsed:
  "\<exists>p. parse bare_env sample_doc None (Some (abs_path bob)) = Inr p \<and> manage p
     \<and> model_roots p = [\<lparr>rt_id = U ''hf'', rt_path = U ''/data/hf'', rt_kind = U ''auto'', rt_writable = False, rt_label = U ''hf''\<rparr>]"
proof -
  have d: "obj_get [(U ''mode'', JStr (U ''manage'')), (U ''model_roots'', JArr [sample_root])] (U k) =
     (if k = ''mode'' then Some (JStr (U ''manage'')) else if k = ''model_roots'' then Some (JArr [sample_root]) else None)" for k
    by (simp add: obj_get_def)
  have k: "keys [(U ''mode'', JStr (U ''manage'')), (U ''model_roots'', JArr [sample_root])] policy_keys loc = Inr ()"
     "keys [] (map U [''binary'', ''context'']) loc = Inr ()" for loc
    by (simp_all add: keys_def policy_keys_def)
  have m: "U ''manage'' \<in> set MODES" by (simp add: MODES_def)
  have dk: "parse_docker [(U ''mode'', JStr (U ''manage'')), (U ''model_roots'', JArr [sample_root])] = Inr (U ''docker'', None)"
    by (simp add: parse_docker_def d k str_field_def res_simps nonempty_or_def keys_def U_def)
  have po: "parse_ports [(U ''mode'', JStr (U ''manage'')), (U ''model_roots'', JArr [sample_root])] = Inr (18000, 18099)"
    by (simp add: parse_ports_def d unwrap_or_def res_simps int_Inr DEFAULT_PORTS_def json_int_def)
  show ?thesis
    unfolding sample_doc_def parse_def
    by (simp add: d k m dk res_simps Let_def list_field_def bool_field_def str_field_def parse_gateway_def
      po parse_choice_def parse_shm_def str_in_def sample_root_parsed manage_def unwrap_or_def)
qed

section \<open>Accepted policies\<close>

text \<open>
  C26. Every policy document the node accepts is well-formed: the mode is monitor or manage, every
  engine image pattern and the gateway image are valid references, the ports are a range of at most
  1,001 ports above 1023, root ids, script names and action names are each used once and well spelt,
  every root is a normalised absolute path that is not too broad and overlaps nothing protected, every
  action runs a program named by an absolute path, and nothing else of the caller's is changed.
\<close>

theorem accepted_policy_ok:
  assumes "parse e doc path home = Inr p"
  shows "policy_ok e p \<and> pol_path p = path \<and> pol_home p = home \<and> pol_error p = None"
  using assms by (rule parse_ok)

lemma accepted_policy_ok_witness:
  "\<exists>p. parse bare_env sample_doc None (Some (abs_path bob)) = Inr p \<and> policy_ok bare_env p \<and> manage p"
  using sample_parsed accepted_policy_ok by blast



section \<open>A home directory written with two slashes\<close>

text \<open>\<open>//x\<close> and \<open>/x\<close> are the same directory, and \<open>realpath\<close> says so, but the checks keep only the first
  form: \<open>Path\<close>'s equality takes the two for equal.\<close>

lemma split_double: "\<forall>s \<in> set hs. clean_seg s \<Longrightarrow> hs \<noteq> [] \<Longrightarrow> split_on slash (slash # abs_path hs) = [] # [] # hs"
  using split_abs_path[of hs] by simp

lemma normpath_double:
  assumes "\<forall>s \<in> set hs. clean_seg s" "hs \<noteq> []"
  shows "normpath (slash # abs_path hs) = slash # abs_path hs"
proof -
  obtain c r where c: "join_with [slash] hs = c # r" "c \<noteq> slash" using join_with_clean_hd[OF assms] by blast
  then have i: "norm_initial (slash # abs_path hs) = [slash, slash]" by (simp add: norm_initial_def abs_path_def)
  have "fold (norm_step [slash, slash]) ([] # [] # hs) [] = hs"
    using fold_norm_step_id[OF assms(1)] by (simp add: norm_step_def)
  then show ?thesis using i split_double[OF assms] c by (simp add: normpath_def Let_def) (simp add: abs_path_def)
qed

lemma realpath_double:
  assumes "\<forall>p. fs p = NoLink" "\<forall>s \<in> set hs. clean_seg s" "hs \<noteq> []"
  shows "realpath d fs (slash # abs_path hs) = abs_path hs"
proof -
  have "fold (norm_step [slash]) (split_on slash (abs_path hs)) [] = hs"
    using fold_norm_step_id[OF assms(2)] split_abs_path[OF assms(2)] assms(3) by (simp add: norm_step_def)
  then have "realpath_loop fs 0 [] [slash] (abs_path hs) = (abs_path hs, True, [])"
    using realpath_loop_no_links[OF assms(1), of "[]" 0 "[]" "abs_path hs"] by (simp add: abs_path_def)
  then show ?thesis
    using normpath_abs_path[OF assms(2)] by (simp add: realpath_def enter_rest_def abspath_def) (simp add: abs_path_def)
qed

lemma path_forms_double:
  assumes "\<forall>p. links e p = NoLink" "\<forall>s \<in> set hs. clean_seg s" "hs \<noteq> []"
  shows "path_forms e (slash # abs_path hs) = [slash # abs_path hs]"
proof -
  have "filter (\<lambda>s. s \<noteq> [] \<and> s \<noteq> dot_seg) hs = hs" using assms(2) by (auto simp: filter_id_conv clean_seg_def)
  then have "path_components (slash # abs_path hs) = (True, hs)"
    using split_double[OF assms(2,3)] by (simp add: path_components_def Let_def)
  then show ?thesis
    using path_components_abs[OF assms(2)] realpath_double[OF assms] normpath_double[OF assms(2,3)]
    by (simp add: path_forms_def path_eq_def)
qed

lemma inside_double:
  assumes "\<forall>s \<in> set cs. clean_seg s" "cs \<noteq> []" "\<forall>s \<in> set hs. clean_seg s" "hs \<noteq> []"
  shows "\<not> inside (slash # abs_path hs) (abs_path cs)" and "\<not> inside (abs_path cs) (slash # abs_path hs)"
proof -
  obtain c r where c: "join_with [slash] cs = c # r" "c \<noteq> slash" using join_with_clean_hd[OF assms(1,2)] by blast
  then have a: "abs_path cs = slash # c # r" by (simp add: abs_path_def)
  obtain h t where h: "abs_path hs = slash # h # t" "h \<noteq> slash"
    using join_with_clean_hd[OF assms(3,4)] by (auto simp: abs_path_def)
  have s: "strip_slashes (abs_path cs) = abs_path cs" "strip_slashes (slash # abs_path hs) = slash # abs_path hs"
    using strip_abs_path[OF assms(1)] assms(2) last_join_clean[OF assms(3,4)]
    by (simp_all add: strip_slashes_id abs_path_def)
  show "\<not> inside (slash # abs_path hs) (abs_path cs)" "\<not> inside (abs_path cs) (slash # abs_path hs)"
    unfolding inside_def s Let_def using a h c by (auto simp: starts_with_def)
qed

lemma join_double: "es \<noteq> [] \<Longrightarrow> \<forall>s \<in> set es. clean_seg s \<Longrightarrow> \<forall>s \<in> set hs. clean_seg s \<Longrightarrow>
    join_path (slash # abs_path hs) (join_with [slash] es) = slash # abs_path (hs @ es)"
  using join_path_clean[of es hs] join_with_clean_hd[of es]
  by (auto simp: join_path_def ends_with_single abs_path_def split: if_splits)

lemma protected_double:
  assumes "\<forall>s \<in> set hs. clean_seg s"
  shows "set (map snd (protected_dirs e None (Some (slash # abs_path hs))))
    = {abs_path [U ''etc'', U ''ecnode'']} \<union> (\<lambda>ds. slash # abs_path (hs @ ds)) `
        {[U ''.ssh''], [U ''.config'', U ''ecnode''], [U ''.local'', U ''state'', U ''ecnode'']}"
proof -
  have "join_path (slash # abs_path hs) (join_with [slash] ds) = slash # abs_path (hs @ ds)"
    if "ds \<in> {[U ''.ssh''], [U ''.config'', U ''ecnode''], [U ''.local'', U ''state'', U ''ecnode'']}" for ds
    using that assms by (intro join_double) (auto simp: guarded_segs)
  then have "join_path (slash # abs_path hs) (join_with [slash] [U ''.ssh'']) = slash # abs_path (hs @ [U ''.ssh''])"
    "join_path (slash # abs_path hs) (join_with [slash] [U ''.config'', U ''ecnode'']) = slash # abs_path (hs @ [U ''.config'', U ''ecnode''])"
    "join_path (slash # abs_path hs) (join_with [slash] [U ''.local'', U ''state'', U ''ecnode''])
      = slash # abs_path (hs @ [U ''.local'', U ''state'', U ''ecnode''])"
    by blast+
  moreover have "join_with [slash] [U ''.ssh''] = U ''.ssh''" "join_with [slash] [U ''.config'', U ''ecnode''] = U ''.config/ecnode''"
    "join_with [slash] [U ''.local'', U ''state'', U ''ecnode''] = U ''.local/state/ecnode''"
    "abs_path [U ''etc'', U ''ecnode''] = U ''/etc/ecnode''"
    by (simp_all add: U_def abs_path_def)
  ultimately show ?thesis by (simp add: protected_dirs_def join_paths_def insert_commute)
qed

text \<open>
  C28. When the home directory is written with two leading slashes, which POSIX keeps apart but which
  names the same directory, the overlap check forgets the home directory, its SSH directory and the
  node's own policy and state directories: whatever the root is, only \<open>/etc/ecnode\<close> still counts. A
  root that holds the user's keys, or the policy file itself, is then accepted.
\<close>

theorem double_slash_home_unguarded:
  assumes "\<forall>p. links e p = NoLink" "\<forall>s \<in> set cs. clean_seg s" "cs \<noteq> []" "\<forall>s \<in> set hs. clean_seg s" "hs \<noteq> []"
  shows "realpath (cwd e) (links e) (slash # abs_path hs) = abs_path hs
    \<and> (check_root_overlap e (abs_path cs) subject None (Some (slash # abs_path hs)) = Inr ()
        \<longleftrightarrow> \<not> prefix cs [U ''etc'', U ''ecnode''] \<and> \<not> prefix [U ''etc'', U ''ecnode''] cs)"
proof
  show "realpath (cwd e) (links e) (slash # abs_path hs) = abs_path hs" by (rule realpath_double[OF assms(1,4,5)])
  have etc: "\<forall>s \<in> set [U ''etc'', U ''ecnode'']. clean_seg s" by (simp add: guarded_segs)
  have far: "path_forms e (slash # abs_path xs) = [slash # abs_path xs] \<and> \<not> inside (slash # abs_path xs) (abs_path cs)
      \<and> \<not> inside (abs_path cs) (slash # abs_path xs)" if "\<forall>s \<in> set xs. clean_seg s" "xs \<noteq> []" for xs
    using path_forms_double[OF assms(1) that] inside_double[OF assms(2,3) that] by blast
  have tails: "\<forall>ds \<in> {[U ''.ssh''], [U ''.config'', U ''ecnode''], [U ''.local'', U ''state'', U ''ecnode'']}.
      (\<forall>s \<in> set (hs @ ds). clean_seg s) \<and> hs @ ds \<noteq> []"
    using assms(4,5) guarded_segs by auto
  show "check_root_overlap e (abs_path cs) subject None (Some (slash # abs_path hs)) = Inr ()
        \<longleftrightarrow> \<not> prefix cs [U ''etc'', U ''ecnode''] \<and> \<not> prefix [U ''etc'', U ''ecnode''] cs"
    unfolding overlap_iff protected_double[OF assms(4)]
    using far[OF assms(4,5)] far tails path_forms_bare[OF assms(1,2)] path_forms_bare[OF assms(1) etc]
      inside_prefix[OF assms(2) etc] inside_prefix[OF etc assms(2)] by auto
qed

lemma double_slash_home_unguarded_witness:
  "check_root_overlap bare_env (U ''/home/bob/.ssh'') [] None (Some (U ''//home/bob'')) = Inr ()
   \<and> check_root_overlap bare_env (U ''/home/bob/.ssh'') [] None (Some (U ''/home/bob'')) \<noteq> Inr ()
   \<and> realpath (U ''/'') (\<lambda>_. NoLink) (U ''//home/bob'') = U ''/home/bob''"
proof -
  have p: "U ''/home/bob/.ssh'' = abs_path (bob @ [U ''.ssh''])" "U ''//home/bob'' = slash # abs_path bob" "U ''/home/bob'' = abs_path bob"
    by (simp_all add: abs_path_def U_def)
  have c: "\<forall>s \<in> set (bob @ [U ''.ssh'']). clean_seg s" using bob_clean(1) guarded_segs by auto
  have b: "cwd bare_env = U ''/''" "links bare_env = (\<lambda>_. NoLink)" by (simp_all add: bare_env_def)
  have "\<not> prefix (bob @ [U ''.ssh'']) [U ''etc'', U ''ecnode'']" "\<not> prefix [U ''etc'', U ''ecnode''] (bob @ [U ''.ssh''])"
    by (simp_all add: U_def)
  moreover have "\<not> (\<forall>ds \<in> set (guarded bob). \<not> prefix (bob @ [U ''.ssh'']) ds \<and> \<not> prefix ds (bob @ [U ''.ssh'']))"
    by (simp add: guarded_def)
  moreover have "bob @ [U ''.ssh''] \<noteq> []" "bob \<noteq> []" by simp_all
  ultimately show ?thesis
    using double_slash_home_unguarded[OF bare_links c _ bob_clean(1), of "[]"] overlap_bare[OF bare_links c bob_clean(1), of "[]"]
    unfolding p b by blast
qed

end
