(* ===== verification/PolicyStore.thy ===== *)
theory PolicyStore
  imports RootGuard Frame
begin

unbundle bit_operations_syntax

text \<open>
  Loading the policy file and keeping it current (crates/ecnode/src/policy.rs, \<open>candidate\<close>,
  \<open>load_with\<close>, \<open>file_problem\<close>, \<open>PolicyStore\<close>). \<open>os\<close> is what the operating system and the two decoders
  answer while one call runs; every question has its own field, so the answers need not agree with
  each other, as when the file is swapped between two system calls.
\<close>

record file_stat =
  st_mode :: u32
  st_uid :: u32

datatype open_error = ELOOP | ENOENT | OtherErr ustr

record json_error =
  je_line :: nat
  je_column :: nat
  je_text :: ustr

record os =
  os_env :: penv
  os_home :: ustr
  os_uid :: u32
  lstat_ok :: "ustr \<Rightarrow> bool"
  lstat_stamp :: "ustr \<Rightarrow> int list"
  os_open :: "ustr \<Rightarrow> open_error option"
  os_fstat :: "ustr \<Rightarrow> ustr + file_stat"
  dir_stat :: "ustr \<Rightarrow> file_stat option"
  os_read :: "ustr \<Rightarrow> reader"
  read_error_text :: ustr
  utf8 :: "u8 list \<Rightarrow> nat + ustr"
  json_of :: "ustr \<Rightarrow> json_error + json"

record load_options =
  lo_explicit :: "ustr option"
  lo_home :: "ustr option"
  lo_etc_path :: ustr
  lo_system_dirs :: "ustr list"
  lo_uid :: "u32 option"

definition nonempty :: "ustr option \<Rightarrow> ustr option" where
  "nonempty v = (case v of Some [] \<Rightarrow> None | _ \<Rightarrow> v)"

text \<open>The path to load and whether it was named explicitly.\<close>

definition candidate :: "os \<Rightarrow> ustr option \<Rightarrow> ustr option \<Rightarrow> ustr \<Rightarrow> ustr option \<times> bool" where
  "candidate os explicit home etc_path =
     (case nonempty explicit of
        Some e \<Rightarrow> (Some e, True)
      | None \<Rightarrow>
          if lstat_ok os etc_path then (Some etc_path, False)
          else (let user = join_paths (unwrap_or (os_home os) (nonempty home)) [USER_POLICY] in
                if lstat_ok os user then (Some user, False) else (None, False)))"

definition under :: "os \<Rightarrow> ustr \<Rightarrow> ustr list \<Rightarrow> bool" where
  "under os path dirs \<longleftrightarrow>
     (\<exists>p \<in> set dirs. starts_with (abspath (cwd (os_env os)) path) p)"

text \<open>\<open>S_IFMT\<close>, \<open>S_IFREG\<close> and the octal masks 022 and 002.\<close>

definition S_IFMT :: u32 where "S_IFMT = 61440"
definition S_IFREG :: u32 where "S_IFREG = 32768"

definition file_problem :: "os \<Rightarrow> ustr \<Rightarrow> file_stat \<Rightarrow> u32 \<Rightarrow> ustr list \<Rightarrow> ustr option" where
  "file_problem os path st me system_dirs =
     (let mode = st_mode st; system = under os path system_dirs;
          parent = dirname (abspath (cwd (os_env os)) path) in
      if mode AND S_IFMT \<noteq> S_IFREG then Some (U ''is not a regular file'')
      else if mode AND 18 \<noteq> 0 then
        Some (U ''is group- or world-writable (run: sudo chmod 644 '' @ path @ U '')'')
      else if system \<and> st_uid st \<noteq> 0 then
        Some (U ''must be owned by root (run: sudo chown root:root '' @ path @ U '')'')
      else if st_uid st \<noteq> 0 \<and> st_uid st \<noteq> me then Some (U ''is owned by another user'')
      else (case dir_stat os parent of
          None \<Rightarrow> Some (U ''has a directory that cannot be checked'')
        | Some pst \<Rightarrow>
            if st_mode pst AND (if system then 18 else 2) \<noteq> 0 then
              Some (U ''is in a directory others can write to ('' @ parent @ U '')'')
            else if system \<and> st_uid pst \<noteq> 0 \<or> st_uid pst \<noteq> 0 \<and> st_uid pst \<noteq> me then
              Some (U ''is in a directory owned by another user ('' @ parent @ U '')'')
            else None))"

text \<open>The read loop: until the end or one byte past the limit; None is a read error.\<close>

lemma read_measure:
  "c \<noteq> [] \<Longrightarrow> n \<le> limit \<Longrightarrow>
   Suc limit - (n + min (length c) (min (Suc limit - n) 65536)) < Suc limit - n"
  by (cases c) auto

function read_capped :: "nat \<Rightarrow> u8 list \<Rightarrow> reader \<Rightarrow> u8 list option" where
  "read_capped limit raw r =
     (if limit < length raw then Some raw
      else (case r of
          [] \<Rightarrow> Some raw
        | Interrupted # r \<Rightarrow> read_capped limit raw r
        | IoFail # r \<Rightarrow> None
        | Chunk c # r \<Rightarrow>
            (if c = [] then Some raw
             else (let n = min (limit + 1 - length raw) 65536
                   in read_capped limit (raw @ take n c) (rest_of (drop n c) r)))))"
  by pat_completeness auto
termination
  by (relation "measures [\<lambda>(limit, raw, r). Suc limit - length raw, \<lambda>(limit, raw, r). length r]")
    (auto simp: read_measure not_less)

declare read_capped.simps [simp del]

text \<open>\<open>json_error_text\<close>: the character offset of the line and column serde_json names.\<close>

fun char_offset :: "nat \<Rightarrow> nat \<Rightarrow> nat \<Rightarrow> ustr list \<Rightarrow> nat \<Rightarrow> nat" where
  "char_offset line col i [] pos = pos"
| "char_offset line col i (l # ls) pos =
     (if i + 1 = line then pos + length (take (col - 1) l)
      else char_offset line col (i + 1) ls (pos + length l + 1))"

definition json_error_text :: "ustr \<Rightarrow> json_error \<Rightarrow> ustr" where
  "json_error_text text e =
     (let pos = char_offset (je_line e) (je_column e) 0 (split_on 10 text) 0;
          msg = je_text e;
          what = (if starts_with msg (U ''key must be a string'') then
                    U ''Expecting property name enclosed in double quotes''
                  else if starts_with msg (U ''expected `:`'') then U ''Expecting ':' delimiter''
                  else if starts_with msg (U ''expected `,` or'') then U ''Expecting ',' delimiter''
                  else if starts_with msg (U ''trailing characters'') then U ''Extra data''
                  else if starts_with msg (U ''EOF while parsing a string'') then U ''Unterminated string starting at''
                  else if starts_with msg (U ''control character'') then U ''Invalid control character at''
                  else if starts_with msg (U ''invalid escape'') then U ''Invalid '' @ [92] @ U ''escape''
                  else U ''Expecting value'')
      in what @ U '': line '' @ dec (je_line e) @ U '' column '' @ dec (je_column e) @ U '' (char '' @ dec pos @ U '')'')"

definition refused :: "ustr \<Rightarrow> ustr \<Rightarrow> policy" where
  "refused path why =
     monitor_policy (Some path) (Some (U ''policy file '' @ path @ U '' '' @ why @ U ''; running in monitor mode''))"

text \<open>The bytes of an acceptable file become a document, or the reason they do not.\<close>

definition decode_policy :: "os \<Rightarrow> u8 list \<Rightarrow> ustr + json" where
  "decode_policy os raw =
     (case utf8 os raw of
        Inl pos \<Rightarrow>
          (let byte = (if pos < length raw then unat (raw ! pos) else 0);
               why = [39] @ U ''utf-8'' @ [39] @ U '' codec can't decode byte 0x'' @ hex_pad 2 byte
                     @ U '' in position '' @ dec pos @ U '': invalid start byte''
           in Inl (U ''is not valid JSON ('' @ take 160 why @ U '')''))
      | Inr text \<Rightarrow>
          (case json_of os text of
             Inl e \<Rightarrow> Inl (U ''is not valid JSON ('' @ take 160 (json_error_text text e) @ U '')'')
           | Inr doc \<Rightarrow> Inr doc))"

definition load_with :: "os \<Rightarrow> load_options \<Rightarrow> policy \<times> int list" where
  "load_with os o' =
     (case candidate os (lo_explicit o') (lo_home o') (lo_etc_path o') of
        (None, named) \<Rightarrow>
          (monitor_policy None (Some (U ''no policy file, so this node runs in monitor mode (write '' @ lo_etc_path o'
             @ U '', for example from `ecnode policy-template`)'')), [])
      | (Some path, named) \<Rightarrow>
          (let me = unwrap_or (os_uid os) (lo_uid o'); stamp = lstat_stamp os path in
           case os_open os path of
             Some err \<Rightarrow>
               (refused path (case err of
                    ELOOP \<Rightarrow> U ''is a symlink; point --policy at the real file''
                  | ENOENT \<Rightarrow> (if named then U ''does not exist'' else U ''disappeared while being read'')
                  | OtherErr t \<Rightarrow> U ''cannot be read ('' @ t @ U '')''), stamp)
           | None \<Rightarrow>
               (case os_fstat os path of
                  Inl t \<Rightarrow> (refused path (U ''cannot be read ('' @ t @ U '')''), stamp)
                | Inr st \<Rightarrow>
                    (case file_problem os path st me (lo_system_dirs o') of
                       Some problem \<Rightarrow> (refused path problem, stamp)
                     | None \<Rightarrow>
                         (case read_capped MAX_POLICY_BYTES [] (os_read os path) of
                            None \<Rightarrow> (refused path (U ''cannot be read ('' @ read_error_text os @ U '')''), stamp)
                          | Some raw \<Rightarrow>
                              if MAX_POLICY_BYTES < length raw then
                                (refused path (U ''is larger than '' @ dec MAX_POLICY_BYTES @ U '' bytes''), stamp)
                              else (case decode_policy os raw of
                                  Inl why \<Rightarrow> (refused path why, stamp)
                                | Inr doc \<Rightarrow>
                                    (case parse (os_env os) doc (Some path)
                                            (Some (unwrap_or (os_home os) (nonempty (lo_home o')))) of
                                       Inr p \<Rightarrow> (p, stamp)
                                     | Inl e \<Rightarrow> (monitor_policy (Some path) (Some (U ''policy file '' @ path @ U '': '' @ e
                                         @ U ''; running in monitor mode'')), stamp))))))))"

section \<open>The store\<close>

text \<open>Times are the seconds of the store's clock; \<open>fixed\<close> is a store built from a policy.\<close>

record store =
  sto_opts :: load_options
  recheck_s :: rat
  fixed :: bool
  sto_policy :: policy
  sto_stamp :: "int list"
  checked :: rat

definition store_new :: "os \<Rightarrow> rat \<Rightarrow> load_options \<Rightarrow> rat \<Rightarrow> store" where
  "store_new os now opts every =
     (let (p, stamp) = load_with os opts in
      \<lparr>sto_opts = opts, recheck_s = every, fixed = False, sto_policy = p, sto_stamp = stamp, checked = now\<rparr>)"

definition store_identity :: "os \<Rightarrow> store \<Rightarrow> ustr option \<times> int list" where
  "store_identity os s =
     (let path = fst (candidate os (lo_explicit (sto_opts s)) (lo_home (sto_opts s)) (lo_etc_path (sto_opts s)))
      in (path, case path of None \<Rightarrow> [] | Some p \<Rightarrow> lstat_stamp os p))"

definition store_current :: "os \<Rightarrow> rat \<Rightarrow> store \<Rightarrow> policy \<times> store" where
  "store_current os now s =
     (if fixed s then (sto_policy s, s)
      else (let due = recheck_s s \<le> now - checked s;
                s = (if due then s\<lparr>checked := now\<rparr> else s);
                s = (if due \<and> store_identity os s \<noteq> (pol_path (sto_policy s), sto_stamp s)
                     then (let (p, stamp) = load_with os (sto_opts s) in s\<lparr>sto_policy := p, sto_stamp := stamp\<rparr>)
                     else s)
            in (sto_policy s, s)))"

definition store_reload :: "os \<Rightarrow> rat \<Rightarrow> store \<Rightarrow> policy \<times> store" where
  "store_reload os now s =
     (if fixed s then (sto_policy s, s)
      else (let (p, stamp) = load_with os (sto_opts s)
            in (p, s\<lparr>sto_policy := p, sto_stamp := stamp, checked := now\<rparr>)))"

section \<open>What a loaded policy rests on\<close>

text \<open>The file is the node's to trust: regular, not writable by others, owned by root or the node's
  user, in a directory of the same kind.\<close>

definition trusted_file :: "os \<Rightarrow> load_options \<Rightarrow> ustr \<Rightarrow> bool" where
  "trusted_file os o' path \<longleftrightarrow>
     (let me = unwrap_or (os_uid os) (lo_uid o'); system = under os path (lo_system_dirs o') in
      os_open os path = None \<and>
      (\<exists>st pst. os_fstat os path = Inr st \<and> dir_stat os (dirname (abspath (cwd (os_env os)) path)) = Some pst
         \<and> st_mode st AND S_IFMT = S_IFREG \<and> st_mode st AND 18 = 0
         \<and> (st_uid st = 0 \<or> \<not> system \<and> st_uid st = me)
         \<and> st_mode pst AND 2 = 0 \<and> (system \<longrightarrow> st_mode pst AND 18 = 0)
         \<and> (st_uid pst = 0 \<or> \<not> system \<and> st_uid pst = me)))"

lemma and_18_2: "(w :: u32) AND 18 = 0 \<Longrightarrow> w AND 2 = 0"
proof -
  assume a: "w AND 18 = 0"
  have "w AND 2 = (w AND 18) AND 2" by (simp add: and.assoc)
  then show ?thesis using a by simp
qed

lemma file_problem_None:
  assumes "file_problem os path st me dirs = None"
  shows "\<exists>pst. dir_stat os (dirname (abspath (cwd (os_env os)) path)) = Some pst
     \<and> st_mode st AND S_IFMT = S_IFREG \<and> st_mode st AND 18 = 0
     \<and> (st_uid st = 0 \<or> \<not> under os path dirs \<and> st_uid st = me)
     \<and> st_mode pst AND 2 = 0 \<and> (under os path dirs \<longrightarrow> st_mode pst AND 18 = 0)
     \<and> (st_uid pst = 0 \<or> \<not> under os path dirs \<and> st_uid pst = me)"
  using assms by (auto simp: file_problem_def Let_def and_18_2 split: if_splits option.splits)

definition loaded_from :: "os \<Rightarrow> load_options \<Rightarrow> policy \<Rightarrow> bool" where
  "loaded_from os o' p \<longleftrightarrow> (\<exists>path raw doc.
     fst (candidate os (lo_explicit o') (lo_home o') (lo_etc_path o')) = Some path \<and> trusted_file os o' path
     \<and> read_capped MAX_POLICY_BYTES [] (os_read os path) = Some raw \<and> length raw \<le> MAX_POLICY_BYTES
     \<and> decode_policy os raw = Inr doc
     \<and> parse (os_env os) doc (Some path) (Some (unwrap_or (os_home os) (nonempty (lo_home o')))) = Inr p)"

lemma load_with_cases:
  "loaded_from os o' (fst (load_with os o')) \<or> (\<exists>path why. fst (load_with os o') = monitor_policy path (Some why))"
proof (cases "candidate os (lo_explicit o') (lo_home o') (lo_etc_path o')")
  case (Pair c named)
  show ?thesis
  proof (cases c)
    case None
    with Pair show ?thesis by (auto simp: load_with_def)
  next
    case (Some path)
    let ?p = "fst (load_with os o')"
    have "(\<exists>path why. ?p = monitor_policy path (Some why)) \<or>
       (\<exists>st raw doc. os_open os path = None \<and> os_fstat os path = Inr st
          \<and> file_problem os path st (unwrap_or (os_uid os) (lo_uid o')) (lo_system_dirs o') = None
          \<and> read_capped MAX_POLICY_BYTES [] (os_read os path) = Some raw \<and> length raw \<le> MAX_POLICY_BYTES
          \<and> decode_policy os raw = Inr doc
          \<and> parse (os_env os) doc (Some path) (Some (unwrap_or (os_home os) (nonempty (lo_home o')))) = Inr ?p)"
      using Pair Some unfolding load_with_def Let_def refused_def
      by (auto split: option.splits sum.splits)
    then show ?thesis
    proof
      assume "\<exists>st raw doc. os_open os path = None \<and> os_fstat os path = Inr st
          \<and> file_problem os path st (unwrap_or (os_uid os) (lo_uid o')) (lo_system_dirs o') = None
          \<and> read_capped MAX_POLICY_BYTES [] (os_read os path) = Some raw \<and> length raw \<le> MAX_POLICY_BYTES
          \<and> decode_policy os raw = Inr doc
          \<and> parse (os_env os) doc (Some path) (Some (unwrap_or (os_home os) (nonempty (lo_home o')))) = Inr ?p"
      then obtain st raw doc where r: "os_open os path = None" "os_fstat os path = Inr st"
        "file_problem os path st (unwrap_or (os_uid os) (lo_uid o')) (lo_system_dirs o') = None"
        "read_capped MAX_POLICY_BYTES [] (os_read os path) = Some raw" "length raw \<le> MAX_POLICY_BYTES"
        "decode_policy os raw = Inr doc"
        "parse (os_env os) doc (Some path) (Some (unwrap_or (os_home os) (nonempty (lo_home o')))) = Inr ?p" by blast
      have "trusted_file os o' path"
        unfolding trusted_file_def Let_def using r(1,2) file_problem_None[OF r(3)] by blast
      with Pair Some r show ?thesis unfolding loaded_from_def by auto
    qed simp
  qed
qed

lemma monitor_policy_not_manage: "\<not> manage (monitor_policy path why)"
  by (simp add: manage_def monitor_policy_def python_default_def)

lemma load_with_ok: "policy_ok (os_env os) (fst (load_with os o'))"
  using load_with_cases[of os o']
proof
  assume "loaded_from os o' (fst (load_with os o'))"
  then show ?thesis unfolding loaded_from_def using parse_ok by blast
next
  assume "\<exists>path why. fst (load_with os o') = monitor_policy path (Some why)"
  then show ?thesis
    by (auto simp: policy_ok_def monitor_policy_def python_default_def MODES_def EXTERNAL_def DEFAULT_PORTS_def)
qed

section \<open>The store over time\<close>

text \<open>The answers of a store to a sequence of calls, each with the machine as it is then and the time.\<close>

datatype store_call = Current os rat | Reload os rat

fun answer :: "store_call \<Rightarrow> store \<Rightarrow> policy \<times> store" where
  "answer (Current os now) s = store_current os now s"
| "answer (Reload os now) s = store_reload os now s"

fun store_run :: "store_call list \<Rightarrow> store \<Rightarrow> policy list \<times> store" where
  "store_run [] s = ([], s)"
| "store_run (c # cs) s = (let (p, s1) = answer c s; (ps, s2) = store_run cs s1 in (p # ps, s2))"

fun call_os :: "store_call \<Rightarrow> os" where
  "call_os (Current os now) = os"
| "call_os (Reload os now) = os"

lemma store_call_policy:
  "fst (answer c s) = sto_policy (snd (answer c s))
   \<and> (sto_policy (snd (answer c s)) = sto_policy s \<or> sto_policy (snd (answer c s)) = fst (load_with (call_os c) (sto_opts s)))
   \<and> sto_opts (snd (answer c s)) = sto_opts s"
  by (cases c) (auto simp: store_current_def store_reload_def Let_def split: prod.splits)

lemma store_run_policies:
  "store_run cs s = (ps, s') \<Longrightarrow>
     \<forall>p \<in> set ps. p = sto_policy s \<or> (\<exists>c \<in> set cs. p = fst (load_with (call_os c) (sto_opts s)))"
proof (induction cs s arbitrary: ps s' rule: store_run.induct)
  case (2 c cs s)
  obtain p s1 ps2 s2 where c: "answer c s = (p, s1)" "store_run cs s1 = (ps2, s2)" by (metis surj_pair)
  with 2 have ps: "ps = p # ps2" by simp
  note s1 = store_call_policy[of c s, unfolded c(1) fst_conv snd_conv]
  have "\<forall>p \<in> set ps2. p = sto_policy s1 \<or> (\<exists>c \<in> set cs. p = fst (load_with (call_os c) (sto_opts s1)))"
    by (rule "2.IH"[OF c(1)[symmetric] refl c(2)])
  with s1 ps show ?case by (metis insert_iff list.simps(15))
qed simp

section \<open>What the store's policies rest on\<close>

lemma parse_manage:
  assumes "parse e doc path home = Inr p" "manage p"
  shows "\<exists>data. doc = JObj data \<and> obj_get data (U ''mode'') = Some (JStr (U ''manage''))"
proof (cases doc)
  case (JObj data)
  obtain mode where m: "parse_choice data (U ''mode'') MODES (U ''monitor'') (U ''policy.mode must be \"monitor\" or \"manage\"'') = Inr mode"
    "pol_mode p = mode"
    using assms(1) unfolding parse_def JObj json.case
    by (elim try_bind_InrE) (simp add: Let_def, elim try_bind_InrE, auto)
  have "mode = U ''manage''" using assms(2) m(2) by (simp add: manage_def)
  then have "parse_choice data (U ''mode'') MODES (U ''monitor'') (U ''policy.mode must be \"monitor\" or \"manage\"'') = Inr (U ''manage'')"
    using m(1) by simp
  then have "obj_get data (U ''mode'') = Some (JStr (U ''manage''))"
    by (cases "obj_get data (U ''mode'')") (auto simp: parse_choice_def str_in_def unwrap_or_def U_def split: if_splits json.splits option.splits)
  with JObj show ?thesis by simp
qed (use assms(1) in \<open>simp_all add: parse_def\<close>)

text \<open>
  C29. The node may change the machine only when a trusted file says so: if loading yields a policy in
  manage mode, then the file found is regular, writable by nobody else, owned by root or the node's
  user and in a directory of the same kind, it is at most 256 KiB, decodes to one JSON object, and its
  mode is literally "manage". Every failure on the way ends in monitor mode.
\<close>

theorem manage_needs_trusted_file:
  assumes "manage (fst (load_with os o'))"
  shows "\<exists>path raw data. fst (candidate os (lo_explicit o') (lo_home o') (lo_etc_path o')) = Some path
    \<and> trusted_file os o' path \<and> read_capped MAX_POLICY_BYTES [] (os_read os path) = Some raw
    \<and> length raw \<le> MAX_POLICY_BYTES \<and> decode_policy os raw = Inr (JObj data)
    \<and> obj_get data (U ''mode'') = Some (JStr (U ''manage''))"
proof -
  have "loaded_from os o' (fst (load_with os o'))"
    using load_with_cases[of os o'] assms monitor_policy_not_manage by metis
  then show ?thesis unfolding loaded_from_def using parse_manage[OF _ assms] by metis
qed

text \<open>A machine whose root-owned policy file says only that the mode is manage.\<close>

definition plain_doc :: json where
  "plain_doc = JObj [(U ''mode'', JStr (U ''manage''))]"

definition bare_os :: os where
  "bare_os = \<lparr>os_env = bare_env, os_home = U ''/home/bob'', os_uid = 1000, lstat_ok = (\<lambda>p. p = ETC_POLICY),
     lstat_stamp = (\<lambda>_. [1]), os_open = (\<lambda>_. None), os_fstat = (\<lambda>_. Inr \<lparr>st_mode = 33188, st_uid = 0\<rparr>),
     dir_stat = (\<lambda>_. Some \<lparr>st_mode = 16877, st_uid = 0\<rparr>), os_read = (\<lambda>_. [Chunk [123]]), read_error_text = [],
     utf8 = (\<lambda>_. Inr [123]), json_of = (\<lambda>_. Inr plain_doc)\<rparr>"

definition etc_options :: load_options where
  "etc_options = \<lparr>lo_explicit = None, lo_home = None, lo_etc_path = ETC_POLICY, lo_system_dirs = SYSTEM_DIRS, lo_uid = None\<rparr>"

lemma bare_os_fields:
  "os_env bare_os = bare_env" "os_home bare_os = U ''/home/bob''" "os_uid bare_os = 1000"
  "lstat_ok bare_os p \<longleftrightarrow> p = ETC_POLICY" "lstat_stamp bare_os p = [1]" "os_open bare_os p = None"
  "os_fstat bare_os p = Inr \<lparr>st_mode = 33188, st_uid = 0\<rparr>" "os_read bare_os p = [Chunk [123]]"
  by (simp_all add: bare_os_def)

lemma plain_parsed: "\<exists>p. parse e plain_doc path home = Inr p \<and> manage p \<and> pol_path p = path"
proof -
  have d: "obj_get [(U ''mode'', JStr (U ''manage''))] (U k) = (if k = ''mode'' then Some (JStr (U ''manage'')) else None)" for k
    by (simp add: obj_get_def)
  have k: "keys [(U ''mode'', JStr (U ''manage''))] policy_keys loc = Inr ()" for loc
    by (simp add: keys_def policy_keys_def)
  have m: "U ''manage'' \<in> set MODES" by (simp add: MODES_def)
  have dk: "parse_docker [(U ''mode'', JStr (U ''manage''))] = Inr (U ''docker'', None)"
    by (simp add: parse_docker_def d str_field_def res_simps nonempty_or_def keys_def U_def)
  have po: "parse_ports [(U ''mode'', JStr (U ''manage''))] = Inr (18000, 18099)"
    by (simp add: parse_ports_def d unwrap_or_def res_simps int_Inr DEFAULT_PORTS_def json_int_def)
  show ?thesis
    unfolding plain_doc_def parse_def
    by (simp add: d k m dk res_simps Let_def list_field_def bool_field_def str_field_def parse_gateway_def
      po parse_choice_def parse_shm_def str_in_def manage_def unwrap_or_def)
qed

lemma bare_load: "\<exists>p. load_with bare_os etc_options = (p, [1]) \<and> manage p \<and> pol_path p = Some ETC_POLICY"
proof -
  obtain p where p: "parse bare_env plain_doc (Some ETC_POLICY) (Some (U ''/home/bob'')) = Inr p" "manage p" "pol_path p = Some ETC_POLICY"
    using plain_parsed by blast
  have r: "read_capped MAX_POLICY_BYTES [] [Chunk [123]] = Some [123]"
    by (simp add: read_capped.simps MAX_POLICY_BYTES_def rest_of_def)
  have f: "file_problem bare_os ETC_POLICY \<lparr>st_mode = 33188, st_uid = 0\<rparr> 1000 SYSTEM_DIRS = None"
    by (simp add: file_problem_def bare_os_def S_IFMT_def S_IFREG_def Let_def)
  have d: "decode_policy bare_os [123] = Inr plain_doc" by (simp add: decode_policy_def bare_os_def)
  show ?thesis
    using p r f d bare_os_fields by (simp add: load_with_def etc_options_def candidate_def nonempty_def unwrap_or_def Let_def
      MAX_POLICY_BYTES_def)
qed

lemma manage_needs_trusted_file_witness:
  "manage (fst (load_with bare_os etc_options)) \<and> trusted_file bare_os etc_options ETC_POLICY"
proof -
  have m: "manage (fst (load_with bare_os etc_options))" using bare_load by auto
  have c: "fst (candidate bare_os (lo_explicit etc_options) (lo_home etc_options) (lo_etc_path etc_options)) = Some ETC_POLICY"
    by (simp add: candidate_def etc_options_def bare_os_def nonempty_def)
  from manage_needs_trusted_file[OF m] c m show ?thesis by auto
qed

text \<open>
  Whatever sequence of calls a policy store answers and however the machine changes between them,
  each policy it hands out is the one loading gave at one of the calls or at the start, is well-formed,
  and is in manage mode only if it came from a trusted file as it was then.
\<close>

theorem store_serves_loaded:
  assumes "store_run cs (store_new os now opts every) = (ps, s')" "p \<in> set ps"
  shows "\<exists>os' \<in> insert os (call_os ` set cs). p = fst (load_with os' opts) \<and> policy_ok (os_env os') p
    \<and> (manage p \<longrightarrow> loaded_from os' opts p)"
proof -
  have n: "sto_policy (store_new os now opts every) = fst (load_with os opts)" "sto_opts (store_new os now opts every) = opts"
    by (simp_all add: store_new_def split: prod.splits)
  obtain os' where "os' \<in> insert os (call_os ` set cs)" "p = fst (load_with os' opts)"
    using store_run_policies[OF assms(1)] assms(2) unfolding n by blast
  moreover have "policy_ok (os_env os') (fst (load_with os' opts))" by (rule load_with_ok)
  ultimately show ?thesis using load_with_cases[of os' opts] monitor_policy_not_manage by metis
qed

lemma store_serves_loaded_witness:
  "\<exists>p s'. store_run [Current bare_os 1] (store_new bare_os 0 etc_options 2) = ([p], s') \<and> loaded_from bare_os etc_options p"
proof -
  obtain ps s' where r: "store_run [Current bare_os 1] (store_new bare_os 0 etc_options 2) = (ps, s')" by fastforce
  obtain p where l: "load_with bare_os etc_options = (p, [1])" "manage p" using bare_load by blast
  have ps: "ps = [p]" using r l by (auto simp: store_new_def store_current_def split: prod.splits)
  with store_serves_loaded[OF r, of p] l r show ?thesis by auto
qed

text \<open>
  A policy store is a correct cache: once the recheck period has passed, it answers what loading
  the file now would give, provided a file whose identity (path, device, inode, time, size, mode and
  owner) has not changed still loads the same. So a tightened policy is in force after one period.
\<close>

theorem store_current_fresh:
  assumes "\<not> fixed s" "recheck_s s \<le> now - checked s" "(sto_policy s, sto_stamp s) = load_with os0 (sto_opts s)"
    and "store_identity os s = (pol_path (sto_policy s), sto_stamp s) \<Longrightarrow> load_with os (sto_opts s) = load_with os0 (sto_opts s)"
  shows "fst (store_current os now s) = fst (load_with os (sto_opts s))
    \<and> (sto_policy (snd (store_current os now s)), sto_stamp (snd (store_current os now s))) = load_with os (sto_opts s)
    \<and> checked (snd (store_current os now s)) = now"
proof -
  have i: "store_identity os (s\<lparr>checked := now\<rparr>) = store_identity os s" by (simp add: store_identity_def)
  show ?thesis
  proof (cases "store_identity os s = (pol_path (sto_policy s), sto_stamp s)")
    case True
    then have "load_with os (sto_opts s) = (sto_policy s, sto_stamp s)" using assms(3,4) by simp
    then show ?thesis using assms(1,2) True i by (simp add: store_current_def)
  next
    case False
    then show ?thesis using assms(1,2) i by (simp add: store_current_def split: prod.splits)
  qed
qed

lemma store_current_fresh_witness:
  "manage (fst (store_current bare_os 9 (store_new (bare_os\<lparr>lstat_ok := (\<lambda>_. False)\<rparr>) 0 etc_options 2)))"
proof -
  let ?os0 = "bare_os\<lparr>lstat_ok := (\<lambda>_. False)\<rparr>" let ?s = "store_new ?os0 0 etc_options 2"
  have s: "\<not> fixed ?s" "recheck_s ?s = 2" "checked ?s = 0" "sto_opts ?s = etc_options"
    "(sto_policy ?s, sto_stamp ?s) = load_with ?os0 etc_options"
    by (simp_all add: store_new_def split: prod.splits)
  have n: "pol_path (sto_policy ?s) = None"
    by (simp add: store_new_def load_with_def candidate_def etc_options_def nonempty_def monitor_policy_def)
  have i: "fst (store_identity bare_os ?s) = Some ETC_POLICY"
    using s(4) by (simp add: store_identity_def candidate_def etc_options_def nonempty_def bare_os_def)
  show ?thesis
    using store_current_fresh[of ?s 9 ?os0 bare_os] s n i bare_load by fastforce
qed
end
