(* ===== verification/Names.thy ===== *)
theory Names
  imports Regexp
begin

text \<open>
  The names a node never reads and the names a hub may never write (crates/ecnode/src/util.rs,
  \<open>is_secret_name\<close>, \<open>is_write_protected_name\<close>). The patterns are case-insensitive as the regex engine
  folds case: an ASCII letter also matches its capital, and k and s the Kelvin sign and the long s.
  The code counts a pattern that gives up (the engine's backtracking limit) as a hit; names of at most
  255 bytes stay below it, and the model's patterns always decide.
\<close>

section \<open>Letters without regard to case\<close>

definition is_lower :: "nat \<Rightarrow> bool" where "is_lower c \<longleftrightarrow> 97 \<le> c \<and> c \<le> 122"

definition fold_class :: "nat \<Rightarrow> (nat \<times> nat) list" where
  "fold_class c = (if is_lower c
     then [(c, c), (c - 32, c - 32)] @ (if c = 107 then [(8490, 8490)] else if c = 115 then [(383, 383)] else [])
     else [(c, c)])"

fun LitI :: "ustr \<Rightarrow> re" where
  "LitI [] = One"
| "LitI (c # s) = Seq (Cls (fold_class c)) (LitI s)"

definition NON_LETTER_I :: re where
  "NON_LETTER_I = Cls [(0, 64), (91, 96), (123, 382), (384, 8489), (8491, 1114111)]"
definition ANY :: re where "ANY = Cls [(0, 1114111)]"
definition ANY_STAR :: re where "ANY_STAR = Star ANY"

definition IC :: "string \<Rightarrow> re" where "IC s = LitI (U s)"

fun Alts :: "re list \<Rightarrow> re" where
  "Alts [] = Zero"
| "Alts [r] = r"
| "Alts (r # rs) = Alt r (Alts rs)"

lemma lang_Alts: "s \<in> lang (Alts rs) \<longleftrightarrow> (\<exists>r \<in> set rs. s \<in> lang r)"
  by (induction rs rule: Alts.induct) auto

lemma lang_IC: "s \<in> lang (IC t) \<longleftrightarrow> list_all2 (\<lambda>c d. in_cls c (fold_class d)) s (U t)"
proof -
  have "s \<in> lang (LitI ds) \<longleftrightarrow> list_all2 (\<lambda>c d. in_cls c (fold_class d)) s ds" for ds
  proof (induction ds arbitrary: s)
    case (Cons d ds)
    have "(\<exists>u v. s = u @ v \<and> (\<exists>c. u = [c] \<and> P c) \<and> Q v) \<longleftrightarrow> (\<exists>c v. s = c # v \<and> P c \<and> Q v)" for P :: "nat \<Rightarrow> bool" and Q
      by (metis append_Cons append_Nil)
    then show ?case by (simp add: Cons.IH list_all2_Cons2)
  qed simp
  then show ?thesis by (simp add: IC_def)
qed

section \<open>The patterns\<close>

definition SECRET_FILE :: re where
  "SECRET_FILE = Seq (Alts
     [Seq (IC ''id_'') ANY_STAR, Seq ANY_STAR (IC ''.pem''), Seq ANY_STAR (IC ''.key''), Seq ANY_STAR (IC ''.p12''),
      Seq ANY_STAR (IC ''.pfx''), Seq ANY_STAR (IC ''.ppk''), Seq (IC ''.env'') ANY_STAR,
      Seq (IC ''token'') (Seq (Opt (IC ''s'')) (Opt (Seq NON_LETTER_I ANY_STAR))),
      Seq (IC ''credential'') (Seq (Opt (IC ''s'')) (Opt (Seq NON_LETTER_I ANY_STAR))),
      IC ''stored_tokens'', IC ''.netrc'', IC ''.git-credentials'', IC ''.pypirc'', IC ''.npmrc'',
      Seq (IC ''authorized_keys'') ANY_STAR, Seq (IC ''known_hosts'') ANY_STAR]) (Opt (Chr 10))"

text \<open>\<open>SECRET_WORD\<close> is searched for anywhere. Its last alternative may not be followed by a letter; the
  others may be followed by anything.\<close>

definition sep2 :: re where "sep2 = Opt (Cls [(45, 45), (95, 95), (46, 46)])"

definition SECRET_WORDS :: re where
  "SECRET_WORDS = Alts [IC ''secret'', IC ''credential'', Seq (IC ''passw'') (Seq (Opt (IC ''or'')) (IC ''d'')),
     Seq (IC ''api'') (Seq sep2 (IC ''key'')), Seq (IC ''private'') (Seq sep2 (IC ''key''))]"

definition SECRET_TOKEN :: re where
  "SECRET_TOKEN = Seq (Alts (map IC [''hf'', ''api'', ''access'', ''auth'', ''bearer'', ''refresh'', ''session'',
     ''github'', ''gh'', ''hub'', ''openai'', ''ngc'']))
     (Seq sep2 (Seq (IC ''token'') (Opt (IC ''s''))))"

definition secret_word :: "ustr \<Rightarrow> bool" where
  "secret_word s \<longleftrightarrow> matches (Seq ANY_STAR (Seq SECRET_WORDS ANY_STAR)) s
     \<or> matches (Seq ANY_STAR (Seq SECRET_TOKEN (Opt (Seq NON_LETTER_I ANY_STAR)))) s"

definition SECRET_DIRS :: "ustr list" where
  "SECRET_DIRS = map U [''.ssh'', ''.gnupg'', ''.aws'', ''.docker'', ''.kube'', ''.config'', ''.password-store'',
     ''.azure'', ''.gcloud'', ''.local'']"

text \<open>\<open>to_lowercase\<close>, as far as an ASCII result goes: besides the capitals only the Kelvin sign has one.\<close>

definition lower_char :: "nat \<Rightarrow> nat" where
  "lower_char c = (if 65 \<le> c \<and> c \<le> 90 then c + 32 else if c = 8490 then 107 else c)"

definition is_secret_name :: "ustr \<Rightarrow> bool" where
  "is_secret_name name \<longleftrightarrow> matches SECRET_FILE name \<or> secret_word name \<or> map lower_char name \<in> set SECRET_DIRS"

definition WRITE_PROTECTED_NAMES :: "ustr list" where
  "WRITE_PROTECTED_NAMES = map U [''.bashrc'', ''.bash_profile'', ''.bash_login'', ''.bash_logout'', ''.bash_aliases'',
     ''.profile'', ''.zshrc'', ''.zshenv'', ''.zprofile'', ''.zlogin'', ''.zlogout'', ''.cshrc'', ''.tcshrc'', ''.login'',
     ''.logout'', ''.kshrc'', ''.xprofile'', ''.xsession'', ''.xsessionrc'', ''.xinitrc'', ''.pam_environment'',
     ''.pgpass'', ''.my.cnf'', ''.mylogin.cnf'', ''.gitconfig'', ''.git'', ''.netrc'', ''.git-credentials'',
     ''authorized_keys'', ''authorized_keys2'']"

definition is_write_protected_name :: "ustr \<Rightarrow> bool" where
  "is_write_protected_name name \<longleftrightarrow> is_secret_name name \<or> map lower_char name \<in> set WRITE_PROTECTED_NAMES"

lemma write_protected_secret: "is_secret_name n \<Longrightarrow> is_write_protected_name n"
  by (simp add: is_write_protected_name_def)

end
