(* ===== verification/Confine.thy ===== *)
theory Confine
  imports PolicyStore Names NodeStream
begin

text \<open>
  Path rules for every root and relative path a hub names (crates/ecnode/src/confine.rs). \<open>fs\<close> is what
  the operating system answers while one operation runs: whether a path is a directory or exists, what
  opening a path or a name below an open directory gives, and where an open file really is
  (/proc/self/fd). Every answer is a field of its own, so nothing is assumed about how they relate,
  as when a directory is swapped for a symlink between two calls.
\<close>

section \<open>Errors\<close>

text \<open>An errno, as far as the code tells it apart, and a refusal or an error nobody caught (\<open>Fail\<close>).\<close>

datatype errno = EMissing | ENotDir | ELoop | EExist | ENoSpace | EOther nat

datatype fail = FOp ustr ustr | FOs errno

text \<open>The exception class Python names for an errno (the numbers are Linux's).\<close>

definition os_error_name :: "errno \<Rightarrow> ustr" where
  "os_error_name e =
     (case e of
        EMissing \<Rightarrow> U ''FileNotFoundError''
      | EExist \<Rightarrow> U ''FileExistsError''
      | ENotDir \<Rightarrow> U ''NotADirectoryError''
      | EOther n \<Rightarrow>
          if n = 21 then U ''IsADirectoryError''
          else if n \<in> {13, 1} then U ''PermissionError''
          else if n = 4 then U ''InterruptedError''
          else if n = 10 then U ''ChildProcessError''
          else if n \<in> {11, 114, 115} then U ''BlockingIOError''
          else if n \<in> {32, 108} then U ''BrokenPipeError''
          else if n = 103 then U ''ConnectionAbortedError''
          else if n = 111 then U ''ConnectionRefusedError''
          else if n = 104 then U ''ConnectionResetError''
          else if n = 3 then U ''ProcessLookupError''
          else if n = 110 then U ''TimeoutError''
          else U ''OSError''
      | _ \<Rightarrow> U ''OSError'')"

definition NO_SPACE :: ustr where "NO_SPACE = U ''no_space''"
definition IO_ERROR :: ustr where "IO_ERROR = U ''io_error''"

record fs =
  fs_env :: penv
  fs_home :: ustr
  is_dir :: "ustr \<Rightarrow> bool"
  fs_exists :: "ustr \<Rightarrow> bool"
  errno_text :: "errno \<Rightarrow> ustr"
  fs_open :: "ustr \<Rightarrow> errno + nat"
  fs_openat :: "nat \<Rightarrow> ustr \<Rightarrow> errno + nat"
  fs_mkdirat :: "nat \<Rightarrow> ustr \<Rightarrow> errno option"
  fs_reopenat :: "nat \<Rightarrow> ustr \<Rightarrow> errno + nat"
  fd_path :: "nat \<Rightarrow> ustr option"
  lst_regular :: "ustr \<Rightarrow> bool"
  fd_regular :: "nat \<Rightarrow> bool"
  fd_size :: "nat \<Rightarrow> nat option"
  fd_read :: "nat \<Rightarrow> reader"

definition real_of :: "fs \<Rightarrow> ustr \<Rightarrow> ustr" where
  "real_of f p = realpath (cwd (fs_env f)) (links (fs_env f)) p"

definition repr_take :: "ustr \<Rightarrow> nat \<Rightarrow> ustr" where
  "repr_take s n = py_repr (take n s)"

section \<open>Relative paths\<close>

text \<open>\<open>str::len\<close>: bytes of the UTF-8 text.\<close>

definition utf8_len :: "nat \<Rightarrow> nat" where
  "utf8_len c = (if c < 128 then 1 else if c < 2048 then 2 else if c < 65536 then 3 else 4)"

definition byte_len :: "ustr \<Rightarrow> nat" where
  "byte_len s = sum_list (map utf8_len s)"

definition bad_char :: "nat \<Rightarrow> bool" where
  "bad_char c \<longleftrightarrow> c < 32 \<or> c = 127 \<or> c = 92"

definition check_seg :: "ustr \<Rightarrow> ustr \<Rightarrow> nat \<Rightarrow> ustr \<Rightarrow> unit \<Rightarrow> fail + unit" where
  "check_seg rel what i p u =
     (if p = [] \<or> p = dot_seg \<or> p = dotdot_seg then
        Inl (FOp BAD_ARGS (U ''the '' @ what @ U '' '' @ repr_take rel 200 @ U '' has an empty, '' @ [39, 46, 39]
             @ U '' or '' @ [39, 46, 46, 39] @ U '' segment''))
      else if 255 < byte_len p then
        Inl (FOp BAD_ARGS (U ''the '' @ what @ U '' has a segment longer than 255 bytes''))
      else Inr ())"

definition split_rel :: "ustr option \<Rightarrow> ustr \<Rightarrow> fail + ustr list" where
  "split_rel rel what =
     (case rel of
        None \<Rightarrow> Inl (FOp BAD_ARGS (U ''the '' @ what @ U '' is empty; name a file or directory inside the model root''))
      | Some r \<Rightarrow>
          if r = [] then Inl (FOp BAD_ARGS (U ''the '' @ what @ U '' is empty; name a file or directory inside the model root''))
          else if starts_with r [slash] then
            Inl (FOp BAD_ARGS (U ''the '' @ what @ U '' '' @ repr_take r 200 @ U '' must be relative to the model root, not absolute''))
          else if \<exists>c \<in> set r. bad_char c then
            Inl (FOp BAD_ARGS (U ''the '' @ what @ U '' contains a backslash or a control character''))
          else try_bind (try_fold (check_seg r what) 0 (split_on slash r) ()) (\<lambda>_. Inr (split_on slash r)))"

definition WRITE_PROTECTED :: ustr where
  "WRITE_PROTECTED = U ''refusing to write a file or directory whose name looks like a key, a credential, ''
     @ U ''a login script or git's settings''"

definition split_rel_for_write :: "ustr option \<Rightarrow> ustr \<Rightarrow> fail + ustr list" where
  "split_rel_for_write rel what =
     try_bind (split_rel rel what) (\<lambda>parts.
     try_bind (ensure (\<not> (\<exists>p \<in> set parts. is_write_protected_name p)) (FOp POLICY_DENIED WRITE_PROTECTED)) (\<lambda>_. Inr parts))"

section \<open>Names below a root\<close>

definition nonempty_segs :: "ustr \<Rightarrow> ustr list" where
  "nonempty_segs p = filter (\<lambda>s. s \<noteq> []) (split_on slash p)"

fun common_prefix :: "ustr list \<Rightarrow> ustr list \<Rightarrow> nat" where
  "common_prefix (x # xs) (y # ys) = (if x = y then Suc (common_prefix xs ys) else 0)"
| "common_prefix _ _ = 0"

definition relpath :: "ustr \<Rightarrow> ustr \<Rightarrow> ustr \<Rightarrow> ustr" where
  "relpath here path start =
     (let sl = nonempty_segs (abspath here start); pl = nonempty_segs (abspath here path);
          common = common_prefix sl pl;
          parts = replicate (length sl - common) dotdot_seg @ drop common pl
      in if parts = [] then dot_seg else join_with [slash] parts)"

definition any_segment_below :: "fs \<Rightarrow> ustr \<Rightarrow> ustr \<Rightarrow> (ustr \<Rightarrow> bool) \<Rightarrow> bool" where
  "any_segment_below f rl root_real hit \<longleftrightarrow>
     (let rel = (if inside rl root_real then relpath (cwd (fs_env f)) rl root_real else rl) in
      \<exists>s \<in> set (split_on slash rel). s \<noteq> [] \<and> s \<noteq> dot_seg \<and> hit s)"

definition secret_inside :: "fs \<Rightarrow> ustr \<Rightarrow> ustr \<Rightarrow> bool" where
  "secret_inside f rl root_real = any_segment_below f rl root_real is_secret_name"

definition write_protected_inside :: "fs \<Rightarrow> ustr \<Rightarrow> ustr \<Rightarrow> bool" where
  "write_protected_inside f rl root_real = any_segment_below f rl root_real is_write_protected_name"

section \<open>Roots\<close>

record root_handle =
  rh_root :: root
  rh_real :: ustr

definition handle_path :: "root_handle \<Rightarrow> ustr list \<Rightarrow> ustr" where
  "handle_path h parts = join_paths (rh_real h) parts"

definition open_root :: "fs \<Rightarrow> policy \<Rightarrow> json \<Rightarrow> bool \<Rightarrow> fail + root_handle" where
  "open_root f p root_id writable =
     (case root_of p root_id of
        None \<Rightarrow> Inl (FOp NOT_FOUND (U ''there is no model root ''
          @ repr_take (str_value (float_repr (fs_env f)) root_id) 32 @ U '' in this node's policy ('' @ policy_where p @ U '')''))
      | Some rt \<Rightarrow>
          try_bind (ensure (\<not> (writable \<and> \<not> rt_writable rt)) (FOp POLICY_DENIED (U ''model root '' @ py_repr (rt_id rt)
            @ U '' is read-only in this node's policy; an administrator can set \"writable\": true in '' @ policy_where p))) (\<lambda>_.
          (let rl = real_of f (rt_path rt) in
           try_bind (ensure (is_dir f rl) (FOp NOT_FOUND (U ''model root '' @ py_repr (rt_id rt) @ U '' ('' @ rt_path rt
             @ U '') does not exist on this machine (not mounted?)''))) (\<lambda>_.
           (case recheck_root_real (fs_env f) (rt_id rt) rl (pol_path p) (Some (unwrap_or (fs_home f) (pol_home p))) of
              Inl e \<Rightarrow> Inl (FOp POLICY_DENIED (e @ U ''; the node refuses this root until its path is fixed (''
                @ policy_where p @ U '')''))
            | Inr _ \<Rightarrow> Inr \<lparr>rh_root = rt, rh_real = rl\<rparr>)))))"

definition outside_text :: ustr where "outside_text = U ''that path leads outside the model root''"

definition check_where :: "ustr option \<Rightarrow> root_handle \<Rightarrow> fail + unit" where
  "check_where loc h =
     (case loc of
        Some w \<Rightarrow> if inside w (rh_real h) then Inr () else Inl (FOp POLICY_DENIED outside_text)
      | None \<Rightarrow> Inl (FOp POLICY_DENIED outside_text))"

definition check_fd :: "fs \<Rightarrow> nat \<Rightarrow> root_handle \<Rightarrow> fail + nat" where
  "check_fd f fd h = try_bind (check_where (fd_path f fd) h) (\<lambda>_. Inr fd)"

definition check_write_dir :: "fs \<Rightarrow> nat \<Rightarrow> root_handle \<Rightarrow> fail + unit" where
  "check_write_dir f fd h =
     (case fd_path f fd of
        Some w \<Rightarrow> if write_protected_inside f w (rh_real h) then Inl (FOp POLICY_DENIED WRITE_PROTECTED) else Inr ()
      | None \<Rightarrow> Inl (FOp POLICY_DENIED outside_text))"

section \<open>Directories\<close>

definition joined :: "ustr list \<Rightarrow> ustr" where
  "joined parts = repr_take (join_with [slash] parts) 300"

text \<open>\<open>open_dir\<close> without \<open>create\<close>: one open of the realpath, re-checked where it led.\<close>

definition open_dir_existing :: "fs \<Rightarrow> root_handle \<Rightarrow> ustr list \<Rightarrow> fail + nat" where
  "open_dir_existing f h parts =
     (let rl = real_of f (handle_path h parts) in
      try_bind (ensure (inside rl (rh_real h))
        (FOp POLICY_DENIED (U ''that path resolves to somewhere outside the model root''))) (\<lambda>_.
      (case fs_open f rl of
         Inr fd \<Rightarrow> check_fd f fd h
       | Inl EMissing \<Rightarrow> Inl (FOp NOT_FOUND (U ''directory '' @ joined parts @ U '' does not exist in the model root''))
       | Inl ENotDir \<Rightarrow> Inl (FOp BAD_ARGS (joined parts @ U '' is not a directory''))
       | Inl e \<Rightarrow> Inl (FOp IO_ERROR (U ''cannot open '' @ joined parts @ U '': '' @ errno_text f e)))))"

text \<open>One component with \<open>create\<close>: open it, or make it and open it, or follow a symlink that stays inside.\<close>

definition of_os :: "errno + 'a \<Rightarrow> fail + 'a" where
  "of_os r = (case r of Inl e \<Rightarrow> Inl (FOs e) | Inr x \<Rightarrow> Inr x)"

definition dir_step :: "fs \<Rightarrow> root_handle \<Rightarrow> nat \<Rightarrow> ustr \<Rightarrow> fail + nat" where
  "dir_step f h fd p =
     (case fs_openat f fd p of
        Inr n \<Rightarrow> Inr n
      | Inl EMissing \<Rightarrow>
          (case fs_mkdirat f fd p of
             None \<Rightarrow> of_os (fs_reopenat f fd p)
           | Some EExist \<Rightarrow> of_os (fs_reopenat f fd p)
           | Some e \<Rightarrow> Inl (FOs e))
      | Inl e \<Rightarrow>
          if e = ELoop \<or> e = ENotDir then
            (let base = unwrap_or (rh_real h) (fd_path f fd); rl = real_of f (join_paths base [p]) in
             if \<not> inside rl (rh_real h) \<or> \<not> is_dir f rl then
               Inl (FOp POLICY_DENIED (py_repr p @ U '' is a link to somewhere outside the model root, or not a directory''))
             else of_os (fs_open f rl))
          else Inl (FOs e))"

fun dir_steps :: "fs \<Rightarrow> root_handle \<Rightarrow> nat \<Rightarrow> ustr list \<Rightarrow> fail + nat" where
  "dir_steps f h fd [] = Inr fd"
| "dir_steps f h fd (p # ps) =
     (case dir_step f h fd p of
        Inr n \<Rightarrow> try_bind (check_fd f n h) (\<lambda>fd. try_bind (check_write_dir f fd h) (\<lambda>_. dir_steps f h fd ps))
      | Inl (FOp c m) \<Rightarrow> Inl (FOp c m)
      | Inl (FOs n) \<Rightarrow>
          if n = ENoSpace then Inl (FOp NO_SPACE (U ''the disk is full''))
          else Inl (FOp IO_ERROR (U ''cannot create directories for that path: '' @ errno_text f n)))"

definition open_dir :: "fs \<Rightarrow> root_handle \<Rightarrow> ustr list \<Rightarrow> bool \<Rightarrow> fail + nat" where
  "open_dir f h parts create =
     (if \<not> create then open_dir_existing f h parts
      else try_bind (of_os (fs_open f (rh_real h))) (\<lambda>fd. dir_steps f h fd parts))"

section \<open>Files\<close>

definition resolve_link_inside :: "fs \<Rightarrow> nat \<Rightarrow> ustr \<Rightarrow> root_handle \<Rightarrow> ustr option" where
  "resolve_link_inside f dfd name h =
     (case fd_path f dfd of
        None \<Rightarrow> None
      | Some base \<Rightarrow> (let rl = real_of f (join_paths base [name]) in
          if inside rl (rh_real h) then Some rl else None))"

definition resolve_existing :: "fs \<Rightarrow> root_handle \<Rightarrow> ustr list \<Rightarrow> fail + ustr" where
  "resolve_existing f h parts =
     (let rl = real_of f (handle_path h parts) in
      try_bind (ensure (inside rl (rh_real h))
        (FOp POLICY_DENIED (U ''that path resolves to somewhere outside the model root''))) (\<lambda>_.
      try_bind (ensure (fs_exists f rl)
        (FOp NOT_FOUND (joined parts @ U '' does not exist in model root '' @ py_repr (rt_id (rh_root h))))) (\<lambda>_.
      Inr rl)))"

definition fd_inside :: "ustr option \<Rightarrow> ustr \<Rightarrow> bool" where
  "fd_inside loc root_real = (case loc of Some w \<Rightarrow> inside w root_real | None \<Rightarrow> False)"

definition open_inside :: "fs \<Rightarrow> ustr \<Rightarrow> ustr \<Rightarrow> nat option" where
  "open_inside f root_real path =
     (if 0 \<in> set path then None
      else (let rl = real_of f path in
        if \<not> inside rl root_real \<or> secret_inside f rl root_real \<or> is_secret_name (basename path) then None
        else if \<not> lst_regular f rl then None
        else (case fs_open f rl of
            Inl _ \<Rightarrow> None
          | Inr fd \<Rightarrow> if \<not> fd_regular f fd \<or> \<not> fd_inside (fd_path f fd) root_real then None else Some fd)))"

definition read_inside :: "fs \<Rightarrow> ustr \<Rightarrow> ustr \<Rightarrow> nat \<Rightarrow> u8 list option" where
  "read_inside f root_real path max_bytes =
     (case open_inside f root_real path of
        None \<Rightarrow> None
      | Some fd \<Rightarrow>
          (case fd_size f fd of
             None \<Rightarrow> None
           | Some n \<Rightarrow>
               if max_bytes < n then None
               else (case read_capped max_bytes [] (fd_read f fd) of
                   None \<Rightarrow> None
                 | Some buf \<Rightarrow> if length buf \<le> max_bytes then Some buf else None)))"

section \<open>What confinement guarantees\<close>

lemma set_split_on: "p \<in> set (split_on c s) \<Longrightarrow> x \<in> set p \<Longrightarrow> x \<in> set s"
proof (induction s arbitrary: p)
  case (Cons a s)
  then show ?case by (cases "split_on c s") (auto split: if_splits, metis set_ConsD)
qed simp

lemma try_fold_check_seg:
  "try_fold (check_seg rel what) k ps () = Inr () \<longleftrightarrow> (\<forall>p \<in> set ps. check_seg rel what 0 p () = Inr ())"
proof (induction ps arbitrary: k)
  case (Cons p ps)
  have "check_seg rel what k p () = check_seg rel what 0 p ()" by (simp add: check_seg_def)
  then show ?case by (auto simp: res_simps Cons.IH)
qed simp

lemma split_rel_Inr:
  assumes "split_rel rel what = Inr parts"
  shows "\<exists>r. rel = Some r \<and> parts = split_on slash r"
    and "parts \<noteq> [] \<and> (\<forall>p \<in> set parts. clean_seg p \<and> byte_len p \<le> 255 \<and> \<not> (\<exists>c \<in> set p. bad_char c))"
proof -
  obtain r where r: "rel = Some r" "parts = split_on slash r" "\<not> (\<exists>c \<in> set r. bad_char c)"
    "try_fold (check_seg r what) 0 parts () = Inr ()"
    using assms by (auto simp: split_rel_def res_simps split: option.splits if_splits)
  then show "\<exists>r. rel = Some r \<and> parts = split_on slash r" by blast
  have "clean_seg p \<and> byte_len p \<le> 255 \<and> \<not> (\<exists>c \<in> set p. bad_char c)" if p: "p \<in> set parts" for p
  proof -
    have "check_seg r what 0 p () = Inr ()" using r(4) p by (simp add: try_fold_check_seg)
    then have "p \<noteq> []" "p \<noteq> dot_seg" "p \<noteq> dotdot_seg" "byte_len p \<le> 255"
      by (auto simp: check_seg_def split: if_splits)
    moreover have "slash \<notin> set p" using p unfolding r(2) by (rule split_on_parts)
    moreover have "\<not> (\<exists>c \<in> set p. bad_char c)" using p r(3) set_split_on[of p slash r] unfolding r(2) by blast
    ultimately show ?thesis by (simp add: clean_seg_def)
  qed
  then show "parts \<noteq> [] \<and> (\<forall>p \<in> set parts. clean_seg p \<and> byte_len p \<le> 255 \<and> \<not> (\<exists>c \<in> set p. bad_char c))"
    by (simp add: r(2))
qed

lemma check_where_Inr: "check_where loc h = Inr u \<longleftrightarrow> (\<exists>w. loc = Some w \<and> inside w (rh_real h))"
  by (auto simp: check_where_def split: option.splits)

lemma check_fd_Inr: "check_fd f fd h = Inr fd' \<longleftrightarrow> fd' = fd \<and> (\<exists>w. fd_path f fd = Some w \<and> inside w (rh_real h))"
  by (auto simp: check_fd_def res_simps check_where_Inr)

lemma check_write_dir_Inr:
  "check_write_dir f fd h = Inr u \<longleftrightarrow> (\<exists>w. fd_path f fd = Some w \<and> \<not> write_protected_inside f w (rh_real h))"
  by (auto simp: check_write_dir_def split: option.splits)

definition at_inside :: "fs \<Rightarrow> root_handle \<Rightarrow> nat \<Rightarrow> bool" where
  "at_inside f h fd \<longleftrightarrow> (\<exists>w. fd_path f fd = Some w \<and> inside w (rh_real h))"

definition at_writable :: "fs \<Rightarrow> root_handle \<Rightarrow> nat \<Rightarrow> bool" where
  "at_writable f h fd \<longleftrightarrow> (\<exists>w. fd_path f fd = Some w \<and> inside w (rh_real h) \<and> \<not> write_protected_inside f w (rh_real h))"

lemma dir_steps_inside:
  "dir_steps f h fd ps = Inr fd' \<Longrightarrow> ps \<noteq> [] \<or> at_writable f h fd \<Longrightarrow> at_writable f h fd'"
proof (induction f h fd ps rule: dir_steps.induct)
  case (2 f h fd p ps)
  then obtain n where n: "dir_step f h fd p = Inr n" "check_fd f n h = Inr n" "check_write_dir f n h = Inr ()"
    "dir_steps f h n ps = Inr fd'"
    by (auto simp: res_simps check_fd_Inr split: sum.splits fail.splits if_splits)
  have "at_writable f h n" using n(2,3) by (auto simp: at_writable_def check_fd_Inr check_write_dir_Inr)
  then show ?case using 2(1)[OF n(1) n(4)] by blast
qed simp

lemma open_dir_inside:
  assumes "open_dir f h parts create = Inr fd" "create \<longrightarrow> parts \<noteq> []"
  shows "at_inside f h fd \<and> (create \<longrightarrow> at_writable f h fd)"
proof (cases create)
  case True
  then have "at_writable f h fd" using assms dir_steps_inside by (auto simp: open_dir_def res_simps)
  then show ?thesis by (auto simp: at_writable_def at_inside_def)
next
  case False
  then show ?thesis using assms(1)
    by (auto simp: open_dir_def open_dir_existing_def res_simps Let_def at_inside_def check_fd_Inr split: sum.splits errno.splits)
qed

lemma open_inside_Some:
  assumes "open_inside f R path = Some fd"
  shows "\<exists>w. fd_path f fd = Some w \<and> inside w R" and "inside (real_of f path) R" and "fd_regular f fd"
    and "\<not> secret_inside f (real_of f path) R" and "\<not> is_secret_name (basename path)"
  using assms by (auto simp: open_inside_def Let_def fd_inside_def split: if_splits sum.splits option.splits)

lemma resolve_existing_Inr:
  "resolve_existing f h parts = Inr p \<longleftrightarrow>
     p = real_of f (handle_path h parts) \<and> inside p (rh_real h) \<and> fs_exists f p"
  by (auto simp: resolve_existing_def Let_def res_simps)

lemma open_root_Inr:
  assumes "open_root f p v w = Inr h"
  shows "rh_root h \<in> set (model_roots p) \<and> (w \<longrightarrow> rt_writable (rh_root h)) \<and> rh_real h = real_of f (rt_path (rh_root h))
    \<and> is_dir f (rh_real h)
    \<and> recheck_root_real (fs_env f) (rt_id (rh_root h)) (rh_real h) (pol_path p) (Some (unwrap_or (fs_home f) (pol_home p))) = Inr ()"
proof -
  obtain rt where r: "root_of p v = Some rt" "h = \<lparr>rh_root = rt, rh_real = real_of f (rt_path rt)\<rparr>" "\<not> (w \<and> \<not> rt_writable rt)"
    "is_dir f (real_of f (rt_path rt))"
    "recheck_root_real (fs_env f) (rt_id rt) (real_of f (rt_path rt)) (pol_path p) (Some (unwrap_or (fs_home f) (pol_home p))) = Inr ()"
    using assms by (auto simp: open_root_def res_simps Let_def split: option.splits sum.splits)
  have "rt \<in> set (model_roots p)"
    using r(1) by (auto simp: root_of_def find_root_def find_Some_iff split: json.splits option.splits)
  then show ?thesis using r by auto
qed

section \<open>Below a root, segment by segment\<close>

lemma common_prefix_append: "common_prefix ds (ds @ es) = length ds"
  by (induction ds) simp_all

lemma nonempty_segs_abs: "\<forall>s \<in> set cs. clean_seg s \<Longrightarrow> nonempty_segs (abs_path cs) = cs"
proof -
  assume c: "\<forall>s \<in> set cs. clean_seg s"
  have "filter (\<lambda>s. s \<noteq> []) cs = cs" using c by (auto simp: filter_id_conv)
  then show ?thesis using split_abs_path[OF c] by (simp add: nonempty_segs_def)
qed

lemma relpath_abs:
  assumes "\<forall>s \<in> set (ds @ es). clean_seg s"
  shows "relpath here (abs_path (ds @ es)) (abs_path ds) = (if es = [] then dot_seg else join_with [slash] es)"
proof -
  have d: "\<forall>s \<in> set ds. clean_seg s" using assms by simp
  have a: "abspath here (abs_path xs) = abs_path xs" if "\<forall>s \<in> set xs. clean_seg s" for xs
    using normpath_abs_path[OF that] by (simp add: abspath_def) (simp add: abs_path_def)
  show ?thesis
    unfolding relpath_def a[OF assms] a[OF d] nonempty_segs_abs[OF assms] nonempty_segs_abs[OF d] common_prefix_append Let_def
    by simp
qed

text \<open>A resolved path below a root is refused exactly when one of its segments below the root is a hit.\<close>

lemma any_segment_below_abs:
  assumes "\<forall>s \<in> set (ds @ es). clean_seg s"
  shows "any_segment_below f (abs_path (ds @ es)) (abs_path ds) hit \<longleftrightarrow> (\<exists>s \<in> set es. hit s)"
proof -
  have i: "inside (abs_path (ds @ es)) (abs_path ds)" using assms by (subst inside_abs_path) auto
  have c: "\<forall>s \<in> set es. clean_seg s" using assms by simp
  show ?thesis
  proof (cases "es = []")
    case True
    then show ?thesis unfolding any_segment_below_def relpath_abs[OF assms] using i by simp
  next
    case False
    have "split_on slash (join_with [slash] es) = es"
      using False c by (intro split_on_join_with) (auto simp: clean_seg_def)
    then show ?thesis unfolding any_segment_below_def relpath_abs[OF assms] Let_def using i False c
      by (auto simp: clean_seg_def)
  qed
qed

lemma handle_path_abs:
  assumes "rh_real h = abs_path cs" "\<forall>s \<in> set cs. clean_seg s" "\<forall>s \<in> set parts. clean_seg s"
  shows "handle_path h parts = abs_path (cs @ parts)"
  unfolding handle_path_def assms(1) using assms(2,3)
proof (induction parts arbitrary: cs)
  case (Cons p ps)
  have j: "join_path (abs_path cs) p = abs_path (cs @ [p])" using Cons.prems by (intro join_path_abs) simp_all
  have "\<forall>s \<in> set (cs @ [p]). clean_seg s" "\<forall>s \<in> set ps. clean_seg s" using Cons.prems by auto
  from Cons.IH[OF this] j show ?case by (simp add: join_paths_def)
qed (simp add: join_paths_def)

end
