(* ===== verification/RunPlan.thy ===== *)
theory RunPlan
  imports Confine
begin

text \<open>
  What a container run may be (crates/ecnode/src/docker.rs, \<open>plan_run\<close> and what it calls): the hub's
  run spec is checked field by field against the protocol and this node's policy and becomes a plan.
  \<open>renv\<close> is what the checks see of the machine besides \<open>fs\<close>: its GPUs, the state directory, directory
  listings and the printer of floats (messages only).
\<close>

definition NOT_OWNED :: ustr where "NOT_OWNED = U ''not_owned''"
definition LABEL :: ustr where "LABEL = U ''engine-console''"
definition ROLE_LABEL :: ustr where "ROLE_LABEL = U ''engine-console.role''"
definition INSTANCE_LABEL :: ustr where "INSTANCE_LABEL = U ''engine-console.instance''"
definition MAX_FILES :: nat where "MAX_FILES = 4"
definition ULIMITS :: "ustr list" where "ULIMITS = [U ''nofile'', U ''stack'']"
definition SECRET_SCAN_DEPTH :: nat where "SECRET_SCAN_DEPTH = 4"

section \<open>Patterns\<close>

definition low_dash :: re where "low_dash = Cls [(97, 122), (48, 57), (45, 45)]"
definition word_char :: re where "word_char = Cls [(65, 90), (97, 122), (48, 57), (95, 95), (45, 45)]"
definition env_char :: re where "env_char = Cls [(65, 90), (97, 122), (48, 57), (95, 95)]"
definition low_char :: re where "low_char = Cls [(97, 122), (48, 57), (95, 95), (46, 46), (45, 45)]"

definition CONTAINER_REF :: re where "CONTAINER_REF = Seq alnum (UpTo tag_char 127)"
definition RUN_NAME :: re where "RUN_NAME = Seq (Lit (U ''ec-'')) (Seq low_num (UpTo low_dash 58))"
definition INSTANCE :: re where "INSTANCE = Seq word_char (UpTo word_char 63)"
definition ENV_NAME :: re where
  "ENV_NAME = Seq (Cls [(65, 90), (97, 122), (95, 95)]) (UpTo env_char 127)"
definition VOLUME :: re where "VOLUME = Seq (Lit (U ''ec-'')) (Seq low_num (UpTo low_char 60))"
definition SHM_UNIT :: re where "SHM_UNIT = Cls [(107, 107), (109, 109), (103, 103)]"
definition SHM :: re where "SHM = Seq digit (Seq (UpTo digit 3) SHM_UNIT)"
definition LABEL_KEY :: re where
  "LABEL_KEY = Seq (Lit (U ''engine-console.'')) (Seq low_num (UpTo low_char 62))"
definition NGINX_HOST :: re where "NGINX_HOST = Seq low_num (UpTo low_char 62)"
definition ulimit_num :: re where "ulimit_num = Alt (Lit (U ''-1'')) (Seq digit (UpTo digit 14))"
definition ULIMIT_VALUE :: re where "ULIMIT_VALUE = Seq ulimit_num (Opt (Seq (Chr 58) ulimit_num))"
definition MODEL_TREE :: re where
  "MODEL_TREE = Alts [Seq (Alts (map (Lit \<circ> U) [''models'', ''datasets'', ''spaces'']))
       (Seq (Lit (U ''--'')) (Plus (Cls [(0, 9), (11, 1114111)]))),
     Lit (U ''blobs''), Lit (U ''snapshots''), Lit (U ''refs'')]"

text \<open>\<open>ENV_LOOKS_SECRET\<close>, searched for anywhere; \<open>CHILD_ENV_DENY\<close>, a prefix or a whole name.\<close>

definition env_looks_secret :: "ustr \<Rightarrow> bool" where
  "env_looks_secret k \<longleftrightarrow>
     matches (Seq ANY_STAR (Seq (Alts (map IC [''key'', ''token'', ''secret'', ''password''])) ANY_STAR)) k"

definition child_env_deny :: "ustr \<Rightarrow> bool" where
  "child_env_deny k \<longleftrightarrow>
     matches (Seq (Alts (map IC [''ld_'', ''dyld_'', ''docker_'', ''xdg_'', ''lc_'', ''buildkit_'', ''compose_'', ''python'',
       ''notary_'', ''ssl_'', ''openssl_'', ''gconv_'', ''malloc_'', ''glibc_'', ''git_'', ''ssh_'', ''krb5'', ''nix_'',
       ''otel_'', ''grpc_''])) ANY_STAR) k
     \<or> matches (Alts (map IC [''path'', ''home'', ''user'', ''logname'', ''shell'', ''tmpdir'', ''tmp'', ''temp'', ''pwd'',
       ''oldpwd'', ''ifs'', ''env'', ''bash_env'', ''cdpath'', ''lang'', ''language'', ''tz'', ''tzdir'', ''term'',
       ''http_proxy'', ''https_proxy'', ''no_proxy'', ''all_proxy'', ''ftp_proxy'', ''hostaliases'', ''localdomain'',
       ''res_options'', ''nlspath'', ''locpath'', ''sslkeylogfile'', ''zoneinfo'', ''godebug'', ''gogc'', ''gomaxprocs'',
       ''gomemlimit'', ''gotraceback'', ''gorace'', ''goflags'', ''goroot'', ''gopath'', ''goenv'', ''gotoolchain'',
       ''gocoverdir''])) k"

section \<open>The machine\<close>

datatype dir_error = DirNotDir | DirErr ustr

record renv =
  rn_fs :: fs
  rn_list :: "ustr \<Rightarrow> dir_error + (ustr \<times> bool) list"
  known_gpus :: "ustr list"
  state_dir :: ustr
  scan_max :: nat
  fmt_g :: "rat \<Rightarrow> ustr"

section \<open>Key-looking names near the top of a mount\<close>

fun scan_entries :: "ustr \<Rightarrow> (ustr \<times> bool) list \<Rightarrow> ustr list \<Rightarrow> ustr + ustr list" where
  "scan_entries rel [] nxt = Inr nxt"
| "scan_entries rel ((name, isdir) # es) nxt =
     (let path = (if rel = [] then name else rel @ [slash] @ name) in
      if is_secret_name name then Inl path
      else scan_entries rel es (if isdir \<and> \<not> matches MODEL_TREE name then nxt @ [path] else nxt))"

definition scan_dir :: "ustr \<Rightarrow> ustr \<Rightarrow> ustr" where
  "scan_dir src rel = (if rel = [] then src else join_paths src [rel])"

text \<open>One level: what was found, or the entries seen so far and the next level.\<close>

fun scan_level :: "renv \<Rightarrow> ustr \<Rightarrow> nat \<Rightarrow> nat \<Rightarrow> ustr list \<Rightarrow> nat \<Rightarrow> ustr list \<Rightarrow> fail + (ustr + nat \<times> ustr list)" where
  "scan_level e src most depth [] seen nxt = Inr (Inr (seen, nxt))"
| "scan_level e src most depth (rel # level) seen nxt =
     (case rn_list e (scan_dir src rel) of
        Inl DirNotDir \<Rightarrow> scan_level e src most depth level seen nxt
      | Inl (DirErr t) \<Rightarrow>
          if depth = 0 then
            Inl (FOp IO_ERROR (U ''cannot list '' @ repr_take src 200 @ U '' to check it before mounting: '' @ t))
          else scan_level e src most depth level seen nxt
      | Inr entries \<Rightarrow>
          (let seen = seen + length entries in
           if most < seen then
             Inl (FOp POLICY_DENIED (repr_take src 200 @ U '' holds more than '' @ dec most
               @ U '' entries near its top, too many to check for keys before mounting; mount a narrower folder''))
           else (case scan_entries rel entries nxt of
               Inl path \<Rightarrow> Inr (Inl path)
             | Inr nxt \<Rightarrow> scan_level e src most depth level seen nxt)))"

fun scan_depths :: "renv \<Rightarrow> ustr \<Rightarrow> nat \<Rightarrow> nat \<Rightarrow> nat \<Rightarrow> ustr list \<Rightarrow> nat \<Rightarrow> fail + ustr option" where
  "scan_depths e src most 0 depth level seen = Inr None"
| "scan_depths e src most (Suc k) depth level seen =
     (case scan_level e src most depth level seen [] of
        Inl err \<Rightarrow> Inl err
      | Inr (Inl path) \<Rightarrow> Inr (Some path)
      | Inr (Inr (seen, nxt)) \<Rightarrow> scan_depths e src most k (Suc depth) nxt seen)"

definition secret_near_top :: "renv \<Rightarrow> ustr \<Rightarrow> nat \<Rightarrow> fail + ustr option" where
  "secret_near_top e src most =
     (if is_secret_name (basename src) then Inr (Some (basename src))
      else scan_depths e src most SECRET_SCAN_DEPTH 0 [[]] 0)"


section \<open>Fields of a run spec\<close>

definition bad :: "ustr \<Rightarrow> fail" where "bad msg = FOp BAD_ARGS msg"
definition denied :: "ustr \<Rightarrow> fail" where "denied msg = FOp POLICY_DENIED msg"

definition is_ctrl :: "nat \<Rightarrow> bool" where "is_ctrl c \<longleftrightarrow> c < 32 \<or> c = 127"
definition has_ctrl :: "ustr \<Rightarrow> bool" where "has_ctrl s \<longleftrightarrow> (\<exists>c \<in> set s. is_ctrl c)"

text \<open>\<open>Value::get(key)\<close>, \<open>.and_then(Value::as_str)\<close>, \<open>str_map\<close>, \<open>list\<close> and \<open>as_str().unwrap_or("")\<close>.\<close>

definition vget :: "json \<Rightarrow> ustr \<Rightarrow> json option" where
  "vget v k = (case v of JObj m \<Rightarrow> obj_get m k | _ \<Rightarrow> None)"

definition vstr :: "json option \<Rightarrow> ustr option" where
  "vstr v = (case v of Some x \<Rightarrow> json_str x | None \<Rightarrow> None)"

definition str_map :: "json option \<Rightarrow> (ustr \<times> json) list" where
  "str_map v = (case v of Some (JObj m) \<Rightarrow> m | _ \<Rightarrow> [])"

definition list_of :: "json option \<Rightarrow> json list" where
  "list_of v = (case v of Some (JArr a) \<Rightarrow> a | _ \<Rightarrow> [])"

definition text_of :: "json \<Rightarrow> ustr" where
  "text_of v = unwrap_or [] (json_str v)"

definition trim_end :: "nat \<Rightarrow> ustr \<Rightarrow> ustr" where
  "trim_end c s = rev (dropWhile (\<lambda>x. x = c) (rev s))"

definition bad_dest_char :: "nat \<Rightarrow> bool" where
  "bad_dest_char c \<longleftrightarrow> c = 58 \<or> c = 44 \<or> c = 92 \<or> is_ctrl c"

definition check_dest :: "json \<Rightarrow> ustr \<Rightarrow> fail + ustr" where
  "check_dest dest what =
     (let rude = Inl (bad (what @ U '': the container path must be absolute (and not '' @ [39, 47, 39] @ U '')'')) in
      case json_str dest of
        None \<Rightarrow> rude
      | Some d \<Rightarrow>
          if \<not> (starts_with d [slash] \<and> length d \<le> 512 \<and> d \<noteq> [slash]) then rude
          else if \<exists>c \<in> set d. bad_dest_char c then
            Inl (bad (what @ U '': the container path '' @ repr_take d 200 @ U '' may not contain '' @ [39, 58, 39]
              @ U '', '' @ [39, 44, 39] @ U '', '' @ [39, 92, 39] @ U '' or control characters''))
          else if \<exists>s \<in> set (split_on slash d). s = dot_seg \<or> s = dotdot_seg then
            Inl (bad (what @ U '': the container path '' @ repr_take d 200 @ U '' may not contain '' @ [39, 46, 39]
              @ U '' or '' @ [39, 46, 46, 39] @ U '' segments''))
          else Inr (if trim_end slash d = [] then d else trim_end slash d))"

definition digits_val :: "ustr \<Rightarrow> nat" where
  "digits_val s = foldl (\<lambda>n c. 10 * n + (c - 48)) 0 s"

definition shm_unit :: "nat \<Rightarrow> rat" where
  "shm_unit c = (if c = 107 then 1 / (1024 * 1024) else if c = 109 then 1 / 1024 else 1)"

text \<open>At most 9999 times a power of two: the product of doubles is exact.\<close>

definition shm_gib :: "ustr \<Rightarrow> fail + rat" where
  "shm_gib v =
     (if \<not> matches SHM v then
        Inl (bad (U ''shm_size '' @ repr_take v 20 @ U '' must look like 16g, 512m or 1024k''))
      else Inr (of_nat (digits_val (butlast v)) * shm_unit (last v)))"

section \<open>The plan\<close>

record run_plan =
  rp_name :: ustr
  rp_instance :: ustr
  rp_image :: ustr
  rp_argv :: "ustr list"
  rp_port :: int
  rp_network :: ustr
  rp_alias :: ustr
  rp_gpus :: "ustr list"
  rp_labels :: "(ustr \<times> ustr) list"
  rp_env :: "(ustr \<times> ustr) list"
  rp_secret_env :: "(ustr \<times> ustr) list"
  rp_mounts :: "(ustr \<times> ustr \<times> bool) list"
  rp_volumes :: "(ustr \<times> ustr) list"
  rp_files :: "(ustr \<times> ustr \<times> ustr) list"
  rp_shm :: ustr
  rp_ipc_host :: bool
  rp_ulimits :: "(ustr \<times> ustr) list"

definition plan_name :: "obj \<Rightarrow> fail + ustr" where
  "plan_name spec =
     (let wrong = Inl (bad (U ''spec.name must look like ec-<lowercase letters, digits, hyphens> (at most 61 characters)'')) in
      case vstr (obj_get spec (U ''name'')) of
        Some n \<Rightarrow> if matches RUN_NAME n then Inr n else wrong
      | None \<Rightarrow> wrong)"

definition plan_instance :: "obj \<Rightarrow> fail + ustr" where
  "plan_instance spec =
     (let wrong = Inl (bad (U ''spec.instance must be 1-64 letters, digits, '' @ [39, 95, 39] @ U '' or '' @ [39, 45, 39])) in
      case vstr (obj_get spec (U ''instance'')) of
        Some n \<Rightarrow> if matches INSTANCE n then Inr n else wrong
      | None \<Rightarrow> wrong)"

definition plan_image :: "policy \<Rightarrow> obj \<Rightarrow> fail + ustr" where
  "plan_image pol spec =
     (let wrong = Inl (bad (U ''spec.image is not a valid image reference'')) in
      case vstr (obj_get spec (U ''image'')) of
        None \<Rightarrow> wrong
      | Some i \<Rightarrow>
          if \<not> valid_image i then wrong
          else if \<not> image_allowed pol i then
            Inl (denied (U ''image '' @ py_repr i @ U '' is not allowed by this node'' @ [39]
              @ U ''s policy (engine_images in '' @ policy_where pol @ U '')''))
          else Inr i)"

definition plan_argv :: "obj \<Rightarrow> fail + ustr list" where
  "plan_argv spec =
     (let a = List.map_filter json_str (list_of (obj_get spec (U ''argv''))) in
      if 512 < length a \<or> (\<exists>x \<in> set a. 4096 < length x \<or> 0 \<in> set x) then
        Inl (bad (U ''spec.argv: at most 512 arguments of at most 4096 characters, no NUL''))
      else Inr a)"

definition plan_port :: "obj \<Rightarrow> fail + int" where
  "plan_port spec =
     (let wrong = Inl (bad (U ''spec.container_port must be 1-65535'')) in
      case obj_get spec (U ''container_port'') of
        Some (JNum n) \<Rightarrow>
          (if is_f64 n then wrong
           else (case as_i64 n of Some p \<Rightarrow> (if 1 \<le> p \<and> p \<le> 65535 then Inr p else wrong) | None \<Rightarrow> wrong))
      | _ \<Rightarrow> wrong)"

definition plan_alias :: "ustr \<Rightarrow> obj \<Rightarrow> fail + ustr" where
  "plan_alias name spec =
     (let al = nonempty_or name (vstr (obj_get spec (U ''network_alias''))) in
      if matches RUN_NAME al then Inr al
      else Inl (bad (U ''spec.network_alias must look like ec-<lowercase letters, digits, hyphens>'')))"

definition gpu_step :: "renv \<Rightarrow> nat \<Rightarrow> json \<Rightarrow> ustr list \<Rightarrow> fail + ustr list" where
  "gpu_step e i v gpus =
     (let u = text_of v in
      if u \<notin> set (known_gpus e) then
        Inl (bad (U ''GPU '' @ repr_take u 96 @ U '' is not a GPU of this machine (see node.info)''))
      else Inr (if u \<in> set gpus then gpus else gpus @ [u]))"

definition plan_gpus :: "renv \<Rightarrow> obj \<Rightarrow> fail + ustr list" where
  "plan_gpus e spec = try_fold (gpu_step e) 0 (list_of (obj_get spec (U ''gpu_uuids''))) []"

definition label_step :: "nat \<Rightarrow> ustr \<times> json \<Rightarrow> (ustr \<times> ustr) list \<Rightarrow> fail + (ustr \<times> ustr) list" where
  "label_step i kv labels =
     (let k = fst kv; v = text_of (snd kv) in
      if \<not> matches LABEL_KEY k then
        Inl (bad (U ''label '' @ repr_take k 80 @ U '': keys must start with '' @ [39] @ U ''engine-console.'' @ [39]
          @ U '' (lowercase, digits, . _ -)''))
      else if has_ctrl v then Inl (bad (U ''label '' @ py_repr k @ U '' has a control character in its value''))
      else (case obj_get labels k of
          Some have \<Rightarrow>
            if have \<noteq> v then Inl (bad (U ''label '' @ py_repr k @ U '' must be '' @ py_repr have @ U '' for this container''))
            else Inr labels
        | None \<Rightarrow> Inr (labels @ [(k, v)])))"

definition owner_labels :: "ustr \<Rightarrow> (ustr \<times> ustr) list" where
  "owner_labels instance_id = [(LABEL, U ''1''), (ROLE_LABEL, U ''engine''), (INSTANCE_LABEL, instance_id)]"

definition plan_labels :: "ustr \<Rightarrow> obj \<Rightarrow> fail + (ustr \<times> ustr) list" where
  "plan_labels instance_id spec = try_fold label_step 0 (str_map (obj_get spec (U ''labels''))) (owner_labels instance_id)"

definition env_step :: "nat \<Rightarrow> ustr \<times> json \<Rightarrow> (ustr \<times> ustr) list \<Rightarrow> fail + (ustr \<times> ustr) list" where
  "env_step i kv env =
     (let k = fst kv in
      if \<not> matches ENV_NAME k then
        Inl (bad (U ''env name '' @ repr_take k 80 @ U '' must be letters, digits and '' @ [39, 95, 39]
          @ U '' (not starting with a digit)''))
      else if env_looks_secret k then
        Inl (bad (U ''env '' @ py_repr k
          @ U '' looks like a secret: send it in secret_env so its value never reaches a command line''))
      else Inr (env @ [(k, text_of (snd kv))]))"

definition plan_env :: "obj \<Rightarrow> fail + (ustr \<times> ustr) list" where
  "plan_env spec = try_fold env_step 0 (str_map (obj_get spec (U ''env''))) []"

definition secret_step :: "(ustr \<times> ustr) list \<Rightarrow> nat \<Rightarrow> ustr \<times> json \<Rightarrow> (ustr \<times> ustr) list \<Rightarrow> fail + (ustr \<times> ustr) list" where
  "secret_step env i kv secret =
     (let k = fst kv in
      if \<not> matches ENV_NAME k then
        Inl (bad (U ''secret_env name '' @ repr_take k 80 @ U '' must be letters, digits and '' @ [39, 95, 39]
          @ U '' (not starting with a digit)''))
      else if child_env_deny k then
        Inl (denied (U ''secret_env name '' @ py_repr k
          @ U '' would change how the docker CLI itself runs on this machine; use another name''))
      else if \<not> env_looks_secret k then
        Inl (bad (U ''secret_env name '' @ py_repr k
          @ U '' does not look like a secret (key, token, secret or password): send it in env''))
      else if k \<in> set (map fst env) then Inl (bad (py_repr k @ U '' is in both env and secret_env''))
      else Inr (secret @ [(k, text_of (snd kv))]))"

definition plan_secret_env :: "(ustr \<times> ustr) list \<Rightarrow> obj \<Rightarrow> fail + (ustr \<times> ustr) list" where
  "plan_secret_env env spec = try_fold (secret_step env) 0 (str_map (obj_get spec (U ''secret_env''))) []"

text \<open>\<open>claim\<close>: a container path may be used once; \<open>dests\<close> is what is taken.\<close>

definition claim :: "ustr \<Rightarrow> ustr \<Rightarrow> ustr list \<Rightarrow> fail + ustr list" where
  "claim dest what dests =
     (if dest \<in> set dests then Inl (bad (what @ U '': container path '' @ py_repr dest @ U '' is used twice''))
      else Inr (dest # dests))"

definition colon_comma :: "ustr \<Rightarrow> bool" where
  "colon_comma s \<longleftrightarrow> 58 \<in> set s \<or> 44 \<in> set s"

definition mount_src :: "fs \<Rightarrow> root_handle \<Rightarrow> json \<Rightarrow> ustr \<Rightarrow> fail + ustr" where
  "mount_src f h m what =
     (let whole = Inr (rh_real h) in
      case vstr (vget m (U ''rel'')) of
        None \<Rightarrow> whole
      | Some r \<Rightarrow> if r = [] then whole
          else try_bind (split_rel (Some r) (what @ U ''.rel'')) (resolve_existing f h))"

definition mount_step :: "renv \<Rightarrow> policy \<Rightarrow> nat \<Rightarrow> json \<Rightarrow> ustr list \<times> (ustr \<times> ustr \<times> bool) list
    \<Rightarrow> fail + (ustr list \<times> (ustr \<times> ustr \<times> bool) list)" where
  "mount_step e pol i m acc =
     (let what = U ''mounts['' @ dec i @ U '']'' in
      try_bind (open_root (rn_fs e) pol (unwrap_or JNull (vget m (U ''root''))) False) (\<lambda>h.
      try_bind (ensure (vget m (U ''ro'') \<noteq> Some (JBool False))
        (denied (what @ U '': model roots are only ever mounted read-only on this node''))) (\<lambda>_.
      try_bind (mount_src (rn_fs e) h m what) (\<lambda>src.
      try_bind (ensure (\<not> colon_comma src) (bad (what @ U '': host path '' @ repr_take src 200 @ U '' contains '' @ [39, 58, 39]
        @ U '' or '' @ [39, 44, 39] @ U '' and cannot be mounted''))) (\<lambda>_.
      try_bind (secret_near_top e src (scan_max e)) (\<lambda>found.
      (case found of
         Some secret \<Rightarrow>
           Inl (denied (what @ U '': '' @ repr_take secret 200 @ U '' looks like a key or token file, and a container would ''
             @ U ''see it; mount a folder without it (for Hugging Face, a root of kind hf-hub on the hub/ folder, ''
             @ U ''not the whole HF_HOME)''))
       | None \<Rightarrow>
           try_bind (check_dest (unwrap_or JNull (vget m (U ''dest''))) what) (\<lambda>dest.
           try_bind (claim dest what (fst acc)) (\<lambda>dests. Inr (dests, snd acc @ [(src, dest, True)]))))))))))"

definition plan_mounts :: "renv \<Rightarrow> policy \<Rightarrow> obj \<Rightarrow> ustr list \<Rightarrow> fail + (ustr list \<times> (ustr \<times> ustr \<times> bool) list)" where
  "plan_mounts e pol spec dests = try_fold (mount_step e pol) 0 (list_of (obj_get spec (U ''mounts''))) (dests, [])"

definition volume_step :: "nat \<Rightarrow> json \<Rightarrow> ustr list \<times> (ustr \<times> ustr) list \<Rightarrow> fail + (ustr list \<times> (ustr \<times> ustr) list)" where
  "volume_step i v acc =
     (let what = U ''volumes['' @ dec i @ U '']'';
          wrong = Inl (bad (what @ U '': named volumes must be called ec-<name> (lowercase, digits, . _ -)'')) in
      case vstr (vget v (U ''name'')) of
        None \<Rightarrow> wrong
      | Some n \<Rightarrow>
          if \<not> matches VOLUME n then wrong
          else
            try_bind (check_dest (unwrap_or JNull (vget v (U ''dest''))) what) (\<lambda>dest.
            try_bind (claim dest what (fst acc)) (\<lambda>dests. Inr (dests, snd acc @ [(n, dest)]))))"

definition plan_volumes :: "obj \<Rightarrow> ustr list \<Rightarrow> fail + (ustr list \<times> (ustr \<times> ustr) list)" where
  "plan_volumes spec dests = try_fold volume_step 0 (list_of (obj_get spec (U ''volumes''))) (dests, [])"

definition files_dir :: "ustr \<Rightarrow> ustr \<Rightarrow> ustr" where
  "files_dir state instance_id = join_paths state [U ''instances'', instance_id, U ''files'']"

definition file_char :: "nat \<Rightarrow> nat" where
  "file_char c = (if in_cls c [(65, 90), (97, 122), (48, 57), (46, 46), (95, 95), (45, 45)] then c else 95)"

definition file_base :: "ustr \<Rightarrow> ustr" where
  "file_base dest =
     (let base = dropWhile (\<lambda>c. c = 46) (take 100 (map file_char (last (split_on slash dest)))) in
      if base = [] then U ''file'' else base)"

definition file_step :: "ustr \<Rightarrow> nat \<Rightarrow> ustr \<times> json \<Rightarrow> ustr list \<times> (ustr \<times> ustr \<times> ustr) list
    \<Rightarrow> fail + (ustr list \<times> (ustr \<times> ustr \<times> ustr) list)" where
  "file_step fdir i kv acc =
     (let what = U ''files['' @ dec i @ U '']'' in
      try_bind (check_dest (JStr (fst kv)) what) (\<lambda>dest.
      try_bind (claim dest what (fst acc)) (\<lambda>dests.
      Inr (dests, snd acc @ [(dest, join_path fdir (dec i @ U ''-'' @ file_base dest), text_of (snd kv))]))))"

definition plan_files :: "ustr \<Rightarrow> obj \<Rightarrow> ustr list \<Rightarrow> fail + (ustr list \<times> (ustr \<times> ustr \<times> ustr) list)" where
  "plan_files fdir spec dests = try_fold (file_step fdir) 0 (take MAX_FILES (str_map (obj_get spec (U ''files'')))) (dests, [])"

definition default_shm :: "rat \<Rightarrow> ustr" where
  "default_shm cap = (if 16 \<le> cap then U ''16g'' else dec_int (max 1 \<lfloor>cap * 1024\<rfloor>) @ U ''m'')"

definition plan_shm :: "renv \<Rightarrow> policy \<Rightarrow> obj \<Rightarrow> fail + ustr" where
  "plan_shm e pol spec =
     (let shm = unwrap_or (default_shm (max_shm_gib pol)) (vstr (obj_get spec (U ''shm_size''))) in
      try_bind (shm_gib shm) (\<lambda>g.
      if max_shm_gib pol < g then
        Inl (denied (U ''shm_size '' @ shm @ U '' is above this node'' @ [39] @ U ''s policy limit of ''
          @ fmt_g e (max_shm_gib pol) @ U '' GiB (max_shm_gib)''))
      else Inr shm))"

definition ulimit_step :: "nat \<Rightarrow> ustr \<times> json \<Rightarrow> (ustr \<times> ustr) list \<Rightarrow> fail + (ustr \<times> ustr) list" where
  "ulimit_step i kv ulimits =
     (let k = fst kv; v = text_of (snd kv) in
      if k \<notin> set ULIMITS then
        Inl (bad (U ''ulimit '' @ repr_take k 40 @ U '' is not one an engine may set here (allowed: ''
          @ join_with (U '', '') ULIMITS @ U '')''))
      else if \<not> matches ULIMIT_VALUE v then
        Inl (bad (U ''ulimit '' @ k @ U '' value '' @ repr_take v 40
          @ U '' must be -1 (unlimited), a number, or soft:hard numbers''))
      else Inr (ulimits @ [(k, v)]))"

definition plan_ulimits :: "obj \<Rightarrow> fail + (ustr \<times> ustr) list" where
  "plan_ulimits spec = try_fold ulimit_step 0 (str_map (obj_get spec (U ''ulimits''))) []"

definition plan_run :: "renv \<Rightarrow> policy \<Rightarrow> json \<Rightarrow> fail + run_plan" where
  "plan_run e pol v =
     (case v of
        JObj spec \<Rightarrow>
          try_bind (plan_name spec) (\<lambda>name.
          try_bind (plan_instance spec) (\<lambda>instance_id.
          try_bind (plan_image pol spec) (\<lambda>img.
          try_bind (plan_argv spec) (\<lambda>argv.
          try_bind (plan_port spec) (\<lambda>port.
          try_bind (plan_alias name spec) (\<lambda>al.
          try_bind (plan_gpus e spec) (\<lambda>gpus.
          try_bind (plan_labels instance_id spec) (\<lambda>labels.
          try_bind (plan_env spec) (\<lambda>env.
          try_bind (plan_secret_env env spec) (\<lambda>secret.
          try_bind (plan_mounts e pol spec []) (\<lambda>(dests, mounts).
          try_bind (plan_volumes spec dests) (\<lambda>(dests, volumes).
          try_bind (plan_files (files_dir (state_dir e) instance_id) spec dests) (\<lambda>(dests, files).
          try_bind (ensure (\<not> colon_comma (files_dir (state_dir e) instance_id))
            (bad (U ''the node'' @ [39] @ U ''s state directory contains '' @ [39, 58, 39] @ U '' or '' @ [39, 44, 39]
              @ U '' and cannot hold mounted files''))) (\<lambda>_.
          try_bind (plan_shm e pol spec) (\<lambda>shm.
          try_bind (ensure (\<not> (obj_get spec (U ''ipc_host'') = Some (JBool True) \<and> \<not> allow_ipc_host pol))
            (denied (U ''this node'' @ [39] @ U ''s policy does not allow --ipc host (allow_ipc_host); ''
              @ U ''multi-GPU engines need it for NCCL''))) (\<lambda>_.
          try_bind (plan_ulimits spec) (\<lambda>ulimits.
          Inr \<lparr>rp_name = name, rp_instance = instance_id, rp_image = img, rp_argv = argv, rp_port = port,
               rp_network = engine_network pol, rp_alias = al, rp_gpus = gpus, rp_labels = labels, rp_env = env,
               rp_secret_env = secret, rp_mounts = mounts, rp_volumes = volumes, rp_files = files, rp_shm = shm,
               rp_ipc_host = (obj_get spec (U ''ipc_host'') = Some (JBool True)), rp_ulimits = ulimits\<rparr>)))))))))))))))))
      | _ \<Rightarrow> Inl (bad (U ''spec is missing'')))"

end
