(* ===== verification/PlanOk.thy ===== *)
theory PlanOk
  imports RunPlan
begin

text \<open>
  What a run plan promises: every accepted run spec gives a plan whose image the policy allows, whose
  mounts are read-only, lie inside a configured model root and show no key near their top, whose
  container paths are distinct, which is labelled as this console's and stays within the policy's limits
  (\<open>plan_ok\<close>); and what the key scan has looked at when it finds nothing.
\<close>

section \<open>Container paths\<close>

definition dest_ok :: "ustr \<Rightarrow> bool" where
  "dest_ok d \<longleftrightarrow> starts_with d [slash] \<and> length d \<le> 512 \<and> \<not> (\<exists>c \<in> set d. bad_dest_char c)
     \<and> \<not> (\<exists>s \<in> set (split_on slash d). s = dot_seg \<or> s = dotdot_seg) \<and> (last d = slash \<longrightarrow> set d = {slash})"

lemma trim_end_eq: "\<exists>n. s = trim_end c s @ replicate n c"
proof -
  have "s = rev (dropWhile (\<lambda>x. x = c) (rev s)) @ rev (takeWhile (\<lambda>x. x = c) (rev s))"
    by (metis rev_append rev_rev_ident takeWhile_dropWhile_id)
  moreover have "replicate (length (takeWhile (\<lambda>x. x = c) (rev s))) c = takeWhile (\<lambda>x. x = c) (rev s)"
    by (rule replicate_length_same) (auto dest: set_takeWhileD)
  ultimately show ?thesis unfolding trim_end_def by (metis rev_replicate)
qed

lemma trim_end_last: "trim_end c s \<noteq> [] \<Longrightarrow> last (trim_end c s) \<noteq> c"
  unfolding trim_end_def using hd_dropWhile[of "\<lambda>x. x = c" "rev s"] by (simp add: last_rev del: dropWhile_eq_Nil_conv)

lemma split_on_append: "split_on c (a @ c # b) = split_on c a @ split_on c b"
  by (induction a) (auto split: list.splits)

lemma split_on_trim_end: "set (split_on c (trim_end c s)) \<subseteq> set (split_on c s)"
proof -
  have "set (split_on c t) \<subseteq> set (split_on c (t @ replicate n c))" for t n
    by (induction n arbitrary: t) (auto simp: split_on_append)
  then show ?thesis using trim_end_eq[of s c] by metis
qed

lemma check_dest_Inr:
  assumes "check_dest v what = Inr d"
  shows "dest_ok d"
proof -
  obtain s where s: "json_str v = Some s" "starts_with s [slash]" "length s \<le> 512" "s \<noteq> [slash]"
    "\<not> (\<exists>c \<in> set s. bad_dest_char c)" "\<not> (\<exists>p \<in> set (split_on slash s). p = dot_seg \<or> p = dotdot_seg)"
    "d = (if trim_end slash s = [] then s else trim_end slash s)"
    using assms by (auto simp: check_dest_def Let_def split: option.splits if_splits)
  obtain n where n: "s = trim_end slash s @ replicate n slash" using trim_end_eq by blast
  show ?thesis
  proof (cases "trim_end slash s = []")
    case True
    then have "s = replicate n slash" using n by simp
    then have "set s \<subseteq> {slash}" by (simp only: set_replicate_conv_if split: if_split) simp
    moreover have "s \<noteq> []" using s(2) by (auto simp: starts_with_def)
    ultimately have "set s = {slash}" by (cases s) auto
    then show ?thesis using s True by (auto simp: dest_ok_def)
  next
    case False
    have d: "d = trim_end slash s" using s(7) False by simp
    obtain r where r: "s = d @ r" using n d by metis
    have dn: "d \<noteq> []" using False d by simp
    have "set d \<subseteq> set s" "length d \<le> length s" unfolding r by simp_all
    moreover have "starts_with d [slash]" using s(2) dn unfolding r by (cases d) (simp_all add: starts_with_def)
    moreover have "last d \<noteq> slash" using trim_end_last[OF False] d by simp
    ultimately show ?thesis using s(3,5,6) split_on_trim_end[of slash s] d
      by (auto simp: dest_ok_def)
  qed
qed

text \<open>The path must not be the container's root, but two or more slashes are one and pass.\<close>

theorem slashes_dest_accepted: "check_dest (JStr [slash, slash]) what = Inr [slash, slash]"
  by (simp add: check_dest_def Let_def starts_with_def trim_end_def bad_dest_char_def is_ctrl_def)

lemma claim_Inr: "claim d what ds = Inr ds' \<longleftrightarrow> d \<notin> set ds \<and> ds' = d # ds"
  by (auto simp: claim_def)

section \<open>The fields of a plan\<close>

lemma plan_name_Inr: "plan_name spec = Inr n \<Longrightarrow> matches RUN_NAME n"
  by (auto simp: plan_name_def Let_def split: option.splits if_splits)

lemma plan_instance_Inr: "plan_instance spec = Inr n \<Longrightarrow> matches INSTANCE n"
  by (auto simp: plan_instance_def Let_def split: option.splits if_splits)

lemma plan_image_Inr: "plan_image pol spec = Inr i \<Longrightarrow> valid_image i \<and> image_allowed pol i"
  by (auto simp: plan_image_def Let_def split: option.splits if_splits)

lemma plan_argv_Inr: "plan_argv spec = Inr a \<Longrightarrow> length a \<le> 512 \<and> (\<forall>x \<in> set a. length x \<le> 4096 \<and> 0 \<notin> set x)"
  by (auto simp: plan_argv_def Let_def not_less split: if_splits)

lemma plan_port_Inr: "plan_port spec = Inr p \<Longrightarrow> 1 \<le> p \<and> p \<le> 65535"
  by (auto simp: plan_port_def Let_def split: option.splits json.splits if_splits)

lemma plan_alias_Inr: "plan_alias n spec = Inr a \<Longrightarrow> matches RUN_NAME a"
  by (auto simp: plan_alias_def Let_def split: if_splits)

lemma plan_gpus_Inr: "plan_gpus e spec = Inr g \<Longrightarrow> set g \<subseteq> set (known_gpus e) \<and> distinct g"
  unfolding plan_gpus_def
  by (erule try_fold_invariant) (auto simp: gpu_step_def Let_def split: if_splits)

definition labels_ok :: "ustr \<Rightarrow> (ustr \<times> ustr) list \<Rightarrow> bool" where
  "labels_ok i ls \<longleftrightarrow> (\<exists>more. ls = owner_labels i @ more \<and> (\<forall>(k, v) \<in> set more. matches LABEL_KEY k \<and> \<not> has_ctrl v))
     \<and> distinct (map fst ls)"

lemma owner_labels_distinct: "distinct (map fst (owner_labels i))"
  by (simp add: owner_labels_def LABEL_def ROLE_LABEL_def INSTANCE_LABEL_def)

lemma obj_get_None_notin: "obj_get m k = None \<longleftrightarrow> k \<notin> fst ` set m"
  by (force simp: obj_get_def map_of_eq_None_iff)

lemma plan_labels_Inr: "plan_labels i spec = Inr ls \<Longrightarrow> labels_ok i ls"
  unfolding plan_labels_def
proof (erule try_fold_invariant)
  show "labels_ok i (owner_labels i)" by (simp add: labels_ok_def owner_labels_distinct)
  fix j kv a b
  assume "labels_ok i a" and s: "label_step j kv a = Inr b"
  then obtain more where a: "a = owner_labels i @ more" "\<forall>(k, v) \<in> set more. matches LABEL_KEY k \<and> \<not> has_ctrl v"
    "distinct (map fst a)" by (auto simp: labels_ok_def)
  have ok: "matches LABEL_KEY (fst kv)" "\<not> has_ctrl (text_of (snd kv))"
    and b: "b = a \<or> obj_get a (fst kv) = None \<and> b = a @ [(fst kv, text_of (snd kv))]"
    using s by (auto simp: label_step_def Let_def split: if_splits option.splits)
  from b show "labels_ok i b"
  proof
    assume n: "obj_get a (fst kv) = None \<and> b = a @ [(fst kv, text_of (snd kv))]"
    then have "fst kv \<notin> set (map fst a)" by (simp add: obj_get_None_notin)
    then show ?thesis using n a ok
      by (auto simp: labels_ok_def intro!: exI[of _ "more @ [(fst kv, text_of (snd kv))]"])
  qed (use a in \<open>auto simp: labels_ok_def\<close>)
qed

definition env_ok :: "(ustr \<times> ustr) list \<Rightarrow> bool" where
  "env_ok env \<longleftrightarrow> (\<forall>(k, v) \<in> set env. matches ENV_NAME k \<and> \<not> env_looks_secret k)"

definition secret_env_ok :: "(ustr \<times> ustr) list \<Rightarrow> (ustr \<times> ustr) list \<Rightarrow> bool" where
  "secret_env_ok env s \<longleftrightarrow>
     (\<forall>(k, v) \<in> set s. matches ENV_NAME k \<and> env_looks_secret k \<and> \<not> child_env_deny k \<and> k \<notin> set (map fst env))"

lemma plan_env_Inr: "plan_env spec = Inr env \<Longrightarrow> env_ok env"
  unfolding plan_env_def
  by (erule try_fold_invariant) (auto simp: env_ok_def env_step_def Let_def split: if_splits)

lemma plan_secret_env_Inr: "plan_secret_env env spec = Inr s \<Longrightarrow> secret_env_ok env s"
  unfolding plan_secret_env_def
  by (erule try_fold_invariant) (force simp: secret_env_ok_def secret_step_def Let_def split: if_splits)+

section \<open>Mounts, volumes and files\<close>

text \<open>A mount source: a configured root or a path below it, as they really are on this machine.\<close>

definition source_ok :: "renv \<Rightarrow> policy \<Rightarrow> ustr \<Rightarrow> bool" where
  "source_ok e pol src \<longleftrightarrow>
     (\<exists>rt \<in> set (model_roots pol). let rl = real_of (rn_fs e) (rt_path rt) in
        inside src rl \<and> is_dir (rn_fs e) rl
        \<and> recheck_root_real (fs_env (rn_fs e)) (rt_id rt) rl (pol_path pol)
            (Some (unwrap_or (fs_home (rn_fs e)) (pol_home pol))) = Inr ())
     \<and> secret_near_top e src (scan_max e) = Inr None"

definition plain_name :: "ustr \<Rightarrow> bool" where
  "plain_name s \<longleftrightarrow> clean_seg s \<and> \<not> colon_comma s"

definition file_ok :: "ustr \<Rightarrow> ustr \<times> ustr \<times> ustr \<Rightarrow> bool" where
  "file_ok fdir f \<longleftrightarrow> dest_ok (fst f) \<and> (\<exists>n. fst (snd f) = join_path fdir n \<and> plain_name n)"

text \<open>A loop that claims one container path for each item it adds.\<close>

lemma claiming_loop:
  assumes "try_fold f k xs acc = Inr r" "distinct (fst acc)"
    and step: "\<And>j x a b. f j x a = Inr b \<Longrightarrow> \<exists>y. b = (key y # fst a, snd a @ [y]) \<and> key y \<notin> set (fst a) \<and> Q y"
  shows "\<exists>ys. r = (rev (map key ys) @ fst acc, snd acc @ ys) \<and> length ys = length xs
     \<and> distinct (rev (map key ys) @ fst acc) \<and> (\<forall>y \<in> set ys. Q y)"
  using assms(1,2)
proof (induction xs arbitrary: k acc)
  case (Cons x xs)
  then obtain b where b: "f k x acc = Inr b" "try_fold f (Suc k) xs b = Inr r" by (auto simp: res_simps)
  obtain y where y: "b = (key y # fst acc, snd acc @ [y])" "key y \<notin> set (fst acc)" "Q y" using step[OF b(1)] by blast
  obtain ys where ys: "r = (rev (map key ys) @ fst b, snd b @ ys)" "length ys = length xs"
    "distinct (rev (map key ys) @ fst b)" "\<forall>y \<in> set ys. Q y"
    using Cons.IH[OF b(2)] Cons.prems(2) y by auto
  show ?case using ys y by (intro exI[of _ "y # ys"]) simp
qed simp

lemma inside_refl: "inside p p"
  by (simp add: inside_def)

lemma mount_src_Inr: "mount_src f h m what = Inr src \<Longrightarrow> inside src (rh_real h)"
  by (auto simp: mount_src_def Let_def inside_refl res_simps resolve_existing_Inr split: option.splits if_splits)

definition mount_ok :: "renv \<Rightarrow> policy \<Rightarrow> ustr \<times> ustr \<times> bool \<Rightarrow> bool" where
  "mount_ok e pol m \<longleftrightarrow> (case m of (src, dest, ro) \<Rightarrow> ro \<and> source_ok e pol src \<and> \<not> colon_comma src \<and> dest_ok dest)"

lemma mount_step_Inr:
  assumes "mount_step e pol i m acc = Inr r"
  shows "\<exists>y. r = ((fst \<circ> snd) y # fst acc, snd acc @ [y]) \<and> (fst \<circ> snd) y \<notin> set (fst acc) \<and> mount_ok e pol y"
proof -
  obtain what h src dest where s: "open_root (rn_fs e) pol (unwrap_or JNull (vget m (U ''root''))) False = Inr h"
    "mount_src (rn_fs e) h m what = Inr src" "\<not> colon_comma src" "secret_near_top e src (scan_max e) = Inr None"
    "check_dest (unwrap_or JNull (vget m (U ''dest''))) what = Inr dest" "dest \<notin> set (fst acc)"
    "r = (dest # fst acc, snd acc @ [(src, dest, True)])"
    using assms by (auto simp: mount_step_def Let_def res_simps claim_Inr split: option.splits)
  have "source_ok e pol src"
    unfolding source_ok_def Let_def using open_root_Inr[OF s(1)] mount_src_Inr[OF s(2)] s(4) by metis
  then show ?thesis using s check_dest_Inr[OF s(5)]
    by (intro exI[of _ "(src, dest, True)"]) (simp add: mount_ok_def)
qed

definition volume_ok :: "ustr \<times> ustr \<Rightarrow> bool" where
  "volume_ok v \<longleftrightarrow> matches VOLUME (fst v) \<and> dest_ok (snd v)"

lemma volume_step_Inr:
  assumes "volume_step i v acc = Inr r"
  shows "\<exists>y. r = (snd y # fst acc, snd acc @ [y]) \<and> snd y \<notin> set (fst acc) \<and> volume_ok y"
  using assms check_dest_Inr by (auto simp: volume_step_def volume_ok_def Let_def res_simps claim_Inr split: option.splits if_splits)

lemma file_char_plain: "file_char c \<noteq> slash \<and> file_char c \<noteq> 58 \<and> file_char c \<noteq> 44"
  by (simp add: file_char_def in_cls_def)

lemma dec_digits: "c \<in> set (dec n) \<Longrightarrow> 48 \<le> c \<and> c \<le> 57"
  by (induction n rule: dec.induct) (subst (asm) dec.simps, auto split: if_splits)

lemma dec_not_Nil: "dec n \<noteq> []"
  by (subst dec.simps) simp

lemma file_base_plain: "c \<in> set (file_base d) \<Longrightarrow> c \<noteq> slash \<and> c \<noteq> 58 \<and> c \<noteq> 44"
proof -
  assume c: "c \<in> set (file_base d)"
  show ?thesis
  proof (cases "c \<in> set (U ''file'')")
    case True
    then show ?thesis by (auto simp: U_def)
  next
    case False
    then have "c \<in> set (map file_char (last (split_on slash d)))"
      using c by (auto simp: file_base_def Let_def split: if_splits dest!: set_dropWhileD in_set_takeD)
    then show ?thesis using file_char_plain by auto
  qed
qed

lemma file_name_plain: "plain_name (dec i @ U ''-'' @ file_base d)"
proof -
  have "c \<noteq> slash \<and> c \<noteq> 58 \<and> c \<noteq> 44" if "c \<in> set (dec i @ U ''-'' @ file_base d)" for c
    using that dec_digits[of c i] file_base_plain[of c d] by (auto simp: U_def)
  moreover have "hd (dec i @ U ''-'' @ file_base d) \<noteq> 46"
    using dec_digits[of "hd (dec i)" i] dec_not_Nil[of i] by (cases "dec i") auto
  ultimately show ?thesis by (auto simp: plain_name_def clean_seg_def colon_comma_def)
qed

lemma file_step_Inr:
  assumes "file_step fdir i kv acc = Inr r"
  shows "\<exists>y. r = (fst y # fst acc, snd acc @ [y]) \<and> fst y \<notin> set (fst acc) \<and> file_ok fdir y"
proof -
  obtain what dest where s: "check_dest (JStr (fst kv)) what = Inr dest" "dest \<notin> set (fst acc)"
    "r = (dest # fst acc, snd acc @ [(dest, join_path fdir (dec i @ U ''-'' @ file_base dest), text_of (snd kv))])"
    using assms by (auto simp: file_step_def Let_def res_simps claim_Inr)
  have "file_ok fdir (dest, join_path fdir (dec i @ U ''-'' @ file_base dest), text_of (snd kv))"
    using check_dest_Inr[OF s(1)] file_name_plain by (auto simp: file_ok_def)
  then show ?thesis using s by (intro exI[of _ "(dest, join_path fdir (dec i @ U ''-'' @ file_base dest), text_of (snd kv))"]) simp
qed

section \<open>Limits\<close>

lemma plan_shm_Inr: "plan_shm e pol spec = Inr s \<Longrightarrow> \<exists>g. shm_gib s = Inr g \<and> g \<le> max_shm_gib pol"
  by (auto simp: plan_shm_def Let_def res_simps split: if_splits)

lemma plan_ulimits_Inr:
  "plan_ulimits spec = Inr u \<Longrightarrow> \<forall>(k, v) \<in> set u. k \<in> set ULIMITS \<and> matches ULIMIT_VALUE v"
  unfolding plan_ulimits_def
  by (erule try_fold_invariant) (auto simp: ulimit_step_def Let_def split: if_splits)

section \<open>The whole plan\<close>

definition plan_dests :: "run_plan \<Rightarrow> ustr list" where
  "plan_dests p = map (fst \<circ> snd) (rp_mounts p) @ map snd (rp_volumes p) @ map fst (rp_files p)"

definition plan_ok :: "renv \<Rightarrow> policy \<Rightarrow> run_plan \<Rightarrow> bool" where
  "plan_ok e pol p \<longleftrightarrow>
     matches RUN_NAME (rp_name p) \<and> matches RUN_NAME (rp_alias p) \<and> matches INSTANCE (rp_instance p)
     \<and> valid_image (rp_image p) \<and> image_allowed pol (rp_image p)
     \<and> length (rp_argv p) \<le> 512 \<and> (\<forall>x \<in> set (rp_argv p). length x \<le> 4096 \<and> 0 \<notin> set x)
     \<and> 1 \<le> rp_port p \<and> rp_port p \<le> 65535 \<and> rp_network p = engine_network pol
     \<and> set (rp_gpus p) \<subseteq> set (known_gpus e) \<and> distinct (rp_gpus p)
     \<and> labels_ok (rp_instance p) (rp_labels p) \<and> env_ok (rp_env p) \<and> secret_env_ok (rp_env p) (rp_secret_env p)
     \<and> (\<forall>m \<in> set (rp_mounts p). mount_ok e pol m) \<and> (\<forall>v \<in> set (rp_volumes p). volume_ok v)
     \<and> length (rp_files p) \<le> MAX_FILES
     \<and> (\<forall>f \<in> set (rp_files p). file_ok (files_dir (state_dir e) (rp_instance p)) f)
     \<and> \<not> colon_comma (files_dir (state_dir e) (rp_instance p)) \<and> distinct (plan_dests p)
     \<and> (\<exists>g. shm_gib (rp_shm p) = Inr g \<and> g \<le> max_shm_gib pol)
     \<and> (rp_ipc_host p \<longrightarrow> allow_ipc_host pol)
     \<and> (\<forall>(k, v) \<in> set (rp_ulimits p). k \<in> set ULIMITS \<and> matches ULIMIT_VALUE v)"

lemma plan_storage:
  assumes "plan_mounts e pol spec [] = Inr (ds1, ms)" "plan_volumes spec ds1 = Inr (ds2, vs)"
    "plan_files fdir spec ds2 = Inr (ds3, fs)"
  shows "(\<forall>m \<in> set ms. mount_ok e pol m) \<and> (\<forall>v \<in> set vs. volume_ok v) \<and> (\<forall>f \<in> set fs. file_ok fdir f)
     \<and> length fs \<le> MAX_FILES \<and> distinct (map (fst \<circ> snd) ms @ map snd vs @ map fst fs)"
proof -
  have m: "(\<forall>m \<in> set ms. mount_ok e pol m) \<and> ds1 = rev (map (fst \<circ> snd) ms) \<and> distinct ds1"
    using claiming_loop[OF assms(1)[unfolded plan_mounts_def] _ mount_step_Inr] by auto
  have v: "(\<forall>v \<in> set vs. volume_ok v) \<and> ds2 = rev (map snd vs) @ ds1 \<and> distinct ds2"
    using claiming_loop[OF assms(2)[unfolded plan_volumes_def] _ volume_step_Inr] m by auto
  have f: "(\<forall>f \<in> set fs. file_ok fdir f) \<and> ds3 = rev (map fst fs) @ ds2 \<and> distinct ds3 \<and> length fs \<le> MAX_FILES"
    using claiming_loop[OF assms(3)[unfolded plan_files_def] _ file_step_Inr] v by auto
  have "distinct (rev (map fst fs) @ rev (map snd vs) @ rev (map (fst \<circ> snd) ms))" using f v m by metis
  then have "distinct (rev (map (fst \<circ> snd) ms @ map snd vs @ map fst fs))" by simp
  then have "distinct (map (fst \<circ> snd) ms @ map snd vs @ map fst fs)" by (simp only: distinct_rev)
  then show ?thesis using m v f by blast
qed

lemma plan_run_ok:
  assumes "plan_run e pol v = Inr p"
  shows "plan_ok e pol p"
proof -
  obtain spec name i img argv port al gpus labels env secret ds1 ms ds2 vs ds3 fs shm ul where s:
    "plan_name spec = Inr name" "plan_instance spec = Inr i" "plan_image pol spec = Inr img" "plan_argv spec = Inr argv"
    "plan_port spec = Inr port" "plan_alias name spec = Inr al" "plan_gpus e spec = Inr gpus" "plan_labels i spec = Inr labels"
    "plan_env spec = Inr env" "plan_secret_env env spec = Inr secret" "plan_mounts e pol spec [] = Inr (ds1, ms)"
    "plan_volumes spec ds1 = Inr (ds2, vs)" "plan_files (files_dir (state_dir e) i) spec ds2 = Inr (ds3, fs)"
    "\<not> colon_comma (files_dir (state_dir e) i)" "plan_shm e pol spec = Inr shm"
    "\<not> (obj_get spec (U ''ipc_host'') = Some (JBool True) \<and> \<not> allow_ipc_host pol)" "plan_ulimits spec = Inr ul"
    "p = \<lparr>rp_name = name, rp_instance = i, rp_image = img, rp_argv = argv, rp_port = port,
          rp_network = engine_network pol, rp_alias = al, rp_gpus = gpus, rp_labels = labels, rp_env = env,
          rp_secret_env = secret, rp_mounts = ms, rp_volumes = vs, rp_files = fs, rp_shm = shm,
          rp_ipc_host = (obj_get spec (U ''ipc_host'') = Some (JBool True)), rp_ulimits = ul\<rparr>"
    using assms by (auto simp: plan_run_def res_simps split: json.splits)
  note fields = plan_name_Inr[OF s(1)] plan_instance_Inr[OF s(2)] plan_image_Inr[OF s(3)] plan_argv_Inr[OF s(4)]
    plan_port_Inr[OF s(5)] plan_alias_Inr[OF s(6)] plan_gpus_Inr[OF s(7)] plan_labels_Inr[OF s(8)] plan_env_Inr[OF s(9)]
    plan_secret_env_Inr[OF s(10)] plan_shm_Inr[OF s(15)] plan_ulimits_Inr[OF s(17)]
  show ?thesis
    unfolding plan_ok_def plan_dests_def s(18) using fields plan_storage[OF s(11-13)] s(14,16) by simp
qed


section \<open>The key scan\<close>

definition child_path :: "ustr \<Rightarrow> ustr \<Rightarrow> ustr" where
  "child_path rel name = (if rel = [] then name else rel @ [slash] @ name)"

text \<open>What a directory shows, the folders below it the scan enters, and the folders of a whole level.\<close>

definition dir_entries :: "renv \<Rightarrow> ustr \<Rightarrow> ustr \<Rightarrow> (ustr \<times> bool) list" where
  "dir_entries e src rel = (case rn_list e (scan_dir src rel) of Inr es \<Rightarrow> es | Inl _ \<Rightarrow> [])"

definition entered :: "renv \<Rightarrow> ustr \<Rightarrow> ustr \<Rightarrow> ustr list" where
  "entered e src rel =
     map (\<lambda>(n, d). child_path rel n) (filter (\<lambda>(n, d). d \<and> \<not> matches MODEL_TREE n) (dir_entries e src rel))"

fun tree_level :: "renv \<Rightarrow> ustr \<Rightarrow> nat \<Rightarrow> ustr list \<Rightarrow> ustr list" where
  "tree_level e src 0 level = level"
| "tree_level e src (Suc k) level = tree_level e src k (concat (map (entered e src) level))"

definition shows_key :: "renv \<Rightarrow> ustr \<Rightarrow> ustr \<Rightarrow> bool" where
  "shows_key e src rel \<longleftrightarrow> (\<exists>(n, d) \<in> set (dir_entries e src rel). is_secret_name n)"

lemma scan_entries_cases:
  "case scan_entries rel es nxt of
     Inl path \<Rightarrow> \<exists>(n, d) \<in> set es. is_secret_name n
   | Inr nxt' \<Rightarrow> (\<forall>(n, d) \<in> set es. \<not> is_secret_name n)
       \<and> nxt' = nxt @ map (\<lambda>(n, d). child_path rel n) (filter (\<lambda>(n, d). d \<and> \<not> matches MODEL_TREE n) es)"
proof (induction es arbitrary: nxt)
  case (Cons x es)
  obtain n d where x: "x = (n, d)" by (cases x)
  show ?case using Cons.IH[of nxt] Cons.IH[of "nxt @ [child_path rel n]"]
    by (cases "rel = []") (auto simp: x child_path_def Let_def split: sum.splits)
qed simp

lemma scan_level_cases:
  "scan_level e src most depth level seen nxt = Inr r \<Longrightarrow>
     (case r of
        Inl path \<Rightarrow> \<exists>rel \<in> set level. shows_key e src rel
      | Inr (seen', nxt') \<Rightarrow> (\<forall>rel \<in> set level. \<not> shows_key e src rel) \<and> nxt' = nxt @ concat (map (entered e src) level))"
proof (induction level arbitrary: seen nxt)
  case (Cons rel level)
  show ?case
  proof (cases "rn_list e (scan_dir src rel)")
    case (Inl err)
    then have n: "dir_entries e src rel = []" by (simp add: dir_entries_def)
    have "scan_level e src most depth level seen nxt = Inr r"
      using Cons.prems Inl by (auto split: dir_error.splits if_splits)
    from Cons.IH[OF this] n show ?thesis by (auto simp: shows_key_def entered_def split: sum.splits)
  next
    case (Inr es)
    then have n: "dir_entries e src rel = es" by (simp add: dir_entries_def)
    show ?thesis
    proof (cases "scan_entries rel es nxt")
      case (Inl path)
      then have "r = Inl path" using Cons.prems Inr by (auto simp: Let_def split: if_splits)
      moreover have "shows_key e src rel"
        using scan_entries_cases[where rel = rel and es = es and nxt = nxt] Inl n by (simp add: shows_key_def)
      ultimately show ?thesis by simp
    next
      case nx: (Inr nxt1)
      have "scan_level e src most depth level (seen + length es) nxt1 = Inr r"
        using Cons.prems Inr nx by (auto simp: Let_def split: if_splits)
      from Cons.IH[OF this] show ?thesis using scan_entries_cases[where rel = rel and es = es and nxt = nxt] nx n
        by (auto simp: shows_key_def entered_def split: sum.splits)
    qed
  qed
qed auto

lemma scan_depths_cases:
  "scan_depths e src most k depth level seen = Inr r \<Longrightarrow>
     (r = None \<longleftrightarrow> (\<forall>j < k. \<forall>rel \<in> set (tree_level e src j level). \<not> shows_key e src rel))"
proof (induction k arbitrary: depth level seen)
  case (Suc k)
  obtain x where x: "scan_level e src most depth level seen [] = Inr x"
    using Suc.prems by (auto split: sum.splits)
  have step: "(\<forall>j < Suc k. P j) \<longleftrightarrow> P 0 \<and> (\<forall>j < k. P (Suc j))" for P
    by (auto simp: less_Suc_eq_0_disj)
  show ?case
  proof (cases x)
    case (Inl path)
    then have "r = Some path" using Suc.prems x by simp
    then show ?thesis using scan_level_cases[OF x] Inl unfolding step by auto
  next
    case (Inr p)
    obtain seen' nxt where p: "p = (seen', nxt)" by (cases p)
    have "scan_depths e src most k (Suc depth) nxt seen' = Inr r" using Suc.prems x Inr p by simp
    from Suc.IH[OF this] show ?thesis using scan_level_cases[OF x] Inr p unfolding step by auto
  qed
qed simp

lemma secret_near_top_cases:
  assumes "secret_near_top e src most = Inr r"
  shows "r = None \<longleftrightarrow> \<not> is_secret_name (basename src)
     \<and> (\<forall>j < SECRET_SCAN_DEPTH. \<forall>rel \<in> set (tree_level e src j [[]]). \<not> shows_key e src rel)"
  using assms scan_depths_cases[of e src most SECRET_SCAN_DEPTH 0 "[[]]" 0 r]
  by (auto simp: secret_near_top_def split: if_splits)

section \<open>The default size of shared memory\<close>

lemma dec_length: "10 ^ k \<le> n \<Longrightarrow> k < length (dec n)"
proof (induction k arbitrary: n)
  case 0
  then show ?case using dec_not_Nil[of n] by simp
next
  case (Suc k)
  have "(1 :: nat) \<le> 10 ^ k" by simp
  then have "\<not> n < 10" using Suc.prems unfolding power_Suc by linarith
  moreover have "10 ^ k \<le> n div 10" using Suc.prems by (simp add: less_eq_div_iff_mult_less_eq mult.commute)
  ultimately show ?case using Suc.IH[of "n div 10"] by (subst dec.simps) simp
qed

lemma SHM_length: "s \<in> lang SHM \<Longrightarrow> length s \<le> 5"
proof -
  assume "s \<in> lang SHM"
  then obtain a b c where s: "s = a @ b @ c" "a \<in> lang digit" "b \<in> lang (UpTo digit 3)" "c \<in> lang SHM_UNIT"
    by (auto simp: SHM_def)
  have "\<forall>u \<in> lang digit. length u = 1" by (auto simp: digit_def)
  from lang_UpTo_length[OF this s(3)] have "length b \<le> 3" .
  then show ?thesis using s(1,2,4) by (auto simp: digit_def SHM_UNIT_def)
qed

lemma default_shm_too_long:
  assumes "625 / 64 \<le> cap" "cap < 16"
  shows "\<not> matches SHM (default_shm cap)"
proof -
  have "10000 \<le> cap * 1024" using assms(1) by simp
  then have "10000 \<le> \<lfloor>cap * 1024\<rfloor>" by (simp add: le_floor_iff)
  then have "10000 \<le> max 1 \<lfloor>cap * 1024\<rfloor>" by (rule max.coboundedI2)
  then have "nat 10000 \<le> nat (max 1 \<lfloor>cap * 1024\<rfloor>)" by (rule nat_mono)
  then have "10 ^ 4 \<le> nat (max 1 \<lfloor>cap * 1024\<rfloor>)" by simp
  from dec_length[OF this] have "5 < length (default_shm cap)"
    using assms(2) by (simp add: default_shm_def dec_int_def)
  then show ?thesis using SHM_length[of "default_shm cap"] by (auto simp: matches_iff)
qed

text \<open>
  Under a policy whose \<open>max_shm_gib\<close> is at least 9.765625 and below 16, the default the node itself
  writes has five digits, which its own pattern refuses: a run spec that leaves \<open>shm_size\<close> out is never
  accepted.
\<close>

lemma plan_run_no_default:
  assumes "625 / 64 \<le> max_shm_gib pol" "max_shm_gib pol < 16" "vstr (vget v (U ''shm_size'')) = None"
  shows "plan_run e pol v \<noteq> Inr p"
proof
  assume "plan_run e pol v = Inr p"
  then obtain spec shm where s: "v = JObj spec" "plan_shm e pol spec = Inr shm"
    by (auto simp: plan_run_def res_simps split: json.splits)
  have "vstr (obj_get spec (U ''shm_size'')) = None" using assms(3) s(1) by (simp add: vget_def)
  then show False using s(2) default_shm_too_long[OF assms(1,2)]
    by (auto simp: plan_shm_def Let_def res_simps shm_gib_def unwrap_or_def)
qed

end
