(* ===== verification/DockerCli.thy ===== *)
theory DockerCli
  imports PlanOk
begin

text \<open>
  The command lines the node gives the docker CLI (crates/ecnode/src/docker.rs): \<open>Docker::argv\<close>,
  \<open>gpus_arg\<close>, \<open>run_argv\<close>, \<open>gateway_config\<close> and \<open>gateway_argv\<close>; and how such a line reads back
  (\<open>docker run [OPTIONS] IMAGE [ARG...]\<close>).
\<close>

record docker =
  dk_binary :: ustr
  dk_context :: "ustr option"

definition docker_argv :: "docker \<Rightarrow> ustr list \<Rightarrow> ustr list" where
  "docker_argv d args0 =
     [dk_binary d] @ (case dk_context d of Some c \<Rightarrow> [U ''--context'', c] | None \<Rightarrow> []) @ args0"

definition gpus_arg :: "ustr list \<Rightarrow> ustr" where
  "gpus_arg uuids =
     (if 1 < length uuids then [34] @ U ''device='' @ join_with [44] uuids @ [34]
      else U ''device='' @ (case uuids of [] \<Rightarrow> [] | u # _ \<Rightarrow> u))"

text \<open>\<open>format!("{k}={v}")\<close> and \<open>format!("{a}:{b}")\<close>\<close>

definition eq_pair :: "ustr \<times> ustr \<Rightarrow> ustr" where
  "eq_pair kv = fst kv @ [61] @ snd kv"

definition flagged :: "ustr \<Rightarrow> ustr list \<Rightarrow> ustr list" where
  "flagged flag vs = concat (map (\<lambda>v. [flag, v]) vs)"

definition mount_arg :: "ustr \<times> ustr \<times> bool \<Rightarrow> ustr" where
  "mount_arg m = (case m of (src, dest, ro) \<Rightarrow> src @ [58] @ dest @ (if ro then U '':ro'' else []))"

definition volume_arg :: "ustr \<times> ustr \<Rightarrow> ustr" where
  "volume_arg v = fst v @ [58] @ snd v"

definition file_arg :: "ustr \<times> ustr \<times> ustr \<Rightarrow> ustr" where
  "file_arg f = (case f of (dest, host, content) \<Rightarrow> host @ [58] @ dest @ U '':ro'')"

definition run_argv :: "docker \<Rightarrow> run_plan \<Rightarrow> ustr list" where
  "run_argv d p = docker_argv d
     ([U ''run'', U ''-d'', U ''--pull'', U ''never'', U ''--name'', rp_name p, U ''--network'', rp_network p,
       U ''--network-alias'', rp_alias p, U ''--restart'', U ''no'', U ''--cap-drop'', U ''ALL'',
       U ''--security-opt'', U ''no-new-privileges:true'', U ''--pids-limit'', U ''4096'']
      @ (if rp_gpus p = [] then [] else [U ''--gpus'', gpus_arg (rp_gpus p)])
      @ [U ''--shm-size'', rp_shm p, U ''--ipc'', if rp_ipc_host p then U ''host'' else U ''private'']
      @ flagged (U ''--ulimit'') (map eq_pair (rp_ulimits p))
      @ flagged (U ''--label'') (map eq_pair (rp_labels p))
      @ flagged (U ''-v'') (map mount_arg (rp_mounts p))
      @ flagged (U ''-v'') (map volume_arg (rp_volumes p))
      @ flagged (U ''-v'') (map file_arg (rp_files p))
      @ flagged (U ''-e'') (map eq_pair (rp_env p))
      @ flagged (U ''-e'') (map fst (rp_secret_env p))
      @ [rp_image p] @ rp_argv p)"

section \<open>The gateway\<close>

definition GATEWAY_LISTEN :: nat where "GATEWAY_LISTEN = 8080"
definition nl :: ustr where "nl = [10]"

definition GATEWAY_SH :: ustr where
  "GATEWAY_SH = U ''printf '' @ [34] @ U ''%s'' @ [92] @ U ''n'' @ [34] @ U '' '' @ [34] @ U ''$NGINX_CONF'' @ [34]
     @ U '' > /tmp/nginx.conf && exec nginx -c /tmp/nginx.conf''"

definition gateway_config :: "ustr \<Rightarrow> int \<Rightarrow> fail + ustr" where
  "gateway_config host port =
     (if \<not> matches NGINX_HOST host then Inl (bad (U ''engine_host is not a safe container name''))
      else if \<not> (1 \<le> port \<and> port \<le> 65535) then Inl (bad (U ''engine_port must be 1-65535''))
      else Inr (concat (map (\<lambda>l. l @ nl)
        [U ''daemon off;'', U ''worker_processes 1;'', U ''pid /tmp/nginx.pid;'', U ''error_log /dev/stderr warn;'',
         U ''events { worker_connections 1024; }'', U ''stream {'', U ''  server {'',
         U ''    listen '' @ dec GATEWAY_LISTEN @ U '';'', U ''    proxy_pass '' @ host @ [58] @ dec_int port @ U '';'',
         U ''    proxy_connect_timeout 5s;'', U ''    proxy_timeout 1h;'', U ''  }'', U ''}''])))"

definition gateway_argv :: "docker \<Rightarrow> ustr \<Rightarrow> ustr \<Rightarrow> ustr \<Rightarrow> int \<Rightarrow> ustr \<Rightarrow> int \<Rightarrow> fail + ustr list" where
  "gateway_argv d img name instance_id host_port engine_host engine_port =
     try_bind (gateway_config engine_host engine_port) (\<lambda>conf.
     Inr (docker_argv d
       [U ''create'', U ''--pull'', U ''never'', U ''--name'', name, U ''--network'', U ''bridge'', U ''--restart'', U ''no'',
        U ''--read-only'', U ''--cap-drop'', U ''ALL'', U ''--security-opt'', U ''no-new-privileges:true'',
        U ''--pids-limit'', U ''256'', U ''--user'', U ''101:101'',
        U ''--tmpfs'', U ''/var/cache/nginx:rw,mode=1777,size=4m'', U ''--tmpfs'', U ''/var/run:rw,mode=1777,size=1m'',
        U ''--tmpfs'', U ''/tmp:rw,mode=1777,size=1m'',
        U ''-p'', U ''127.0.0.1:'' @ dec_int host_port @ U '':'' @ dec GATEWAY_LISTEN,
        U ''--label'', U ''engine-console=1'', U ''--label'', U ''engine-console.role=gateway'',
        U ''--label'', eq_pair (INSTANCE_LABEL, instance_id), U ''-e'', eq_pair (U ''NGINX_CONF'', conf),
        U ''--entrypoint'', U ''/bin/sh'', img, U ''-c'', GATEWAY_SH]))"

section \<open>Reading a command line back\<close>

text \<open>
  The words after \<open>run\<close> or \<open>create\<close>: a word that starts with a hyphen is an option; every option the
  node uses takes its value from the next word, but for the switches; the first other word is the image
  and what follows is the container's own command line. \<open>None\<close>: an option without its value, or no image.
\<close>

definition switches :: "ustr list" where "switches = [U ''-d'', U ''--read-only'']"

fun read_words :: "ustr list \<Rightarrow> ((ustr \<times> ustr) list \<times> ustr \<times> ustr list) option" where
  "read_words [] = None"
| "read_words (w # ws) =
     (if \<not> starts_with w [45] then Some ([], w, ws)
      else if w \<in> set switches then map_option (\<lambda>(os, r). ((w, []) # os, r)) (read_words ws)
      else (case ws of [] \<Rightarrow> None | v # ws' \<Rightarrow> map_option (\<lambda>(os, r). ((w, v) # os, r)) (read_words ws')))"

lemma U_starts [simp]: "starts_with (U (c # s)) [45] \<longleftrightarrow> of_char c = (45 :: nat)"
  by (simp add: starts_with_def U_def)

lemma read_words_flagged:
  assumes "starts_with flag [45]" "flag \<notin> set switches"
  shows "read_words (flagged flag vs @ ws) = map_option (\<lambda>(os, r). (map (Pair flag) vs @ os, r)) (read_words ws)"
proof (induction vs)
  case Nil
  then show ?case by (cases "read_words ws") (auto simp: flagged_def)
next
  case (Cons v vs)
  then show ?case using assms by (cases "read_words ws") (auto simp: flagged_def)
qed

definition run_options :: "run_plan \<Rightarrow> (ustr \<times> ustr) list" where
  "run_options p =
     [(U ''-d'', []), (U ''--pull'', U ''never''), (U ''--name'', rp_name p), (U ''--network'', rp_network p),
      (U ''--network-alias'', rp_alias p), (U ''--restart'', U ''no''), (U ''--cap-drop'', U ''ALL''),
      (U ''--security-opt'', U ''no-new-privileges:true''), (U ''--pids-limit'', U ''4096'')]
     @ (if rp_gpus p = [] then [] else [(U ''--gpus'', gpus_arg (rp_gpus p))])
     @ [(U ''--shm-size'', rp_shm p), (U ''--ipc'', if rp_ipc_host p then U ''host'' else U ''private'')]
     @ map (Pair (U ''--ulimit'')) (map eq_pair (rp_ulimits p))
     @ map (Pair (U ''--label'')) (map eq_pair (rp_labels p))
     @ map (Pair (U ''-v'')) (map mount_arg (rp_mounts p) @ map volume_arg (rp_volumes p) @ map file_arg (rp_files p))
     @ map (Pair (U ''-e'')) (map eq_pair (rp_env p) @ map fst (rp_secret_env p))"


lemma image_not_option: "valid_image i \<Longrightarrow> \<not> starts_with i [45]"
proof
  assume "valid_image i" and h: "starts_with i [45]"
  then obtain repo t d s where r: "i = repo @ s" "repo \<in> lang repo_re"
    by (auto simp: valid_image_def split_image_iff)
  have "matches repo_re repo" using r(2) by (simp add: matches_iff)
  moreover have "\<not> nullable repo_re" "deriv 45 repo_re = Zero" by code_simp+
  moreover have "\<not> matches Zero x" for x by (simp add: matches_iff)
  ultimately show False using h r(1) by (cases repo) (auto simp: starts_with_def)
qed

lemma switch_words: "starts_with (U ''-d'') [45]" "U ''-d'' \<in> set switches"
  by (simp_all add: switches_def)

lemma run_argv_read:
  assumes "valid_image (rp_image p)"
  shows "\<exists>ws. run_argv d p = docker_argv d (U ''run'' # ws) \<and> read_words ws = Some (run_options p, rp_image p, rp_argv p)"
proof -
  have img: "\<not> starts_with (rp_image p) [45]" using assms by (rule image_not_option)
  show ?thesis
    unfolding run_argv_def append_Cons append_Nil
    apply (rule exI, rule conjI, rule refl)
    using img by (simp add: read_words_flagged switches_def run_options_def)
qed

section \<open>What docker is told to mount\<close>

lemma VOLUME_avoids: "matches VOLUME n \<Longrightarrow> 58 \<notin> set n"
  unfolding matches_iff by (rule avoids_lang[of 58 VOLUME])
    (simp_all add: VOLUME_def avoids_Lit low_num_def low_char_def in_cls_def U_def Chr_def)

lemma dest_no_colon: "dest_ok d \<Longrightarrow> 58 \<notin> set d"
  by (auto simp: dest_ok_def bad_dest_char_def)

lemma split_on_colon: "58 \<notin> set a \<Longrightarrow> split_on 58 (a @ 58 # b) = a # split_on 58 b"
  by (rule split_on_append_sep)

lemma ro_suffix: "U '':ro'' = 58 # U ''ro''"
  by (simp add: U_def)

lemma join_path_no_colon: "58 \<notin> set a \<Longrightarrow> 58 \<notin> set b \<Longrightarrow> 58 \<notin> set (join_path a b)"
  by (auto simp: join_path_def)

lemma mount_arg_split:
  assumes "mount_ok e pol (src, dest, ro)"
  shows "split_on 58 (mount_arg (src, dest, ro)) = [src, dest, U ''ro'']"
proof -
  have "58 \<notin> set src" "58 \<notin> set dest" ro
    using assms dest_no_colon by (auto simp: mount_ok_def colon_comma_def)
  moreover have "58 \<notin> set (U ''ro'')" by (simp add: U_def)
  ultimately show ?thesis by (simp add: mount_arg_def ro_suffix split_on_colon split_on_no_sep)
qed

lemma volume_arg_split:
  assumes "volume_ok v"
  shows "split_on 58 (volume_arg v) = [fst v, snd v]"
  using assms VOLUME_avoids dest_no_colon by (simp add: volume_ok_def volume_arg_def split_on_colon split_on_no_sep)

lemma file_arg_split:
  assumes "file_ok fdir (dest, host, content)" "\<not> colon_comma fdir"
  shows "split_on 58 (file_arg (dest, host, content)) = [host, dest, U ''ro'']"
proof -
  have "58 \<notin> set host" using assms join_path_no_colon by (auto simp: file_ok_def plain_name_def colon_comma_def)
  moreover have "58 \<notin> set dest" using assms(1) dest_no_colon by (auto simp: file_ok_def)
  moreover have "58 \<notin> set (U ''ro'')" by (simp add: U_def)
  ultimately show ?thesis by (simp add: file_arg_def ro_suffix split_on_colon split_on_no_sep)
qed

lemma volume_flag: "(U ''-v'', x) \<in> set (run_options p) \<longleftrightarrow>
    x \<in> mount_arg ` set (rp_mounts p) \<union> volume_arg ` set (rp_volumes p) \<union> file_arg ` set (rp_files p)"
  by (auto simp: run_options_def)

lemma run_mounts:
  assumes "plan_ok e pol p" "(U ''-v'', x) \<in> set (run_options p)"
  shows "(\<exists>src dest. split_on 58 x = [src, dest, U ''ro''] \<and> source_ok e pol src)
    \<or> (\<exists>n dest. split_on 58 x = [join_path (files_dir (state_dir e) (rp_instance p)) n, dest, U ''ro''] \<and> plain_name n)
    \<or> (\<exists>n dest. split_on 58 x = [n, dest] \<and> matches VOLUME n)"
proof -
  consider (m) y where "y \<in> set (rp_mounts p)" "x = mount_arg y" | (v) y where "y \<in> set (rp_volumes p)" "x = volume_arg y"
    | (f) y where "y \<in> set (rp_files p)" "x = file_arg y"
    using assms(2) unfolding volume_flag by blast
  then show ?thesis
  proof cases
    case m
    then have "mount_ok e pol y" using assms(1) by (simp add: plan_ok_def)
    then show ?thesis using mount_arg_split[of e pol] m(2) by (cases y) (auto simp: mount_ok_def)
  next
    case v
    then have "volume_ok y" using assms(1) by (simp add: plan_ok_def)
    then show ?thesis using volume_arg_split v(2) by (auto simp: volume_ok_def)
  next
    case f
    have ok: "file_ok (files_dir (state_dir e) (rp_instance p)) y" "\<not> colon_comma (files_dir (state_dir e) (rp_instance p))"
      using assms(1) f(1) by (simp_all add: plan_ok_def)
    obtain dest host content where y: "y = (dest, host, content)" by (metis prod_cases3)
    obtain n where n: "host = join_path (files_dir (state_dir e) (rp_instance p)) n" "plain_name n"
      using ok(1) y by (auto simp: file_ok_def)
    show ?thesis using file_arg_split[OF ok(1)[unfolded y] ok(2)] f(2) y n by blast
  qed
qed

section \<open>Secret values\<close>

text \<open>\<open>docker.render\<close> (crates/ecnode/src/ops.rs): the command line of the plan, not run.\<close>

definition docker_render :: "renv \<Rightarrow> policy \<Rightarrow> docker \<Rightarrow> json \<Rightarrow> fail + ustr list" where
  "docker_render e pol d spec = try_bind (plan_run e pol spec) (\<lambda>p. Inr (run_argv d p))"

lemma run_argv_names_only:
  "map fst s = map fst (rp_secret_env p) \<Longrightarrow> run_argv d (p\<lparr>rp_secret_env := s\<rparr>) = run_argv d p"
  by (simp add: run_argv_def)

definition same_names :: "'e + ('k \<times> 'v) list \<Rightarrow> 'e + ('k \<times> 'v) list \<Rightarrow> bool" where
  "same_names a b \<longleftrightarrow> map_sum id (map fst) a = map_sum id (map fst) b"

lemma secret_env_names:
  assumes "map fst m = map fst m'" "map fst acc = map fst acc'"
  shows "same_names (try_fold (secret_step env) k m acc) (try_fold (secret_step env) k m' acc')"
  using assms
proof (induction m arbitrary: m' k acc acc')
  case (Cons x m)
  then obtain y n where m': "m' = y # n" "fst x = fst y" "map fst m = map fst n" by (cases m') auto
  show ?case
  proof (cases "secret_step env k x acc")
    case (Inl err)
    then have "secret_step env k y acc' = Inl err" using m'(2) by (auto simp: secret_step_def Let_def split: if_splits)
    then show ?thesis using Inl m'(1) by (simp add: same_names_def)
  next
    case (Inr r)
    then have s: "r = acc @ [(fst x, text_of (snd x))]"
      and t: "secret_step env k y acc' = Inr (acc' @ [(fst y, text_of (snd y))])"
      using m'(2) by (auto simp: secret_step_def Let_def split: if_splits)
    have "map fst r = map fst (acc' @ [(fst y, text_of (snd y))])" using s Cons.prems(2) m'(2) by simp
    from Cons.IH[OF m'(3) this] show ?thesis using Inr t m'(1) by simp
  qed
qed (simp add: same_names_def)


lemma try_bind_assoc: "try_bind (try_bind x f) g = try_bind x (\<lambda>a. try_bind (f a) g)"
  by (cases x) simp_all

lemma try_bind_eqI: "(\<And>a. f a = g a) \<Longrightarrow> try_bind x f = try_bind x g"
  by (cases x) simp_all

lemma same_names_bind:
  assumes "same_names a b" "\<And>x y. map fst x = map fst y \<Longrightarrow> f x = f y"
  shows "try_bind a f = try_bind b f"
proof (cases a)
  case (Inl x)
  then have "b = Inl x" using assms(1) by (cases b) (auto simp: same_names_def)
  then show ?thesis using Inl by simp
next
  case (Inr x)
  then obtain y where "b = Inr y" "map fst x = map fst y" using assms(1) by (cases b) (auto simp: same_names_def)
  then show ?thesis using Inr assms(2)[of x y] by simp
qed

lemma secret_values_irrelevant:
  assumes other: "\<And>k. k \<noteq> U ''secret_env'' \<Longrightarrow> obj_get s k = obj_get s' k"
    and names: "map fst (str_map (obj_get s (U ''secret_env''))) = map fst (str_map (obj_get s' (U ''secret_env'')))"
  shows "docker_render e pol d (JObj s) = docker_render e pol d (JObj s')"
proof -
  have same: "plan_name s = plan_name s'" "plan_instance s = plan_instance s'" "plan_image pol s = plan_image pol s'"
    "plan_argv s = plan_argv s'" "plan_port s = plan_port s'" "plan_alias n s = plan_alias n s'"
    "plan_gpus e s = plan_gpus e s'" "plan_labels i s = plan_labels i s'" "plan_env s = plan_env s'"
    "plan_mounts e pol s ds = plan_mounts e pol s' ds" "plan_volumes s ds = plan_volumes s' ds"
    "plan_files fdir s ds = plan_files fdir s' ds" "plan_shm e pol s = plan_shm e pol s'"
    "obj_get s (U ''ipc_host'') = obj_get s' (U ''ipc_host'')" "plan_ulimits s = plan_ulimits s'" for n i ds fdir
    by (simp_all add: plan_name_def plan_instance_def plan_image_def plan_argv_def plan_port_def plan_alias_def
        plan_gpus_def plan_labels_def plan_env_def plan_mounts_def plan_volumes_def plan_files_def plan_shm_def
        plan_ulimits_def other)
  have secret: "same_names (plan_secret_env env s) (plan_secret_env env s')" for env
    unfolding plan_secret_env_def using names by (rule secret_env_names) simp
  show ?thesis
    unfolding docker_render_def plan_run_def json.case same
    apply (simp only: try_bind_assoc)
    apply (intro try_bind_eqI)
    apply (rule same_names_bind[OF secret])
    apply (simp only: try_bind_assoc split_def)
    apply (intro try_bind_eqI)
    by (simp add: run_argv_def)
qed

end
