(* ===== verification/Prog.thy ===== *)
theory Prog
  imports Prelude
begin

text \<open>
  Operations that talk to a machine: functions of the calls made so far (the trace), which they extend.
  What the machine answers may depend on every call before it; nothing is assumed of it here. The
  theory has the ways to compose operations, and three judgements on them: \<open>triple\<close> relates what
  held before to the outcome, \<open>safe\<close> says that every call made satisfies a condition, and \<open>yields\<close>
  also says what a success leaves behind.
\<close>

type_synonym ('c, 'e, 'a) op = "'c list \<Rightarrow> ('e + 'a) \<times> 'c list"

section \<open>Composing operations\<close>

definition pret :: "'a \<Rightarrow> ('c, 'e, 'a) op" where "pret x = (\<lambda>t. (Inr x, t))"
definition pfail :: "'e \<Rightarrow> ('c, 'e, 'a) op" where "pfail e = (\<lambda>t. (Inl e, t))"

text \<open>The \<open>?\<close> operator, and an operation whose error the caller looks at.\<close>

definition pcatch :: "('c, 'e, 'a) op \<Rightarrow> ('e + 'a \<Rightarrow> ('c, 'f, 'b) op) \<Rightarrow> ('c, 'f, 'b) op" where
  "pcatch m k = (\<lambda>t. case m t of (r, t') \<Rightarrow> k r t')"

definition pbind :: "('c, 'e, 'a) op \<Rightarrow> ('a \<Rightarrow> ('c, 'e, 'b) op) \<Rightarrow> ('c, 'e, 'b) op" where
  "pbind m k = pcatch m (\<lambda>r. case r of Inl e \<Rightarrow> pfail e | Inr a \<Rightarrow> k a)"

text \<open>\<open>for x in xs { f(x)? }\<close>\<close>

fun peach :: "('a \<Rightarrow> ('c, 'e, unit) op) \<Rightarrow> 'a list \<Rightarrow> ('c, 'e, unit) op" where
  "peach f [] = pret ()"
| "peach f (x # xs) = pbind (f x) (\<lambda>_. peach f xs)"

text \<open>\<open>xs.map(f)\<close>, stopping at the first error.\<close>

fun pmap :: "('a \<Rightarrow> ('c, 'e, 'b) op) \<Rightarrow> 'a list \<Rightarrow> ('c, 'e, 'b list) op" where
  "pmap f [] = pret []"
| "pmap f (x # xs) = pbind (f x) (\<lambda>y. pbind (pmap f xs) (\<lambda>ys. pret (y # ys)))"

text \<open>One call: the machine's answer, and the call on the trace.\<close>

definition ask :: "('c list \<Rightarrow> 'a) \<Rightarrow> 'c \<Rightarrow> ('c, 'e, 'a) op" where
  "ask reply c = (\<lambda>t. (Inr (reply t), t @ [c]))"

text \<open>A call that goes on the trace with its answer.\<close>

definition told :: "('c list \<Rightarrow> 'a) \<Rightarrow> ('a \<Rightarrow> 'c) \<Rightarrow> ('c, 'e, 'a) op" where
  "told reply c = (\<lambda>t. (Inr (reply t), t @ [c (reply t)]))"

lemmas op_defs = pret_def pfail_def pcatch_def pbind_def ask_def told_def

section \<open>What a trace contains\<close>

text \<open>\<open>trace_ok P t\<close>: every call of the trace satisfies \<open>P\<close>, given the calls before it.\<close>

definition trace_ok :: "('c list \<Rightarrow> 'c \<Rightarrow> bool) \<Rightarrow> 'c list \<Rightarrow> bool" where
  "trace_ok P t \<longleftrightarrow> (\<forall>i < length t. P (take i t) (t ! i))"

lemma trace_ok_Nil [simp]: "trace_ok P []"
  by (simp add: trace_ok_def)

lemma trace_ok_snoc: "trace_ok P (t @ [c]) \<longleftrightarrow> trace_ok P t \<and> P t c"
  by (auto simp: trace_ok_def less_Suc_eq nth_append)

text \<open>
  \<open>triple P A m Q\<close>: started after a trace that is checked and satisfies \<open>A\<close>, the operation leaves a
  checked trace and an outcome and trace related by \<open>Q\<close>.
\<close>

definition triple :: "('c list \<Rightarrow> 'c \<Rightarrow> bool) \<Rightarrow> ('c list \<Rightarrow> bool) \<Rightarrow> ('c, 'e, 'a) op \<Rightarrow> ('e + 'a \<Rightarrow> 'c list \<Rightarrow> bool) \<Rightarrow> bool" where
  "triple P A m Q \<longleftrightarrow> (\<forall>t. trace_ok P t \<and> A t \<longrightarrow> trace_ok P (snd (m t)) \<and> Q (fst (m t)) (snd (m t)))"

lemma triple_weaken:
  "triple P A m Q \<Longrightarrow> (\<And>t. A' t \<Longrightarrow> A t) \<Longrightarrow> (\<And>r t. Q r t \<Longrightarrow> Q' r t) \<Longrightarrow> triple P A' m Q'"
  by (auto simp: triple_def)

lemma triple_ret: "(\<And>t. A t \<Longrightarrow> Q (Inr x) t) \<Longrightarrow> triple P A (pret x) Q"
  by (simp add: triple_def pret_def)

lemma triple_fail: "(\<And>t. A t \<Longrightarrow> Q (Inl e) t) \<Longrightarrow> triple P A (pfail e) Q"
  by (simp add: triple_def pfail_def)

lemma triple_catch:
  assumes "triple P A m R" "\<And>r. triple P (R r) (k r) Q"
  shows "triple P A (pcatch m k) Q"
  unfolding triple_def
proof (intro allI impI)
  fix t assume "trace_ok P t \<and> A t"
  then have "trace_ok P (snd (m t)) \<and> R (fst (m t)) (snd (m t))" using assms(1) by (simp add: triple_def)
  then show "trace_ok P (snd (pcatch m k t)) \<and> Q (fst (pcatch m k t)) (snd (pcatch m k t))"
    using assms(2)[of "fst (m t)"] by (simp add: triple_def pcatch_def split_def)
qed

lemma triple_bind:
  assumes "triple P A m R" "\<And>a. triple P (R (Inr a)) (k a) Q" "\<And>e t. R (Inl e) t \<Longrightarrow> Q (Inl e) t"
  shows "triple P A (pbind m k) Q"
  unfolding pbind_def using assms(1)
proof (rule triple_catch)
  fix r
  show "triple P (R r) (case r of Inl e \<Rightarrow> pfail e | Inr a \<Rightarrow> k a) Q"
    using assms(2,3) by (cases r) (auto intro: triple_fail)
qed

lemma triple_ask:
  assumes "\<And>t. A t \<Longrightarrow> trace_ok P t \<Longrightarrow> P t c" "\<And>t. A t \<Longrightarrow> Q (Inr (reply t)) (t @ [c])"
  shows "triple P A (ask reply c) Q"
  using assms by (simp add: triple_def ask_def trace_ok_snoc)

lemma triple_told:
  assumes "\<And>t. A t \<Longrightarrow> trace_ok P t \<Longrightarrow> P t (c (reply t))" "\<And>t. A t \<Longrightarrow> Q (Inr (reply t)) (t @ [c (reply t)])"
  shows "triple P A (told reply c) Q"
  using assms by (simp add: triple_def told_def trace_ok_snoc)

lemma triple_each:
  assumes "\<And>x. x \<in> set xs \<Longrightarrow> triple P A (f x) (\<lambda>r t. (\<exists>e. r = Inl e \<and> E t) \<or> r = Inr () \<and> A t)"
  shows "triple P A (peach f xs) (\<lambda>r t. (\<exists>e. r = Inl e \<and> E t) \<or> r = Inr () \<and> A t)"
  using assms
proof (induction xs)
  case (Cons x xs)
  show ?case unfolding peach.simps
  proof (rule triple_bind)
    show "triple P A (f x) (\<lambda>r t. (\<exists>e. r = Inl e \<and> E t) \<or> r = Inr () \<and> A t)" using Cons.prems by simp
    show "triple P (\<lambda>t. (\<exists>e. Inr a = Inl e \<and> E t) \<or> Inr a = Inr () \<and> A t) (peach f xs)
      (\<lambda>r t. (\<exists>e. r = Inl e \<and> E t) \<or> r = Inr () \<and> A t)" for a :: unit
      using Cons by (auto intro: triple_weaken)
  qed simp
qed (auto intro: triple_ret)

text \<open>From the empty trace.\<close>

lemma triple_start:
  assumes "triple P (\<lambda>t. t = []) m Q" "m [] = (r, t)"
  shows "trace_ok P t" and "Q r t"
  using assms by (auto simp: triple_def)

section \<open>Safe operations\<close>

definition safe :: "('c list \<Rightarrow> 'c \<Rightarrow> bool) \<Rightarrow> ('c list \<Rightarrow> bool) \<Rightarrow> ('c, 'e, 'a) op \<Rightarrow> bool" where
  "safe P A m \<longleftrightarrow> triple P A m (\<lambda>_ _. True)"

lemma safe_ret [intro!]: "safe P A (pret x)"
  by (simp add: safe_def triple_ret)

lemma safe_fail [intro!]: "safe P A (pfail e)"
  by (simp add: safe_def triple_fail)

lemma safe_bind: "triple P A m (\<lambda>r t. \<forall>a. r = Inr a \<longrightarrow> B a t) \<Longrightarrow> (\<And>a. safe P (B a) (k a)) \<Longrightarrow> safe P A (pbind m k)"
  unfolding safe_def by (erule triple_bind) (auto elim!: triple_weaken)

lemma safe_step: "safe P A m \<Longrightarrow> (\<And>a. safe P (\<lambda>_. True) (k a)) \<Longrightarrow> safe P A (pbind m k)"
  by (rule safe_bind[where B = "\<lambda>_ _. True"]) (auto simp: safe_def elim!: triple_weaken)

lemma safe_ask: "(\<And>t. A t \<Longrightarrow> P t c) \<Longrightarrow> safe P A (ask reply c)"
  unfolding safe_def by (rule triple_ask) auto

lemma safe_weaken: "safe P A m \<Longrightarrow> (\<And>t. A' t \<Longrightarrow> A t) \<Longrightarrow> safe P A' m"
  unfolding safe_def by (erule triple_weaken) auto

lemma safe_start: "safe P (\<lambda>_. True) m \<Longrightarrow> trace_ok P (snd (m []))"
  by (simp add: safe_def triple_def)

section \<open>Facts that stay true as the trace grows\<close>

definition stable :: "('c list \<Rightarrow> bool) \<Rightarrow> bool" where
  "stable A \<longleftrightarrow> (\<forall>t c. A t \<longrightarrow> A (t @ [c]))"

definition happened :: "'c list \<Rightarrow> 'c list \<Rightarrow> bool" where
  "happened cs t \<longleftrightarrow> (\<exists>u v. t = u @ cs @ v)"

lemma stable_happened [simp]: "stable (happened cs)"
  unfolding stable_def happened_def by (metis append_assoc)

lemma stable_conj [simp]: "stable A \<Longrightarrow> stable B \<Longrightarrow> stable (\<lambda>t. A t \<and> B t)"
  by (simp add: stable_def)

lemma stable_disj [simp]: "stable A \<Longrightarrow> stable B \<Longrightarrow> stable (\<lambda>t. A t \<or> B t)"
  by (auto simp: stable_def)

lemma stable_all [simp]: "(\<And>x. stable (A x)) \<Longrightarrow> stable (\<lambda>t. \<forall>x \<in> S. A x t)"
  by (auto simp: stable_def)

lemma stable_ex [simp]: "(\<And>x. stable (A x)) \<Longrightarrow> stable (\<lambda>t. \<exists>x. A x t)"
  by (auto simp: stable_def)

lemma happened_now: "happened cs (u @ cs)"
  unfolding happened_def by (metis append_Nil2)

section \<open>Operations that keep such a fact\<close>

text \<open>\<open>yields P A m B\<close>: when \<open>m\<close> succeeds after \<open>A\<close>, then \<open>B\<close> holds of its result and the trace.\<close>

definition yields :: "('c list \<Rightarrow> 'c \<Rightarrow> bool) \<Rightarrow> ('c list \<Rightarrow> bool) \<Rightarrow> ('c, 'e, 'a) op \<Rightarrow> ('a \<Rightarrow> 'c list \<Rightarrow> bool) \<Rightarrow> bool" where
  "yields P A m B \<longleftrightarrow> triple P A m (\<lambda>r t. \<forall>a. r = Inr a \<longrightarrow> B a t)"

lemma yields_bind: "yields P A m B \<Longrightarrow> (\<And>a. yields P (B a) (k a) C) \<Longrightarrow> yields P A (pbind m k) C"
  unfolding yields_def by (erule triple_bind) (auto elim!: triple_weaken)

lemma yields_ret: "(\<And>t. A t \<Longrightarrow> B x t) \<Longrightarrow> yields P A (pret x) B"
  by (simp add: yields_def triple_ret)

lemma yields_fail: "yields P A (pfail e) B"
  by (simp add: yields_def triple_fail)

lemma yields_ask: "(\<And>t. A t \<Longrightarrow> P t c) \<Longrightarrow> (\<And>t. A t \<Longrightarrow> B (reply t) (t @ [c])) \<Longrightarrow> yields P A (ask reply c) B"
  unfolding yields_def by (rule triple_ask) auto

lemma yields_weaken: "yields P A m B \<Longrightarrow> (\<And>t. A' t \<Longrightarrow> A t) \<Longrightarrow> (\<And>a t. B a t \<Longrightarrow> B' a t) \<Longrightarrow> yields P A' m B'"
  unfolding yields_def by (erule triple_weaken) auto

lemma yields_safe: "yields P A m B \<Longrightarrow> safe P A m"
  unfolding yields_def safe_def by (erule triple_weaken) auto

lemma yields_start:
  "yields P (\<lambda>_. True) m B \<Longrightarrow> m [] = (r, t) \<Longrightarrow> trace_ok P t \<and> (\<forall>a. r = Inr a \<longrightarrow> B a t)"
  unfolding yields_def triple_def by (drule spec[of _ "[]"]) simp

lemma yields_if: "(b \<Longrightarrow> yields P A m B) \<Longrightarrow> (\<not> b \<Longrightarrow> yields P A m' B) \<Longrightarrow> yields P A (if b then m else m') B"
  by simp

text \<open>Calls that change nothing the caller relies on.\<close>

lemma yields_stable: "stable A \<Longrightarrow> (\<And>t. A t \<Longrightarrow> P t c) \<Longrightarrow> yields P A (ask reply c) (\<lambda>_. A)"
  by (rule yields_ask) (auto simp: stable_def)

lemma yields_each:
  assumes "\<And>S x. x \<in> set xs \<Longrightarrow> yields P (A S) (f x) (\<lambda>_. A (insert x S))"
  shows "yields P (A S) (peach f xs) (\<lambda>_. A (S \<union> set xs))"
  using assms
proof (induction xs arbitrary: S)
  case (Cons x xs)
  have e: "S \<union> set (x # xs) = insert x S \<union> set xs" by auto
  show ?case unfolding peach.simps e
  proof (rule yields_bind)
    show "yields P (A S) (f x) (\<lambda>_. A (insert x S))" by (rule Cons.prems) simp
    show "yields P (A (insert x S)) (peach f xs) (\<lambda>_. A (insert x S \<union> set xs))"
      by (rule Cons.IH) (rule Cons.prems, simp)
  qed
qed (auto intro: yields_ret)

lemma yields_all: "(\<And>x. x \<in> set xs \<Longrightarrow> yields P A (f x) (\<lambda>_. A)) \<Longrightarrow> yields P A (peach f xs) (\<lambda>_. A)"
  by (rule yields_each[where A = "\<lambda>_. A"])

section \<open>Both outcomes\<close>

text \<open>\<open>runs_to P A m E B\<close>: after \<open>A\<close>, a failure of \<open>m\<close> leaves \<open>E\<close> and a success with result \<open>x\<close> leaves \<open>B x\<close>.\<close>

definition runs_to :: "('c list \<Rightarrow> 'c \<Rightarrow> bool) \<Rightarrow> ('c list \<Rightarrow> bool) \<Rightarrow> ('c, 'e, 'a) op \<Rightarrow> ('c list \<Rightarrow> bool) \<Rightarrow> ('a \<Rightarrow> 'c list \<Rightarrow> bool) \<Rightarrow> bool" where
  "runs_to P A m E B \<longleftrightarrow> triple P A m (\<lambda>r t. case r of Inl e \<Rightarrow> E t | Inr a \<Rightarrow> B a t)"

lemma outcome_ret: "(\<And>t. A t \<Longrightarrow> B x t) \<Longrightarrow> runs_to P A (pret x) E B"
  by (simp add: runs_to_def triple_ret)

lemma outcome_fail: "(\<And>t. A t \<Longrightarrow> E t) \<Longrightarrow> runs_to P A (pfail e) E B"
  by (simp add: runs_to_def triple_fail)

lemma outcome_bind: "runs_to P A m E B \<Longrightarrow> (\<And>a. runs_to P (B a) (k a) E C) \<Longrightarrow> runs_to P A (pbind m k) E C"
  unfolding runs_to_def by (erule triple_bind) auto

lemma outcome_told:
  "(\<And>t. A t \<Longrightarrow> P t (c (reply t))) \<Longrightarrow> (\<And>t. A t \<Longrightarrow> B (reply t) (t @ [c (reply t)])) \<Longrightarrow> runs_to P A (told reply c) E B"
  unfolding runs_to_def by (rule triple_told) auto

lemma outcome_ask:
  "(\<And>t. A t \<Longrightarrow> P t c) \<Longrightarrow> (\<And>t. A t \<Longrightarrow> B (reply t) (t @ [c])) \<Longrightarrow> runs_to P A (ask reply c) E B"
  unfolding runs_to_def by (rule triple_ask) auto

lemma outcome_weaken:
  "runs_to P A m E B \<Longrightarrow> (\<And>t. A' t \<Longrightarrow> A t) \<Longrightarrow> (\<And>t. E t \<Longrightarrow> E' t) \<Longrightarrow> (\<And>a t. B a t \<Longrightarrow> B' a t) \<Longrightarrow> runs_to P A' m E' B'"
  unfolding runs_to_def by (erule triple_weaken) (auto split: sum.splits)

lemma outcome_pure: "(\<And>t. A t \<Longrightarrow> E t) \<Longrightarrow> (\<And>a. b = Inr a \<Longrightarrow> runs_to P A (k a) E B) \<Longrightarrow>
    runs_to P A (case b of Inl e \<Rightarrow> pfail (g e) | Inr a \<Rightarrow> k a) E B"
  by (cases b) (auto intro: outcome_fail)

lemma outcome_catch:
  assumes "runs_to P A m E B" "\<And>e. runs_to P E (k (Inl e)) E' C" "\<And>a. runs_to P (B a) (k (Inr a)) E' C"
  shows "runs_to P A (pcatch m k) E' C"
  unfolding runs_to_def
proof (rule triple_catch)
  show "triple P A m (\<lambda>r t. case r of Inl e \<Rightarrow> E t | Inr a \<Rightarrow> B a t)" using assms(1) by (simp add: runs_to_def)
  show "triple P (\<lambda>t. case r of Inl e \<Rightarrow> E t | Inr a \<Rightarrow> B a t) (k r) (\<lambda>r t. case r of Inl e \<Rightarrow> E' t | Inr a \<Rightarrow> C a t)" for r
    using assms(2,3) by (cases r) (auto simp: runs_to_def)
qed

lemma outcome_cond: "(b \<Longrightarrow> runs_to P A m E B) \<Longrightarrow> (\<not> b \<Longrightarrow> runs_to P A m' E B) \<Longrightarrow> runs_to P A (if b then m else m') E B"
  by simp

lemma outcome_when: "(b \<Longrightarrow> runs_to P A m E B) \<Longrightarrow> runs_to P (\<lambda>t. b \<and> A t) m E B"
  by (cases b) (auto simp: runs_to_def triple_def)

lemma outcome_yields: "runs_to P A m E B \<Longrightarrow> yields P A m B"
  unfolding runs_to_def yields_def by (erule triple_weaken) auto

lemma outcome_start:
  "runs_to P A m E B \<Longrightarrow> A [] \<Longrightarrow> m [] = (r, t) \<Longrightarrow> trace_ok P t \<and> (case r of Inl e \<Rightarrow> E t | Inr a \<Rightarrow> B a t)"
  unfolding runs_to_def triple_def by (drule spec[of _ "[]"]) (simp split: sum.splits)

text \<open>An operation that leaves a fact as it was, whatever the outcome.\<close>

definition keeps :: "('c list \<Rightarrow> 'c \<Rightarrow> bool) \<Rightarrow> ('c list \<Rightarrow> bool) \<Rightarrow> ('c, 'e, 'a) op \<Rightarrow> bool" where
  "keeps P A m \<longleftrightarrow> runs_to P A m A (\<lambda>_. A)"

lemma keeps_ret [intro!]: "keeps P A (pret x)"
  by (simp add: keeps_def outcome_ret)

lemma keeps_fail [intro!]: "keeps P A (pfail e)"
  by (simp add: keeps_def outcome_fail)

lemma keeps_bind [intro!]: "keeps P A m \<Longrightarrow> (\<And>a. keeps P A (k a)) \<Longrightarrow> keeps P A (pbind m k)"
  unfolding keeps_def by (rule outcome_bind)

lemma keeps_catch: "keeps P A m \<Longrightarrow> (\<And>r. keeps P A (k r)) \<Longrightarrow> keeps P A (pcatch m k)"
  unfolding keeps_def by (rule outcome_catch)

lemma keeps_outcome: "keeps P A m \<Longrightarrow> (\<And>t. A t \<Longrightarrow> E t) \<Longrightarrow> (\<And>a t. A t \<Longrightarrow> B a t) \<Longrightarrow> runs_to P A m E B"
  unfolding keeps_def by (erule outcome_weaken)

lemma keeps_step:
  "keeps P A m \<Longrightarrow> (\<And>t. A t \<Longrightarrow> E t) \<Longrightarrow> (\<And>a. runs_to P A (k a) E C) \<Longrightarrow> runs_to P A (pbind m k) E C"
  by (rule outcome_bind[where B = "\<lambda>_. A"]) (auto elim!: keeps_outcome)

end
