(* ===== verification/World.thy ===== *)
theory World
  imports Confine Server Prog
begin

text \<open>
  Operations of the node that act on its machine: commands through the \<open>Runner\<close> and calls to the file
  system. An operation is a function of the calls made so far (the trace), which it extends; \<open>world\<close>
  holds what the machine answers to each call, where an answer may depend on every call before it. Nothing
  is assumed of the answers. A directory is made with mode 0700, a new file with \<open>O_EXCL\<close>, \<open>O_NOFOLLOW\<close> and
  mode 0644; how long a command may take is not recorded (rc 124 says it took too long).
\<close>

type_synonym env_map = "(ustr \<times> ustr) list"

datatype call =
    Run "ustr list" "env_map option"
  | MkDir ustr
  | IsDir ustr
  | LinkMeta ustr
  | Chmod ustr nat
  | ReadDir ustr
  | Unlink ustr
  | CreateNew ustr
  | WriteAll ustr ustr
  | Rename ustr ustr
  | RemoveTree ustr
  | Urandom nat
  | PortFree int

record cmd_result =
  cr_rc :: int
  cr_out :: ustr
  cr_err :: ustr
  cr_truncated :: bool

type_synonym trace = "call list"

record world =
  w_run :: "trace \<Rightarrow> ustr list \<Rightarrow> env_map option \<Rightarrow> cmd_result"
  w_io :: "trace \<Rightarrow> call \<Rightarrow> errno option"
  w_yes :: "trace \<Rightarrow> call \<Rightarrow> bool"
  w_link :: "trace \<Rightarrow> ustr \<Rightarrow> bool option"
  w_dir :: "trace \<Rightarrow> ustr \<Rightarrow> errno + (errno + ustr) list"
  w_random :: "trace \<Rightarrow> nat \<Rightarrow> u8 list"
  w_json :: "ustr \<Rightarrow> json option"
  w_scrub :: "ustr \<Rightarrow> ustr"
  w_errno :: "errno \<Rightarrow> ustr"
  w_float :: "rat \<Rightarrow> ustr"

type_synonym 'a prog = "(call, handler_error, 'a) op"

section \<open>Calls\<close>

definition op_error :: "fail \<Rightarrow> handler_error" where
  "op_error f = (case f of FOp c m \<Rightarrow> HOp c m | FOs n \<Rightarrow> HInternal (os_error_name n) None)"

definition plift :: "fail + 'a \<Rightarrow> ('c, handler_error, 'a) op" where
  "plift r = (case r of Inl f \<Rightarrow> pfail (op_error f) | Inr a \<Rightarrow> pret a)"

definition run_cmd :: "world \<Rightarrow> ustr list \<Rightarrow> env_map option \<Rightarrow> cmd_result prog" where
  "run_cmd w argv env = ask (\<lambda>t. w_run w t argv env) (Run argv env)"

definition io_call :: "world \<Rightarrow> call \<Rightarrow> errno option prog" where
  "io_call w c = ask (\<lambda>t. w_io w t c) c"

definition yes_call :: "world \<Rightarrow> call \<Rightarrow> bool prog" where
  "yes_call w c = ask (\<lambda>t. w_yes w t c) c"

definition link_call :: "world \<Rightarrow> ustr \<Rightarrow> bool option prog" where
  "link_call w p = ask (\<lambda>t. w_link w t p) (LinkMeta p)"

definition dir_call :: "world \<Rightarrow> ustr \<Rightarrow> (errno + (errno + ustr) list) prog" where
  "dir_call w p = ask (\<lambda>t. w_dir w t p) (ReadDir p)"

definition bytes_call :: "world \<Rightarrow> nat \<Rightarrow> u8 list prog" where
  "bytes_call w n = ask (\<lambda>t. w_random w t n) (Urandom n)"

lemmas prog_defs = op_defs plift_def

lemma triple_lift:
  "(\<And>x t. r = Inr x \<Longrightarrow> A t \<Longrightarrow> Q (Inr x) t) \<Longrightarrow> (\<And>f t. r = Inl f \<Longrightarrow> A t \<Longrightarrow> Q (Inl (op_error f)) t) \<Longrightarrow> triple P A (plift r) Q"
  by (cases r) (auto simp: plift_def intro!: triple_ret triple_fail)

lemmas triple_calls = run_cmd_def io_call_def yes_call_def link_call_def dir_call_def bytes_call_def

end
