(* ===== verification/DockerText.thy ===== *)
theory DockerText
  imports DockerCli World
begin

text \<open>
  What the node reads from docker and says about it (crates/ecnode/src/docker.rs): failures as protocol
  errors, container ownership by label, the CLI's context, and the environment a child process gets
  (crates/ecnode/src/util/proc.rs). The string helpers are those of crates/ecnode/src/util/py.rs.
\<close>

definition CONFLICT :: ustr where "CONFLICT = U ''conflict''"
definition PORT_IN_USE :: ustr where "PORT_IN_USE = U ''port_in_use''"
definition DOCKER_ERROR :: ustr where "DOCKER_ERROR = U ''docker_error''"

section \<open>Text\<close>

definition isspace :: "nat \<Rightarrow> bool" where
  "isspace c \<longleftrightarrow> in_cls c [(9, 13), (28, 32), (133, 133), (160, 160), (5760, 5760), (8192, 8202), (8232, 8233),
     (8239, 8239), (8287, 8287), (12288, 12288)]"

definition strip :: "ustr \<Rightarrow> ustr" where
  "strip s = dropWhile isspace (rev (dropWhile isspace (rev s)))"

definition is_line_break :: "nat \<Rightarrow> bool" where
  "is_line_break c \<longleftrightarrow> in_cls c [(10, 13), (28, 30), (133, 133), (8232, 8233)]"

text \<open>A carriage return followed by a newline is one break; a text that ends in a break has no empty last line.\<close>

fun splitlines_from :: "ustr \<Rightarrow> ustr \<Rightarrow> ustr list" where
  "splitlines_from cur [] = (if cur = [] then [] else [cur])"
| "splitlines_from cur (c # s) =
     (if c = 13 \<and> take 1 s = [10] then cur # splitlines_from [] (drop 1 s)
      else if is_line_break c then cur # splitlines_from [] s
      else splitlines_from (cur @ [c]) s)"

definition splitlines :: "ustr \<Rightarrow> ustr list" where
  "splitlines s = splitlines_from [] s"

fun contains :: "ustr \<Rightarrow> ustr \<Rightarrow> bool" where
  "contains [] p = (p = [])"
| "contains (c # s) p = (starts_with (c # s) p \<or> contains s p)"

definition lowered :: "ustr \<Rightarrow> ustr" where
  "lowered s = map lower_char s"

definition clean_text :: "ustr \<Rightarrow> nat \<Rightarrow> ustr" where
  "clean_text s n = take n (filter (\<lambda>c. \<not> is_ctrl c) s)"

section \<open>Failures\<close>

definition cr_ok :: "cmd_result \<Rightarrow> bool" where
  "cr_ok res \<longleftrightarrow> cr_rc res = 0"

definition first_line :: "world \<Rightarrow> cmd_result \<Rightarrow> ustr" where
  "first_line w res =
     (let src = (if cr_err res = [] then cr_out res else cr_err res);
          line = (case splitlines (strip src) of [] \<Rightarrow> U ''exit status '' @ dec_int (cr_rc res) | l # _ \<Rightarrow> l)
      in clean_text (w_scrub w line) 300)"

definition missing :: "cmd_result \<Rightarrow> bool" where
  "missing res \<longleftrightarrow>
     (let t = lowered (cr_err res @ cr_out res) in
      contains t (U ''no such container'') \<or> contains t (U ''no such object'') \<or> contains t (U ''not found''))"

definition docker_error :: "world \<Rightarrow> ustr \<Rightarrow> cmd_result \<Rightarrow> handler_error" where
  "docker_error w verb res =
     (let text = lowered (cr_err res @ [10] @ cr_out res); line = first_line w res; has = (\<lambda>s. contains text (U s));
          said = (\<lambda>m. U ''docker '' @ verb @ U m @ line @ U '')'') in
      if cr_rc res = 124 then
        HOp TIMEOUT (U ''docker '' @ verb @ U '' did not finish in time; it may or may not have taken effect'')
      else if cr_rc res = 127 then
        HOp DOCKER_ERROR (U ''the docker CLI is not installed on this machine (or not on PATH)'')
      else if has ''cannot connect to the docker daemon'' \<or> has ''permission denied while trying to connect'' then
        HOp DOCKER_ERROR (said '': cannot reach the docker daemon ('')
      else if has ''no such container'' \<or> has ''no such object'' then
        HOp NOT_FOUND (said '': no such container ('')
      else if has ''no such image'' \<or> has ''unable to find image'' \<or> has ''manifest unknown'' then
        HOp NOT_FOUND (said '': the image is not on this machine; pull it first ('')
      else if has ''port is already allocated'' \<or> has ''address already in use'' then
        HOp PORT_IN_USE (said '': the host port is already in use ('')
      else if has ''is already in use by container'' \<or> has ''conflict'' then
        HOp CONFLICT (said '': a container with that name already exists ('')
      else HOp DOCKER_ERROR (U ''docker '' @ verb @ U '' failed: '' @ line))"

section \<open>Ownership\<close>

definition labels_of :: "world \<Rightarrow> json \<Rightarrow> (ustr \<times> ustr) list" where
  "labels_of w doc =
     (case vget doc (U ''Config'') of
        None \<Rightarrow> []
      | Some c \<Rightarrow> (case vget c (U ''Labels'') of
          Some (JObj m) \<Rightarrow> map (\<lambda>(k, v). (k, str_value (w_float w) v)) m
        | _ \<Rightarrow> []))"

definition label :: "(ustr \<times> ustr) list \<Rightarrow> ustr \<Rightarrow> ustr option" where
  "label labels key = map_option snd (find (\<lambda>kv. fst kv = key) labels)"

definition check_owned :: "world \<Rightarrow> json \<Rightarrow> ustr \<Rightarrow> ustr option \<Rightarrow> ustr option \<Rightarrow> handler_error + unit" where
  "check_owned w doc name role instance_id =
     (let labels = labels_of w doc in
      if label labels LABEL \<noteq> Some (U ''1'') then
        Inl (HOp NOT_OWNED (U ''container '' @ py_repr name
          @ U '' was not created by Engine Console; this node will not touch it''))
      else if nonempty role \<noteq> None \<and> label labels ROLE_LABEL \<noteq> role then
        Inl (HOp NOT_OWNED (U ''container '' @ py_repr name @ U '' is not a console '' @ unwrap_or [] role))
      else if nonempty instance_id \<noteq> None \<and> label labels INSTANCE_LABEL \<noteq> instance_id then
        Inl (HOp NOT_OWNED (U ''container '' @ py_repr name @ U '' belongs to another console instance''))
      else Inr ())"

definition container_name :: "world \<Rightarrow> json \<Rightarrow> handler_error + ustr" where
  "container_name w r =
     (let wrong = Inl (HOp BAD_ARGS (repr_take (str_value (w_float w) r) 130 @ U '' is not a valid container name'')) in
      case json_str r of
        Some s \<Rightarrow> if matches CONTAINER_REF s then Inr s else wrong
      | None \<Rightarrow> wrong)"

section \<open>A child's environment\<close>

definition CHILD_ENV_KEEP :: "ustr list" where
  "CHILD_ENV_KEEP = map U [''HOME'', ''XDG_RUNTIME_DIR'', ''DOCKER_HOST'', ''DOCKER_CONTEXT'']"
definition DEFAULT_PATH :: ustr where
  "DEFAULT_PATH = U ''/usr/local/sbin:/usr/local/bin:/usr/sbin:/usr/bin:/sbin:/bin''"
definition CHILD_LANG :: ustr where "CHILD_LANG = U ''C.UTF-8''"
definition TOOL_PATH_ENV :: ustr where "TOOL_PATH_ENV = U ''ECNODE_TOOL_PATH''"

definition safe_path :: "ustr option \<Rightarrow> ustr" where
  "safe_path value =
     (let entries = rev (remdups (rev (filter (\<lambda>p. starts_with p [slash]) (split_on 58 (unwrap_or [] value)))))
      in if entries = [] then DEFAULT_PATH else join_with [58] entries)"

definition tool_path_with :: "env_map \<Rightarrow> bool \<Rightarrow> ustr" where
  "tool_path_with base honour_override =
     (case obj_get base TOOL_PATH_ENV of
        Some v \<Rightarrow> if honour_override \<and> v \<noteq> [] then safe_path (Some v) else DEFAULT_PATH
      | None \<Rightarrow> DEFAULT_PATH)"

text \<open>\<open>over\<close>: whether this build honours the override (a debug build).\<close>

definition keep_step :: "env_map \<Rightarrow> ustr \<Rightarrow> env_map \<Rightarrow> env_map" where
  "keep_step base k env =
     (case obj_get base k of Some v \<Rightarrow> if v = [] then env else obj_insert k v env | None \<Rightarrow> env)"

definition child_env :: "bool \<Rightarrow> env_map option \<Rightarrow> env_map \<Rightarrow> env_map" where
  "child_env over extra base =
     obj_insert (U ''LANG'') CHILD_LANG (obj_insert (U ''PATH'') (tool_path_with base over)
       (fold (keep_step base) CHILD_ENV_KEEP (unwrap_or [] extra)))"

section \<open>The context of the CLI\<close>

text \<open>\<open>can_write\<close>: this user may write to the default socket.\<close>

definition ctx_line :: "ustr \<Rightarrow> ustr" where
  "ctx_line l = rev (dropWhile (\<lambda>c. c = 32 \<or> c = 42) (rev (strip l)))"

definition effective_context :: "world \<Rightarrow> ustr \<Rightarrow> ustr option \<Rightarrow> env_map \<Rightarrow> bool \<Rightarrow> ustr option prog" where
  "effective_context w binary configured env can_write =
     (let is_set = (\<lambda>k. case obj_get env k of Some v \<Rightarrow> v \<noteq> [] | None \<Rightarrow> False) in
      if nonempty configured \<noteq> None then pret configured
      else if is_set (U ''DOCKER_HOST'') \<or> is_set (U ''DOCKER_CONTEXT'') then pret None
      else pbind (run_cmd w [binary, U ''context'', U ''show''] None) (\<lambda>shown.
        if \<not> cr_ok shown \<or> strip (cr_out shown) \<noteq> U ''default'' then pret None
        else if can_write then pret None
        else pbind (run_cmd w [binary, U ''context'', U ''ls'', U ''--format'', U ''{{.Name}}''] None) (\<lambda>listed.
          if cr_ok listed \<and> U ''rootless'' \<in> set (map ctx_line (splitlines (cr_out listed)))
          then pret (Some (U ''rootless'')) else pret None)))"

end
