(* ===== verification/DockerOps.thy ===== *)
theory DockerOps
  imports DockerText
begin

text \<open>
  The docker operations of the node: the calls of crates/ecnode/src/docker.rs that act on the machine
  (\<open>inspect\<close>, \<open>ensure_network\<close>, \<open>write_files\<close>, \<open>remove_files\<close>) and the handlers of
  crates/ecnode/src/ops.rs built on them.
\<close>

definition docker_call :: "world \<Rightarrow> docker \<Rightarrow> ustr list \<Rightarrow> cmd_result prog" where
  "docker_call w d words = run_cmd w (docker_argv d words) None"

definition docker_ok :: "world \<Rightarrow> docker \<Rightarrow> ustr list \<Rightarrow> cmd_result prog" where
  "docker_ok w d words = pbind (docker_call w d words) (\<lambda>res.
     if cr_ok res then pret res
     else pfail (docker_error w (case words of [] \<Rightarrow> [] | v # _ \<Rightarrow> v) res))"

section \<open>Reading containers\<close>

definition inspect_words :: "ustr list \<Rightarrow> ustr list" where
  "inspect_words refs = [U ''container'', U ''inspect''] @ refs"

text \<open>The documents of one answer of \<open>docker container inspect\<close>.\<close>

definition inspect_docs :: "world \<Rightarrow> cmd_result \<Rightarrow> json" where
  "inspect_docs w res = (if strip (cr_out res) = [] then JArr [] else unwrap_or (JArr []) (w_json w (cr_out res)))"

definition objects_of :: "json \<Rightarrow> json list" where
  "objects_of docs = (case docs of JArr a \<Rightarrow> filter is_object a | _ \<Rightarrow> [])"

definition inspect :: "world \<Rightarrow> docker \<Rightarrow> ustr list \<Rightarrow> json list prog" where
  "inspect w d refs =
     (if refs = [] then pret []
      else pbind (docker_call w d (inspect_words refs)) (\<lambda>res.
        if cr_truncated res then
          pfail (HOp DOCKER_ERROR (U ''docker inspect printed more than 32 MiB; refusing to read it''))
        else (let docs = inspect_docs w res in
          if \<not> cr_ok res \<and> \<not> truthy docs \<and> \<not> missing res then pfail (docker_error w (U ''inspect'') res)
          else pret (objects_of docs))))"

definition inspect_one :: "world \<Rightarrow> docker \<Rightarrow> ustr \<Rightarrow> json option prog" where
  "inspect_one w d name =
     (if \<not> matches CONTAINER_REF name then
        pfail (HOp BAD_ARGS (repr_take name 130 @ U '' is not a container name''))
      else pbind (inspect w d [name]) (\<lambda>docs. pret (case docs of [] \<Rightarrow> None | doc # _ \<Rightarrow> Some doc)))"

definition ensure_network :: "world \<Rightarrow> docker \<Rightarrow> ustr \<Rightarrow> unit prog" where
  "ensure_network w d name =
     pbind (docker_call w d [U ''network'', U ''inspect'', U ''--format'', U ''{{.Internal}}'', name]) (\<lambda>res.
     if cr_ok res then
       (if lowered (strip (cr_out res)) \<noteq> U ''true'' then
          pfail (HOp CONFLICT (U ''docker network '' @ py_repr name
            @ U '' exists but is not --internal; refusing to attach engines to it (remove it or name another ''
            @ U ''engine_network in the policy)''))
        else pret ())
     else if \<not> missing res then pfail (docker_error w (U ''network inspect'') res)
     else pbind (docker_ok w d [U ''network'', U ''create'', U ''--internal'', U ''--label'', LABEL @ U ''=1'', name])
            (\<lambda>_. pret ()))"

section \<open>An engine's configuration files\<close>

definition instance_dir :: "ustr \<Rightarrow> ustr \<Rightarrow> ustr" where
  "instance_dir state instance_id = join_paths state [U ''instances'', instance_id]"

definition files_fail :: "world \<Rightarrow> ustr \<Rightarrow> errno \<Rightarrow> handler_error" where
  "files_fail w state n =
     HOp IO_ERROR (U ''cannot write the engine'' @ [39] @ U ''s config files under '' @ state @ U '': '' @ w_errno w n)"

definition io_ok :: "world \<Rightarrow> ustr \<Rightarrow> call \<Rightarrow> unit prog" where
  "io_ok w state c = pbind (io_call w c) (\<lambda>r. case r of None \<Rightarrow> pret () | Some n \<Rightarrow> pfail (files_fail w state n))"

definition plain_dir :: "world \<Rightarrow> ustr \<Rightarrow> ustr \<Rightarrow> unit prog" where
  "plain_dir w state p =
     pbind (io_call w (MkDir p)) (\<lambda>r.
     pbind (case r of
         None \<Rightarrow> pret ()
       | Some n \<Rightarrow>
           if n = EExist then pbind (yes_call w (IsDir p)) (\<lambda>y. if y then pret () else pfail (files_fail w state n))
           else pfail (files_fail w state n)) (\<lambda>_.
     pbind (link_call w p) (\<lambda>l.
     pbind (if l = Some True then pret False else yes_call w (IsDir p)) (\<lambda>y.
     if \<not> y then pfail (HOp IO_ERROR (p @ U '' is not a plain directory''))
     else io_ok w state (Chmod p 448)))))"

definition drop_stale :: "world \<Rightarrow> ustr \<Rightarrow> ustr \<Rightarrow> ustr list \<Rightarrow> errno + ustr \<Rightarrow> unit prog" where
  "drop_stale w state fdir keep old =
     (case old of
        Inl n \<Rightarrow> pfail (files_fail w state n)
      | Inr name \<Rightarrow>
          if name \<in> set keep then pret ()
          else pbind (io_call w (Unlink (join_path fdir name))) (\<lambda>r. case r of
              None \<Rightarrow> pret ()
            | Some n \<Rightarrow> if n = EMissing then pret () else pfail (files_fail w state n)))"

text \<open>\<open>random_hex\<close>: the buffer as the read of /dev/urandom left it.\<close>

definition hex_text :: "u8 list \<Rightarrow> ustr" where
  "hex_text bs = concat (map (\<lambda>b. hex_pad 2 (unat b)) bs)"

definition put_file :: "world \<Rightarrow> ustr \<Rightarrow> ustr \<times> ustr \<times> ustr \<Rightarrow> unit prog" where
  "put_file w state f =
     (case f of (dest, host, content) \<Rightarrow>
        pbind (bytes_call w 4) (\<lambda>bs.
        (let tmp = host @ U ''.'' @ hex_text bs @ U ''.tmp'' in
         pbind (io_ok w state (CreateNew tmp)) (\<lambda>_.
         pbind (io_ok w state (WriteAll tmp content)) (\<lambda>_.
         pbind (io_ok w state (Chmod tmp 420)) (\<lambda>_.
         io_ok w state (Rename tmp host)))))))"

definition write_files :: "world \<Rightarrow> ustr \<Rightarrow> run_plan \<Rightarrow> unit prog" where
  "write_files w state p =
     (let fdir = files_dir state (rp_instance p); keep = map (\<lambda>(_, host, _). basename host) (rp_files p) in
      pbind (peach (plain_dir w state)
        [state, join_paths state [U ''instances''], instance_dir state (rp_instance p), fdir]) (\<lambda>_.
      pbind (dir_call w fdir) (\<lambda>r. case r of
          Inl n \<Rightarrow> pfail (files_fail w state n)
        | Inr olds \<Rightarrow>
            pbind (peach (drop_stale w state fdir keep) olds) (\<lambda>_.
            peach (put_file w state) (rp_files p)))))"

definition remove_files :: "world \<Rightarrow> ustr \<Rightarrow> ustr \<Rightarrow> unit prog" where
  "remove_files w state instance_id =
     (if \<not> matches INSTANCE instance_id then pret ()
      else pbind (link_call w (instance_dir state instance_id)) (\<lambda>l.
        if l = Some False then pbind (io_call w (RemoveTree (instance_dir state instance_id))) (\<lambda>_. pret ())
        else pret ()))"

section \<open>Handlers\<close>

definition arg :: "obj \<Rightarrow> ustr \<Rightarrow> json" where
  "arg a k = unwrap_or JNull (obj_get a k)"

definition arg_int :: "obj \<Rightarrow> ustr \<Rightarrow> int option" where
  "arg_int a k = json_i64 (arg a k)"

definition clamp :: "int \<Rightarrow> int \<Rightarrow> int \<Rightarrow> int" where
  "clamp lo hi x = max lo (min hi x)"

definition doc_id :: "world \<Rightarrow> json \<Rightarrow> handler_error + ustr" where
  "doc_id w doc =
     (case vget doc (U ''Id'') of
        Some v \<Rightarrow> Inr (str_value (w_float w) v)
      | None \<Rightarrow> Inl (HInternal (U ''KeyError'') None))"

definition hlift :: "handler_error + 'a \<Rightarrow> ('c, handler_error, 'a) op" where
  "hlift r = (case r of Inl e \<Rightarrow> pfail e | Inr a \<Rightarrow> pret a)"

definition last_line_id :: "ustr \<Rightarrow> ustr" where
  "last_line_id out =
     (let lines = splitlines (strip out) in if lines = [] then [] else take 64 (strip (last lines)))"

text \<open>What the handlers see of the agent: the policy, the run environment, the node's own environment.\<close>

record agent =
  ag_policy :: policy
  ag_docker :: docker
  ag_renv :: renv
  ag_env :: env_map
  ag_debug :: bool

definition op_render :: "agent \<Rightarrow> obj \<Rightarrow> obj prog" where
  "op_render a c =
     pbind (plift (plan_run (ag_renv a) (ag_policy a) (arg c (U ''spec'')))) (\<lambda>p.
     pret [(U ''argv'', JArr (map JStr (run_argv (ag_docker a) p)))])"

definition op_run :: "world \<Rightarrow> agent \<Rightarrow> obj \<Rightarrow> obj prog" where
  "op_run w a c =
     pbind (plift (plan_run (ag_renv a) (ag_policy a) (arg c (U ''spec'')))) (\<lambda>p.
     pbind (ensure_network w (ag_docker a) (engine_network (ag_policy a))) (\<lambda>_.
     pbind (write_files w (state_dir (ag_renv a)) p) (\<lambda>_.
     pbind (run_cmd w (run_argv (ag_docker a) p)
       (Some (child_env (ag_debug a) (Some (obj_of (rp_secret_env p))) (ag_env a)))) (\<lambda>res.
     if cr_ok res then pret [(U ''id'', JStr (last_line_id (cr_out res)))]
     else pfail (docker_error w (U ''run'') res)))))"

definition no_container :: "ustr \<Rightarrow> handler_error" where
  "no_container name = HOp NOT_FOUND (U ''there is no container named '' @ py_repr name @ U '' on this machine'')"

definition owned :: "world \<Rightarrow> docker \<Rightarrow> obj \<Rightarrow> json prog" where
  "owned w d c =
     pbind (hlift (container_name w (arg c (U ''name'')))) (\<lambda>name.
     pbind (inspect_one w d name) (\<lambda>found. case found of
         None \<Rightarrow> pfail (no_container name)
       | Some doc \<Rightarrow>
           pbind (hlift (check_owned w doc name (json_str (arg c (U ''role''))) (json_str (arg c (U ''instance''))))) (\<lambda>_.
           pret doc)))"

definition op_stop :: "world \<Rightarrow> agent \<Rightarrow> obj \<Rightarrow> obj prog" where
  "op_stop w a c =
     pbind (owned w (ag_docker a) c) (\<lambda>doc.
     (let t = (case arg_int c (U ''timeout_s'') of None \<Rightarrow> 30 | Some t \<Rightarrow> clamp 0 600 t) in
      pbind (hlift (doc_id w doc)) (\<lambda>i.
      pbind (docker_ok w (ag_docker a) [U ''stop'', U ''-t'', dec_int t, i]) (\<lambda>_. pret []))))"

definition op_start :: "world \<Rightarrow> agent \<Rightarrow> obj \<Rightarrow> obj prog" where
  "op_start w a c =
     pbind (owned w (ag_docker a) c) (\<lambda>doc.
     pbind (hlift (doc_id w doc)) (\<lambda>i.
     pbind (docker_ok w (ag_docker a) [U ''start'', i]) (\<lambda>_. pret [])))"

definition op_rm :: "world \<Rightarrow> agent \<Rightarrow> obj \<Rightarrow> obj prog" where
  "op_rm w a c =
     pbind (owned w (ag_docker a) c) (\<lambda>doc.
     pbind (hlift (doc_id w doc)) (\<lambda>i.
     pbind (docker_ok w (ag_docker a) [U ''rm'', U ''-f'', i]) (\<lambda>_.
     (let labels = labels_of w doc in
      if label labels ROLE_LABEL = Some (U ''engine'') then
        pbind (remove_files w (state_dir (ag_renv a)) (unwrap_or [] (label labels INSTANCE_LABEL))) (\<lambda>_. pret [])
      else pret []))))"

definition image_arg :: "world \<Rightarrow> obj \<Rightarrow> handler_error + ustr" where
  "image_arg w c =
     (let wrong = Inl (HOp BAD_ARGS (repr_take (str_value (w_float w) (arg c (U ''image''))) 100
        @ U '' is not a valid image reference'')) in
      case json_str (arg c (U ''image'')) of
        Some i \<Rightarrow> if valid_image i then Inr i else wrong
      | None \<Rightarrow> wrong)"

definition op_image_present :: "world \<Rightarrow> agent \<Rightarrow> obj \<Rightarrow> obj prog" where
  "op_image_present w a c =
     pbind (hlift (image_arg w c)) (\<lambda>img.
     pbind (docker_call w (ag_docker a) [U ''image'', U ''inspect'', U ''--format'', U ''{{.Id}}'', img]) (\<lambda>res.
     if cr_ok res then
       (let i = take 80 (strip (cr_out res)) in
        pret [(U ''present'', JBool True), (U ''id'', if i = [] then JNull else JStr i)])
     else (let text = lowered (cr_err res @ cr_out res) in
       if contains text (U ''no such image'') \<or> contains text (U ''not found'') then
         pret [(U ''present'', JBool False), (U ''id'', JNull)]
       else pfail (docker_error w (U ''image inspect'') res))))"

definition op_net_ensure :: "world \<Rightarrow> agent \<Rightarrow> obj prog" where
  "op_net_ensure w a =
     pbind (ensure_network w (ag_docker a) (engine_network (ag_policy a))) (\<lambda>_.
     pret [(U ''network'', JStr (engine_network (ag_policy a)))])"

section \<open>The gateway\<close>

definition GATEWAY_NAME :: re where "GATEWAY_NAME = Seq (Lit (U ''ec-'')) (Seq low_num (UpTo low_dash 60))"

definition hensure :: "bool \<Rightarrow> handler_error \<Rightarrow> unit prog" where
  "hensure ok e = (if ok then pret () else pfail e)"

record gateway =
  gw_image :: ustr
  gw_name :: ustr
  gw_instance :: ustr
  gw_port :: int
  gw_host :: ustr
  gw_engine_port :: int

text \<open>The checks of \<open>gateway_start\<close> before it looks at the machine.\<close>

definition gateway_plan :: "policy \<Rightarrow> obj \<Rightarrow> handler_error + gateway" where
  "gateway_plan pol c =
     (case gateway_image pol of
        None \<Rightarrow> Inl (HOp POLICY_DENIED (U ''this node'' @ [39] @ U ''s policy names no gateway_image ('' @ policy_where pol @ U '')''))
      | Some img \<Rightarrow>
          (let g = \<lparr>gw_image = img, gw_name = text_of (arg c (U ''name'')), gw_instance = text_of (arg c (U ''instance'')),
                    gw_port = unwrap_or 0 (arg_int c (U ''host_port'')), gw_host = text_of (arg c (U ''engine_host'')),
                    gw_engine_port = unwrap_or 0 (arg_int c (U ''engine_port''))\<rparr>;
               (lo, hi) = port_range pol in
           try_bind (ensure (matches GATEWAY_NAME (gw_name g))
             (HOp BAD_ARGS (U ''gateway name must look like ec-<lowercase letters, digits, hyphens>''))) (\<lambda>_.
           try_bind (ensure (matches INSTANCE (gw_instance g))
             (HOp BAD_ARGS (U ''instance must be 1-64 letters, digits, '' @ [39, 95, 39] @ U '' or '' @ [39, 45, 39]))) (\<lambda>_.
           try_bind (ensure (lo \<le> gw_port g \<and> gw_port g \<le> hi)
             (HOp POLICY_DENIED (U ''host port '' @ dec_int (gw_port g) @ U '' is outside this node'' @ [39] @ U ''s port_range ''
               @ dec_int lo @ U ''-'' @ dec_int hi))) (\<lambda>_.
           try_bind (ensure (matches NGINX_HOST (gw_host g))
             (HOp BAD_ARGS (U ''engine_host must be the engine container'' @ [39] @ U ''s name''))) (\<lambda>_.
           try_bind (ensure (1 \<le> gw_engine_port g \<and> gw_engine_port g \<le> 65535)
             (HOp BAD_ARGS (U ''engine_port must be 1-65535''))) (\<lambda>_. Inr g)))))))"

text \<open>\<open>u16::try_from(port).unwrap_or(0)\<close>\<close>

definition u16_or_zero :: "int \<Rightarrow> int" where
  "u16_or_zero p = (if 0 \<le> p \<and> p \<le> 65535 then p else 0)"

text \<open>Create, attach and start; a gateway that cannot be attached and started is removed again.\<close>

definition gateway_create :: "world \<Rightarrow> agent \<Rightarrow> gateway \<Rightarrow> ustr list \<Rightarrow> obj prog" where
  "gateway_create w a g argv =
     (let d = ag_docker a in
      pbind (run_cmd w argv None) (\<lambda>res.
      if \<not> cr_ok res then pfail (docker_error w (U ''create'') res)
      else pcatch (pbind (docker_ok w d [U ''network'', U ''connect'', engine_network (ag_policy a), gw_name g])
             (\<lambda>_. docker_ok w d [U ''start'', gw_name g])) (\<lambda>connected. case connected of
          Inl e \<Rightarrow> pbind (docker_call w d [U ''rm'', U ''-f'', gw_name g]) (\<lambda>_. pfail e)
        | Inr _ \<Rightarrow> pret [(U ''id'', JStr (last_line_id (cr_out res)))])))"

text \<open>Everything before the create (\<open>doc\<close> is what docker says of the engine); then the create.\<close>

definition gateway_engine :: "world \<Rightarrow> agent \<Rightarrow> gateway \<Rightarrow> json \<Rightarrow> (gateway \<times> ustr list) prog" where
  "gateway_engine w a g doc =
     (let d = ag_docker a in
      pbind (hlift (check_owned w doc (gw_host g) None None)) (\<lambda>_.
      pbind (hensure (label (labels_of w doc) ROLE_LABEL \<noteq> Some (U ''gateway''))
        (HOp BAD_ARGS (py_repr (gw_host g) @ U '' is a gateway, not an engine''))) (\<lambda>_.
      pbind (yes_call w (PortFree (u16_or_zero (gw_port g)))) (\<lambda>free.
      pbind (hensure free (HOp PORT_IN_USE (U ''port '' @ dec_int (gw_port g) @ U '' on 127.0.0.1 is already in use''))) (\<lambda>_.
      pbind (ensure_network w d (engine_network (ag_policy a))) (\<lambda>_.
      pbind (plift (gateway_argv d (gw_image g) (gw_name g) (gw_instance g) (gw_port g) (gw_host g) (gw_engine_port g)))
        (\<lambda>argv. pret (g, argv))))))))"

definition gateway_ready :: "world \<Rightarrow> agent \<Rightarrow> obj \<Rightarrow> (gateway \<times> ustr list) prog" where
  "gateway_ready w a c =
     pbind (hlift (gateway_plan (ag_policy a) c)) (\<lambda>g.
     pbind (inspect_one w (ag_docker a) (gw_host g)) (\<lambda>found. case found of
         None \<Rightarrow> pfail (HOp NOT_FOUND (U ''there is no container named '' @ py_repr (gw_host g) @ U '' to forward to''))
       | Some doc \<Rightarrow> gateway_engine w a g doc))"

definition op_gateway_start :: "world \<Rightarrow> agent \<Rightarrow> obj \<Rightarrow> obj prog" where
  "op_gateway_start w a c = pbind (gateway_ready w a c) (\<lambda>(g, argv). gateway_create w a g argv)"

end
