(* ===== verification/RunSafe.thy ===== *)
theory RunSafe
  imports DockerSafe
begin

text \<open>
  What \<open>docker.run\<close> does to the machine, call by call: nothing for a refused spec; otherwise it makes sure
  of the engine network, writes the planned files inside the instance's directory and only then runs the
  planned command, with the secret values in the child's environment and nowhere else.
\<close>

definition ran :: "world \<Rightarrow> ustr list \<Rightarrow> (cmd_result \<Rightarrow> bool) \<Rightarrow> trace \<Rightarrow> bool" where
  "ran w argv good t \<longleftrightarrow> (\<exists>u v. t = u @ Run argv None # v \<and> good (w_run w u argv None))"

lemma stable_ran [simp]: "stable (ran w argv good)"
  unfolding stable_def ran_def by (metis append_Cons append_assoc)

lemma yields_io_ok: "yields P A (io_call w c) (\<lambda>_. B) \<Longrightarrow> yields P A (io_ok w st c) (\<lambda>_. B)"
  unfolding io_ok_def by (erule yields_bind) (auto intro: yields_ret yields_fail split: option.splits)

section \<open>The engine network\<close>

definition net_inspect :: "docker \<Rightarrow> ustr \<Rightarrow> ustr list" where
  "net_inspect d net = docker_argv d [U ''network'', U ''inspect'', U ''--format'', U ''{{.Internal}}'', net]"

definition net_create :: "docker \<Rightarrow> ustr \<Rightarrow> ustr list" where
  "net_create d net = docker_argv d [U ''network'', U ''create'', U ''--internal'', U ''--label'', LABEL @ U ''=1'', net]"

text \<open>Docker said that the network is internal, or created it as one.\<close>

definition net_internal :: "world \<Rightarrow> docker \<Rightarrow> ustr \<Rightarrow> trace \<Rightarrow> bool" where
  "net_internal w d net t \<longleftrightarrow>
     ran w (net_inspect d net) (\<lambda>res. cr_ok res \<and> lowered (strip (cr_out res)) = U ''true'') t
     \<or> ran w (net_create d net) cr_ok t"

lemma stable_net [simp]: "stable (net_internal w d net)"
  unfolding net_internal_def by simp

lemma ran_now: "good (w_run w t argv None) \<Longrightarrow> ran w argv good (t @ [Run argv None])"
  unfolding ran_def by blast

lemma yields_network:
  assumes P: "\<And>t. P t (Run (net_inspect d net) None)" "\<And>t. P t (Run (net_create d net) None)"
  shows "yields P (\<lambda>_. True) (ensure_network w d net) (\<lambda>_. net_internal w d net)"
  unfolding ensure_network_def
proof (rule yields_bind)
  let ?good = "\<lambda>res. cr_ok res \<and> lowered (strip (cr_out res)) = U ''true''"
  show "yields P (\<lambda>_. True) (docker_call w d [U ''network'', U ''inspect'', U ''--format'', U ''{{.Internal}}'', net])
      (\<lambda>res t. ?good res \<longrightarrow> net_internal w d net t)"
    unfolding docker_call_def run_cmd_def net_inspect_def[symmetric]
    by (rule yields_ask) (auto simp: P net_internal_def intro: ran_now)
  have "yields P A (docker_call w d [U ''network'', U ''create'', U ''--internal'', U ''--label'', LABEL @ U ''=1'', net])
      (\<lambda>res t. cr_ok res \<longrightarrow> net_internal w d net t)" for A
    unfolding docker_call_def run_cmd_def net_create_def[symmetric]
    by (rule yields_ask) (auto simp: P net_internal_def intro: ran_now)
  then have "yields P A (docker_ok w d [U ''network'', U ''create'', U ''--internal'', U ''--label'', LABEL @ U ''=1'', net])
      (\<lambda>_. net_internal w d net)" for A
    unfolding docker_ok_def by (rule yields_bind) (auto intro: yields_ret yields_fail)
  then have create: "yields P A (pbind (docker_ok w d [U ''network'', U ''create'', U ''--internal'', U ''--label'', LABEL @ U ''=1'', net])
      (\<lambda>_. pret ())) (\<lambda>_. net_internal w d net)" for A
    by (rule yields_bind) (auto intro: yields_ret)
  fix res
  show "yields P (\<lambda>t. ?good res \<longrightarrow> net_internal w d net t)
     (if cr_ok res then
       (if lowered (strip (cr_out res)) \<noteq> U ''true'' then
          pfail (HOp CONFLICT (U ''docker network '' @ py_repr net
            @ U '' exists but is not --internal; refusing to attach engines to it (remove it or name another ''
            @ U ''engine_network in the policy)''))
        else pret ())
     else if \<not> missing res then pfail (docker_error w (U ''network inspect'') res)
     else pbind (docker_ok w d [U ''network'', U ''create'', U ''--internal'', U ''--label'', LABEL @ U ''=1'', net])
            (\<lambda>_. pret ())) (\<lambda>_. net_internal w d net)"
    by (auto intro: yields_ret yields_fail create)
qed


section \<open>The configuration files\<close>

definition run_dirs :: "ustr \<Rightarrow> run_plan \<Rightarrow> ustr list" where
  "run_dirs state p = [state, join_paths state [U ''instances''], instance_dir state (rp_instance p), files_dir state (rp_instance p)]"

definition listed :: "world \<Rightarrow> ustr \<Rightarrow> ustr \<Rightarrow> trace \<Rightarrow> bool" where
  "listed w fdir n t \<longleftrightarrow> (\<exists>u v olds. t = u @ ReadDir fdir # v \<and> w_dir w u fdir = Inr olds \<and> Inr n \<in> set olds)"

definition put_calls :: "ustr \<times> ustr \<times> ustr \<Rightarrow> ustr \<Rightarrow> call list" where
  "put_calls f tmp = [CreateNew tmp, WriteAll tmp (snd (snd f)), Chmod tmp 420, Rename tmp (fst (snd f))]"

definition tmp_name :: "ustr \<times> ustr \<times> ustr \<Rightarrow> u8 list \<Rightarrow> ustr" where
  "tmp_name f bs = fst (snd f) @ U ''.'' @ hex_text bs @ U ''.tmp''"

definition file_call :: "world \<Rightarrow> ustr \<Rightarrow> run_plan \<Rightarrow> trace \<Rightarrow> call \<Rightarrow> bool" where
  "file_call w state p t call \<longleftrightarrow>
     (\<exists>d \<in> set (run_dirs state p). call \<in> {MkDir d, IsDir d, LinkMeta d, Chmod d 448, ReadDir d}) \<or> call = Urandom 4
     \<or> (\<exists>n. call = Unlink (join_path (files_dir state (rp_instance p)) n) \<and> listed w (files_dir state (rp_instance p)) n t
          \<and> n \<notin> (basename \<circ> fst \<circ> snd) ` set (rp_files p))
     \<or> (\<exists>f \<in> set (rp_files p). \<exists>bs. call \<in> set (put_calls f (tmp_name f bs)))"

definition file_written :: "ustr \<times> ustr \<times> ustr \<Rightarrow> trace \<Rightarrow> bool" where
  "file_written f t \<longleftrightarrow> (\<exists>bs. happened (put_calls f (tmp_name f bs)) t)"

lemma stable_file_written [simp]: "stable (file_written f)"
  unfolding file_written_def by simp

lemma stable_listed [simp]: "stable (listed w fdir n)"
  unfolding stable_def listed_def by (metis append_Cons append_assoc)

lemma yields_plain_dir:
  assumes "stable A" "\<And>t call. A t \<Longrightarrow> call \<in> {MkDir d, IsDir d, LinkMeta d, Chmod d 448} \<Longrightarrow> P t call"
  shows "yields P A (plain_dir w st d) (\<lambda>_. A)"
proof -
  have c: "yields P A (ask reply call) (\<lambda>_. A)" if "call \<in> {MkDir d, IsDir d, LinkMeta d, Chmod d 448}" for reply :: "trace \<Rightarrow> 'x" and call
    by (rule yields_stable) (use assms that in auto)
  show ?thesis
    unfolding plain_dir_def triple_calls io_ok_def
    by (rule yields_bind, rule c, simp, rule yields_bind[where B = "\<lambda>_. A"])
      (auto intro!: yields_ret yields_fail c yields_bind[where B = "\<lambda>_. A"] yields_if split: option.splits)
qed

lemma yields_drop_stale:
  assumes "stable A" "\<And>t n. A t \<Longrightarrow> old = Inr n \<Longrightarrow> n \<notin> set keep \<Longrightarrow> P t (Unlink (join_path fdir n))"
  shows "yields P A (drop_stale w st fdir keep old) (\<lambda>_. A)"
proof (cases old)
  case (Inr n)
  have "yields P A (io_call w (Unlink (join_path fdir n))) (\<lambda>_. A)" if "n \<notin> set keep"
    unfolding io_call_def by (rule yields_stable) (use assms Inr that in auto)
  then show ?thesis
    unfolding drop_stale_def Inr sum.case
    by (auto intro!: yields_ret yields_bind[where B = "\<lambda>_. A"] intro: yields_fail split: option.splits)
qed (simp add: drop_stale_def yields_fail)

lemma yields_seq:
  assumes "stable A" "\<And>t call. A t \<Longrightarrow> call \<in> set cs \<Longrightarrow> P t call"
  shows "yields P (\<lambda>t. A t \<and> (\<exists>u. t = u @ pre)) (peach (io_ok w st) cs) (\<lambda>_ t. A t \<and> (\<exists>u. t = u @ pre @ cs))"
  using assms(2)
proof (induction cs arbitrary: pre)
  case (Cons c cs)
  have c: "P t c" if "A t" for t by (rule Cons.prems) (use that in simp_all)
  have cs: "P t call" if "A t" "call \<in> set cs" for t call by (rule Cons.prems) (use that in simp_all)
  show ?case unfolding peach.simps
  proof (rule yields_bind)
    show "yields P (\<lambda>t. A t \<and> (\<exists>u. t = u @ pre)) (io_ok w st c) (\<lambda>_ t. A t \<and> (\<exists>u. t = u @ pre @ [c]))"
      by (rule yields_io_ok, unfold io_call_def, rule yields_ask) (use assms(1) c in \<open>auto simp: stable_def\<close>)
    show "yields P (\<lambda>t. A t \<and> (\<exists>u. t = u @ pre @ [c])) (peach (io_ok w st) cs) (\<lambda>_ t. A t \<and> (\<exists>u. t = u @ pre @ c # cs))"
      using Cons.IH[of "pre @ [c]", OF cs] by simp
  qed
qed (auto intro: yields_ret)

lemma pbind_unit: "pbind m pret = m"
  by (rule ext) (simp add: prog_defs split: prod.splits sum.splits)

lemma put_file_seq: "put_file w st f = pbind (bytes_call w 4) (\<lambda>bs. peach (io_ok w st) (put_calls f (tmp_name f bs)))"
  by (cases f) (simp add: put_file_def put_calls_def tmp_name_def Let_def pbind_unit)

lemma yields_put_file:
  assumes "stable A" "\<And>t. A t \<Longrightarrow> P t (Urandom 4)"
    and "\<And>t bs call. A t \<Longrightarrow> call \<in> set (put_calls f (tmp_name f bs)) \<Longrightarrow> P t call"
  shows "yields P A (put_file w st f) (\<lambda>_ t. A t \<and> file_written f t)"
  unfolding put_file_seq
proof (rule yields_bind)
  show "yields P A (bytes_call w 4) (\<lambda>_ t. A t \<and> (\<exists>u. t = u @ []))"
    unfolding bytes_call_def by (rule yields_ask) (use assms(1,2) in \<open>auto simp: stable_def\<close>)
  fix bs
  have "yields P (\<lambda>t. A t \<and> (\<exists>u. t = u @ [])) (peach (io_ok w st) (put_calls f (tmp_name f bs)))
      (\<lambda>_ t. A t \<and> (\<exists>u. t = u @ [] @ put_calls f (tmp_name f bs)))"
    by (rule yields_seq) (use assms(1,3) in auto)
  then show "yields P (\<lambda>t. A t \<and> (\<exists>u. t = u @ [])) (peach (io_ok w st) (put_calls f (tmp_name f bs))) (\<lambda>_ t. A t \<and> file_written f t)"
    by (rule yields_weaken) (auto simp: file_written_def intro: happened_now)
qed

lemma yields_write_files:
  assumes "stable A" "\<And>t call. A t \<Longrightarrow> file_call w state p t call \<Longrightarrow> P t call"
  shows "yields P A (write_files w state p) (\<lambda>_ t. A t \<and> (\<forall>f \<in> set (rp_files p). file_written f t))"
proof -
  let ?dir = "files_dir state (rp_instance p)"
  let ?olds = "\<lambda>olds t. A t \<and> (\<forall>n. Inr n \<in> set olds \<longrightarrow> listed w ?dir n t)"
  have dirs: "yields P A (peach (plain_dir w state) (run_dirs state p)) (\<lambda>_. A)"
    by (rule yields_all, rule yields_plain_dir, rule assms(1), rule assms(2)) (auto simp: file_call_def)
  have listing: "yields P A (dir_call w ?dir) (\<lambda>r t. A t \<and> (\<forall>olds. r = Inr olds \<longrightarrow> ?olds olds t))"
    unfolding dir_call_def
    by (rule yields_ask) (use assms in \<open>auto simp: stable_def file_call_def run_dirs_def listed_def\<close>)
  have st: "stable (?olds olds)" for olds
    using assms(1) stable_listed by (auto simp: stable_def)
  have stale: "yields P (?olds olds) (peach (drop_stale w state ?dir (map (\<lambda>(_, host, _). basename host) (rp_files p))) olds) (\<lambda>_. ?olds olds)" for olds
    by (rule yields_all, rule yields_drop_stale[OF st], rule assms(2)) (force simp: file_call_def split_def)+
  have put: "yields P A (peach (put_file w state) (rp_files p)) (\<lambda>_ t. A t \<and> (\<forall>f \<in> set (rp_files p). file_written f t))"
  proof -
    have st: "stable (\<lambda>t. A t \<and> (\<forall>f \<in> S. file_written f t))" for S
      using assms(1) by simp
    have "yields P (\<lambda>t. A t \<and> (\<forall>f \<in> S. file_written f t)) (put_file w state x) (\<lambda>_ t. A t \<and> (\<forall>f \<in> insert x S. file_written f t))"
      if x: "x \<in> set (rp_files p)" for S x
    proof -
      have "yields P (\<lambda>t. A t \<and> (\<forall>f \<in> S. file_written f t)) (put_file w state x)
          (\<lambda>_ t. (A t \<and> (\<forall>f \<in> S. file_written f t)) \<and> file_written x t)"
        by (rule yields_put_file[OF st]) (rule assms(2), use x in \<open>auto simp: file_call_def\<close>)+
      then show ?thesis by (rule yields_weaken) auto
    qed
    from yields_each[where A = "\<lambda>S t. A t \<and> (\<forall>f \<in> S. file_written f t)" and S = "{}", OF this] show ?thesis by simp
  qed
  show ?thesis
    unfolding write_files_def Let_def run_dirs_def[symmetric] instance_dir_def[symmetric]
    by (rule yields_bind, rule dirs, rule yields_bind, rule listing)
      (auto intro: yields_fail yields_bind[OF stale] yields_weaken[OF put] split: sum.splits)
qed


section \<open>The run\<close>

definition run_env :: "agent \<Rightarrow> run_plan \<Rightarrow> env_map" where
  "run_env a p = child_env (ag_debug a) (Some (obj_of (rp_secret_env p))) (ag_env a)"

definition run_call :: "world \<Rightarrow> agent \<Rightarrow> run_plan \<Rightarrow> trace \<Rightarrow> call \<Rightarrow> bool" where
  "run_call w a p t call \<longleftrightarrow>
     call = Run (net_inspect (ag_docker a) (engine_network (ag_policy a))) None
     \<or> call = Run (net_create (ag_docker a) (engine_network (ag_policy a))) None
     \<or> file_call w (state_dir (ag_renv a)) p t call
     \<or> call = Run (run_argv (ag_docker a) p) (Some (run_env a p))
       \<and> net_internal w (ag_docker a) (engine_network (ag_policy a)) t \<and> (\<forall>f \<in> set (rp_files p). file_written f t)"

lemma op_run_refused:
  "plan_run (ag_renv a) (ag_policy a) (arg c (U ''spec'')) = Inl f \<Longrightarrow> op_run w a c [] = (Inl (op_error f), [])"
  by (simp add: op_run_def plift_def prog_defs)

lemma op_run_planned:
  assumes "plan_run (ag_renv a) (ag_policy a) (arg c (U ''spec'')) = Inr p"
  shows "yields (run_call w a p) (\<lambda>_. True) (op_run w a c)
     (\<lambda>r t. \<exists>u. t = u @ [Run (run_argv (ag_docker a) p) (Some (run_env a p))]
        \<and> cr_ok (w_run w u (run_argv (ag_docker a) p) (Some (run_env a p))))"
proof -
  let ?net = "net_internal w (ag_docker a) (engine_network (ag_policy a))"
  let ?go = "Run (run_argv (ag_docker a) p) (Some (run_env a p))"
  have op: "op_run w a c = pbind (ensure_network w (ag_docker a) (engine_network (ag_policy a))) (\<lambda>_.
     pbind (write_files w (state_dir (ag_renv a)) p) (\<lambda>_.
     pbind (run_cmd w (run_argv (ag_docker a) p) (Some (run_env a p))) (\<lambda>res.
     if cr_ok res then pret [(U ''id'', JStr (last_line_id (cr_out res)))] else pfail (docker_error w (U ''run'') res))))"
    by (rule ext) (simp add: op_run_def assms plift_def pbind_def pcatch_def pret_def run_env_def)
  have net: "yields (run_call w a p) (\<lambda>_. True) (ensure_network w (ag_docker a) (engine_network (ag_policy a))) (\<lambda>_. ?net)"
    by (rule yields_network) (auto simp: run_call_def)
  have files: "yields (run_call w a p) ?net (write_files w (state_dir (ag_renv a)) p)
      (\<lambda>_ t. ?net t \<and> (\<forall>f \<in> set (rp_files p). file_written f t))"
    by (rule yields_write_files) (auto simp: run_call_def)
  have go: "yields (run_call w a p) (\<lambda>t. ?net t \<and> (\<forall>f \<in> set (rp_files p). file_written f t))
      (run_cmd w (run_argv (ag_docker a) p) (Some (run_env a p)))
      (\<lambda>res t. \<exists>u. t = u @ [?go] \<and> res = w_run w u (run_argv (ag_docker a) p) (Some (run_env a p)))"
    unfolding run_cmd_def by (rule yields_ask) (auto simp: run_call_def)
  show ?thesis
    unfolding op
    by (rule yields_bind[OF net], rule yields_bind[OF files], rule yields_bind[OF go])
      (auto intro: yields_ret yields_fail)
qed

section \<open>The environment of the run\<close>

lemma keep_step_get: "obj_get (keep_step base k env) x = (if x = k \<and> nonempty (obj_get base k) \<noteq> None then obj_get base k else obj_get env x)"
  by (auto simp: keep_step_def nonempty_def om.get_ins split: option.splits list.splits)

lemma fold_keep_get: "obj_get (fold (keep_step base) ks env) x =
    (if x \<in> set ks \<and> nonempty (obj_get base x) \<noteq> None then obj_get base x else obj_get env x)"
  by (induction ks arbitrary: env) (auto simp: keep_step_get)

lemma child_env_get:
  "obj_get (child_env over extra base) x =
     (if x = U ''LANG'' then Some CHILD_LANG
      else if x = U ''PATH'' then Some (tool_path_with base over)
      else if x \<in> set CHILD_ENV_KEEP \<and> nonempty (obj_get base x) \<noteq> None then obj_get base x
      else obj_get (unwrap_or [] extra) x)"
  unfolding child_env_def om.get_ins fold_keep_get by simp

lemma lang_ANY_STAR: "s \<in> lang ANY_STAR \<longleftrightarrow> (\<forall>c \<in> set s. c \<le> 1114111)"
proof
  assume "s \<in> lang ANY_STAR"
  then have "s \<in> star (lang ANY)" by (simp add: ANY_STAR_def)
  then show "\<forall>c \<in> set s. c \<le> 1114111"
    by (induction rule: star.induct) (auto simp: ANY_def in_cls_def)
next
  assume "\<forall>c \<in> set s. c \<le> 1114111"
  then show "s \<in> lang ANY_STAR"
  proof (induction s)
    case (Cons c s)
    then have "[c] \<in> lang ANY" "s \<in> star (lang ANY)" by (auto simp: ANY_def in_cls_def ANY_STAR_def)
    from star.star_append[OF this] show ?case by (simp add: ANY_STAR_def)
  qed (simp add: ANY_STAR_def star.star_Nil)
qed

lemma kept_denied:
  assumes "k \<in> set (U ''LANG'' # U ''PATH'' # CHILD_ENV_KEEP)"
  shows "child_env_deny k"
proof -
  have names: "U ''LANG'' \<in> lang (IC ''lang'')" "U ''PATH'' \<in> lang (IC ''path'')" "U ''HOME'' \<in> lang (IC ''home'')"
    by (simp_all add: lang_IC U_def fold_class_def is_lower_def in_cls_def)
  have "U ''XDG_'' \<in> lang (IC ''xdg_'')" "U ''DOCKER_'' \<in> lang (IC ''docker_'')"
    "U ''RUNTIME_DIR'' \<in> lang ANY_STAR" "U ''HOST'' \<in> lang ANY_STAR" "U ''CONTEXT'' \<in> lang ANY_STAR"
    by (simp_all add: lang_IC lang_ANY_STAR U_def fold_class_def is_lower_def in_cls_def)
  moreover have "U ''XDG_RUNTIME_DIR'' = U ''XDG_'' @ U ''RUNTIME_DIR''" "U ''DOCKER_HOST'' = U ''DOCKER_'' @ U ''HOST''"
    "U ''DOCKER_CONTEXT'' = U ''DOCKER_'' @ U ''CONTEXT''" by (simp_all add: U_def)
  ultimately have "\<exists>u v. U ''XDG_RUNTIME_DIR'' = u @ v \<and> u \<in> lang (IC ''xdg_'') \<and> v \<in> lang ANY_STAR"
    "\<exists>u v. U ''DOCKER_HOST'' = u @ v \<and> u \<in> lang (IC ''docker_'') \<and> v \<in> lang ANY_STAR"
    "\<exists>u v. U ''DOCKER_CONTEXT'' = u @ v \<and> u \<in> lang (IC ''docker_'') \<and> v \<in> lang ANY_STAR" by metis+
  then show ?thesis
    using assms names unfolding child_env_deny_def matches_iff lang.simps lang_Alts CHILD_ENV_KEEP_def
    by (auto simp: lang_Alts simp del: lang.simps)
qed

text \<open>
  A secret never takes the place of a variable the docker CLI itself reads: what the plan's names look up
  is their values, and every other name is as without secrets.
\<close>

lemma run_env_get:
  assumes "plan_ok e pol p"
  shows "obj_get (run_env a p) k =
     (case obj_get (obj_of (rp_secret_env p)) k of Some v \<Rightarrow> Some v
      | None \<Rightarrow> obj_get (child_env (ag_debug a) None (ag_env a)) k)"
proof (cases "obj_get (obj_of (rp_secret_env p)) k")
  case None
  have n: "obj_get [] k = None" by (simp add: obj_get_def)
  show ?thesis unfolding run_env_def child_env_get unwrap_or_def option.case None n ..
next
  case (Some v)
  then have "(k, v) \<in> set (obj_of (rp_secret_env p))" unfolding obj_get_def by (rule map_of_SomeD)
  then have "(k, v) \<in> set (rp_secret_env p)" using set_obj_of[of "rp_secret_env p"] by blast
  then have "\<not> child_env_deny k" using assms by (auto simp: plan_ok_def secret_env_ok_def)
  then have "k \<notin> set (U ''LANG'' # U ''PATH'' # CHILD_ENV_KEEP)" using kept_denied by blast
  then show ?thesis using Some by (simp add: run_env_def child_env_get unwrap_or_def)
qed

end
