(* ===== verification/GatewaySafe.thy ===== *)
theory GatewaySafe
  imports RunSafe
begin

text \<open>
  Starting a gateway (crates/ecnode/src/ops.rs, \<open>gateway_start\<close>): before the create only questions are
  asked and the engine network is made sure of; a gateway that was created and does not come up is removed,
  so a failure leaves no gateway behind; and its command line publishes one loopback port of the policy's range.
\<close>

section \<open>Before the create\<close>

definition quiet_call :: "agent \<Rightarrow> call \<Rightarrow> bool" where
  "quiet_call a call \<longleftrightarrow>
     (\<exists>name. call = Run (docker_argv (ag_docker a) (inspect_words [name])) None) \<or> (\<exists>n. call = PortFree n)
     \<or> call = Run (net_inspect (ag_docker a) (engine_network (ag_policy a))) None
     \<or> call = Run (net_create (ag_docker a) (engine_network (ag_policy a))) None"

definition port_said_free :: "world \<Rightarrow> int \<Rightarrow> trace \<Rightarrow> bool" where
  "port_said_free w n t \<longleftrightarrow> (\<exists>u v. t = u @ PortFree n # v \<and> w_yes w u (PortFree n))"

text \<open>The engine the gateway forwards to: one of the console's containers, and not a gateway itself.\<close>

definition engine_doc :: "world \<Rightarrow> json \<Rightarrow> bool" where
  "engine_doc w doc \<longleftrightarrow> label (labels_of w doc) LABEL = Some (U ''1'') \<and> label (labels_of w doc) ROLE_LABEL \<noteq> Some (U ''gateway'')"

definition gateway_facts :: "world \<Rightarrow> agent \<Rightarrow> gateway \<Rightarrow> trace \<Rightarrow> bool" where
  "gateway_facts w a g t \<longleftrightarrow>
     (\<exists>doc. described w (ag_docker a) t doc \<and> engine_doc w doc) \<and> port_said_free w (u16_or_zero (gw_port g)) t
     \<and> net_internal w (ag_docker a) (engine_network (ag_policy a)) t"

lemma stable_described [simp]: "stable (\<lambda>t. described w d t doc)"
  unfolding stable_def described_def by (metis append_Cons append_assoc)

lemma stable_port [simp]: "stable (port_said_free w n)"
  unfolding stable_def port_said_free_def by (metis append_Cons append_assoc)

lemma check_owned_any: "check_owned w doc name None None = Inr u \<longleftrightarrow> label (labels_of w doc) LABEL = Some (U ''1'')"
  by (simp add: check_owned_def Let_def nonempty_def)

lemma yields_hlift: "(\<And>x t. r = Inr x \<Longrightarrow> A t \<Longrightarrow> B x t) \<Longrightarrow> yields P A (hlift r) B"
  by (cases r) (auto simp: hlift_def intro: yields_ret yields_fail)

lemma yields_plift: "(\<And>x t. r = Inr x \<Longrightarrow> A t \<Longrightarrow> B x t) \<Longrightarrow> yields P A (plift r) B"
  by (cases r) (auto simp: plift_def intro: yields_ret yields_fail)

lemma yields_hensure: "(\<And>t. ok \<Longrightarrow> A t \<Longrightarrow> B t) \<Longrightarrow> yields P A (hensure ok e) (\<lambda>_. B)"
  by (auto simp: hensure_def intro: yields_ret yields_fail)

lemma yields_network_after:
  assumes "stable A" "\<And>t. P t (Run (net_inspect d net) None)" "\<And>t. P t (Run (net_create d net) None)"
  shows "yields P A (ensure_network w d net) (\<lambda>_ t. net_internal w d net t \<and> A t)"
proof -
  have c: "yields P A (docker_call w d ws) (\<lambda>_. A)" if "\<And>t. P t (Run (docker_argv d ws) None)" for ws
    unfolding docker_call_def run_cmd_def by (rule yields_stable) (use assms(1) that in auto)
  have ok: "yields P A (docker_ok w d ws) (\<lambda>_. A)" if "\<And>t. P t (Run (docker_argv d ws) None)" for ws
    unfolding docker_ok_def by (rule yields_bind[OF c[OF that]]) (auto intro: yields_ret yields_fail)
  have keep: "yields P A (ensure_network w d net) (\<lambda>_. A)"
    unfolding ensure_network_def
    by (rule yields_bind[OF c[OF assms(2)[unfolded net_inspect_def]]])
      (auto intro: yields_ret yields_fail yields_bind[OF ok[OF assms(3)[unfolded net_create_def]]])
  have "yields P (\<lambda>_. True) (ensure_network w d net) (\<lambda>_. net_internal w d net)"
    by (rule yields_network) (rule assms)+
  then show ?thesis using keep by (auto simp: yields_def triple_def)
qed

definition gateway_line :: "agent \<Rightarrow> gateway \<Rightarrow> ustr list \<Rightarrow> bool" where
  "gateway_line a g argv \<longleftrightarrow>
     gateway_argv (ag_docker a) (gw_image g) (gw_name g) (gw_instance g) (gw_port g) (gw_host g) (gw_engine_port g) = Inr argv"

lemma yields_gateway_engine:
  "yields (\<lambda>_. quiet_call a) (\<lambda>t. described w (ag_docker a) t doc) (gateway_engine w a g doc)
     (\<lambda>(g', argv) t. g' = g \<and> gateway_facts w a g t \<and> gateway_line a g argv)"
proof -
  let ?d = "ag_docker a"
  let ?n = "u16_or_zero (gw_port g)"
  let ?eng = "\<lambda>t. described w ?d t doc \<and> engine_doc w doc"
  let ?port = "\<lambda>t. ?eng t \<and> port_said_free w ?n t"
  have st: "stable ?eng" "stable ?port"
    by (simp_all add: stable_def) (metis stable_def stable_described, metis stable_def stable_described stable_port)
  have own: "yields (\<lambda>_. quiet_call a) (\<lambda>t. described w ?d t doc) (hlift (check_owned w doc (gw_host g) None None))
      (\<lambda>_ t. described w ?d t doc \<and> label (labels_of w doc) LABEL = Some (U ''1''))"
    by (rule yields_hlift) (simp add: check_owned_any)
  have role: "yields (\<lambda>_. quiet_call a) (\<lambda>t. described w ?d t doc \<and> label (labels_of w doc) LABEL = Some (U ''1''))
      (hensure (label (labels_of w doc) ROLE_LABEL \<noteq> Some (U ''gateway'')) e) (\<lambda>_. ?eng)" for e
    by (rule yields_hensure) (simp add: engine_doc_def)
  have port: "yields (\<lambda>_. quiet_call a) ?eng (yes_call w (PortFree ?n)) (\<lambda>free t. ?eng t \<and> (free \<longrightarrow> port_said_free w ?n t))"
    unfolding yes_call_def using stable_described[of w ?d doc, unfolded stable_def]
    by (intro yields_ask) (auto simp: quiet_call_def port_said_free_def stable_def)
  have free: "yields (\<lambda>_. quiet_call a) (\<lambda>t. ?eng t \<and> (free \<longrightarrow> port_said_free w ?n t)) (hensure free e) (\<lambda>_. ?port)" for free e
    by (rule yields_hensure) simp
  have net: "yields (\<lambda>_. quiet_call a) ?port (ensure_network w ?d (engine_network (ag_policy a)))
      (\<lambda>_ t. net_internal w ?d (engine_network (ag_policy a)) t \<and> ?port t)"
    by (rule yields_network_after[OF st(2)]) (simp_all add: quiet_call_def)
  show ?thesis
    unfolding gateway_engine_def Let_def
    by (rule yields_bind[OF own], rule yields_bind[OF role], rule yields_bind[OF port], rule yields_bind[OF free],
        rule yields_bind[OF net],
        rule yields_bind[where B = "\<lambda>argv t. gateway_facts w a g t \<and> gateway_line a g argv"], rule yields_plift)
      (auto intro!: yields_ret simp: gateway_facts_def gateway_line_def)
qed

lemma yields_gateway_ready:
  "yields (\<lambda>_. quiet_call a) (\<lambda>_. True) (gateway_ready w a c)
     (\<lambda>(g, argv) t. gateway_plan (ag_policy a) c = Inr g \<and> gateway_facts w a g t \<and> gateway_line a g argv)"
  unfolding gateway_ready_def
proof (rule yields_bind)
  show "yields (\<lambda>_. quiet_call a) (\<lambda>_. True) (hlift (gateway_plan (ag_policy a) c)) (\<lambda>g t. gateway_plan (ag_policy a) c = Inr g)"
    by (rule yields_hlift) simp
  fix g
  have engine: "yields (\<lambda>_. quiet_call a) (\<lambda>t. gateway_plan (ag_policy a) c = Inr g \<and> described w (ag_docker a) t doc)
      (gateway_engine w a g doc)
      (\<lambda>(g, argv) t. gateway_plan (ag_policy a) c = Inr g \<and> gateway_facts w a g t \<and> gateway_line a g argv)" for doc
    using yields_gateway_engine[of a w doc g] by (auto simp: yields_def triple_def split_def)
  show "yields (\<lambda>_. quiet_call a) (\<lambda>_. gateway_plan (ag_policy a) c = Inr g)
     (pbind (inspect_one w (ag_docker a) (gw_host g)) (\<lambda>found. case found of
         None \<Rightarrow> pfail (HOp NOT_FOUND (U ''there is no container named '' @ py_repr (gw_host g) @ U '' to forward to''))
       | Some doc \<Rightarrow> gateway_engine w a g doc))
     (\<lambda>(g, argv) t. gateway_plan (ag_policy a) c = Inr g \<and> gateway_facts w a g t \<and> gateway_line a g argv)"
  proof (rule yields_bind)
    show "yields (\<lambda>_. quiet_call a) (\<lambda>_. gateway_plan (ag_policy a) c = Inr g) (inspect_one w (ag_docker a) (gw_host g))
        (\<lambda>f t. gateway_plan (ag_policy a) c = Inr g \<and> (\<forall>doc. f = Some doc \<longrightarrow> described w (ag_docker a) t doc))"
      using triple_inspect_one[of "\<lambda>_. quiet_call a" "ag_docker a" w "gw_host g"]
      by (auto simp: yields_def triple_def quiet_call_def)
  qed (auto intro: yields_fail engine split: option.splits)
qed

section \<open>The create\<close>

lemma gateway_create_outcome:
  "gateway_create w a g argv t =
     (let d = ag_docker a;
          create = Run argv None;
          attach = Run (docker_argv d [U ''network'', U ''connect'', engine_network (ag_policy a), gw_name g]) None;
          begin_it = Run (docker_argv d [U ''start'', gw_name g]) None;
          remove = Run (docker_argv d [U ''rm'', U ''-f'', gw_name g]) None;
          answer_to = (\<lambda>t c. case c of Run ws _ \<Rightarrow> w_run w t ws None);
          created = answer_to t create; attached = answer_to (t @ [create]) attach;
          started = answer_to (t @ [create, attach]) begin_it
      in if \<not> cr_ok created then (Inl (docker_error w (U ''create'') created), t @ [create])
         else if \<not> cr_ok attached then (Inl (docker_error w (U ''network'') attached), t @ [create, attach, remove])
         else if \<not> cr_ok started then (Inl (docker_error w (U ''start'') started), t @ [create, attach, begin_it, remove])
         else (Inr [(U ''id'', JStr (last_line_id (cr_out created)))], t @ [create, attach, begin_it]))"
  by (simp add: gateway_create_def docker_ok_def docker_call_def run_cmd_def prog_defs Let_def)

lemma docker_argv_inject [simp]: "docker_argv d a = docker_argv d b \<longleftrightarrow> a = b"
  by (simp add: docker_argv_def)

text \<open>A gateway was made on this trace: a create of the node's docker succeeded.\<close>

definition created :: "world \<Rightarrow> docker \<Rightarrow> trace \<Rightarrow> bool" where
  "created w d t \<longleftrightarrow> (\<exists>words. ran w (docker_argv d (U ''create'' # words)) cr_ok t)"

lemma quiet_not_created:
  assumes "trace_ok (\<lambda>_. quiet_call a) t"
  shows "\<not> ran w (docker_argv (ag_docker a) (U ''create'' # words)) good t"
proof
  assume "ran w (docker_argv (ag_docker a) (U ''create'' # words)) good t"
  then obtain u v where t: "t = u @ Run (docker_argv (ag_docker a) (U ''create'' # words)) None # v" by (auto simp: ran_def)
  have "length u < length t" by (simp add: t)
  then have "quiet_call a (t ! length u)" using assms by (simp add: trace_ok_def)
  then show False
    by (simp add: t nth_append quiet_call_def inspect_words_def net_inspect_def net_create_def)
qed

lemma gateway_line_create: "gateway_line a g argv \<Longrightarrow> \<exists>words. argv = docker_argv (ag_docker a) (U ''create'' # words)"
  by (auto simp: gateway_line_def gateway_argv_def res_simps)

lemma ran_append: "ran w argv good (t @ cs) \<Longrightarrow> \<not> ran w argv good t \<Longrightarrow>
    \<exists>u v. cs = u @ Run argv None # v \<and> good (w_run w (t @ u) argv None)"
proof -
  assume a: "ran w argv good (t @ cs)" "\<not> ran w argv good t"
  then obtain u v where u: "t @ cs = u @ Run argv None # v" "good (w_run w u argv None)" by (auto simp: ran_def)
  then consider x where "t = u @ x" "x @ cs = Run argv None # v" | x where "u = t @ x" "cs = x @ Run argv None # v"
    by (auto simp: append_eq_append_conv2)
  then show ?thesis
  proof cases
    case 1
    show ?thesis
    proof (cases x)
      case Nil
      then have "cs = [] @ Run argv None # v" "t @ [] = u" using 1 by simp_all
      then show ?thesis using u(2) by metis
    next
      case (Cons y ys)
      then show ?thesis using 1 a(2) u(2) by (auto simp: ran_def)
    qed
  next
    case 2
    then show ?thesis using u(2) by blast
  qed
qed


definition attach_call :: "agent \<Rightarrow> gateway \<Rightarrow> call" where
  "attach_call a g = Run (docker_argv (ag_docker a) [U ''network'', U ''connect'', engine_network (ag_policy a), gw_name g]) None"

definition start_call :: "agent \<Rightarrow> gateway \<Rightarrow> call" where
  "start_call a g = Run (docker_argv (ag_docker a) [U ''start'', gw_name g]) None"

definition rm_call :: "agent \<Rightarrow> gateway \<Rightarrow> call" where
  "rm_call a g = Run (docker_argv (ag_docker a) [U ''rm'', U ''-f'', gw_name g]) None"

lemma gateway_create_failed:
  assumes "gateway_create w a g argv t = (Inl e, t')" "gateway_line a g argv" "trace_ok (\<lambda>_. quiet_call a) t"
    and "created w (ag_docker a) t'"
  shows "\<exists>u. t' = u @ [rm_call a g]"
proof -
  have d: "t' = t @ [Run argv None] \<and> \<not> cr_ok (w_run w t argv None) \<or> (\<exists>u. t' = u @ [rm_call a g])"
    using assms(1) by (auto simp: gateway_create_outcome Let_def rm_call_def split: if_splits)
  have "\<not> created w (ag_docker a) (t @ [Run argv None])" if "\<not> cr_ok (w_run w t argv None)"
  proof
    assume "created w (ag_docker a) (t @ [Run argv None])"
    then obtain words where "ran w (docker_argv (ag_docker a) (U ''create'' # words)) cr_ok (t @ [Run argv None])"
      by (auto simp: created_def)
    from ran_append[OF this quiet_not_created[OF assms(3)]] that show False
      by (auto simp: Cons_eq_append_conv)
  qed
  then show ?thesis using d assms(4) by blast
qed

lemma gateway_create_done:
  "gateway_create w a g argv t = (Inr out, t') \<Longrightarrow>
     t' = t @ [Run argv None, attach_call a g, start_call a g] \<and> cr_ok (w_run w t argv None)"
  by (auto simp: gateway_create_outcome Let_def attach_call_def start_call_def split: if_splits)

lemma gateway_outcome:
  assumes "op_gateway_start w a c [] = (r, t)"
  shows "case r of
      Inl e \<Rightarrow> created w (ag_docker a) t \<longrightarrow> (\<exists>g u. gateway_plan (ag_policy a) c = Inr g \<and> t = u @ [rm_call a g])
    | Inr out \<Rightarrow> \<exists>g argv u. gateway_plan (ag_policy a) c = Inr g \<and> gateway_line a g argv \<and> gateway_facts w a g u
        \<and> (\<forall>call \<in> set u. quiet_call a call) \<and> t = u @ [Run argv None, attach_call a g, start_call a g]"
proof -
  obtain r0 t0 where r0: "gateway_ready w a c [] = (r0, t0)" by (cases "gateway_ready w a c []")
  have q: "trace_ok (\<lambda>_. quiet_call a) t0"
    and post: "\<forall>x. r0 = Inr x \<longrightarrow> (case x of (g, argv) \<Rightarrow>
      gateway_plan (ag_policy a) c = Inr g \<and> gateway_facts w a g t0 \<and> gateway_line a g argv)"
    using yields_start[OF yields_gateway_ready r0] by auto
  have quiet: "\<forall>call \<in> set t0. quiet_call a call" using q by (auto simp: trace_ok_def in_set_conv_nth)
  show ?thesis
  proof (cases r0)
    case (Inl e)
    then have "r = Inl e" "t = t0" using assms r0 by (auto simp: op_gateway_start_def prog_defs)
    then show ?thesis using quiet_not_created[OF q] by (auto simp: created_def)
  next
    case (Inr x)
    obtain g argv where x: "x = (g, argv)" by (cases x)
    have g: "gateway_plan (ag_policy a) c = Inr g" "gateway_facts w a g t0" "gateway_line a g argv" using post Inr x by auto
    have c: "gateway_create w a g argv t0 = (r, t)" using assms r0 Inr x by (simp add: op_gateway_start_def pbind_def pcatch_def)
    show ?thesis
    proof (cases r)
      case (Inl e)
      then show ?thesis using gateway_create_failed[OF c[unfolded Inl] g(3) q] g(1) by auto
    next
      case (Inr out)
      then show ?thesis using gateway_create_done[OF c[unfolded Inr]] g quiet by auto
    qed
  qed
qed

section \<open>The gateway's command line\<close>

lemma gateway_plan_Inr:
  assumes "gateway_plan pol c = Inr g"
  shows "gateway_image pol = Some (gw_image g) \<and> matches GATEWAY_NAME (gw_name g) \<and> matches INSTANCE (gw_instance g)
    \<and> fst (port_range pol) \<le> gw_port g \<and> gw_port g \<le> snd (port_range pol) \<and> matches NGINX_HOST (gw_host g)
    \<and> 1 \<le> gw_engine_port g \<and> gw_engine_port g \<le> 65535"
  using assms by (auto simp: gateway_plan_def Let_def res_simps split: option.splits prod.splits)

lemma gateway_line_read:
  assumes "gateway_line a g argv" "valid_image (gw_image g)"
  shows "\<exists>ws os. argv = docker_argv (ag_docker a) (U ''create'' # ws)
     \<and> read_words ws = Some (os, gw_image g, [U ''-c'', GATEWAY_SH])
     \<and> [v. (f, v) \<leftarrow> os, f = U ''-p''] = [U ''127.0.0.1:'' @ dec_int (gw_port g) @ U '':'' @ dec GATEWAY_LISTEN]
     \<and> [v. (f, v) \<leftarrow> os, f = U ''-v''] = [] \<and> (U ''--read-only'', []) \<in> set os \<and> (U ''--cap-drop'', U ''ALL'') \<in> set os"
proof -
  obtain conf where c: "gateway_config (gw_host g) (gw_engine_port g) = Inr conf"
    using assms(1) by (auto simp: gateway_line_def gateway_argv_def res_simps)
  have img: "\<not> starts_with (gw_image g) [45]" using assms(2) by (rule image_not_option)
  show ?thesis
    using assms(1) img unfolding gateway_line_def gateway_argv_def c try_bind.simps sum.inject
    by (elim subst) (simp add: switches_def)
qed

end
