(* ===== verification/SampleRun.thy ===== *)
theory SampleRun
  imports GatewaySafe
begin

text \<open>A concrete machine, policy and run spec, on which the properties of runs and of their confinement are exercised.\<close>

definition sample_docker :: docker where
  "sample_docker = \<lparr>dk_binary = U ''docker'', dk_context = None\<rparr>"

definition sample_root1 :: root where
  "sample_root1 = \<lparr>rt_id = U ''hf'', rt_path = U ''/data/hf'', rt_kind = U ''auto'', rt_writable = False, rt_label = U ''hf''\<rparr>"

definition sample_policy :: policy where
  "sample_policy = python_default\<lparr>engine_images := [U ''a:*''], model_roots := [sample_root1],
     gateway_image := Some (U ''a:b''), pol_home := Some (abs_path bob)\<rparr>"

definition sample_fs :: fs where
  "sample_fs = \<lparr>fs_env = bare_env, fs_home = abs_path bob, is_dir = (\<lambda>p. p = U ''/data/hf''), fs_exists = (\<lambda>_. False),
     errno_text = (\<lambda>_. []), fs_open = (\<lambda>_. Inr 3), fs_openat = (\<lambda>_ _. Inl EMissing), fs_mkdirat = (\<lambda>_ _. None),
     fs_reopenat = (\<lambda>_ _. Inr 4), fd_path = (\<lambda>_. Some (U ''/data/hf'')), lst_regular = (\<lambda>_. True), fd_regular = (\<lambda>_. True),
     fd_size = (\<lambda>_. Some 1), fd_read = (\<lambda>_. [])\<rparr>"

definition sample_renv :: renv where
  "sample_renv = \<lparr>rn_fs = sample_fs, rn_list = (\<lambda>_. Inr [(U ''w'', False)]), known_gpus = [U ''G''], state_dir = U ''/s'',
     scan_max = 20000, fmt_g = (\<lambda>_. [])\<rparr>"

definition sample_spec :: "ustr \<Rightarrow> obj" where
  "sample_spec secret =
     [(U ''name'', JStr (U ''ec-a'')), (U ''instance'', JStr (U ''i'')), (U ''image'', JStr (U ''a:b'')),
      (U ''container_port'', JNum (PosInt 8000)), (U ''argv'', JArr [JStr (U ''-x'')]),
      (U ''secret_env'', JObj [(U ''KEY'', JStr secret)]),
      (U ''mounts'', JArr [JObj [(U ''root'', JStr (U ''hf'')), (U ''dest'', JStr (U ''/m''))]]),
      (U ''files'', JObj [(U ''/c'', JStr (U ''x''))])]"

definition sample_run :: "ustr \<Rightarrow> run_plan" where
  "sample_run secret =
     \<lparr>rp_name = U ''ec-a'', rp_instance = U ''i'', rp_image = U ''a:b'', rp_argv = [U ''-x''], rp_port = 8000,
      rp_network = DEFAULT_NETWORK, rp_alias = U ''ec-a'', rp_gpus = [], rp_labels = owner_labels (U ''i''), rp_env = [],
      rp_secret_env = [(U ''KEY'', secret)], rp_mounts = [(U ''/data/hf'', U ''/m'', True)], rp_volumes = [],
      rp_files = [(U ''/c'', U ''/s/instances/i/files/0-c'', U ''x'')], rp_shm = U ''16g'', rp_ipc_host = False, rp_ulimits = []\<rparr>"

section \<open>Patterns on the sample's names\<close>

lemmas re_eval = U_def is_lower_def fold_class_def in_cls_def Opt_def Plus_def Chr_def IC_def ANY_STAR_def ANY_def

lemma key_env: "\<not> child_env_deny (U ''KEY'')" "env_looks_secret (U ''KEY'')"
  by (simp_all add: child_env_deny_def env_looks_secret_def re_eval)

lemma plain_names: "\<not> is_secret_name (U ''w'')" "\<not> is_secret_name (U ''hf'')"
  by (simp_all add: is_secret_name_def SECRET_FILE_def secret_word_def SECRET_DIRS_def lower_char_def NON_LETTER_I_def sep2_def
    SECRET_WORDS_def SECRET_TOKEN_def re_eval)

lemma sample_names: "matches RUN_NAME (U ''ec-a'')" "matches INSTANCE (U ''i'')" "matches ENV_NAME (U ''KEY'')"
  "matches SHM (U ''16g'')"
  by code_simp+

lemma sample_image: "split_image (U ''a:b'') = Some (U ''a'', Some (U ''b''), None)"
proof -
  have "matches repo_re (U ''a'')" "matches TAG (U ''b'')" by code_simp+
  then show ?thesis
    by (auto simp: split_image_iff matches_iff U_def intro!: exI[of _ "58 # U ''b''"] suffix.intros)
qed

lemma sample_image_ok: "valid_image (U ''a:b'')" "image_allowed sample_policy (U ''a:b'')"
  unfolding valid_image_def image_allowed_def image_matches_cases sample_image
  by (simp_all add: sample_policy_def) (simp add: U_def)

section \<open>The sample's root\<close>

lemma sample_path: "U ''/data/hf'' = abs_path [U ''data'', U ''hf'']"
  by (simp add: abs_path_def U_def)

lemma sample_real: "real_of sample_fs (U ''/data/hf'') = U ''/data/hf''"
proof -
  have "normpath (U ''/data/hf'') = U ''/data/hf''" unfolding sample_path by (rule normpath_abs_path[OF bob_clean(2)])
  moreover have "starts_with (U ''/data/hf'') [slash]" "\<not> starts_with (U ''/data/hf'') [slash, slash]" by (simp_all add: U_def starts_with_def)
  ultimately show ?thesis using realpath_no_links[OF bare_links, of "U ''/data/hf''"]
    by (simp add: real_of_def sample_fs_def)
qed

lemma sample_recheck:
  "recheck_root_real bare_env (U ''hf'') (U ''/data/hf'') None (Some (abs_path bob)) = Inr ()"
proof -
  have f: "U ''/data/hf'' \<notin> set FORBIDDEN_ROOTS" by (simp add: FORBIDDEN_ROOTS_def U_def)
  have "path_forms bare_env (U ''/data/hf'') = [U ''/data/hf'']"
    unfolding sample_path by (rule path_forms_bare[OF bare_links bob_clean(2)])
  then have b: "\<not> too_broad bare_env [U ''/data/hf''] (Some (abs_path bob))"
    using f too_broad_bare[OF bare_links bob_clean(2,1)] unfolding sample_path by (simp add: U_def)
  have o: "check_root_overlap bare_env (U ''/data/hf'') loc None (Some (abs_path bob)) = Inr ()" for loc
    unfolding sample_path overlap_bare[OF bare_links bob_clean(2,1)] by (simp add: guarded_def U_def)
  show ?thesis using b o by (simp add: recheck_root_real_def ensure_def)
qed

lemma sample_root_open:
  "open_root sample_fs sample_policy (JStr (U ''hf'')) False =
     Inr \<lparr>rh_root = sample_root1, rh_real = U ''/data/hf''\<rparr>"
proof -
  have f: "fs_env sample_fs = bare_env" "is_dir sample_fs (U ''/data/hf'')" by (simp_all add: sample_fs_def)
  show ?thesis
    by (simp add: open_root_def sample_policy_def sample_root1_def root_of_def find_root_def python_default_def unwrap_or_def sample_real f
        sample_recheck res_simps ensure_def Let_def)
qed

lemma sample_scan: "secret_near_top sample_renv (U ''/data/hf'') 20000 = Inr None"
proof -
  have b: "basename (U ''/data/hf'') = U ''hf''" by code_simp
  have d: "SECRET_SCAN_DEPTH = Suc (Suc (Suc (Suc 0)))" by (simp add: SECRET_SCAN_DEPTH_def)
  show ?thesis unfolding secret_near_top_def b d
    by (simp add: plain_names sample_renv_def scan_dir_def)
qed

lemma sample_dest: "check_dest (JStr (U ''/m'')) what = Inr (U ''/m'')" "check_dest (JStr (U ''/c'')) what = Inr (U ''/c'')"
  by (simp_all add: check_dest_def Let_def starts_with_def bad_dest_char_def is_ctrl_def trim_end_def U_def)

lemma sample_file: "file_base (U ''/c'') = U ''c''" "dec 0 = U ''0''"
  by (simp_all add: file_base_def file_char_def in_cls_def U_def dec.simps)


section \<open>The sample's plan\<close>

lemma sample_get: "obj_get (sample_spec x) (U k) =
    (if k = ''name'' then Some (JStr (U ''ec-a'')) else if k = ''instance'' then Some (JStr (U ''i''))
     else if k = ''image'' then Some (JStr (U ''a:b'')) else if k = ''container_port'' then Some (JNum (PosInt 8000))
     else if k = ''argv'' then Some (JArr [JStr (U ''-x'')]) else if k = ''secret_env'' then Some (JObj [(U ''KEY'', JStr x)])
     else if k = ''mounts'' then Some (JArr [JObj [(U ''root'', JStr (U ''hf'')), (U ''dest'', JStr (U ''/m''))]])
     else if k = ''files'' then Some (JObj [(U ''/c'', JStr (U ''x''))]) else None)"
  by (simp add: sample_spec_def obj_get_def)

lemmas sample_fields = sample_get vstr_def list_of_def str_map_def text_of_def unwrap_or_def nonempty_or_def Let_def

lemma sample_mounts:
  "plan_mounts sample_renv sample_policy (sample_spec x) [] = Inr ([U ''/m''], [(U ''/data/hf'', U ''/m'', True)])"
proof -
  have f: "rn_fs sample_renv = sample_fs" "scan_max sample_renv = 20000" by (simp_all add: sample_renv_def)
  have "\<not> colon_comma (U ''/data/hf'')" by (simp add: colon_comma_def U_def)
  then show ?thesis
    by (simp add: plan_mounts_def sample_fields mount_step_def f vget_def obj_get_def[of "[_, _]"] sample_root_open mount_src_def
        sample_scan sample_dest claim_def ensure_def)
qed

lemma sample_files:
  "plan_files (files_dir (U ''/s'') (U ''i'')) (sample_spec x) [U ''/m''] =
     Inr ([U ''/c'', U ''/m''], [(U ''/c'', U ''/s/instances/i/files/0-c'', U ''x'')])"
proof -
  have h: "join_path (files_dir (U ''/s'') (U ''i'')) (U ''0'' @ U ''-'' @ U ''c'') = U ''/s/instances/i/files/0-c''"
    by (simp add: files_dir_def join_paths_def join_path_def U_def starts_with_def ends_with_def)
  have n: "U ''/c'' \<noteq> U ''/m''" by simp
  show ?thesis
    using h by (simp add: plan_files_def MAX_FILES_def sample_fields file_step_def sample_dest claim_def sample_file)
qed

lemma sample_planned: "plan_run sample_renv sample_policy (JObj (sample_spec x)) = Inr (sample_run x)"
proof -
  have p: "engine_network sample_policy = DEFAULT_NETWORK" "max_shm_gib sample_policy = 64" "state_dir sample_renv = U ''/s''"
    by (simp_all add: sample_policy_def python_default_def sample_renv_def)
  have c: "\<not> colon_comma (files_dir (U ''/s'') (U ''i''))"
    by (simp add: colon_comma_def files_dir_def join_paths_def join_path_def U_def starts_with_def ends_with_def)
  have shm: "shm_gib (U ''16g'') = Inr 16"
    using sample_names(4) by (simp add: shm_gib_def digits_val_def shm_unit_def U_def)
  have argv: "plan_argv (sample_spec x) = Inr [U ''-x'']"
    by (simp add: plan_argv_def sample_fields List.map_filter_simps) (simp add: U_def)
  have "plan_name (sample_spec x) = Inr (U ''ec-a'')" "plan_instance (sample_spec x) = Inr (U ''i'')"
    "plan_image sample_policy (sample_spec x) = Inr (U ''a:b'')" "plan_port (sample_spec x) = Inr 8000"
    "plan_alias (U ''ec-a'') (sample_spec x) = Inr (U ''ec-a'')" "plan_gpus sample_renv (sample_spec x) = Inr []"
    "plan_labels (U ''i'') (sample_spec x) = Inr (owner_labels (U ''i''))" "plan_env (sample_spec x) = Inr []"
    "plan_secret_env [] (sample_spec x) = Inr [(U ''KEY'', x)]" "plan_volumes (sample_spec x) [U ''/m''] = Inr ([U ''/m''], [])"
    "plan_shm sample_renv sample_policy (sample_spec x) = Inr (U ''16g'')" "plan_ulimits (sample_spec x) = Inr []"
    by (simp_all add: plan_name_def plan_instance_def plan_image_def plan_port_def plan_alias_def plan_gpus_def plan_labels_def
        plan_env_def plan_secret_env_def secret_step_def plan_volumes_def plan_shm_def plan_ulimits_def sample_fields
        sample_names sample_image_ok key_env shm p default_shm_def)
  then show ?thesis
    by (simp add: plan_run_def sample_mounts sample_files argv p c ensure_def sample_get sample_run_def)
qed


section \<open>A machine whose network cannot be attached\<close>

definition engine_json :: json where
  "engine_json = JObj [(U ''Id'', JStr (U ''1'')), (U ''Config'', JObj [(U ''Labels'', JObj [(LABEL, JStr (U ''1''))])])]"

text \<open>Every command succeeds and prints \<open>true\<close>, but \<open>docker network connect\<close> fails.\<close>

definition sample_world :: world where
  "sample_world = \<lparr>w_run = (\<lambda>t argv env. \<lparr>cr_rc = (if U ''connect'' \<in> set argv then 1 else 0), cr_out = U ''true'',
       cr_err = [], cr_truncated = False\<rparr>),
     w_io = (\<lambda>_ _. None), w_yes = (\<lambda>_ _. True), w_link = (\<lambda>_ _. None), w_dir = (\<lambda>_ _. Inr []), w_random = (\<lambda>_ _. []),
     w_json = (\<lambda>_. Some (JArr [engine_json])), w_scrub = (\<lambda>s. s), w_errno = (\<lambda>_. []), w_float = (\<lambda>_. [])\<rparr>"

definition sample_agent :: agent where
  "sample_agent = \<lparr>ag_policy = sample_policy, ag_docker = sample_docker, ag_renv = sample_renv, ag_env = [], ag_debug = False\<rparr>"

definition sample_gateway :: obj where
  "sample_gateway = [(U ''name'', JStr (U ''ec-g'')), (U ''instance'', JStr (U ''i'')), (U ''host_port'', JNum (PosInt 18000)),
     (U ''engine_host'', JStr (U ''ec-a'')), (U ''engine_port'', JNum (PosInt 8000))]"

lemma sample_gateway_fails:
  "\<exists>e u. op_gateway_start sample_world sample_agent sample_gateway [] =
     (Inl e, u @ [Run (docker_argv sample_docker [U ''rm'', U ''-f'', U ''ec-g'']) None])"
proof -
  have n: "matches GATEWAY_NAME (U ''ec-g'')" "matches NGINX_HOST (U ''ec-a'')" "matches CONTAINER_REF (U ''ec-a'')"
    by code_simp+
  have g: "obj_get sample_gateway (U k) = (if k = ''name'' then Some (JStr (U ''ec-g'')) else if k = ''instance'' then Some (JStr (U ''i''))
      else if k = ''host_port'' then Some (JNum (PosInt 18000)) else if k = ''engine_host'' then Some (JStr (U ''ec-a''))
      else if k = ''engine_port'' then Some (JNum (PosInt 8000)) else None)" for k
    by (simp add: sample_gateway_def obj_get_def)
  have p: "gateway_image sample_policy = Some (U ''a:b'')" "port_range sample_policy = (18000, 18099)"
    by (simp_all add: sample_policy_def python_default_def DEFAULT_PORTS_def)
  have plan: "gateway_plan sample_policy sample_gateway = Inr \<lparr>gw_image = U ''a:b'', gw_name = U ''ec-g'', gw_instance = U ''i'',
      gw_port = 18000, gw_host = U ''ec-a'', gw_engine_port = 8000\<rparr>"
    by (simp add: gateway_plan_def p arg_def arg_int_def g text_of_def unwrap_or_def n sample_names ensure_def)
  have w: "w_json sample_world x = Some (JArr [engine_json])" "w_yes sample_world t c"
    "w_run sample_world t argv env = \<lparr>cr_rc = (if U ''connect'' \<in> set argv then 1 else 0), cr_out = U ''true'',
       cr_err = [], cr_truncated = False\<rparr>" for x t c argv env by (simp_all add: sample_world_def)
  have o: "objects_of (JArr [engine_json]) = [engine_json]" by (simp add: objects_of_def engine_json_def)
  have st: "strip (U ''true'') = U ''true''" "lowered (U ''true'') = U ''true''"
    by (simp_all add: strip_def isspace_def in_cls_def lowered_def lower_char_def U_def)
  have c: "check_owned sample_world engine_json x None None = Inr ()" "label (labels_of sample_world engine_json) ROLE_LABEL = None" for x
    by (simp_all add: check_owned_any labels_of_def engine_json_def vget_def obj_get_def label_def str_value_def LABEL_def ROLE_LABEL_def)
  obtain conf where conf: "gateway_config (U ''ec-a'') 8000 = Inr conf" using n by (auto simp: gateway_config_def)
  have a: "ag_policy sample_agent = sample_policy" "ag_docker sample_agent = sample_docker" by (simp_all add: sample_agent_def)
  have i: "inspect_one sample_world sample_docker (U ''ec-a'') t =
      (Inr (Some engine_json), t @ [Run (docker_argv sample_docker (inspect_words [U ''ec-a''])) None])" for t
    by (simp add: inspect_one_def inspect_def docker_call_def run_cmd_def prog_defs n w cr_ok_def inspect_docs_def st unwrap_or_def o Let_def truthy_def)
  have net: "ensure_network sample_world sample_docker DEFAULT_NETWORK t = (Inr (), t @ [Run (net_inspect sample_docker DEFAULT_NETWORK) None])" for t
    by (simp add: ensure_network_def docker_call_def run_cmd_def prog_defs w st cr_ok_def net_inspect_def docker_argv_def
        sample_docker_def DEFAULT_NETWORK_def)
  have en: "engine_network sample_policy = DEFAULT_NETWORK" by (simp add: sample_policy_def python_default_def)
  obtain argv where argv: "gateway_argv sample_docker (U ''a:b'') (U ''ec-g'') (U ''i'') 18000 (U ''ec-a'') 8000 = Inr argv"
    and connect: "U ''connect'' \<notin> set argv"
    using conf by (auto simp: gateway_argv_def docker_argv_def sample_docker_def eq_pair_def GATEWAY_SH_def INSTANCE_LABEL_def U_def)
  show ?thesis
    by (simp add: op_gateway_start_def gateway_ready_def gateway_engine_def a plan hlift_def pbind_def pcatch_def pret_def i c
        hensure_def yes_call_def ask_def w net en plift_def argv gateway_create_outcome connect cr_ok_def docker_argv_def Let_def)
qed

end
