(* ===== verification/RunClaims.thy ===== *)
theory RunClaims
  imports SampleRun
begin

text \<open>
  The properties of runs, of the command lines the node gives docker, of the containers it touches and of
  the paths it opens, each with an instance on the sample of SampleRun.
\<close>

section \<open>Plans\<close>

text \<open>
  C3. A run spec the node accepts gives a well-formed plan: an image the policy allows; only read-only mounts,
  of a configured root or a path really inside one that passes the checks of roots again, with no key-looking
  name near the top; container paths that are absolute, free of separators and distinct; the console's owner
  labels; no secret-looking name among the plain environment; shared memory and \<open>--ipc host\<close> within the policy.
\<close>

theorem plan_run_safe:
  assumes "plan_run e pol v = Inr p"
  shows "plan_ok e pol p"
  using assms by (rule plan_run_ok)

lemma plan_run_safe_witness: "plan_ok sample_renv sample_policy (sample_run (U ''s''))"
  by (rule plan_run_safe[OF sample_planned])

text \<open>
  C5. The command line of an accepted plan reads back as exactly the plan's options, its image and the engine's
  own arguments: no value from the hub is taken for an option of docker. Every \<open>-v\<close> among the options splits
  at its colons into a read-only mount of a checked source, a read-only generated file of this instance, or a
  named volume of the console.
\<close>

theorem run_command_faithful:
  assumes "plan_run e pol v = Inr p"
  shows "(\<exists>ws. run_argv d p = docker_argv d (U ''run'' # ws) \<and> read_words ws = Some (run_options p, rp_image p, rp_argv p))
    \<and> (\<forall>x. (U ''-v'', x) \<in> set (run_options p) \<longrightarrow>
        (\<exists>src dest. split_on 58 x = [src, dest, U ''ro''] \<and> source_ok e pol src)
        \<or> (\<exists>n dest. split_on 58 x = [join_path (files_dir (state_dir e) (rp_instance p)) n, dest, U ''ro''] \<and> plain_name n)
        \<or> (\<exists>n dest. split_on 58 x = [n, dest] \<and> matches VOLUME n))"
proof -
  have ok: "plan_ok e pol p" using assms by (rule plan_run_ok)
  then have "valid_image (rp_image p)" by (simp add: plan_ok_def)
  from run_argv_read[OF this] show ?thesis using run_mounts[OF ok] by blast
qed

lemma run_command_faithful_witness:
  "(\<exists>ws. run_argv sample_docker (sample_run (U ''s'')) = docker_argv sample_docker (U ''run'' # ws)
      \<and> read_words ws = Some (run_options (sample_run (U ''s'')), U ''a:b'', [U ''-x'']))
   \<and> (U ''-v'', U ''/data/hf:/m:ro'') \<in> set (run_options (sample_run (U ''s'')))"
  using run_command_faithful[OF sample_planned[of "U ''s''"], of sample_docker]
  by (auto simp: sample_run_def run_options_def mount_arg_def U_def)

text \<open>
  C10. The values of \<open>secret_env\<close> never reach a command line: whatever values the hub sends under the same
  names, \<open>docker.render\<close> gives the same answer, error messages included.
\<close>

theorem secrets_never_rendered:
  "docker_render e pol d (JObj (obj_insert (U ''secret_env'') (JObj (map (\<lambda>k. (k, f k)) ks)) spec))
   = docker_render e pol d (JObj (obj_insert (U ''secret_env'') (JObj (map (\<lambda>k. (k, g k)) ks)) spec))"
  by (rule secret_values_irrelevant) (simp_all add: om.get_ins str_map_def)

text \<open>
  C32. The scan of a mount source decides: when it returns, it returns nothing exactly if neither the source's
  own name nor any name in the folders of the first four levels looks like a key, model trees aside.
\<close>

theorem key_scan_complete:
  assumes "secret_near_top e src most = Inr r"
  shows "r = None \<longleftrightarrow> \<not> is_secret_name (basename src)
     \<and> (\<forall>j < SECRET_SCAN_DEPTH. \<forall>rel \<in> set (tree_level e src j [[]]). \<not> shows_key e src rel)"
  using assms by (rule secret_near_top_cases)

lemma key_scan_complete_witness: "\<not> is_secret_name (basename (U ''/data/hf'')) \<and> \<not> shows_key sample_renv (U ''/data/hf'') []"
proof -
  have "0 < SECRET_SCAN_DEPTH" "[] \<in> set (tree_level sample_renv (U ''/data/hf'') 0 [[]])" by (simp_all add: SECRET_SCAN_DEPTH_def)
  then show ?thesis using key_scan_complete[OF sample_scan] by blast
qed

text \<open>
  C40. Under a policy whose \<open>max_shm_gib\<close> is at least 9.765625 and below 16, a run spec without
  \<open>shm_size\<close> is never accepted: the default the node writes itself has five digits, and the node's own
  pattern takes at most four.
\<close>

theorem default_shm_refused:
  assumes "625 / 64 \<le> max_shm_gib pol" "max_shm_gib pol < 16" "vstr (vget v (U ''shm_size'')) = None"
  shows "plan_run e pol v \<noteq> Inr p"
  using assms by (rule plan_run_no_default)

lemma default_shm_refused_witness:
  "(\<forall>p. plan_run sample_renv (sample_policy\<lparr>max_shm_gib := 10\<rparr>) (JObj (sample_spec (U ''s''))) \<noteq> Inr p)
   \<and> plan_run sample_renv sample_policy (JObj (sample_spec (U ''s''))) = Inr (sample_run (U ''s''))"
proof -
  have "vstr (vget (JObj (sample_spec (U ''s''))) (U ''shm_size'')) = None" by (simp add: vget_def sample_fields)
  then show ?thesis using default_shm_refused[of "sample_policy\<lparr>max_shm_gib := 10\<rparr>"] sample_planned by simp
qed

section \<open>What the operations do\<close>

text \<open>
  C11. \<open>docker.stop\<close>, \<open>docker.start\<close> and \<open>docker.rm\<close> act only on a container that docker, in the same
  operation, has described as the console's own (and of the role and instance asked for), and by that
  container's id. Besides that they only inspect, and remove the files of an instance, never through a link.
\<close>

theorem console_only:
  "trace_ok (owned_call w a c) (snd (op_stop w a c [])) \<and> trace_ok (owned_call w a c) (snd (op_start w a c []))
   \<and> trace_ok (owned_call w a c) (snd (op_rm w a c []))"
  by (simp add: console_containers_only)

text \<open>
  C23. \<open>docker.run\<close> of a refused spec touches nothing. Otherwise every call is one of the plan's: the engine
  network's, those of the instance's files, and the planned command, only after docker said that the network
  is internal (or made it so) and every file was written; the secret values are in that command's environment,
  where they replace no variable of the CLI; and it succeeds only if the command did.
\<close>

theorem docker_run_effects:
  "case plan_run (ag_renv a) (ag_policy a) (arg c (U ''spec'')) of
     Inl f \<Rightarrow> op_run w a c [] = (Inl (op_error f), [])
   | Inr p \<Rightarrow> trace_ok (run_call w a p) (snd (op_run w a c []))
       \<and> ((\<exists>e. fst (op_run w a c []) = Inl e)
          \<or> (\<exists>u. snd (op_run w a c []) = u @ [Run (run_argv (ag_docker a) p) (Some (run_env a p))]
              \<and> cr_ok (w_run w u (run_argv (ag_docker a) p) (Some (run_env a p)))))
       \<and> (\<forall>k. obj_get (run_env a p) k = (case obj_get (obj_of (rp_secret_env p)) k of
            Some v \<Rightarrow> Some v | None \<Rightarrow> obj_get (child_env (ag_debug a) None (ag_env a)) k))"
proof (cases "plan_run (ag_renv a) (ag_policy a) (arg c (U ''spec''))")
  case (Inl f)
  then show ?thesis using op_run_refused by simp
next
  case (Inr p)
  have ok: "plan_ok (ag_renv a) (ag_policy a) p" using Inr by (rule plan_run_ok)
  obtain r t where r: "op_run w a c [] = (r, t)" by (cases "op_run w a c []")
  from yields_start[OF op_run_planned[OF Inr] r] show ?thesis
    using r Inr run_env_get[OF ok] by (cases r) auto
qed

text \<open>
  C30. A gateway is all or nothing. When \<open>gateway.start\<close> succeeds, its last calls are the create, the attach
  and the start of the checked plan, after docker described the engine as a console container that is no
  gateway, the port was free and the engine network internal. When it fails and a create had succeeded, its
  last call removes that gateway.
\<close>

definition gateway_settled :: "world \<Rightarrow> agent \<Rightarrow> obj \<Rightarrow> (handler_error + obj) \<times> trace \<Rightarrow> bool" where
  "gateway_settled w a c rt \<longleftrightarrow>
     (case rt of
        (Inl e, t) \<Rightarrow> created w (ag_docker a) t \<longrightarrow> (\<exists>g u. gateway_plan (ag_policy a) c = Inr g \<and> t = u @ [rm_call a g])
      | (Inr out, t) \<Rightarrow> \<exists>g argv u. gateway_plan (ag_policy a) c = Inr g \<and> gateway_line a g argv \<and> gateway_facts w a g u
          \<and> (\<forall>call \<in> set u. quiet_call a call) \<and> t = u @ [Run argv None, attach_call a g, start_call a g])"

theorem gateway_all_or_nothing: "gateway_settled w a c (op_gateway_start w a c [])"
  using gateway_outcome[of w a c "fst (op_gateway_start w a c [])" "snd (op_gateway_start w a c [])"]
  by (cases "op_gateway_start w a c []"; cases "fst (op_gateway_start w a c [])") (simp_all add: gateway_settled_def)

section \<open>What the node opens\<close>

text \<open>
  C39. What is opened below a root is really there: an opened directory is, by the path the system reports of
  the open descriptor, inside the root (and one opened to write has no protected name on its way); an opened
  file is a regular file inside the root whose resolved path has no secret-looking name.
\<close>

theorem opened_inside:
  "(open_dir f h parts create = Inr fd \<and> (create \<longrightarrow> parts \<noteq> [])
      \<longrightarrow> at_inside f h fd \<and> (create \<longrightarrow> at_writable f h fd))
   \<and> (open_inside f R path = Some fd
      \<longrightarrow> fd_inside (fd_path f fd) R \<and> inside (real_of f path) R \<and> fd_regular f fd
        \<and> \<not> secret_inside f (real_of f path) R \<and> \<not> is_secret_name (basename path))"
  using open_dir_inside[of f h parts create fd] open_inside_Some[of f R path fd]
  by (auto simp: fd_inside_def split: option.splits)


lemma opened_inside_witness:
  "open_inside sample_fs (U ''/data/hf'') (U ''/data/hf'') = Some 3
   \<and> at_inside sample_fs \<lparr>rh_root = sample_root1, rh_real = U ''/data/hf''\<rparr> 3"
proof -
  let ?h = "\<lparr>rh_root = sample_root1, rh_real = U ''/data/hf''\<rparr>"
  have f: "fs_open sample_fs p = Inr 3" "fd_path sample_fs n = Some (U ''/data/hf'')" for p n by (simp_all add: sample_fs_def)
  have d: "open_dir sample_fs ?h [] False = Inr 3"
    by (simp add: open_dir_def open_dir_existing_def handle_path_def join_paths_def sample_real inside_refl ensure_def check_fd_def
        check_where_def f)
  have s: "\<not> secret_inside sample_fs (U ''/data/hf'') (U ''/data/hf'')"
    unfolding secret_inside_def sample_path
    using any_segment_below_abs[of "[U ''data'', U ''hf'']" "[]" sample_fs is_secret_name] bob_clean(2) by simp
  have b: "basename (U ''/data/hf'') = U ''hf''" by code_simp
  have n: "0 \<notin> set (U ''/data/hf'')" by (simp add: U_def)
  have o: "open_inside sample_fs (U ''/data/hf'') (U ''/data/hf'') = Some 3"
    using n by (simp add: open_inside_def sample_real inside_refl s b plain_names Let_def)
      (simp add: sample_fs_def fd_inside_def inside_refl)
  show ?thesis using o opened_inside[where f = sample_fs and h = ?h and parts = "[]" and create = False and fd = 3
      and R = "U ''/data/hf''" and path = "U ''/data/hf''"] d by simp
qed

end
