(* ===== verification/PolicyMirror.thy ===== *)
theory PolicyMirror
  imports RootGuard Confine
begin

text \<open>
  The hub's own validator of policy texts (crates/ec-hub/src/services/policy_check.rs), a second
  implementation of the node's rules for the config editor. It knows neither the node's home nor its
  policy path nor its symlinks. Each \<open>hub_\<close> definition is the function of that name in policy_check.rs; how
  it relates to the node's is shown in MirrorOk.
\<close>

section \<open>Helpers\<close>

definition hub_normpath :: "ustr \<Rightarrow> ustr" where
  "hub_normpath path =
     (if path = [] then dot_seg
      else (let initial = (if starts_with path [slash] then
                  (if starts_with path [slash, slash] \<and> \<not> starts_with path [slash, slash, slash] then [slash, slash]
                   else [slash]) else []);
                comps = fold (\<lambda>comp comps.
                    if comp = [] \<or> comp = dot_seg then comps
                    else if comp \<noteq> dotdot_seg \<or> (initial = [] \<and> comps = []) \<or> (comps \<noteq> [] \<and> last comps = dotdot_seg)
                    then comps @ [comp]
                    else butlast comps) (split_on slash path) [];
                out = initial @ join_with [slash] comps
            in if out = [] then dot_seg else out))"

definition hub_inside :: "ustr \<Rightarrow> ustr \<Rightarrow> bool" where
  "hub_inside child dir =
     (if child = dir then True
      else (let stem = strip_slashes dir in
            length stem < length child \<and> starts_with child stem \<and> child ! length stem = slash))"

definition hub_keys :: "obj \<Rightarrow> ustr list \<Rightarrow> ustr \<Rightarrow> ustr + unit" where
  "hub_keys m allowed loc =
     (case find (\<lambda>k. \<not> starts_with k [95] \<and> k \<notin> set allowed) (map fst m) of
        None \<Rightarrow> Inr ()
      | Some k \<Rightarrow> Inl (loc @ U '': unknown key '' @ py_repr k @ U '' (allowed: ''
                       @ join_with (U '', '') (sort allowed) @ U '')''))"

definition hub_bool :: "obj \<Rightarrow> ustr \<Rightarrow> ustr \<Rightarrow> ustr + bool" where
  "hub_bool m key loc =
     (case obj_get m key of
        None \<Rightarrow> Inr False
      | Some (JBool b) \<Rightarrow> Inr b
      | Some _ \<Rightarrow> Inl (loc @ U ''.'' @ key @ U '' must be true or false''))"

definition hub_str :: "obj \<Rightarrow> ustr \<Rightarrow> ustr \<Rightarrow> nat \<Rightarrow> re option \<Rightarrow> bool \<Rightarrow> ustr + ustr option" where
  "hub_str m key loc limit pattern req =
     (let bad = Inl (loc @ U ''.'' @ key @ U '' must be a non-empty string of at most '' @ dec limit @ U '' characters'');
          go = (\<lambda>v. case v of
              JStr s \<Rightarrow>
                if s \<noteq> [] \<and> length s \<le> limit \<and> 0 \<notin> set s then
                  (case pattern of
                     Some p \<Rightarrow> (if \<not> matches p s then
                         Inl (loc @ U ''.'' @ key @ U '': '' @ py_repr s @ U '' is not a valid value'')
                       else Inr (Some s))
                   | None \<Rightarrow> Inr (Some s))
                else bad
            | _ \<Rightarrow> bad);
          absent = (if req then Inl (loc @ U ''.'' @ key @ U '' is required'') else Inr None)
      in case obj_get m key of
           None \<Rightarrow> absent
         | Some v \<Rightarrow> if v = JNull then absent else go v)"

definition hub_int :: "json \<Rightarrow> ustr \<Rightarrow> int \<Rightarrow> int \<Rightarrow> ustr + int" where
  "hub_int v loc lo hi =
     (let bad = Inl (loc @ U '' must be a whole number from '' @ dec_int lo @ U '' to '' @ dec_int hi) in
      case v of
        JNum n \<Rightarrow>
          (if \<not> is_f64 n then
             (case as_i64 n of Some i \<Rightarrow> (if lo \<le> i \<and> i \<le> hi then Inr i else bad) | None \<Rightarrow> bad)
           else bad)
      | _ \<Rightarrow> bad)"

definition hub_list :: "obj \<Rightarrow> ustr \<Rightarrow> ustr \<Rightarrow> nat \<Rightarrow> ustr + json list" where
  "hub_list m key loc cap =
     (let bad = Inl (loc @ U ''.'' @ key @ U '' must be a list of at most '' @ dec cap @ U '' items'') in
      case obj_get m key of
        None \<Rightarrow> Inr []
      | Some JNull \<Rightarrow> Inr []
      | Some (JArr a) \<Rightarrow> (if length a \<le> cap then Inr a else bad)
      | Some _ \<Rightarrow> bad)"

text \<open>A text of 1 to \<open>n\<close> characters without NUL, as a value.\<close>

definition hub_text :: "nat \<Rightarrow> json \<Rightarrow> bool" where
  "hub_text n v = (case json_str v of None \<Rightarrow> False | Some s \<Rightarrow> s \<noteq> [] \<and> length s \<le> n \<and> 0 \<notin> set s)"

section \<open>Image references\<close>

definition HUB_IMAGE_REF :: re where
  "HUB_IMAGE_REF = Seq repo_re (Seq (Opt (Seq (Chr 58) TAG)) (Opt (Seq (Chr 64) DIGEST)))"

definition HUB_PAT_TAG :: re where "HUB_PAT_TAG = Seq repo_re (Lit (U '':*''))"
definition HUB_PAT_DIGEST :: re where "HUB_PAT_DIGEST = Seq repo_re (Lit (U ''@sha256:*''))"

definition hub_valid_image :: "ustr \<Rightarrow> bool" where
  "hub_valid_image r \<longleftrightarrow> length r \<le> 256 \<and> matches HUB_IMAGE_REF r"

definition hub_valid_image_pattern :: "ustr \<Rightarrow> bool" where
  "hub_valid_image_pattern p \<longleftrightarrow> matches HUB_PAT_TAG p \<or> matches HUB_PAT_DIGEST p \<or> hub_valid_image p"

section \<open>Model roots\<close>

definition SYSTEM_POLICY_DIR :: ustr where "SYSTEM_POLICY_DIR = U ''/etc/ecnode''"

definition HUB_FORBIDDEN_ROOTS :: "ustr list" where
  "HUB_FORBIDDEN_ROOTS = map U [''/'', ''/etc'', ''/proc'', ''/sys'', ''/dev'', ''/boot'', ''/root'', ''/run'', ''/var'',
     ''/usr'', ''/bin'', ''/sbin'', ''/lib'', ''/lib32'', ''/lib64'', ''/libx32'', ''/home'', ''/tmp'', ''/opt'',
     ''/srv'', ''/mnt'', ''/media'', ''/snap'', ''/var/run'', ''/var/lib'', ''/usr/local'']"

definition HUB_KINDS :: "ustr list" where
  "HUB_KINDS = map U [''auto'', ''hf-home'', ''hf-hub'', ''gguf'', ''plain'', ''ollama'', ''other'']"

definition ROOT_KEYS :: "ustr list" where "ROOT_KEYS = map U [''id'', ''path'', ''kind'', ''writable'', ''label'']"

definition hub_root_overlap :: "ustr \<Rightarrow> ustr \<Rightarrow> ustr + unit" where
  "hub_root_overlap nrm loc =
     (if hub_inside nrm SYSTEM_POLICY_DIR \<or> hub_inside SYSTEM_POLICY_DIR nrm then
        Inl (loc @ U ''.path: '' @ py_repr nrm @ U '' overlaps the node's system policy directory ('' @ SYSTEM_POLICY_DIR
             @ U ''); a model root must not be, contain or lie inside it'')
      else Inr ())"

definition hub_bad_chars :: "nat list" where "hub_bad_chars = [58, 44, 0, 10, 13, 92]"

definition hub_root_path :: "json option \<Rightarrow> ustr \<Rightarrow> ustr + ustr" where
  "hub_root_path p loc =
     (let bad = Inl (loc @ U ''.path must be an absolute path of at most 512 characters'') in
      case p of
        Some (JStr s) \<Rightarrow>
          if starts_with s [slash] \<and> length s \<le> 512 then
            (if starts_with s [slash, slash] then
               Inl (loc @ U ''.path: '' @ py_repr s @ U '' must start with a single '' @ [39, 47, 39])
             else if (\<exists>c \<in> set s. c \<in> set hub_bad_chars) \<or> (\<exists>seg \<in> set (split_on slash s). seg = dot_seg \<or> seg = dotdot_seg) then
               Inl (loc @ U ''.path: '' @ py_repr s @ U '' must not contain ':', ',', '' @ [39, 92, 39]
                 @ U '', '.' or '..' segments'')
             else (let nrm = hub_normpath s in
               if nrm \<in> set HUB_FORBIDDEN_ROOTS then
                 Inl (loc @ U ''.path: '' @ py_repr nrm @ U '' is too broad for a model root; name the directory that ''
                   @ U ''holds the models (for example /data/hf)'')
               else Inr nrm))
          else bad
      | _ \<Rightarrow> bad)"

definition hub_model_root :: "json \<Rightarrow> ustr \<Rightarrow> ustr list \<Rightarrow> ustr + (ustr \<times> bool)" where
  "hub_model_root r loc taken =
     (case r of
        JObj r \<Rightarrow>
          try_bind (hub_keys r ROOT_KEYS loc) (\<lambda>_.
          try_bind (hub_str r (U ''id'') loc 32 (Some ROOT_ID) True) (\<lambda>rid0.
          (let rid = unwrap_or [] rid0 in
          try_bind (ensure (rid \<notin> set taken) (loc @ U ''.id: '' @ py_repr rid @ U '' is used twice'')) (\<lambda>_.
          try_bind (hub_str r (U ''kind'') loc 16 None False) (\<lambda>kind0.
          (let kind = unwrap_or (U ''auto'') kind0 in
          try_bind (ensure (kind \<in> set HUB_KINDS) (loc @ U ''.kind must be one of '' @ join_with (U '', '') HUB_KINDS)) (\<lambda>_.
          try_bind (hub_root_path (obj_get r (U ''path'')) loc) (\<lambda>path.
          try_bind (hub_root_overlap path loc) (\<lambda>_.
          try_bind (hub_bool r (U ''writable'') loc) (\<lambda>writable.
          try_bind (hub_str r (U ''label'') loc 64 None False) (\<lambda>_.
          Inr (rid, writable))))))))))))
      | _ \<Rightarrow> Inl (loc @ U '' must be an object''))"

section \<open>Scripts\<close>

definition ACTION_KEYS :: "ustr list" where
  "ACTION_KEYS = map U [''name'', ''label'', ''argv'', ''args'', ''confirm'', ''danger'']"

definition SCRIPT_KEYS :: "ustr list" where
  "SCRIPT_KEYS = map U [''name'', ''label'', ''engine'', ''description'', ''containers'', ''status_action'', ''timeout_s'',
     ''actions'']"

definition hub_argv :: "ustr \<Rightarrow> json option \<Rightarrow> ustr + json list" where
  "hub_argv aw v =
     (let bad = Inl (aw @ U ''.argv must be a list of 1-64 non-empty strings (the program, then its arguments)'') in
      case v of
        Some (JArr v) \<Rightarrow> if 1 \<le> length v \<and> length v \<le> 64 \<and> (\<forall>x \<in> set v. hub_text 4096 x) then Inr v else bad
      | _ \<Rightarrow> bad)"

definition hub_action :: "json \<Rightarrow> ustr \<Rightarrow> ustr list \<Rightarrow> ustr + ustr" where
  "hub_action a aw taken =
     (case a of
        JObj a \<Rightarrow>
          try_bind (hub_keys a ACTION_KEYS aw) (\<lambda>_.
          try_bind (hub_str a (U ''name'') aw 32 (Some SCRIPT_NAME) True) (\<lambda>an0.
          (let an = unwrap_or [] an0 in
          try_bind (ensure (an \<notin> set taken) (aw @ U ''.name: '' @ py_repr an @ U '' is used twice'')) (\<lambda>_.
          try_bind (hub_argv aw (obj_get a (U ''argv''))) (\<lambda>argv.
          (let program = unwrap_or [] (json_str (hd argv)) in
          try_bind (ensure (starts_with program [slash] \<and> 10 \<notin> set program)
            (aw @ U ''.argv[0] must be an absolute path to the program (no shell, no PATH lookup)'')) (\<lambda>_.
          try_bind (hub_list a (U ''args'') aw 32) (\<lambda>args.
          try_bind (ensure (\<forall>x \<in> set args. hub_text 64 x)
            (aw @ U ''.args must be a list of allowed argument values (each 1-64 characters)'')) (\<lambda>_.
          try_bind (hub_str a (U ''label'') aw 64 None False) (\<lambda>_.
          try_bind (hub_bool a (U ''confirm'') aw) (\<lambda>_.
          try_bind (hub_bool a (U ''danger'') aw) (\<lambda>_.
          Inr an))))))))))))
      | _ \<Rightarrow> Inl (aw @ U '' must be an object''))"

definition hub_container :: "ustr \<Rightarrow> nat \<Rightarrow> json \<Rightarrow> unit \<Rightarrow> ustr + unit" where
  "hub_container loc j c u =
     ensure (hub_text 128 c)
       (loc @ U ''.containers['' @ dec j @ U ''] must be a container name pattern like '' @ [39] @ U ''myproj-sglang-*'' @ [39])"

definition hub_action_step :: "ustr \<Rightarrow> nat \<Rightarrow> json \<Rightarrow> ustr list \<Rightarrow> ustr + ustr list" where
  "hub_action_step loc j a actions =
     try_bind (hub_action a (loc @ U ''.actions['' @ dec j @ U '']'') actions) (\<lambda>an. Inr (actions @ [an]))"

definition hub_script :: "json \<Rightarrow> ustr \<Rightarrow> ustr list \<Rightarrow> ustr + ustr" where
  "hub_script s loc taken =
     (case s of
        JObj s \<Rightarrow>
          try_bind (hub_keys s SCRIPT_KEYS loc) (\<lambda>_.
          try_bind (hub_str s (U ''name'') loc 32 (Some SCRIPT_NAME) True) (\<lambda>name0.
          (let name = unwrap_or [] name0 in
          try_bind (ensure (name \<notin> set taken) (loc @ U ''.name: '' @ py_repr name @ U '' is used twice'')) (\<lambda>_.
          try_bind (hub_list s (U ''containers'') loc 16) (\<lambda>cs.
          try_bind (try_fold (hub_container loc) 0 cs ()) (\<lambda>_.
          try_bind (hub_list s (U ''actions'') loc 16) (\<lambda>acts.
          try_bind (try_fold (hub_action_step loc) 0 acts []) (\<lambda>actions.
          try_bind (hub_str s (U ''status_action'') loc 32 None False) (\<lambda>status.
          try_bind (ensure (case status of Some st \<Rightarrow> st \<in> set actions | None \<Rightarrow> True)
            (loc @ U ''.status_action must name one of the script's actions'')) (\<lambda>_.
          try_bind (case obj_get s (U ''timeout_s'') of
              Some t \<Rightarrow> hub_int t (loc @ U ''.timeout_s'') 1 86400 | None \<Rightarrow> Inr 0) (\<lambda>_.
          try_bind (hub_str s (U ''label'') loc 64 None False) (\<lambda>_.
          try_bind (hub_str s (U ''engine'') loc 32 None False) (\<lambda>_.
          try_bind (hub_str s (U ''description'') loc 500 None False) (\<lambda>_.
          Inr name))))))))))))))
      | _ \<Rightarrow> Inl (loc @ U '' must be an object''))"

section \<open>The document\<close>

definition TOP_KEYS :: "ustr list" where
  "TOP_KEYS = map U [''version'', ''mode'', ''docker'', ''engine_images'', ''gateway_image'', ''engine_network'',
     ''port_range'', ''discovery_ports'', ''model_roots'', ''scripts'', ''allow_pull'', ''allow_delete'',
     ''allow_ipc_host'', ''external_control'', ''max_shm_gib'']"

definition DOCKER_KEYS :: "ustr list" where "DOCKER_KEYS = map U [''binary'', ''context'']"

definition hub_choice :: "json option \<Rightarrow> ustr list \<Rightarrow> ustr \<Rightarrow> ustr \<Rightarrow> ustr + ustr" where
  "hub_choice v choices dflt bad =
     (case v of
        None \<Rightarrow> Inr dflt
      | Some v \<Rightarrow> (case json_str v of
            None \<Rightarrow> Inl bad
          | Some s \<Rightarrow> if s \<in> set choices then Inr s else Inl bad))"

definition hub_docker :: "obj \<Rightarrow> ustr + unit" where
  "hub_docker data =
     try_bind (case obj_get data (U ''docker'') of
         None \<Rightarrow> Inr []
       | Some v \<Rightarrow> if truthy v then (case v of JObj m \<Rightarrow> Inr m
             | _ \<Rightarrow> Inl (U ''policy.docker must be an object like {\"binary\": \"docker\", \"context\": null}''))
           else Inr []) (\<lambda>dk.
     try_bind (hub_keys dk DOCKER_KEYS (U ''policy.docker'')) (\<lambda>_.
     try_bind (hub_str dk (U ''binary'') (U ''policy.docker'') 256 None False) (\<lambda>binary0.
     (let binary = unwrap_or (U ''docker'') binary0 in
     if binary \<noteq> U ''docker'' \<and> (\<not> matches BINARY binary \<or> (\<exists>s \<in> set (split_on slash binary). s = dotdot_seg)) then
       Inl (U ''policy.docker.binary must be \"docker\" or an absolute path to the docker CLI'')
     else try_bind (hub_str dk (U ''context'') (U ''policy.docker'') 64 (Some CONTEXT) False) (\<lambda>_. Inr ())))))"

definition hub_image :: "(rat \<Rightarrow> ustr) \<Rightarrow> nat \<Rightarrow> json \<Rightarrow> unit \<Rightarrow> ustr + unit" where
  "hub_image rf i p u =
     ensure (case json_str p of Some s \<Rightarrow> hub_valid_image_pattern s | None \<Rightarrow> False)
       (U ''policy.engine_images['' @ dec i @ U '']: '' @ repr_value rf p
        @ U '' must be an exact image reference, 'repository:*' or 'repository@sha256:*' with a literal repository'')"

definition hub_gateway :: "obj \<Rightarrow> ustr + unit" where
  "hub_gateway data =
     (case obj_get data (U ''gateway_image'') of
        None \<Rightarrow> Inr ()
      | Some v \<Rightarrow>
          if v = JNull then Inr ()
          else ensure (case json_str v of Some s \<Rightarrow> hub_valid_image s | None \<Rightarrow> False)
            (U ''policy.gateway_image must be an exact image reference (best: nginx@sha256:<digest>)''))"

definition hub_ports :: "obj \<Rightarrow> ustr + unit" where
  "hub_ports data =
     (case obj_get data (U ''port_range'') of
        None \<Rightarrow> Inr ()
      | Some pr \<Rightarrow> (case pr of
            JArr [lo_v, hi_v] \<Rightarrow>
              try_bind (hub_int lo_v (U ''policy.port_range[0]'') 1024 65535) (\<lambda>lo.
              try_bind (hub_int hi_v (U ''policy.port_range[1]'') lo (min 65535 (lo + 1000))) (\<lambda>_. Inr ()))
          | _ \<Rightarrow> Inl (U ''policy.port_range must be [first, last], e.g. [18000, 18099]'')))"

definition hub_dport :: "nat \<Rightarrow> json \<Rightarrow> unit \<Rightarrow> ustr + unit" where
  "hub_dport i p u = try_bind (hub_int p (U ''policy.discovery_ports['' @ dec i @ U '']'') 1 65535) (\<lambda>_. Inr ())"

definition hub_root_step :: "nat \<Rightarrow> json \<Rightarrow> ustr list \<times> nat \<Rightarrow> ustr + (ustr list \<times> nat)" where
  "hub_root_step i r acc =
     try_bind (hub_model_root r (U ''policy.model_roots['' @ dec i @ U '']'') (fst acc)) (\<lambda>(rid, writable).
     Inr (fst acc @ [rid], snd acc + (if writable then 1 else 0)))"

definition hub_script_step :: "nat \<Rightarrow> json \<Rightarrow> ustr list \<Rightarrow> ustr + ustr list" where
  "hub_script_step i s acc =
     try_bind (hub_script s (U ''policy.scripts['' @ dec i @ U '']'') acc) (\<lambda>name. Inr (acc @ [name]))"

definition hub_shm :: "obj \<Rightarrow> ustr + unit" where
  "hub_shm data =
     (case obj_get data (U ''max_shm_gib'') of
        None \<Rightarrow> Inr ()
      | Some v \<Rightarrow> ensure (case v of JNum n \<Rightarrow> 0 < num_val n \<and> num_val n \<le> 4096 | _ \<Rightarrow> False)
          (U ''policy.max_shm_gib must be a number above 0 and at most 4096''))"

record policy_outline =
  ol_mode :: ustr
  ol_engine_images :: nat
  ol_model_roots :: nat
  ol_writable_roots :: nat
  ol_scripts :: nat
  ol_allow_pull :: bool
  ol_allow_delete :: bool
  ol_allow_ipc_host :: bool
  ol_external_control :: ustr

definition check_policy :: "(rat \<Rightarrow> ustr) \<Rightarrow> json \<Rightarrow> ustr + policy_outline" where
  "check_policy rf doc =
     (case doc of
        JObj data \<Rightarrow>
          try_bind (hub_keys data TOP_KEYS (U ''policy'')) (\<lambda>_.
          try_bind (ensure (case obj_get data (U ''version'') of None \<Rightarrow> True | Some v \<Rightarrow> py_eq_one v)
            (U ''policy.version must be 1 (this node understands policy version 1)'')) (\<lambda>_.
          try_bind (hub_choice (obj_get data (U ''mode'')) (map U [''monitor'', ''manage'']) (U ''monitor'')
            (U ''policy.mode must be \"monitor\" or \"manage\"'')) (\<lambda>mode.
          try_bind (hub_docker data) (\<lambda>_.
          try_bind (hub_list data (U ''engine_images'') (U ''policy'') 64) (\<lambda>images.
          try_bind (try_fold (hub_image rf) 0 images ()) (\<lambda>_.
          try_bind (hub_gateway data) (\<lambda>_.
          try_bind (hub_str data (U ''engine_network'') (U ''policy'') 64 (Some NETWORK) False) (\<lambda>_.
          try_bind (hub_ports data) (\<lambda>_.
          try_bind (hub_list data (U ''discovery_ports'') (U ''policy'') 128) (\<lambda>dp.
          try_bind (try_fold hub_dport 0 dp ()) (\<lambda>_.
          try_bind (hub_list data (U ''model_roots'') (U ''policy'') 32) (\<lambda>rs.
          try_bind (try_fold hub_root_step 0 rs ([], 0)) (\<lambda>(roots, writable_roots).
          try_bind (hub_list data (U ''scripts'') (U ''policy'') 32) (\<lambda>ss.
          try_bind (try_fold hub_script_step 0 ss []) (\<lambda>scs.
          try_bind (hub_choice (obj_get data (U ''external_control'')) (map U [''none'', ''stop_start'']) (U ''none'')
            (U ''policy.external_control must be \"none\" or \"stop_start\"'')) (\<lambda>ext.
          try_bind (hub_shm data) (\<lambda>_.
          try_bind (hub_bool data (U ''allow_pull'') (U ''policy'')) (\<lambda>pull.
          try_bind (hub_bool data (U ''allow_delete'') (U ''policy'')) (\<lambda>del.
          try_bind (hub_bool data (U ''allow_ipc_host'') (U ''policy'')) (\<lambda>ipc.
          Inr \<lparr>ol_mode = mode, ol_engine_images = length images, ol_model_roots = length roots,
            ol_writable_roots = writable_roots, ol_scripts = length scs, ol_allow_pull = pull, ol_allow_delete = del,
            ol_allow_ipc_host = ipc, ol_external_control = ext\<rparr>))))))))))))))))))))
      | _ \<Rightarrow> Inl (U ''the policy must be one JSON object''))"

section \<open>A text\<close>

definition HUB_MAX_POLICY_BYTES :: nat where "HUB_MAX_POLICY_BYTES = 256 * 1024"

fun hub_offset :: "nat \<Rightarrow> nat \<Rightarrow> nat \<Rightarrow> ustr list \<Rightarrow> nat \<Rightarrow> nat" where
  "hub_offset line col i [] pos = pos"
| "hub_offset line col i (l # ls) pos =
     (if i + 1 = line then pos + length (take (col - 1) l) else hub_offset line col (i + 1) ls (pos + (length l + 1)))"

definition hub_json_error_text :: "ustr \<Rightarrow> json_error \<Rightarrow> ustr" where
  "hub_json_error_text text e =
     (let pos = hub_offset (je_line e) (je_column e) 0 (split_on 10 text) 0;
          msg = je_text e;
          what = (if starts_with msg (U ''key must be a string'') then
                    U ''Expecting property name enclosed in double quotes''
                  else if starts_with msg (U ''expected `:`'') then U ''Expecting ':' delimiter''
                  else if starts_with msg (U ''expected `,` or'') then U ''Expecting ',' delimiter''
                  else if starts_with msg (U ''trailing characters'') then U ''Extra data''
                  else if starts_with msg (U ''EOF while parsing a string'') then U ''Unterminated string starting at''
                  else if starts_with msg (U ''control character'') then U ''Invalid control character at''
                  else if starts_with msg (U ''invalid escape'') then U ''Invalid '' @ [92] @ U ''escape''
                  else U ''Expecting value'')
      in what @ U '': line '' @ dec (je_line e) @ U '' column '' @ dec (je_column e) @ U '' (char '' @ dec pos @ U '')'')"

definition check_policy_text :: "(ustr \<Rightarrow> json_error + json) \<Rightarrow> (rat \<Rightarrow> ustr) \<Rightarrow> ustr \<Rightarrow> ustr + policy_outline" where
  "check_policy_text from_str rf text =
     (if HUB_MAX_POLICY_BYTES < byte_len text then
        Inl (U ''the policy is larger than '' @ dec HUB_MAX_POLICY_BYTES @ U '' bytes'')
      else (case from_str text of
          Inl e \<Rightarrow> Inl (U ''the policy is not valid JSON ('' @ take 160 (hub_json_error_text text e) @ U '')'')
        | Inr doc \<Rightarrow> check_policy rf doc))"

end
