(* ===== verification/MirrorOk.thy ===== *)
theory MirrorOk
  imports PolicyMirror
begin

text \<open>
  The hub's validator (PolicyMirror) agrees with the node's (PolicyParse): on a machine without symlinks,
  with no home and no policy path, it gives the node's answer and the node's words; and on any machine
  it accepts whatever the node accepts.
\<close>

section \<open>Results side by side\<close>

text \<open>A result with its value mapped.\<close>

fun on_ok :: "('a \<Rightarrow> 'b) \<Rightarrow> 'e + 'a \<Rightarrow> 'e + 'b" where
  "on_ok h (Inl e) = Inl e"
| "on_ok h (Inr a) = Inr (h a)"

lemma try_bind_cong [cong]: "x = y \<Longrightarrow> (\<And>a. y = Inr a \<Longrightarrow> f a = g a) \<Longrightarrow> try_bind x f = try_bind y g"
  by (cases y) auto

lemma on_ok_bind: "on_ok h (try_bind x f) = try_bind x (\<lambda>a. on_ok h (f a))"
  by (cases x) auto

lemma bind_on_ok: "try_bind (on_ok h x) f = try_bind x (\<lambda>a. f (h a))"
  by (cases x) auto

lemma bind_assoc: "try_bind (try_bind x f) g = try_bind x (\<lambda>a. try_bind (f a) g)"
  by (cases x) auto

lemma on_ok_if: "on_ok h (if b then x else y) = (if b then on_ok h x else on_ok h y)"
  by simp

lemmas side = on_ok_bind bind_on_ok bind_assoc on_ok_if

text \<open>Two loops over the same list, one of which keeps less (\<open>h\<close>) of what the other collects.\<close>

lemma try_fold_map:
  assumes "\<And>i x acc. x \<in> set xs \<Longrightarrow> g i x (h acc) = on_ok h (f i x acc)"
  shows "try_fold g i xs (h acc) = on_ok h (try_fold f i xs acc)"
  using assms
proof (induction xs arbitrary: i acc)
  case (Cons x xs)
  have "try_bind (on_ok h (f i x acc)) (try_fold g (Suc i) xs)
    = try_bind (f i x acc) (\<lambda>a. try_fold g (Suc i) xs (h a))" by (rule bind_on_ok)
  also have "\<dots> = on_ok h (try_bind (f i x acc) (try_fold f (Suc i) xs))"
    unfolding on_ok_bind using Cons by (intro try_bind_cong) auto
  finally show ?case using Cons.prems by simp
qed simp

lemma try_fold_mono:
  assumes "try_fold f i xs acc = Inr r" "\<And>i x acc b. x \<in> set xs \<Longrightarrow> f i x acc = Inr b \<Longrightarrow> g i x acc = Inr b"
  shows "try_fold g i xs acc = Inr r"
  using assms by (induction xs arbitrary: i acc) (auto simp: res_simps)

lemma try_fold_count:
  assumes "try_fold f i xs acc = Inr r" "\<And>i x acc b. f i x acc = Inr b \<Longrightarrow> length b = Suc (length acc)"
  shows "length r = length acc + length xs"
  using assms
proof (induction xs arbitrary: i acc)
  case (Cons x xs)
  then obtain b where b: "f i x acc = Inr b" "try_fold f (Suc i) xs b = Inr r" by (auto simp: res_simps)
  have "length r = length b + length xs" using b(2) Cons.prems(2) by (rule Cons.IH)
  then show ?case using Cons.prems(2)[OF b(1)] by simp
qed simp

section \<open>The helpers are the node's\<close>

lemma hub_normpath [simp]: "hub_normpath p = normpath p"
proof -
  have s: "(\<lambda>comp comps. if comp = [] \<or> comp = dot_seg then comps
      else if comp \<noteq> dotdot_seg \<or> (norm_initial p = [] \<and> comps = []) \<or> (comps \<noteq> [] \<and> last comps = dotdot_seg)
      then comps @ [comp] else butlast comps) = norm_step (norm_initial p)"
    by (auto simp: norm_step_def fun_eq_iff)
  show ?thesis unfolding hub_normpath_def Let_def norm_initial_def[symmetric] s normpath_def ..
qed

lemma hub_inside [simp]: "hub_inside c r \<longleftrightarrow> inside c r"
  by (auto simp: hub_inside_def inside_def Let_def)

lemma hub_keys [simp]: "hub_keys m a loc = keys m a loc"
  by (simp add: hub_keys_def keys_def)

lemma hub_bool [simp]: "hub_bool m k loc = bool_field m k loc False"
  by (simp add: hub_bool_def bool_field_def)

lemma hub_int [simp]: "hub_int v loc lo hi = int_field v loc lo hi"
  by (simp add: hub_int_def int_field_def Let_def split: json.splits)

lemma hub_list [simp]: "hub_list m k loc cap = list_field m k loc cap"
  by (simp add: hub_list_def list_field_def Let_def split: option.splits json.splits)

lemma hub_text [simp]: "hub_text n v = text_ok n v"
  by (cases v) (simp_all add: hub_text_def text_ok_def)

lemma node_str:
  "str_field m k loc n d p req = on_ok (\<lambda>x. case x of None \<Rightarrow> d | Some s \<Rightarrow> Some s) (hub_str m k loc n p req)"
  by (auto simp: hub_str_def str_field_def Let_def split: option.splits json.splits)

lemma hub_str_Some: "hub_str m k loc n p req = Inr (Some s) \<Longrightarrow> s \<noteq> []"
  by (auto simp: hub_str_def Let_def split: option.splits json.splits if_splits)

lemma hub_str_None: "hub_str m k loc n p True \<noteq> Inr None"
  by (auto simp: hub_str_def Let_def split: option.splits json.splits if_splits)

lemma nonempty_field [simp]:
  "hub_str m k loc n p req = Inr x \<Longrightarrow> nonempty_or d (case x of None \<Rightarrow> Some d | Some s \<Rightarrow> Some s) = unwrap_or d x"
  "hub_str m k loc n p req = Inr x \<Longrightarrow> nonempty_or d (case x of None \<Rightarrow> None | Some s \<Rightarrow> Some s) = unwrap_or d x"
  by (cases x; auto simp: nonempty_or_def unwrap_or_def dest: hub_str_Some)+

lemma unwrap_field [simp]: "unwrap_or d (case x of None \<Rightarrow> None | Some s \<Rightarrow> Some s) = unwrap_or d x"
  by (cases x) auto

lemma taken_iff: "x \<in> f ` set ys \<longleftrightarrow> (\<exists>y \<in> set ys. f y = x)"
  by auto

lemma json_str_iff: "json_str v = Some s \<longleftrightarrow> v = JStr s"
  by (cases v) auto

section \<open>Images\<close>

lemma ref_suffix: "(\<exists>t d. Image.suffix t d s) \<longleftrightarrow> s \<in> lang (Seq (Opt (Seq (Chr 58) TAG)) (Opt (Seq (Chr 64) DIGEST)))"
proof
  have l: "x @ y \<in> lang (Seq (Opt (Seq (Chr 58) TAG)) (Opt (Seq (Chr 64) DIGEST)))"
    if "x = [] \<or> x \<in> lang (Seq (Chr 58) TAG)" "y = [] \<or> y \<in> lang (Seq (Chr 64) DIGEST)" for x y
    using that unfolding lang.simps(4) lang_Opt by blast
  have c: "c # t \<in> lang (Seq (Chr c) r)" if "t \<in> lang r" for c t r
    using that unfolding lang.simps(4) Chr_def by (intro CollectI exI[of _ "[c]"] exI[of _ t]) (simp add: in_cls_def)
  assume "\<exists>t d. Image.suffix t d s"
  then obtain t d where "Image.suffix t d s" by blast
  then show "s \<in> lang (Seq (Opt (Seq (Chr 58) TAG)) (Opt (Seq (Chr 64) DIGEST)))"
  proof cases
    case suffix_none
    then show ?thesis using l[of "[]" "[]"] by simp
  next
    case (suffix_tag t)
    then show ?thesis using l[of "58 # t" "[]"] c[of t TAG 58] by simp
  next
    case (suffix_digest d)
    then show ?thesis using l[of "[]" "64 # d"] c[of d DIGEST 64] by simp
  next
    case (suffix_both t d)
    then show ?thesis using l[of "58 # t" "64 # d"] c[of t TAG 58] c[of d DIGEST 64] by simp
  qed
next
  have c: "\<exists>t. s = c # t \<and> t \<in> lang r" if "s \<in> lang (Seq (Chr c) r)" for s c r
    using that by (auto simp: Chr_def in_cls_def)
  assume "s \<in> lang (Seq (Opt (Seq (Chr 58) TAG)) (Opt (Seq (Chr 64) DIGEST)))"
  then obtain x y where s: "s = x @ y" "x = [] \<or> x \<in> lang (Seq (Chr 58) TAG)" "y = [] \<or> y \<in> lang (Seq (Chr 64) DIGEST)"
    unfolding lang.simps(4) lang_Opt by blast
  have "x = [] \<or> (\<exists>t. x = 58 # t \<and> t \<in> lang TAG)" using s(2) c by metis
  moreover have "y = [] \<or> (\<exists>d. y = 64 # d \<and> d \<in> lang DIGEST)" using s(3) c by metis
  ultimately show "\<exists>t d. Image.suffix t d s"
    unfolding s(1) by (elim disjE exE conjE) (use suffix.intros in \<open>simp; blast\<close>)+
qed

lemma hub_valid_image [simp]: "hub_valid_image r \<longleftrightarrow> valid_image r"
proof -
  have "valid_image r \<longleftrightarrow> (\<exists>repo t d. split_image r = Some (repo, t, d))" unfolding valid_image_def by auto
  also have "\<dots> \<longleftrightarrow> length r \<le> 256 \<and> (\<exists>repo s. r = repo @ s \<and> repo \<in> lang repo_re \<and> (\<exists>t d. Image.suffix t d s))"
    unfolding split_image_iff by blast
  also have "\<dots> \<longleftrightarrow> hub_valid_image r" unfolding ref_suffix hub_valid_image_def matches_iff HUB_IMAGE_REF_def by auto
  finally show ?thesis by simp
qed

lemma hub_pattern [simp]: "hub_valid_image_pattern p \<longleftrightarrow> valid_image_pattern p"
proof -
  have "(\<exists>r. pat_repo x p = Some r) \<longleftrightarrow> p \<in> lang (Seq repo_re (Lit x))" for x
    by (auto simp: pat_repo_iff)
  then show ?thesis
    unfolding hub_valid_image_pattern_def valid_image_pattern_def matches_iff HUB_PAT_TAG_def HUB_PAT_DIGEST_def PAT_TAG_def
      PAT_DIGEST_def hub_valid_image by simp
qed

section \<open>Roots\<close>

text \<open>Without symlinks, home and policy path the node looks at the written path only, as the hub does.\<close>

lemma etc_ecnode: "U ''/etc/ecnode'' = abs_path [U ''etc'', U ''ecnode'']" "\<forall>s \<in> set [U ''etc'', U ''ecnode'']. clean_seg s"
  by (simp_all add: U_def abs_path_def clean_seg_def)

lemma hub_forbidden [simp]: "HUB_FORBIDDEN_ROOTS = FORBIDDEN_ROOTS"
  by (simp add: HUB_FORBIDDEN_ROOTS_def FORBIDDEN_ROOTS_def)

lemma hub_bad_chars [simp]: "hub_bad_chars = bad_path_chars"
  by (simp add: hub_bad_chars_def bad_path_chars_def)

lemma hub_overlap_bare:
  assumes l: "\<forall>p. links e p = NoLink" and cs: "\<forall>s \<in> set cs. clean_seg s"
  shows "hub_root_overlap (abs_path cs) loc = check_root_overlap e (abs_path cs) (loc @ U ''.path'') None None"
  using path_forms_bare[OF l cs] path_forms_bare[OF l etc_ecnode(2)]
  by (simp add: hub_root_overlap_def check_root_overlap_def protected_dirs_def SYSTEM_POLICY_DIR_def etc_ecnode(1)[symmetric])
    (simp add: U_def)

lemma hub_overlap_mono:
  assumes "check_root_overlap e (abs_path cs) subject path home = Inr ()" and cs: "\<forall>s \<in> set cs. clean_seg s"
  shows "hub_root_overlap (abs_path cs) loc = Inr ()"
proof -
  have "abs_path cs \<in> set (path_forms e (abs_path cs))" using path_forms_norm[of "abs_path cs" e] normpath_abs_path[OF cs] by simp
  moreover have "SYSTEM_POLICY_DIR \<in> set (path_forms e SYSTEM_POLICY_DIR)"
    using path_forms_norm[of SYSTEM_POLICY_DIR e] normpath_abs_path[OF etc_ecnode(2)] by (simp add: SYSTEM_POLICY_DIR_def etc_ecnode(1))
  moreover have "SYSTEM_POLICY_DIR \<in> set (map snd (protected_dirs e path home))"
    by (simp add: protected_dirs_def SYSTEM_POLICY_DIR_def)
  ultimately have "\<not> inside (abs_path cs) SYSTEM_POLICY_DIR \<and> \<not> inside SYSTEM_POLICY_DIR (abs_path cs)"
    using assms(1) unfolding overlap_iff by blast
  then show ?thesis by (simp add: hub_root_overlap_def)
qed

lemma root_path_norm:
  assumes "root_path e p loc home = Inr n"
  shows "\<exists>cs. n = abs_path cs \<and> (\<forall>s \<in> set cs. clean_seg s)"
  using root_path_ok(2)[OF assms] by blast

lemma too_broad_plain:
  assumes "\<forall>p. links e p = NoLink" "starts_with s [slash]" "\<not> starts_with s [slash, slash]"
  shows "too_broad e (path_forms e (normpath s)) None \<longleftrightarrow> normpath s \<in> set FORBIDDEN_ROOTS"
proof -
  obtain cs where cs: "normpath s = abs_path cs" "\<forall>s \<in> set cs. clean_seg s" using normpath_absolute[OF assms(2,3)] .
  show ?thesis using path_forms_bare[OF assms(1) cs(2)] by (simp add: cs(1) too_broad_def)
qed

lemma hub_root_path_bare:
  assumes "\<forall>p. links e p = NoLink"
  shows "hub_root_path p loc = root_path e p loc None"
proof (cases "\<exists>s. p = Some (JStr s)")
  case True
  then obtain s where p: "p = Some (JStr s)" by blast
  let ?dots = "\<exists>seg \<in> set (split_on slash s). seg = dot_seg \<or> seg = dotdot_seg"
  show ?thesis
  proof (cases "starts_with s [slash] \<and> length s \<le> 512 \<and> \<not> starts_with s [slash, slash]")
    case True
    then have t: "too_broad e (path_forms e (normpath s)) None \<longleftrightarrow> normpath s \<in> set FORBIDDEN_ROOTS"
      using too_broad_plain[OF assms] by blast
    show ?thesis
      by (cases "\<exists>c \<in> set s. c \<in> set bad_path_chars"; cases ?dots; cases "normpath s \<in> set FORBIDDEN_ROOTS")
        (simp_all only: p hub_root_path_def root_path_def Let_def ensure_def True t option.case json.case hub_bad_chars
          hub_normpath hub_forbidden not_True_eq_False not_False_eq_True if_True if_False try_bind.simps simp_thms)
  next
    case False
    then show ?thesis by (auto simp: p hub_root_path_def root_path_def ensure_def)
  qed
next
  case False
  then show ?thesis by (simp add: hub_root_path_def root_path_def Let_def split: option.splits json.splits)
qed

lemma hub_root_path_mono:
  assumes "root_path e p loc home = Inr n"
  shows "hub_root_path p loc = Inr n"
proof -
  obtain s where s: "p = Some (JStr s)" "starts_with s [slash]" "\<not> starts_with s [slash, slash]" "n = normpath s" "length s \<le> 512"
    "\<not> too_broad e (path_forms e n) home" "\<not> (\<exists>c \<in> set s. c \<in> set bad_path_chars)"
    "\<not> (\<exists>seg \<in> set (split_on slash s). seg = dot_seg \<or> seg = dotdot_seg)"
    using assms by (auto simp: root_path_def res_simps Let_def split: option.splits json.splits if_splits)
  have "normpath n = n" using root_path_norm[OF assms] normpath_abs_path by auto
  then have "n \<in> set (path_forms e n)" using path_forms_norm[of n e] by simp
  then have "n \<notin> set FORBIDDEN_ROOTS" using s(6) by (auto simp: too_broad_def)
  then show ?thesis using s by (auto simp: hub_root_path_def Let_def)
qed

definition roots_seen :: "root list \<Rightarrow> ustr list \<times> nat" where
  "roots_seen rs = (map rt_id rs, length (filter rt_writable rs))"

lemma hub_kinds [simp]: "HUB_KINDS = KINDS"
  by (simp add: HUB_KINDS_def KINDS_def)

lemma hub_root_step_bare:
  assumes l: "\<forall>p. links e p = NoLink"
  shows "hub_root_step i r (roots_seen rs) = on_ok roots_seen (parse_root e None None i r rs)"
proof (cases r)
  case (JObj m)
  have o: "\<And>path loc loc'. root_path e x loc None = Inr path \<Longrightarrow>
      hub_root_overlap path loc' = check_root_overlap e path (loc' @ U ''.path'') None None" for x
    using root_path_norm hub_overlap_bare[OF l] by metis
  show ?thesis
    by (auto simp: JObj hub_root_step_def hub_model_root_def parse_root_def side node_str Let_def ROOT_KEYS_def
        hub_root_path_bare[OF l] o roots_seen_def taken_iff intro!: try_bind_cong)
qed (simp_all add: hub_root_step_def hub_model_root_def parse_root_def)

text \<open>What the node accepts anywhere, it accepts without symlinks, home and policy path (\<open>e'\<close>).\<close>

lemma root_path_mono:
  "\<forall>p. links e' p = NoLink \<Longrightarrow> root_path e p loc home = Inr n \<Longrightarrow> root_path e' p loc None = Inr n"
  using hub_root_path_mono hub_root_path_bare by metis

lemma overlap_mono:
  assumes l: "\<forall>p. links e' p = NoLink"
    and "root_path e p loc home = Inr n" "check_root_overlap e n subject path home = Inr ()"
  shows "check_root_overlap e' n subject None None = Inr ()"
proof -
  obtain cs where cs: "n = abs_path cs" "\<forall>s \<in> set cs. clean_seg s" using root_path_norm[OF assms(2)] by blast
  have "hub_root_overlap n [] = Inr ()" using hub_overlap_mono[of e cs] assms(3) cs by simp
  then show ?thesis using hub_overlap_bare[OF l cs(2)] cs(1) overlap_subject[of e' n _ None None subject] by simp
qed

lemma parse_root_mono:
  assumes l: "\<forall>p. links e' p = NoLink" and "parse_root e path home i r rs = Inr rs'"
  shows "parse_root e' None None i r rs = Inr rs'"
proof (cases r)
  case (JObj m)
  let ?loc = "U ''policy.model_roots['' @ dec i @ U '']''"
  obtain p where p: "root_path e (obj_get m (U ''path'')) ?loc home = Inr p"
    "check_root_overlap e p (?loc @ U ''.path'') path home = Inr ()"
    using assms(2) unfolding JObj parse_root_def Let_def json.case res_simps by (elim exE conjE) (rule that; simp)
  show ?thesis
    using assms(2) unfolding JObj parse_root_def Let_def json.case res_simps
    by (elim exE conjE) (use root_path_mono[OF l p(1)] overlap_mono[OF l p] p in simp)
qed (use assms(2) in \<open>simp_all add: parse_root_def\<close>)

section \<open>Scripts\<close>

lemma strings_hd:
  assumes "\<forall>x \<in> set v. text_ok n x" "Suc 0 \<le> length v"
  shows "hd (strings v) = unwrap_or [] (json_str (hd v))"
  using assms by (cases v) (auto simp: strings_def text_ok_def List.map_filter_simps unwrap_or_def split: json.splits)

lemma node_argv: "parse_argv aw v = on_ok strings (hub_argv aw v)"
  by (auto simp: parse_argv_def hub_argv_def Let_def split: option.splits json.splits)

lemma hub_argv_hd: "hub_argv aw v = Inr xs \<Longrightarrow> hd (strings xs) = unwrap_or [] (json_str (hd xs))"
  by (rule strings_hd[where n = 4096]) (auto simp: hub_argv_def Let_def split: option.splits json.splits if_splits)

lemma hub_action_step:
  "hub_action_step loc j a (map sa_name acts) = on_ok (map sa_name) (parse_action loc j a acts)"
proof (cases a)
  case (JObj m)
  show ?thesis
    by (auto simp: JObj hub_action_step_def hub_action_def parse_action_def side node_str Let_def ACTION_KEYS_def node_argv hub_argv_hd taken_iff
        intro!: try_bind_cong)
qed (simp_all add: hub_action_step_def hub_action_def parse_action_def)

lemma hub_containers: "try_fold (hub_container loc) i cs () = on_ok (\<lambda>_. ()) (try_fold (parse_container loc) i cs acc)"
  by (rule try_fold_map[where h = "\<lambda>_. ()"])
    (auto simp: hub_container_def parse_container_def text_ok_def ensure_def split: json.splits)

lemma hub_actions: "try_fold (hub_action_step loc) i as [] = on_ok (map sa_name) (try_fold (parse_action loc) i as [])"
  by (rule try_fold_map[where h = "map sa_name" and acc = "[]", simplified]) (rule hub_action_step)

lemma hub_timeout:
  "try_bind (case obj_get m k of Some t \<Rightarrow> hub_int t loc 1 86400 | None \<Rightarrow> Inr 0) (\<lambda>_. x)
   = try_bind (int_field (unwrap_or (JNum (PosInt 900)) (obj_get m k)) loc 1 86400) (\<lambda>_. x)"
  by (cases "obj_get m k") (simp_all add: unwrap_or_def int_field_def)

lemma hub_script_step: "hub_script_step i s (map sc_name scs) = on_ok (map sc_name) (parse_script i s scs)"
proof (cases s)
  case (JObj m)
  show ?thesis
    by (auto simp: JObj hub_script_step_def hub_script_def parse_script_def side node_str Let_def SCRIPT_KEYS_def taken_iff
        hub_containers[where acc = "[]"] hub_actions hub_timeout intro!: try_bind_cong split: option.splits)
qed (simp_all add: hub_script_step_def hub_script_def parse_script_def)

section \<open>The document\<close>

definition outline_of :: "policy \<Rightarrow> policy_outline" where
  "outline_of p =
     \<lparr>ol_mode = pol_mode p, ol_engine_images = length (engine_images p), ol_model_roots = length (model_roots p),
      ol_writable_roots = length (filter rt_writable (model_roots p)), ol_scripts = length (scripts p),
      ol_allow_pull = allow_pull p, ol_allow_delete = allow_delete p, ol_allow_ipc_host = allow_ipc_host p,
      ol_external_control = external_control p\<rparr>"

lemma hub_docker: "hub_docker data = on_ok (\<lambda>_. ()) (parse_docker data)"
proof -
  have "(if b \<noteq> d \<and> (\<not> p \<or> q) then Inl m else x) = try_bind (ensure (b = d \<or> p \<and> \<not> q) m) (\<lambda>_. x)"
    for b d :: ustr and p q m and x :: "ustr + unit" by (simp add: ensure_def)
  then show ?thesis
    by (auto simp: hub_docker_def parse_docker_def side node_str Let_def DOCKER_KEYS_def intro!: try_bind_cong split: option.splits)
qed

lemma hub_images: "try_fold (hub_image (float_repr e)) i xs () = on_ok (\<lambda>_. ()) (try_fold (parse_image e) i xs acc)"
  by (rule try_fold_map[where h = "\<lambda>_. ()"]) (auto simp: hub_image_def parse_image_def ensure_def Let_def split: json.splits)

lemma parse_image_length: "parse_image e i x acc = Inr b \<Longrightarrow> length b = Suc (length acc)"
  by (auto simp: parse_image_def Let_def split: json.splits if_splits)

lemma image_count: "try_fold (parse_image e) 0 xs [] = Inr images \<Longrightarrow> length images = length xs"
  using try_fold_count[where acc = "[]"] parse_image_length by force

lemma hub_gateway: "hub_gateway data = on_ok (\<lambda>_. ()) (parse_gateway data)"
  by (auto simp: hub_gateway_def parse_gateway_def ensure_def Let_def split: option.splits json.splits)

lemma hub_ports: "hub_ports data = on_ok (\<lambda>_. ()) (parse_ports data)"
proof (cases "obj_get data (U ''port_range'')")
  case None
  then show ?thesis by (simp add: hub_ports_def parse_ports_def unwrap_or_def DEFAULT_PORTS_def json_int_def int_field_def
        num_of_int_def Let_def)
next
  case (Some v)
  then show ?thesis
    by (cases v) (simp_all add: hub_ports_def parse_ports_def unwrap_or_def side Let_def split: list.split)
qed

lemma hub_dports: "try_fold hub_dport i xs () = on_ok (\<lambda>_. ()) (try_fold parse_dport i xs acc)"
  by (rule try_fold_map[where h = "\<lambda>_. ()"]) (simp add: hub_dport_def parse_dport_def side)

lemma hub_roots:
  assumes "\<forall>p. links e p = NoLink"
  shows "try_fold hub_root_step i xs ([], 0) = on_ok roots_seen (try_fold (parse_root e None None) i xs [])"
  using try_fold_map[where h = roots_seen and acc = "[]" and g = hub_root_step and f = "parse_root e None None" and xs = xs and i = i]
    hub_root_step_bare[OF assms] by (simp add: roots_seen_def)

lemma hub_scripts: "try_fold hub_script_step i xs [] = on_ok (map sc_name) (try_fold parse_script i xs [])"
  by (rule try_fold_map[where h = "map sc_name" and acc = "[]", simplified]) (rule hub_script_step)

lemma hub_choice: "hub_choice (obj_get data k) cs d bad = parse_choice data k cs d bad"
  by (auto simp: hub_choice_def parse_choice_def str_in_def unwrap_or_def split: option.splits json.splits)

lemma hub_shm: "hub_shm data = on_ok (\<lambda>_. ()) (parse_shm data)"
  by (auto simp: hub_shm_def parse_shm_def ensure_def Let_def split: option.splits json.splits)

lemma check_policy_bare:
  assumes l: "\<forall>p. links e p = NoLink"
  shows "check_policy (float_repr e) doc = on_ok outline_of (parse e doc None None)"
proof (cases doc)
  case (JObj data)
  show ?thesis
    by (simp add: JObj check_policy_def parse_def side node_str Let_def TOP_KEYS_def policy_keys_def MODES_def EXTERNAL_def
        hub_docker hub_images[where acc = "[]"] hub_gateway hub_ports hub_dports[where acc = "[]"] hub_roots[OF l] hub_scripts
        hub_choice hub_shm outline_of_def roots_seen_def image_count)
qed (simp_all add: check_policy_def parse_def)

lemma parse_mono:
  assumes l: "\<forall>p. links e' p = NoLink" "float_repr e' = float_repr e" and p: "parse e doc path home = Inr p"
  shows "parse e' doc None None = Inr (p\<lparr>pol_path := None, pol_home := None\<rparr>)"
proof (cases doc)
  case (JObj data)
  have i: "parse_image e' = parse_image e" by (intro ext) (simp only: parse_image_def l(2))
  have r: "try_fold (parse_root e path home) 0 rs [] = Inr roots \<Longrightarrow> try_fold (parse_root e' None None) 0 rs [] = Inr roots"
    for rs roots by (erule try_fold_mono) (rule parse_root_mono[OF l(1)])
  show ?thesis
    using p unfolding JObj parse_def Let_def json.case res_simps i
    by (elim exE conjE) (frule r, clarsimp)
qed (use p in \<open>simp_all add: parse_def\<close>)

lemma hub_accepts:
  assumes "parse e doc path home = Inr p"
  shows "check_policy (float_repr e) doc = Inr (outline_of p)"
  using check_policy_bare[of "e\<lparr>links := \<lambda>_. NoLink\<rparr>" doc] parse_mono[of "e\<lparr>links := \<lambda>_. NoLink\<rparr>", OF _ _ assms]
  by (simp add: outline_of_def)

section \<open>The editor's answer is the node's\<close>

lemma hub_offset: "hub_offset line col i ls pos = char_offset line col i ls pos"
  by (induction ls arbitrary: i pos) (simp_all add: add.assoc)

lemma hub_json_error: "hub_json_error_text text e = json_error_text text e"
  by (simp only: hub_json_error_text_def json_error_text_def hub_offset)

text \<open>
  C2. The hub's policy editor mirrors the node. A text that is no JSON is refused by both, with the same
  reason. For a document the editor gives exactly the answer the node gives without symlinks, home and policy
  path: the same refusal in the same words, or the outline of the same policy. And whatever a
  node accepts on any machine, from any policy path and for any home, the editor accepts with that
  policy's outline.
\<close>

theorem editor_agrees:
  assumes "utf8 os raw = Inr text" "byte_len text \<le> HUB_MAX_POLICY_BYTES"
  shows "case decode_policy os raw of
      Inl why \<Rightarrow> check_policy_text (json_of os) (float_repr (os_env os)) text = Inl (U ''the policy '' @ why)
    | Inr doc \<Rightarrow>
        ((\<forall>p. links (os_env os) p = NoLink) \<longrightarrow>
           check_policy_text (json_of os) (float_repr (os_env os)) text = on_ok outline_of (parse (os_env os) doc None None))
        \<and> (\<forall>path home p. parse (os_env os) doc path home = Inr p \<longrightarrow>
           check_policy_text (json_of os) (float_repr (os_env os)) text = Inr (outline_of p))"
proof (cases "json_of os text")
  case (Inl e)
  have u: "U ''the policy is not valid JSON ('' = U ''the policy '' @ U ''is not valid JSON (''" by (simp add: U_def)
  show ?thesis using assms Inl by (simp add: decode_policy_def check_policy_text_def hub_json_error u del: append_assoc)
next
  case (Inr doc)
  then have c: "check_policy_text (json_of os) rf text = check_policy rf doc" for rf
    using assms(2) by (simp add: check_policy_text_def)
  have d: "decode_policy os raw = Inr doc" using assms(1) Inr by (simp add: decode_policy_def)
  show ?thesis unfolding c d using check_policy_bare hub_accepts by simp
qed

lemma editor_agrees_witness:
  "\<exists>p. parse bare_env plain_doc (Some ETC_POLICY) (Some (U ''/home/bob'')) = Inr p \<and> manage p
     \<and> check_policy_text (json_of bare_os) (float_repr bare_env) [123] = Inr (outline_of p)"
proof -
  obtain p where p: "parse bare_env plain_doc (Some ETC_POLICY) (Some (U ''/home/bob'')) = Inr p" "manage p"
    using plain_parsed by blast
  have o: "utf8 bare_os [] = Inr [123]" "byte_len [123] \<le> HUB_MAX_POLICY_BYTES" "decode_policy bare_os [] = Inr plain_doc"
    by (simp_all add: bare_os_def byte_len_def utf8_len_def HUB_MAX_POLICY_BYTES_def decode_policy_def)
  from editor_agrees[OF o(1,2)] p show ?thesis by (auto simp: o(3) bare_os_fields)
qed

end
