(* ===== verification/Base64.thy ===== *)
theory Base64
  imports Frame
begin

text \<open>
  Strict base64 (crates/ecnode/src/fsops.rs, \<open>b64decode_strict\<close>): decoding of the content of
  fs.put_small, with its round trip from RFC 4648's encoding.
\<close>

unbundle bit_operations_syntax

definition b64_value :: "nat \<Rightarrow> u8 option" where
  "b64_value c =
     (if 65 \<le> c \<and> c \<le> 90 then Some (of_nat (c - 65))
      else if 97 \<le> c \<and> c \<le> 122 then Some (of_nat (c - 97 + 26))
      else if 48 \<le> c \<and> c \<le> 57 then Some (of_nat (c - 48 + 52))
      else if c = 43 then Some 62
      else if c = 47 then Some 63
      else None)"

text \<open>\<open>u8::try_from(x).unwrap_or(0)\<close>\<close>

definition low_byte :: "u32 \<Rightarrow> u8" where
  "low_byte x = (if unat x < 256 then ucast x else 0)"

record b64_state =
  quad_pos :: nat
  pads :: nat
  leftchar :: u32
  padding_started :: bool
  b64_out :: "u8 list"

text \<open>One data character.\<close>

definition b64_data :: "b64_state \<Rightarrow> u8 \<Rightarrow> b64_state" where
  "b64_data s v8 =
     (let v = ucast v8; s = s\<lparr>pads := 0\<rparr>; left = push_bit 6 (leftchar s) OR v in
      if quad_pos s = 0 then s\<lparr>leftchar := v, quad_pos := 1\<rparr>
      else if quad_pos s = 1 then
        s\<lparr>b64_out := b64_out s @ [low_byte (drop_bit 4 left)], leftchar := left AND 15, quad_pos := 2\<rparr>
      else if quad_pos s = 2 then
        s\<lparr>b64_out := b64_out s @ [low_byte (drop_bit 2 left)], leftchar := left AND 3, quad_pos := 3\<rparr>
      else s\<lparr>b64_out := b64_out s @ [low_byte (left AND 255)], leftchar := 0, quad_pos := 0\<rparr>)"

fun b64_loop :: "ustr \<Rightarrow> b64_state \<Rightarrow> u8 list option" where
  "b64_loop [] s = (if quad_pos s \<noteq> 0 then None else Some (b64_out s))"
| "b64_loop (c # cs) s =
     (if c = 61 then
        (let s = s\<lparr>padding_started := True\<rparr> in
         if quad_pos s = 0 then None
         else if 2 \<le> quad_pos s then
           (let s = s\<lparr>pads := pads s + 1\<rparr> in
            if 4 \<le> quad_pos s + pads s then (if cs \<noteq> [] then None else Some (b64_out s))
            else b64_loop cs s)
         else b64_loop cs s)
      else (case b64_value c of
          None \<Rightarrow> None
        | Some v \<Rightarrow> if padding_started s then None else b64_loop cs (b64_data s v)))"

definition b64decode_strict :: "ustr \<Rightarrow> u8 list option" where
  "b64decode_strict s =
     (if \<exists>c \<in> set s. 128 \<le> c then None
      else b64_loop s \<lparr>quad_pos = 0, pads = 0, leftchar = 0, padding_started = False, b64_out = []\<rparr>)"

section \<open>The encoding of RFC 4648\<close>

definition b64_digit :: "nat \<Rightarrow> nat" where
  "b64_digit n =
     (if n < 26 then n + 65 else if n < 52 then n - 26 + 97 else if n < 62 then n - 52 + 48
      else if n = 62 then 43 else 47)"

fun b64_encode :: "u8 list \<Rightarrow> ustr" where
  "b64_encode [] = []"
| "b64_encode [x] = (let a = unat x in [b64_digit (a div 4), b64_digit (a mod 4 * 16), 61, 61])"
| "b64_encode [x, y] =
     (let a = unat x; b = unat y in
      [b64_digit (a div 4), b64_digit (a mod 4 * 16 + b div 16), b64_digit (b mod 16 * 4), 61])"
| "b64_encode (x # y # z # bs) =
     (let a = unat x; b = unat y; c = unat z in
      [b64_digit (a div 4), b64_digit (a mod 4 * 16 + b div 16), b64_digit (b mod 16 * 4 + c div 64), b64_digit (c mod 64)]
      @ b64_encode bs)"

section \<open>Decoding what was encoded\<close>

lemma digit_value: "n < 64 \<Longrightarrow> b64_value (b64_digit n) = Some (of_nat n) \<and> b64_digit n \<noteq> 61 \<and> b64_digit n < 128"
proof -
  assume n: "n < 64"
  then consider "n < 26" | "26 \<le> n" "n < 52" | "52 \<le> n" "n < 62" | "n = 62" | "n = 63" by linarith
  then show ?thesis by cases (auto simp: b64_value_def b64_digit_def)
qed

lemma byte_lt: "unat (x :: u8) < 256"
  using unsigned_less[of x] by simp

lemma sextet_or: "n < 64 \<Longrightarrow> push_bit 6 l OR n = l * 64 + (n :: nat)"
proof -
  assume n: "n < 64"
  then have t: "take_bit 6 n = n" by (simp add: take_bit_eq_mod)
  have "\<not> bit (push_bit 6 l) k \<or> \<not> bit n k" for k
    using bit_take_bit_iff[of 6 n k] by (auto simp: t bit_push_bit_iff)
  then have "push_bit 6 l + n = push_bit 6 l OR n" by (rule disjunctive_add)
  then show ?thesis by (simp add: push_bit_eq_mult)
qed

lemma left_word: "n < 64 \<Longrightarrow> push_bit 6 (of_nat l) OR ucast (of_nat n :: u8) = (of_nat (l * 64 + n) :: u32)"
proof -
  assume n: "n < 64"
  have "ucast (of_nat n :: u8) = (of_nat n :: u32)"
    using n by (simp add: word_unat_eq_iff unsigned_ucast_eq unat_of_nat take_bit_eq_mod)
  moreover have "push_bit 6 (of_nat l) OR of_nat n = (of_nat (push_bit 6 l OR n) :: u32)"
    by (simp only: push_bit_of_nat of_nat_or_eq)
  ultimately show ?thesis by (simp only: sextet_or[OF n])
qed

lemma and_mask: "(of_nat m :: u32) AND 15 = of_nat (m mod 16)" "(of_nat m :: u32) AND 3 = of_nat (m mod 4)"
    "(of_nat m :: u32) AND 255 = of_nat (m mod 256)"
proof -
  have a: "(of_nat m :: u32) AND of_nat (mask k) = of_nat (m mod 2 ^ k)" for k
    by (simp only: of_nat_and_eq[symmetric] take_bit_eq_mask[symmetric] take_bit_eq_mod)
  from a[of 4] a[of 2] a[of 8]
  show "(of_nat m :: u32) AND 15 = of_nat (m mod 16)" "(of_nat m :: u32) AND 3 = of_nat (m mod 4)"
    "(of_nat m :: u32) AND 255 = of_nat (m mod 256)" by (simp_all add: mask_eq_exp_minus_1)
qed

lemma low_byte_of: "m < 4096 \<Longrightarrow> m div 2 ^ k < 256 \<Longrightarrow> low_byte (drop_bit k (of_nat m)) = of_nat (m div 2 ^ k)"
proof -
  assume m: "m < 4096" "m div 2 ^ k < 256"
  have "unat (drop_bit k (of_nat m :: u32)) = m div 2 ^ k"
    unfolding unat_drop_bit_eq using m(1) by (subst unat_of_nat) (simp add: take_bit_eq_mod drop_bit_eq_div)
  moreover from this have "ucast (drop_bit k (of_nat m :: u32)) = (of_nat (m div 2 ^ k) :: u8)"
    by (simp only: word_unat_eq_iff unsigned_ucast_eq unat_of_nat take_bit_eq_mod)
  ultimately show ?thesis using m(2) by (simp only: low_byte_def if_True)
qed

lemma low_byte_nat: "m < 256 \<Longrightarrow> low_byte (of_nat m) = of_nat m"
  using low_byte_of[of m 0] by simp

definition fresh :: "nat \<Rightarrow> nat \<Rightarrow> u8 list \<Rightarrow> b64_state" where
  "fresh q l out = \<lparr>quad_pos = q, pads = 0, leftchar = of_nat l, padding_started = False, b64_out = out\<rparr>"

lemma loop_digit:
  "n < 64 \<Longrightarrow> b64_loop (b64_digit n # cs) (fresh q l out) = b64_loop cs (b64_data (fresh q l out) (of_nat n))"
  using digit_value[of n] by (simp add: fresh_def)

lemma loop_steps:
  assumes "n < 64"
  shows "b64_loop (b64_digit n # cs) (fresh 0 0 out) = b64_loop cs (fresh 1 n out)"
    and "l < 64 \<Longrightarrow> b64_loop (b64_digit n # cs) (fresh 1 l out)
      = b64_loop cs (fresh 2 ((l * 64 + n) mod 16) (out @ [of_nat ((l * 64 + n) div 16)]))"
    and "l < 16 \<Longrightarrow> b64_loop (b64_digit n # cs) (fresh 2 l out)
      = b64_loop cs (fresh 3 ((l * 64 + n) mod 4) (out @ [of_nat ((l * 64 + n) div 4)]))"
    and "l < 4 \<Longrightarrow> b64_loop (b64_digit n # cs) (fresh 3 l out) = b64_loop cs (fresh 0 0 (out @ [of_nat (l * 64 + n)]))"
proof -
  note w = left_word[OF assms]
  have u: "ucast (of_nat n :: u8) = (of_nat n :: u32)" using w[of 0] by simp
  show "b64_loop (b64_digit n # cs) (fresh 0 0 out) = b64_loop cs (fresh 1 n out)"
    unfolding loop_digit[OF assms] by (simp add: b64_data_def fresh_def Let_def u)
  have d: "b64_data (fresh q l out) (of_nat n) =
      (let left = of_nat (l * 64 + n) in
       if q = 0 then fresh 1 n out
       else if q = 1 then (fresh 2 0 (out @ [low_byte (drop_bit 4 left)]))\<lparr>leftchar := left AND 15\<rparr>
       else if q = 2 then (fresh 3 0 (out @ [low_byte (drop_bit 2 left)]))\<lparr>leftchar := left AND 3\<rparr>
       else fresh 0 0 (out @ [low_byte (left AND 255)]))" for q l
    unfolding b64_data_def Let_def fresh_def w[symmetric] by (simp add: u)
  show "b64_loop (b64_digit n # cs) (fresh 1 l out)
      = b64_loop cs (fresh 2 ((l * 64 + n) mod 16) (out @ [of_nat ((l * 64 + n) div 16)]))" if "l < 64"
  proof -
    have "l * 64 + n < 4096" "(l * 64 + n) div 2 ^ 4 < 256" using that assms by auto
    from low_byte_of[OF this] show ?thesis
      unfolding loop_digit[OF assms] d Let_def and_mask by (simp add: fresh_def)
  qed
  show "b64_loop (b64_digit n # cs) (fresh 2 l out)
      = b64_loop cs (fresh 3 ((l * 64 + n) mod 4) (out @ [of_nat ((l * 64 + n) div 4)]))" if "l < 16"
  proof -
    have "l * 64 + n < 4096" "(l * 64 + n) div 2 ^ 2 < 256" using that assms by auto
    from low_byte_of[OF this] show ?thesis
      unfolding loop_digit[OF assms] d Let_def and_mask by (simp add: fresh_def)
  qed
  show "b64_loop (b64_digit n # cs) (fresh 3 l out) = b64_loop cs (fresh 0 0 (out @ [of_nat (l * 64 + n)]))" if "l < 4"
  proof -
    have "(l * 64 + n) mod 256 = l * 64 + n" "l * 64 + n < 256" using that assms by auto
    then show ?thesis
      unfolding loop_digit[OF assms] d Let_def and_mask by (simp add: low_byte_nat del: of_nat_add of_nat_mult)
  qed
qed

lemma loop_pads: "b64_loop [61, 61] (fresh 2 l out) = Some out" "b64_loop [61] (fresh 3 l out) = Some out"
    "b64_loop [] (fresh 0 0 out) = Some out"
  by (simp_all add: fresh_def)

text \<open>Six bits at a time, three bytes make four digits.\<close>

lemma sextet_join: "a div 4 * 64 + (a mod 4 * 16 + q) = a * 16 + (q :: nat)" "b div 16 * 64 + (b mod 16 * 4 + q) = b * 4 + q"
    "c div 64 * 64 + c mod 64 = (c :: nat)"
  using div_mult_mod_eq[of a 4] div_mult_mod_eq[of b 16] div_mult_mod_eq[of c 64] by linarith+

lemma sextets:
  assumes "a < 256" "b < 256" "c < (256 :: nat)"
  shows "a div 4 < 64" "a mod 4 * 16 < 64" "a mod 4 * 16 + b div 16 < 64" "b mod 16 * 4 < 64" "b mod 16 * 4 + c div 64 < 64"
    "c mod 64 < 64" "b div 16 < 16" "c div 64 < 4"
    "(a div 4 * 64 + a mod 4 * 16) div 16 = a" "(a div 4 * 64 + (a mod 4 * 16 + b div 16)) div 16 = a"
    "(a div 4 * 64 + (a mod 4 * 16 + b div 16)) mod 16 = b div 16"
    "(b div 16 * 64 + b mod 16 * 4) div 4 = b" "(b div 16 * 64 + (b mod 16 * 4 + c div 64)) div 4 = b"
    "(b div 16 * 64 + (b mod 16 * 4 + c div 64)) mod 4 = c div 64" "c div 64 * 64 + c mod 64 = c"
proof -
  show d: "a div 4 < 64" "b div 16 < 16" "c div 64 < 4" "c mod 64 < 64" using assms by auto
  have m: "a mod 4 < 4" "b mod 16 < 16" by simp_all
  show "a mod 4 * 16 < 64" "a mod 4 * 16 + b div 16 < 64" "b mod 16 * 4 < 64" "b mod 16 * 4 + c div 64 < 64"
    using m d by linarith+
  show "(a div 4 * 64 + a mod 4 * 16) div 16 = a" "(b div 16 * 64 + b mod 16 * 4) div 4 = b"
    using sextet_join(1)[of a 0] sextet_join(2)[of b 0] by simp_all
  show "(a div 4 * 64 + (a mod 4 * 16 + b div 16)) div 16 = a" "(a div 4 * 64 + (a mod 4 * 16 + b div 16)) mod 16 = b div 16"
    "(b div 16 * 64 + (b mod 16 * 4 + c div 64)) div 4 = b" "(b div 16 * 64 + (b mod 16 * 4 + c div 64)) mod 4 = c div 64"
    unfolding sextet_join using d by simp_all
qed (rule sextet_join)

lemma byte_back: "of_nat (unat x) = (x :: u8)"
  by simp

lemma b64_loop_encode: "b64_loop (b64_encode bs) (fresh 0 0 out) = Some (out @ bs)"
proof (induction bs arbitrary: out rule: b64_encode.induct)
  case 1
  show ?case by (simp add: fresh_def)
next
  case (2 x)
  note a = sextets[of "unat x" "unat x" "unat x", OF byte_lt byte_lt byte_lt]
  show ?case by (simp only: b64_encode.simps Let_def loop_steps a loop_pads byte_back append.simps)
next
  case (3 x y)
  note a = sextets[of "unat x" "unat y" "unat y", OF byte_lt byte_lt byte_lt]
  show ?case by (simp only: b64_encode.simps Let_def loop_steps a loop_pads byte_back append.simps append_assoc)
next
  case (4 x y z bs)
  note a = sextets[of "unat x" "unat y" "unat z", OF byte_lt byte_lt byte_lt]
  show ?case by (simp only: b64_encode.simps Let_def loop_steps a 4 byte_back append.simps append_assoc)
qed

lemma b64_digit_ascii [simp]: "b64_digit n < 128"
  by (auto simp: b64_digit_def)

lemma b64_encode_ascii: "\<forall>c \<in> set (b64_encode bs). c < 128"
  by (induction bs rule: b64_encode.induct) (simp_all add: Let_def)

lemma b64_roundtrip: "b64decode_strict (b64_encode bs) = Some bs"
proof -
  have "\<not> (\<exists>c \<in> set (b64_encode bs). 128 \<le> c)" by (meson b64_encode_ascii not_le)
  moreover have "b64_loop (b64_encode bs) (fresh 0 0 []) = Some bs" using b64_loop_encode[of bs "[]"] by (simp only: append_Nil)
  ultimately show ?thesis by (simp only: b64decode_strict_def fresh_def if_False) simp
qed

end
