(* ===== verification/FsOps.thy ===== *)
theory FsOps
  imports DockerOps Base64
begin

text \<open>
  File operations inside the model roots (crates/ecnode/src/fsops.rs): fs.stat, fs.write, fs.read,
  fs.symlink, fs.put_small and fs.delete. Each is an operation in the sense of Prog over \<open>disk\<close>, which
  holds what the machine answers; every answer may depend on all calls before it, so another process
  may change anything between two calls. A call is kept on the trace with its answer where later steps or the
  properties refer to it. A descriptor is closed, and a flock released, when the operation is over; neither
  is recorded.
\<close>

section \<open>The machine\<close>

record inode =
  in_mode :: u32
  in_size :: int
  in_dev :: nat
  in_ino :: nat

text \<open>
  The ways to open a name below a directory: an upload's partial file (read, write, create), a file to read,
  a directory, and a new file (\<open>O_EXCL\<close>); all with \<open>O_NOFOLLOW\<close>.
\<close>

datatype open_kind = OPartial | ORead | OSub | ONew

datatype fs_call =
    LockFile nat
  | Truncate nat
  | SeekTo nat int
  | WriteTo nat "u8 list"
  | SyncFd nat
  | RenameAt nat ustr ustr
  | UnlinkAt nat ustr
  | RmdirAt nat ustr
  | SymlinkAt ustr nat ustr

datatype fs_event =
    OpenRoot json bool "fail + root_handle"
  | OpenDir root_handle "ustr list" bool "fail + nat"
  | LstatAt nat ustr "errno + inode"
  | StatPath ustr
  | FstatFd nat "errno + inode"
  | FdPath nat "ustr option"
  | RealPath ustr ustr
  | ResolveLink nat ustr "ustr option"
  | OpenAt open_kind nat ustr "errno + nat"
  | FreeSpace nat
  | ReadAt nat int nat "errno + u8 list"
  | Io fs_call "errno option"
  | NamesIn nat
  | CheckCancel bool
  | Upload "handler_error + u8 list"
  | SendData "u8 list" "handler_error option"
  | RandomBytes nat
  | RunningMounts "handler_error + ustr list"
  | HoldKey ustr "fail + unit"
  | ReleaseKey ustr

type_synonym fs_trace = "fs_event list"

record disk =
  d_fs :: "fs_trace \<Rightarrow> fs"
  d_lstat :: "fs_trace \<Rightarrow> nat \<Rightarrow> ustr \<Rightarrow> errno + inode"
  d_stat :: "fs_trace \<Rightarrow> ustr \<Rightarrow> errno + inode"
  d_fstat :: "fs_trace \<Rightarrow> nat \<Rightarrow> errno + inode"
  d_openat :: "fs_trace \<Rightarrow> open_kind \<Rightarrow> nat \<Rightarrow> ustr \<Rightarrow> errno + nat"
  d_space :: "fs_trace \<Rightarrow> nat \<Rightarrow> errno + (nat \<times> nat)"
  d_read :: "fs_trace \<Rightarrow> nat \<Rightarrow> int \<Rightarrow> nat \<Rightarrow> errno + u8 list"
  d_io :: "fs_trace \<Rightarrow> fs_call \<Rightarrow> errno option"
  d_names :: "fs_trace \<Rightarrow> nat \<Rightarrow> errno + (errno + ustr) list"
  d_cancelled :: "fs_trace \<Rightarrow> bool"
  d_upload :: "fs_trace \<Rightarrow> handler_error + u8 list"
  d_send :: "fs_trace \<Rightarrow> u8 list \<Rightarrow> handler_error option"
  d_random :: "fs_trace \<Rightarrow> nat \<Rightarrow> u8 list"
  d_mounts :: "fs_trace \<Rightarrow> handler_error + ustr list"
  d_held :: "fs_trace \<Rightarrow> ustr set"
  d_sha256 :: "u8 list \<Rightarrow> u8 list"
  d_errno :: "errno \<Rightarrow> ustr"

section \<open>Sections that map their own errors\<close>

text \<open>An error inside an operation's guarded section (\<open>E\<close>).\<close>

datatype fs_err = EH handler_error | EOs errno

type_synonym 'a fsop = "(fs_event, handler_error, 'a) op"
type_synonym 'a guarded = "(fs_event, fs_err, 'a) op"

definition inner :: "'a fsop \<Rightarrow> 'a guarded" where
  "inner m = pcatch m (\<lambda>r. case r of Inl e \<Rightarrow> pfail (EH e) | Inr a \<Rightarrow> pret a)"

definition on_os :: "'a guarded \<Rightarrow> (errno \<Rightarrow> 'a fsop) \<Rightarrow> 'a fsop" where
  "on_os m f = pcatch m (\<lambda>r. case r of Inr a \<Rightarrow> pret a | Inl (EH e) \<Rightarrow> pfail e | Inl (EOs n) \<Rightarrow> f n)"

definition refuse :: "ustr \<Rightarrow> ustr \<Rightarrow> 'a guarded" where
  "refuse code msg = pfail (EH (HOp code msg))"

definition os_result :: "errno + 'a \<Rightarrow> 'a guarded" where
  "os_result r = (case r of Inl e \<Rightarrow> pfail (EOs e) | Inr a \<Rightarrow> pret a)"

section \<open>Calls\<close>

definition root_at :: "disk \<Rightarrow> policy \<Rightarrow> json \<Rightarrow> bool \<Rightarrow> root_handle fsop" where
  "root_at w p v wr = pbind (told (\<lambda>t. open_root (d_fs w t) p v wr) (OpenRoot v wr)) plift"

definition dir_at :: "disk \<Rightarrow> root_handle \<Rightarrow> ustr list \<Rightarrow> bool \<Rightarrow> (fail + nat) fsop" where
  "dir_at w h parts create = told (\<lambda>t. open_dir (d_fs w t) h parts create) (OpenDir h parts create)"

definition fd_path_of :: "disk \<Rightarrow> nat \<Rightarrow> ustr option fsop" where
  "fd_path_of w fd = told (\<lambda>t. fd_path (d_fs w t) fd) (FdPath fd)"

definition real_path :: "disk \<Rightarrow> ustr \<Rightarrow> ustr fsop" where
  "real_path w p = told (\<lambda>t. real_of (d_fs w t) p) (RealPath p)"

definition lstat_at :: "disk \<Rightarrow> nat \<Rightarrow> ustr \<Rightarrow> inode option fsop" where
  "lstat_at w dfd name = pbind (told (\<lambda>t. d_lstat w t dfd name) (LstatAt dfd name)) (\<lambda>r. case r of
     Inr st \<Rightarrow> pret (Some st)
   | Inl EMissing \<Rightarrow> pret None
   | Inl e \<Rightarrow> pfail (HOp IO_ERROR (U ''cannot look at '' @ repr_take name 200 @ U '': '' @ d_errno w e)))"

definition open_at :: "disk \<Rightarrow> open_kind \<Rightarrow> nat \<Rightarrow> ustr \<Rightarrow> (fs_event, 'e, errno + nat) op" where
  "open_at w k dfd name = told (\<lambda>t. d_openat w t k dfd name) (OpenAt k dfd name)"

definition fstat_of :: "disk \<Rightarrow> nat \<Rightarrow> inode guarded" where
  "fstat_of w fd = pbind (told (\<lambda>t. d_fstat w t fd) (FstatFd fd)) os_result"

text \<open>A read fills at most the buffer it is given.\<close>

definition read_at :: "disk \<Rightarrow> nat \<Rightarrow> int \<Rightarrow> nat \<Rightarrow> u8 list guarded" where
  "read_at w fd pos n = pbind (told (\<lambda>t. case d_read w t fd pos n of Inl e \<Rightarrow> Inl e | Inr bs \<Rightarrow> Inr (take n bs)) (ReadAt fd pos n))
     os_result"

definition try_io :: "disk \<Rightarrow> fs_call \<Rightarrow> (fs_event, 'e, errno option) op" where
  "try_io w c = told (\<lambda>t. d_io w t c) (Io c)"

definition io :: "disk \<Rightarrow> fs_call \<Rightarrow> unit guarded" where
  "io w c = pbind (try_io w c) (\<lambda>r. case r of None \<Rightarrow> pret () | Some e \<Rightarrow> pfail (EOs e))"

text \<open>\<open>unlink_quiet\<close>, and a directory synced without looking at the result.\<close>

definition quietly :: "disk \<Rightarrow> fs_call \<Rightarrow> (fs_event, 'e, unit) op" where
  "quietly w c = pbind (try_io w c) (\<lambda>_. pret ())"

definition check :: "disk \<Rightarrow> unit guarded" where
  "check w = pbind (told (d_cancelled w) CheckCancel) (\<lambda>b. if b then pfail (EH HCancelled) else pret ())"

section \<open>Small things\<close>

definition HASH_MISMATCH :: ustr where "HASH_MISMATCH = U ''hash_mismatch''"
definition SIZE_MISMATCH :: ustr where "SIZE_MISMATCH = U ''size_mismatch''"
definition IN_USE :: ustr where "IN_USE = U ''in_use''"

definition PARTIAL :: ustr where "PARTIAL = U ''.incomplete''"
definition MIN_FREE :: int where "MIN_FREE = 2 ^ 30"
definition CHUNK :: int where "CHUNK = 512 * 1024"
definition PUT_SMALL_MAX :: nat where "PUT_SMALL_MAX = 96 * 1024"
definition MAX_FILE :: int where "MAX_FILE = 2 ^ 50"
definition MAX_DELETE_DEPTH :: nat where "MAX_DELETE_DEPTH = 64"

definition SHA :: re where
  "SHA = Rep (Cls [(48, 57), (97, 102), (65, 70)]) 64"

text \<open>\<open>S_IFDIR\<close>, \<open>S_IFLNK\<close>, \<open>S_IFIFO\<close>, \<open>S_IFSOCK\<close>, \<open>S_IFCHR\<close> and \<open>S_IFBLK\<close>.\<close>

definition st_reg :: "inode \<Rightarrow> bool" where "st_reg st \<longleftrightarrow> in_mode st AND S_IFMT = S_IFREG"
definition st_dir :: "inode \<Rightarrow> bool" where "st_dir st \<longleftrightarrow> in_mode st AND S_IFMT = 16384"
definition st_lnk :: "inode \<Rightarrow> bool" where "st_lnk st \<longleftrightarrow> in_mode st AND S_IFMT = 40960"
definition st_special :: "inode \<Rightarrow> bool" where
  "st_special st \<longleftrightarrow> in_mode st AND S_IFMT \<in> {4096, 49152, 8192, 24576}"

definition some_is :: "(inode \<Rightarrow> bool) \<Rightarrow> inode option \<Rightarrow> bool" where
  "some_is f st = (case st of Some s \<Rightarrow> f s | None \<Rightarrow> False)"

definition special_refused :: "ustr \<Rightarrow> handler_error" where
  "special_refused what = HOp CONFLICT (what @ U '' is a FIFO, socket or device file; refusing to replace it'')"

definition py_int :: "json \<Rightarrow> int option" where
  "py_int v = (case v of
       JNum (Float _) \<Rightarrow> None
     | JNum n \<Rightarrow> Some (unwrap_or (2 ^ 63 - 1) (as_i64 n))
     | JBool b \<Rightarrow> Some (if b then 1 else 0)
     | _ \<Rightarrow> None)"

definition type_error :: handler_error where "type_error = HInternal (U ''TypeError'') None"

definition int_or_zero :: "obj \<Rightarrow> ustr \<Rightarrow> handler_error + int" where
  "int_or_zero c k =
     (let v = arg c k in
      if \<not> truthy v then Inr 0
      else (case py_int v of Some i \<Rightarrow> Inr i | None \<Rightarrow> Inl type_error))"

definition rel_repr :: "ustr \<Rightarrow> ustr" where "rel_repr r = repr_take r 300"

definition name_ok_for_partial :: "ustr \<Rightarrow> handler_error + unit" where
  "name_ok_for_partial name = ensure (\<not> 255 < byte_len name + byte_len PARTIAL)
     (HOp BAD_ARGS (U ''the file name is too long to hold an upload in progress (max 243 bytes)''))"

definition with_partial :: "ustr \<Rightarrow> ustr" where "with_partial name = name @ PARTIAL"

section \<open>fs.stat\<close>

definition stat_json :: "json \<Rightarrow> inode option \<Rightarrow> int \<Rightarrow> json" where
  "stat_json r st part = JObj
     [(U ''rel'', r), (U ''exists'', JBool (st \<noteq> None)), (U ''is_dir'', JBool (some_is st_dir st)),
      (U ''size'', case st of Some s \<Rightarrow> if st_reg s then json_int (in_size s) else JNull | None \<Rightarrow> JNull),
      (U ''partial'', json_int part)]"

text \<open>A symlink counts as what it leads to inside the root, or as missing.\<close>

definition followed :: "disk \<Rightarrow> root_handle \<Rightarrow> nat \<Rightarrow> ustr \<Rightarrow> inode option \<Rightarrow> inode option fsop" where
  "followed w h dfd name st =
     (if \<not> some_is st_lnk st then pret st
      else pbind (told (\<lambda>t. resolve_link_inside (d_fs w t) dfd name h) (ResolveLink dfd name)) (\<lambda>r. case r of
          None \<Rightarrow> pret None
        | Some rl \<Rightarrow> pbind (ask (\<lambda>t. d_stat w t rl) (StatPath rl)) (\<lambda>meta. case meta of
              Inl _ \<Rightarrow> pret None
            | Inr _ \<Rightarrow> pbind (ask (\<lambda>t. d_stat w t rl) (StatPath rl)) (\<lambda>again. case again of
                  Inl e \<Rightarrow> pfail (HInternal (os_error_name e) None)
                | Inr s \<Rightarrow> pret (Some s)))))"

definition partial_size :: "disk \<Rightarrow> nat \<Rightarrow> ustr \<Rightarrow> int fsop" where
  "partial_size w dfd name =
     (if byte_len name + byte_len PARTIAL \<le> 255 then
        pbind (lstat_at w dfd (with_partial name)) (\<lambda>pst. pret (case pst of
          Some s \<Rightarrow> if st_reg s then in_size s else 0 | None \<Rightarrow> 0))
      else pret 0)"

definition stat_item :: "disk \<Rightarrow> root_handle \<Rightarrow> json \<Rightarrow> json fsop" where
  "stat_item w h r =
     pbind (plift (split_rel (json_str r) (U ''path''))) (\<lambda>parts.
     pbind (dir_at w h (butlast parts) False) (\<lambda>res. case res of
        Inl (FOp c m) \<Rightarrow> if c = NOT_FOUND \<or> c = BAD_ARGS then pret (stat_json r None 0) else pfail (HOp c m)
      | Inl f \<Rightarrow> pfail (op_error f)
      | Inr dfd \<Rightarrow>
          (let name = last parts in
           pbind (lstat_at w dfd name) (\<lambda>st.
           pbind (followed w h dfd name st) (\<lambda>st.
           pbind (partial_size w dfd name) (\<lambda>part.
           pret (stat_json r st part)))))))"

definition fs_stat :: "disk \<Rightarrow> policy \<Rightarrow> obj \<Rightarrow> obj fsop" where
  "fs_stat w p c =
     pbind (root_at w p (arg c (U ''root'')) False) (\<lambda>h.
     pbind (pmap (stat_item w h) (case arg c (U ''paths'') of JArr a \<Rightarrow> take 256 a | _ \<Rightarrow> [])) (\<lambda>items.
     pret [(U ''items'', JArr items)]))"

section \<open>fs.write\<close>

text \<open>\<open>WriteLocks\<close>: the keys of the uploads under way.\<close>

definition hold :: "ustr set \<Rightarrow> ustr \<Rightarrow> (fail + unit) \<times> ustr set" where
  "hold held key =
     (if key \<in> held then (Inl (FOp CONFLICT (U ''another upload to that file is in progress'')), held)
      else (Inr (), insert key held))"

definition release :: "ustr set \<Rightarrow> ustr \<Rightarrow> ustr set" where
  "release held key = held - {key}"

definition hold_key :: "disk \<Rightarrow> ustr \<Rightarrow> unit fsop" where
  "hold_key w key = pbind (told (\<lambda>t. fst (hold (d_held w t) key)) (HoldKey key)) plift"

definition while_held :: "ustr \<Rightarrow> 'a fsop \<Rightarrow> 'a fsop" where
  "while_held key m = pcatch m (\<lambda>r. pbind (ask (\<lambda>_. ()) (ReleaseKey key)) (\<lambda>_. hlift r))"

record write_args =
  wr_rel :: ustr
  wr_parent :: "ustr list"
  wr_name :: ustr
  wr_size :: int
  wr_want :: "ustr option"
  wr_offset :: int

definition want_arg :: "json \<Rightarrow> handler_error + ustr option" where
  "want_arg v = (case v of
       JNull \<Rightarrow> Inr None
     | JStr s \<Rightarrow> if matches SHA s then Inr (Some (lowered s)) else Inl (HOp BAD_ARGS (U ''sha256 must be 64 hex digits''))
     | _ \<Rightarrow> Inl type_error)"

definition offset_text :: "int \<Rightarrow> int \<Rightarrow> ustr" where
  "offset_text offset n = U ''offset '' @ dec_int offset @ U '' is outside the file (0-'' @ dec_int n @ U '')''"

definition op_result :: "fail + 'a \<Rightarrow> handler_error + 'a" where
  "op_result r = (case r of Inl f \<Rightarrow> Inl (op_error f) | Inr a \<Rightarrow> Inr a)"

definition write_args_of :: "obj \<Rightarrow> handler_error + write_args" where
  "write_args_of c =
     (let rel_v = json_str (arg c (U ''rel'')) in
      try_bind (op_result (split_rel_for_write rel_v (U ''path''))) (\<lambda>parts.
      try_bind (name_ok_for_partial (last parts)) (\<lambda>_.
      try_bind (case py_int (arg c (U ''size'')) of
          Some s \<Rightarrow> if 0 \<le> s \<and> s \<le> MAX_FILE then Inr s else Inl (HOp BAD_ARGS (U ''size must be the whole file's size in bytes''))
        | None \<Rightarrow> Inl (HOp BAD_ARGS (U ''size must be the whole file's size in bytes''))) (\<lambda>sz.
      try_bind (want_arg (arg c (U ''sha256''))) (\<lambda>want.
      try_bind (int_or_zero c (U ''offset'')) (\<lambda>offset.
      try_bind (ensure (0 \<le> offset \<and> offset \<le> sz) (HOp BAD_ARGS (offset_text offset sz))) (\<lambda>_.
      Inr \<lparr>wr_rel = unwrap_or [] rel_v, wr_parent = butlast parts, wr_name = last parts, wr_size = sz, wr_want = want,
        wr_offset = offset\<rparr>)))))))"

text \<open>Nothing but a file, a symlink or a free name is uploaded over, through a partial that is a file or free.\<close>

definition guard_target :: "disk \<Rightarrow> nat \<Rightarrow> write_args \<Rightarrow> unit guarded" where
  "guard_target w dfd a =
     pbind (inner (lstat_at w dfd (wr_name a))) (\<lambda>st.
     if some_is st_dir st then refuse CONFLICT (rel_repr (wr_rel a) @ U '' is a directory'')
     else if some_is st_special st then pfail (EH (special_refused (rel_repr (wr_rel a))))
     else pbind (inner (lstat_at w dfd (with_partial (wr_name a)))) (\<lambda>pst.
       if some_is st_special pst then refuse CONFLICT (U ''the upload's partial file is not a regular file'')
       else pret ()))"

definition open_partial :: "disk \<Rightarrow> nat \<Rightarrow> ustr \<Rightarrow> nat guarded" where
  "open_partial w dfd partial =
     pbind (open_at w OPartial dfd partial) (\<lambda>r. case r of
       Inr fd \<Rightarrow> pret fd
     | Inl ELoop \<Rightarrow> refuse POLICY_DENIED (U ''the upload's partial file is a symlink; refusing'')
     | Inl e \<Rightarrow> pfail (EOs e))"

text \<open>\<open>EWOULDBLOCK\<close>, \<open>EDQUOT\<close>\<close>

definition EWOULDBLOCK :: errno where "EWOULDBLOCK = EOther 11"
definition EDQUOT :: errno where "EDQUOT = EOther 122"

definition lock_partial :: "disk \<Rightarrow> nat \<Rightarrow> unit guarded" where
  "lock_partial w fd =
     pbind (try_io w (LockFile fd)) (\<lambda>r. case r of
       None \<Rightarrow> pret ()
     | Some e \<Rightarrow> if e = EWOULDBLOCK then refuse CONFLICT (U ''another process is writing that file'') else pfail (EOs e))"

definition start_at_offset :: "disk \<Rightarrow> nat \<Rightarrow> write_args \<Rightarrow> unit guarded" where
  "start_at_offset w fd a =
     pbind (fstat_of w fd) (\<lambda>pst.
     if \<not> st_reg pst then refuse CONFLICT (U ''the upload's partial file is not a regular file'')
     else (let current = in_size pst in
       if wr_offset a = 0 then io w (Truncate fd)
       else if wr_offset a \<noteq> current then
         refuse CONFLICT (U ''resume offset '' @ dec_int (wr_offset a) @ U '' does not match the partial file (''
           @ dec_int current @ U '' bytes): resume from '' @ dec_int current @ U '', or start at 0'')
       else pret ()))"

definition check_space :: "disk \<Rightarrow> nat \<Rightarrow> write_args \<Rightarrow> unit guarded" where
  "check_space w fd a =
     pbind (pbind (ask (\<lambda>t. d_space w t fd) (FreeSpace fd)) os_result) (\<lambda>(bavail, frsize).
     (let free = int bavail * int frsize; more = wr_size a - wr_offset a in
      if free - more < MIN_FREE then
        refuse NO_SPACE (U ''writing '' @ dec_int more @ U '' more bytes would leave less than 1 GiB free on that disk (''
          @ dec_int free @ U '' bytes free)'')
      else pret ()))"

text \<open>The part already there goes into the hash first; \<open>got\<close> is what was hashed so far.\<close>

function hash_existing :: "disk \<Rightarrow> nat \<Rightarrow> int \<Rightarrow> int \<Rightarrow> u8 list \<Rightarrow> u8 list guarded" where
  "hash_existing w fd offset pos got =
     (if pos < offset then
        pbind (check w) (\<lambda>_.
        pbind (read_at w fd pos (nat (min (offset - pos) 4194304))) (\<lambda>bs.
        if bs = [] then refuse IO_ERROR (U ''the partial file shrank while it was being read'')
        else hash_existing w fd offset (pos + int (length bs)) (got @ bs)))
      else pret got)"
  by pat_completeness auto
termination by (relation "measure (\<lambda>(w, fd, offset, pos, got). nat (offset - pos))") (auto simp: neq_Nil_conv)

text \<open>
  Uploaded chunks, written and hashed until the upload ends or one does not fit: what arrived in all, whether
  it was too much, and what the hasher was fed (\<open>None\<close>: there is none).
\<close>

function receive :: "disk \<Rightarrow> nat \<Rightarrow> int \<Rightarrow> int \<Rightarrow> u8 list option \<Rightarrow> (int \<times> bool \<times> u8 list option) guarded" where
  "receive w fd sz tot hashed =
     pbind (pbind (told (d_upload w) Upload) (\<lambda>r. inner (hlift r))) (\<lambda>chunk.
     if chunk = [] then pret (tot, False, hashed)
     else if sz < tot + int (length chunk) then pret (tot, True, hashed)
     else pbind (io w (WriteTo fd chunk)) (\<lambda>_.
       receive w fd sz (tot + int (length chunk)) (map_option (\<lambda>bs. bs @ chunk) hashed)))"
  by pat_completeness auto
termination by (relation "measure (\<lambda>(w, fd, sz, tot, hashed). nat (sz - tot))") (auto simp: neq_Nil_conv)

declare hash_existing.simps [simp del] receive.simps [simp del]

definition hash_start :: "disk \<Rightarrow> nat \<Rightarrow> write_args \<Rightarrow> u8 list option guarded" where
  "hash_start w fd a =
     (if wr_want a = None \<and> wr_offset a \<noteq> 0 then pret None
      else if 0 < wr_offset a then pbind (hash_existing w fd (wr_offset a) 0 []) (\<lambda>bs. pret (Some bs))
      else pret (Some []))"

definition opt_json :: "ustr option \<Rightarrow> json" where
  "opt_json v = (case v of Some s \<Rightarrow> JStr s | None \<Rightarrow> JNull)"

definition finish_upload :: "disk \<Rightarrow> nat \<Rightarrow> nat \<Rightarrow> write_args \<Rightarrow> int \<times> bool \<times> u8 list option \<Rightarrow> obj guarded" where
  "finish_upload w dfd fd a got =
     (case got of (tot, overflow, hashed) \<Rightarrow>
        (let partial = with_partial (wr_name a) in
         if overflow \<or> tot \<noteq> wr_size a then
           pbind (quietly w (UnlinkAt dfd partial)) (\<lambda>_.
           refuse SIZE_MISMATCH (U ''received '' @ (if overflow then U ''more than'' else dec_int tot @ U '' of'') @ U '' ''
             @ dec_int (wr_size a) @ U '' bytes for '' @ rel_repr (wr_rel a) @ U ''; the partial file was deleted''))
         else pbind (io w (SyncFd fd)) (\<lambda>_.
           (let digest = map_option (\<lambda>bs. hex_text (d_sha256 w bs)) hashed in
            if wr_want a \<noteq> None \<and> digest \<noteq> wr_want a then
              pbind (quietly w (UnlinkAt dfd partial)) (\<lambda>_.
              refuse HASH_MISMATCH (U ''sha256 of '' @ rel_repr (wr_rel a) @ U '' does not match; the partial file was deleted''))
            else pbind (io w (RenameAt dfd partial (wr_name a))) (\<lambda>_.
              pbind (quietly w (SyncFd dfd)) (\<lambda>_.
              pret [(U ''size'', json_int (wr_size a)), (U ''sha256'', opt_json digest)]))))))"

definition write_file :: "disk \<Rightarrow> nat \<Rightarrow> write_args \<Rightarrow> obj guarded" where
  "write_file w dfd a =
     pbind (guard_target w dfd a) (\<lambda>_.
     pbind (open_partial w dfd (with_partial (wr_name a))) (\<lambda>fd.
     pbind (lock_partial w fd) (\<lambda>_.
     pbind (start_at_offset w fd a) (\<lambda>_.
     pbind (check_space w fd a) (\<lambda>_.
     pbind (hash_start w fd a) (\<lambda>hashed.
     pbind (io w (SeekTo fd (wr_offset a))) (\<lambda>_.
     pbind (receive w fd (wr_size a) (wr_offset a) hashed) (\<lambda>got.
     finish_upload w dfd fd a got))))))))"

definition upload_failed :: "disk \<Rightarrow> write_args \<Rightarrow> errno \<Rightarrow> obj fsop" where
  "upload_failed w a n =
     (if n = ENoSpace \<or> n = EDQUOT then
        pfail (HOp NO_SPACE (U ''the disk filled up during the upload; the partial file was kept for a resume''))
      else pfail (HOp IO_ERROR (U ''writing '' @ rel_repr (wr_rel a) @ U '' failed: '' @ d_errno w n)))"

definition lock_name :: "root_handle \<Rightarrow> write_args \<Rightarrow> ustr" where
  "lock_name h a = rh_real h @ 0 # wr_rel a"

definition fs_write :: "disk \<Rightarrow> policy \<Rightarrow> obj \<Rightarrow> obj fsop" where
  "fs_write w p c =
     pbind (root_at w p (arg c (U ''root'')) True) (\<lambda>h.
     pbind (hlift (write_args_of c)) (\<lambda>a.
     pbind (hold_key w (lock_name h a)) (\<lambda>_.
     while_held (lock_name h a)
       (pbind (pbind (dir_at w h (wr_parent a) True) plift) (\<lambda>dfd.
        on_os (write_file w dfd a) (upload_failed w a))))))"

section \<open>fs.read\<close>

definition read_denied :: "ustr \<Rightarrow> handler_error" where
  "read_denied what = HOp POLICY_DENIED (U ''refusing to read '' @ what)"

definition open_to_read :: "disk \<Rightarrow> root_handle \<Rightarrow> ustr \<Rightarrow> ustr list \<Rightarrow> nat fsop" where
  "open_to_read w h r parts =
     pbind (pbind (dir_at w h (butlast parts) False) plift) (\<lambda>dfd.
     pbind (told (\<lambda>t. let loc = fd_path (d_fs w t) dfd in
         (loc, case loc of Some l \<Rightarrow> secret_inside (d_fs w t) l (rh_real h) | None \<Rightarrow> False)) (\<lambda>x. FdPath dfd (fst x))) (\<lambda>x.
     if snd x then pfail (read_denied (U ''from a directory that looks like a key or credential store''))
     else pbind (lstat_at w dfd (last parts)) (\<lambda>st.
       if some_is (\<lambda>s. \<not> st_reg s \<and> \<not> st_lnk s) st then pfail (HOp BAD_ARGS (rel_repr r @ U '' is not a regular file''))
       else pbind (open_at w ORead dfd (last parts)) (\<lambda>o'. case o' of
           Inr fd \<Rightarrow> pret fd
         | Inl EMissing \<Rightarrow> pfail (HOp NOT_FOUND (rel_repr r @ U '' does not exist in model root '' @ py_repr (rt_id (rh_root h))))
         | Inl ELoop \<Rightarrow> pfail (HOp BAD_ARGS (rel_repr r
             @ U '' is a symbolic link; read the file it points to (in an HF cache: the blob)''))
         | Inl e \<Rightarrow> pfail (HOp IO_ERROR (U ''cannot open '' @ rel_repr r @ U '': '' @ d_errno w e))))))"

function send_file :: "disk \<Rightarrow> nat \<Rightarrow> int \<Rightarrow> int \<Rightarrow> int \<Rightarrow> int guarded" where
  "send_file w fd remaining sent pos =
     (if sent < remaining then
        pbind (check w) (\<lambda>_.
        pbind (read_at w fd pos (nat (min (remaining - sent) CHUNK))) (\<lambda>bs.
        if bs = [] then pret sent
        else pbind (pbind (told (\<lambda>t. d_send w t bs) (SendData bs)) (\<lambda>r. case r of Some e \<Rightarrow> pfail (EH e) | None \<Rightarrow> pret ())) (\<lambda>_.
          send_file w fd remaining (sent + int (length bs)) (pos + int (length bs)))))
      else pret sent)"
  by pat_completeness auto
termination by (relation "measure (\<lambda>(w, fd, remaining, sent, pos). nat (remaining - sent))") (auto simp: neq_Nil_conv)

declare send_file.simps [simp del]

definition length_arg :: "obj \<Rightarrow> handler_error + int option" where
  "length_arg c = (case arg c (U ''length'') of
       JNull \<Rightarrow> Inr None
     | v \<Rightarrow> (case py_int v of Some i \<Rightarrow> Inr (Some i) | None \<Rightarrow> Inl type_error))"

definition read_file :: "disk \<Rightarrow> nat \<Rightarrow> ustr \<Rightarrow> obj \<Rightarrow> obj guarded" where
  "read_file w fd r c =
     pbind (fstat_of w fd) (\<lambda>st.
     if \<not> st_reg st then refuse BAD_ARGS (rel_repr r @ U '' is not a regular file'')
     else (let fsize = in_size st in
       pbind (inner (hlift (int_or_zero c (U ''offset'')))) (\<lambda>offset.
       if \<not> (0 \<le> offset \<and> offset \<le> fsize) then refuse BAD_ARGS (offset_text offset fsize)
       else pbind (inner (hlift (length_arg c))) (\<lambda>len.
         if (case len of Some l \<Rightarrow> l < 0 | None \<Rightarrow> False) then refuse BAD_ARGS (U ''length must not be negative'')
         else (let remaining = (case len of None \<Rightarrow> fsize - offset | Some l \<Rightarrow> min l (fsize - offset)) in
           pbind (send_file w fd remaining 0 offset) (\<lambda>sent.
           pret [(U ''size'', json_int sent)]))))))"

definition fs_read :: "disk \<Rightarrow> policy \<Rightarrow> obj \<Rightarrow> obj fsop" where
  "fs_read w p c =
     pbind (root_at w p (arg c (U ''root'')) False) (\<lambda>h.
     (let rel_v = json_str (arg c (U ''rel'')); r = unwrap_or [] rel_v in
      pbind (plift (split_rel rel_v (U ''path''))) (\<lambda>parts.
      if \<exists>s \<in> set parts. is_secret_name s then pfail (read_denied (U ''a file that looks like a key, token or credential''))
      else pbind (open_to_read w h r parts) (\<lambda>fd.
        on_os (read_file w fd r c) (\<lambda>n.
          pfail (HOp IO_ERROR (U ''reading '' @ rel_repr r @ U '' failed: '' @ d_errno w n)))))))"

section \<open>fs.symlink and fs.put_small\<close>

definition disk_full :: "errno \<Rightarrow> bool" where "disk_full n \<longleftrightarrow> n = ENoSpace \<or> n = EDQUOT"

definition temp_name :: "ustr \<Rightarrow> u8 list \<Rightarrow> ustr" where
  "temp_name name bs = U ''.'' @ take 200 name @ U ''.ecnode-'' @ hex_text bs"

definition replace_failed :: "disk \<Rightarrow> nat \<Rightarrow> ustr \<Rightarrow> ustr \<Rightarrow> errno \<Rightarrow> unit fsop" where
  "replace_failed w dfd name tmp n =
     pbind (quietly w (UnlinkAt dfd tmp)) (\<lambda>_.
     pfail (if disk_full n then HOp NO_SPACE (U ''the disk is full'')
            else HOp IO_ERROR (U ''cannot write '' @ repr_take name 200 @ U '': '' @ d_errno w n)))"

definition replace_into :: "disk \<Rightarrow> nat \<Rightarrow> ustr \<Rightarrow> (ustr \<Rightarrow> unit guarded) \<Rightarrow> unit fsop" where
  "replace_into w dfd name mk =
     pbind (lstat_at w dfd name) (\<lambda>st.
     if some_is st_dir st then pfail (HOp CONFLICT (repr_take name 200 @ U '' is a directory''))
     else if some_is st_special st then pfail (special_refused (repr_take name 200))
     else pbind (ask (\<lambda>t. d_random w t 6) (RandomBytes 6)) (\<lambda>bs.
       (let tmp = temp_name name bs in
        pbind (on_os (pbind (mk tmp) (\<lambda>_. io w (RenameAt dfd tmp name))) (replace_failed w dfd name tmp)) (\<lambda>_.
        quietly w (SyncFd dfd)))))"

definition target_arg :: "json \<Rightarrow> handler_error + ustr" where
  "target_arg v =
     (let bad = Inl (HOp BAD_ARGS (U ''the link target must be a relative path like ../../blobs/<hash>'')) in
      case v of
        JStr s \<Rightarrow> if s \<noteq> [] \<and> \<not> starts_with s [slash] \<and> \<not> (\<exists>c \<in> set s. bad_char c)
                   \<and> \<not> (\<exists>seg \<in> set (split_on slash s). seg = [] \<or> seg = dot_seg) then Inr s else bad
      | _ \<Rightarrow> bad)"

text \<open>\<open>..\<close> only before the first normal segment.\<close>

definition ups_ok :: "ustr \<Rightarrow> bool" where
  "ups_ok s = (dotdot_seg \<notin> set (dropWhile (\<lambda>seg. seg = dotdot_seg) (split_on slash s)))"

definition fs_symlink :: "disk \<Rightarrow> policy \<Rightarrow> obj \<Rightarrow> obj fsop" where
  "fs_symlink w p c =
     pbind (root_at w p (arg c (U ''root'')) True) (\<lambda>h.
     pbind (plift (split_rel_for_write (json_str (arg c (U ''link''))) (U ''link''))) (\<lambda>parts.
     pbind (hlift (target_arg (arg c (U ''target'')))) (\<lambda>target.
     if \<not> ups_ok target then
       pfail (HOp POLICY_DENIED (U ''the link target may use '..' only at its start, like ../../blobs/<hash>''))
     else pbind (pbind (dir_at w h (butlast parts) True) plift) (\<lambda>dfd.
       pbind (fd_path_of w dfd) (\<lambda>loc.
       (let base = unwrap_or (handle_path h (butlast parts)) loc in
        pbind (real_path w (join_paths base [target])) (\<lambda>rl.
        if \<not> inside rl (rh_real h) then pfail (HOp POLICY_DENIED (U ''the link target leads outside the model root''))
        else pbind (replace_into w dfd (last parts) (\<lambda>tmp. io w (SymlinkAt target dfd tmp))) (\<lambda>_.
          pret []))))))))"

definition content_arg :: "json \<Rightarrow> handler_error + u8 list" where
  "content_arg v = (case v of
       JStr s \<Rightarrow> (case b64decode_strict s of
           Some bs \<Rightarrow> Inr bs | None \<Rightarrow> Inl (HOp BAD_ARGS (U ''content_b64 is not valid base64'')))
     | _ \<Rightarrow> Inl type_error)"

definition write_small :: "disk \<Rightarrow> nat \<Rightarrow> u8 list \<Rightarrow> ustr \<Rightarrow> unit guarded" where
  "write_small w dfd content tmp =
     pbind (pbind (open_at w ONew dfd tmp) os_result) (\<lambda>fd.
     pbind (io w (WriteTo fd content)) (\<lambda>_.
     io w (SyncFd fd)))"

definition fs_put_small :: "disk \<Rightarrow> policy \<Rightarrow> obj \<Rightarrow> obj fsop" where
  "fs_put_small w p c =
     pbind (root_at w p (arg c (U ''root'')) True) (\<lambda>h.
     pbind (plift (split_rel_for_write (json_str (arg c (U ''rel''))) (U ''path''))) (\<lambda>parts.
     pbind (hlift (content_arg (arg c (U ''content_b64'')))) (\<lambda>content.
     if PUT_SMALL_MAX < length content then
       pfail (HOp BAD_ARGS (U ''fs.put_small takes at most '' @ dec PUT_SMALL_MAX @ U '' bytes; use fs.write''))
     else pbind (pbind (dir_at w h (butlast parts) True) plift) (\<lambda>dfd.
       pbind (replace_into w dfd (last parts) (write_small w dfd content)) (\<lambda>_. pret [])))))"

section \<open>fs.delete\<close>

text \<open>
  Bytes a file gives back, each inode once. Sums of sizes are unbounded here; the code's \<open>i64\<close> holds them
  up to 8 EiB.
\<close>

type_synonym inodes = "(nat \<times> nat) set"

definition count :: "inode \<Rightarrow> inodes \<Rightarrow> int \<times> inodes" where
  "count st seen =
     (let key = (in_dev st, in_ino st) in
      if \<not> st_reg st then (0, seen)
      else if key \<in> seen then (0, seen)
      else (in_size st, insert key seen))"

definition names_in :: "disk \<Rightarrow> nat \<Rightarrow> ustr list guarded" where
  "names_in w fd =
     pbind (pbind (ask (\<lambda>t. d_names w t fd) (NamesIn fd)) os_result) (\<lambda>entries.
     pbind (pmap os_result entries) (\<lambda>names.
     pret (filter (\<lambda>n. n \<noteq> dot_seg \<and> n \<noteq> dotdot_seg) names)))"

text \<open>
  One directory: each name is unlinked, or opened, emptied by \<open>sub\<close> and removed. The result is the bytes freed
  and the inodes counted.
\<close>

fun remove_names :: "disk \<Rightarrow> (nat \<Rightarrow> inodes \<Rightarrow> (int \<times> inodes) guarded) \<Rightarrow> nat \<Rightarrow> inodes \<Rightarrow> ustr list \<Rightarrow> (int \<times> inodes) guarded" where
  "remove_names w sub dfd seen [] = pret (0, seen)"
| "remove_names w sub dfd seen (name # names) =
     pbind (inner (lstat_at w dfd name)) (\<lambda>st. case st of
       None \<Rightarrow> remove_names w sub dfd seen names
     | Some st \<Rightarrow>
         if st_dir st then
           pbind (pbind (open_at w OSub dfd name) os_result) (\<lambda>fd.
           pbind (sub fd seen) (\<lambda>(freed, seen).
           pbind (io w (RmdirAt dfd name)) (\<lambda>_.
           pbind (remove_names w sub dfd seen names) (\<lambda>(more, seen). pret (freed + more, seen)))))
         else (let (freed, seen) = count st seen in
           pbind (io w (UnlinkAt dfd name)) (\<lambda>_.
           pbind (remove_names w sub dfd seen names) (\<lambda>(more, seen). pret (freed + more, seen)))))"

text \<open>\<open>empty_dir_at\<close>; \<open>left\<close> is \<open>MAX_DELETE_DEPTH + 1\<close> less the depth.\<close>

primrec empty_dir_at :: "disk \<Rightarrow> nat \<Rightarrow> nat \<Rightarrow> inodes \<Rightarrow> (int \<times> inodes) guarded" where
  "empty_dir_at w 0 = (\<lambda>fd seen. refuse BAD_ARGS (U ''the tree is more than '' @ dec MAX_DELETE_DEPTH
     @ U '' directories deep; the delete stopped part-way (what was removed stays removed)''))"
| "empty_dir_at w (Suc left) = (\<lambda>fd seen. pbind (names_in w fd) (remove_names w (empty_dir_at w left) fd seen))"

text \<open>The target of a delete: a pinned directory and where it is, or a file or link named in its parent.\<close>

definition delete_target :: "disk \<Rightarrow> nat \<Rightarrow> ustr \<Rightarrow> ustr \<Rightarrow> ustr \<Rightarrow> inode \<Rightarrow> (nat option \<times> ustr) fsop" where
  "delete_target w dfd parent name r st =
     (if st_dir st then
        pbind (open_at w OSub dfd name) (\<lambda>o'. case o' of
          Inr fd \<Rightarrow> pbind (fd_path_of w fd) (\<lambda>loc. pret (Some fd, unwrap_or [] loc))
        | Inl e \<Rightarrow> pfail (HOp CONFLICT (rel_repr r @ U '' changed while being deleted: '' @ d_errno w e)))
      else pret (None, join_paths parent [name]))"

definition other_root_check :: "disk \<Rightarrow> root_handle \<Rightarrow> ustr \<Rightarrow> ustr \<Rightarrow> root \<Rightarrow> unit fsop" where
  "other_root_check w h rl r other =
     pbind (real_path w (rt_path other)) (\<lambda>oreal.
     if rt_id other \<noteq> rt_id (rh_root h) \<and> inside oreal rl then
       pfail (HOp POLICY_DENIED (U ''refusing to delete '' @ rel_repr r @ U '': it holds model root '' @ py_repr (rt_id other)))
     else pret ())"

fun mounted_below :: "disk \<Rightarrow> ustr \<Rightarrow> ustr list \<Rightarrow> bool fsop" where
  "mounted_below w rl [] = pret False"
| "mounted_below w rl (m # ms) =
     pbind (real_path w m) (\<lambda>mreal.
     if inside mreal rl \<or> inside m rl then pret True else mounted_below w rl ms)"

definition remove_target :: "disk \<Rightarrow> nat \<Rightarrow> ustr \<Rightarrow> ustr \<Rightarrow> inode \<Rightarrow> nat option \<times> ustr \<Rightarrow> int guarded" where
  "remove_target w dfd name r st target =
     (case target of
        (Some fd, rl) \<Rightarrow>
          pbind (inner (fd_path_of w fd)) (\<lambda>loc.
          if unwrap_or [] loc \<noteq> rl then refuse CONFLICT (rel_repr r @ U '' moved while being deleted; nothing was removed'')
          else pbind (empty_dir_at w (Suc MAX_DELETE_DEPTH) fd {}) (\<lambda>(freed, _).
            pbind (io w (RmdirAt dfd name)) (\<lambda>_. pret freed)))
      | (None, _) \<Rightarrow> pbind (io w (UnlinkAt dfd name)) (\<lambda>_. pret (fst (count st {}))))"

definition confirm_parent :: "disk \<Rightarrow> root_handle \<Rightarrow> nat \<Rightarrow> ustr fsop" where
  "confirm_parent w h dfd =
     pbind (fd_path_of w dfd) (\<lambda>loc.
     if fd_inside loc (rh_real h) then pret (unwrap_or [] loc)
     else pfail (HOp POLICY_DENIED (U ''refusing to delete: cannot confirm where that path really is'')))"

definition confirm_unused :: "disk \<Rightarrow> ustr \<Rightarrow> ustr \<Rightarrow> unit fsop" where
  "confirm_unused w rl r =
     pbind (pbind (told (d_mounts w) RunningMounts) hlift) (\<lambda>mounts.
     pbind (mounted_below w rl mounts) (\<lambda>users.
     if users then pfail (HOp IN_USE (U ''a running container mounts '' @ rel_repr r @ U ''; stop it before deleting''))
     else pret ()))"

definition delete_checked :: "disk \<Rightarrow> policy \<Rightarrow> root_handle \<Rightarrow> nat \<Rightarrow> ustr \<Rightarrow> ustr \<Rightarrow> inode \<Rightarrow> nat option \<times> ustr \<Rightarrow> obj fsop" where
  "delete_checked w p h dfd name r st target =
     (let rl = snd target in
      if rl = [] \<or> \<not> inside rl (rh_real h) \<or> rl = rh_real h then
        pfail (HOp POLICY_DENIED (U ''refusing to delete the model root itself or anything outside it''))
      else
        pbind (peach (other_root_check w h rl r) (model_roots p)) (\<lambda>_.
        pbind (confirm_unused w rl r) (\<lambda>_.
        pbind (on_os (remove_target w dfd name r st target)
          (\<lambda>n. pfail (HOp IO_ERROR (U ''deleting '' @ rel_repr r @ U '' failed part-way: '' @ d_errno w n)))) (\<lambda>freed.
        pret [(U ''freed'', json_int freed)]))))"

definition delete_named :: "disk \<Rightarrow> policy \<Rightarrow> root_handle \<Rightarrow> nat \<Rightarrow> ustr \<Rightarrow> ustr \<Rightarrow> obj fsop" where
  "delete_named w p h dfd name r =
     pbind (lstat_at w dfd name) (\<lambda>st. case st of
       None \<Rightarrow> pfail (HOp NOT_FOUND (rel_repr r @ U '' does not exist in model root '' @ py_repr (rt_id (rh_root h))))
     | Some st \<Rightarrow>
         pbind (confirm_parent w h dfd) (\<lambda>parent.
         pbind (delete_target w dfd parent name r st) (delete_checked w p h dfd name r st)))"

definition fs_delete :: "disk \<Rightarrow> policy \<Rightarrow> obj \<Rightarrow> obj fsop" where
  "fs_delete w p c =
     (if \<not> allow_delete p then
        pfail (HOp POLICY_DENIED (U ''this node's policy does not allow deleting models (allow_delete in '' @ policy_where p @ U '')''))
      else
        pbind (root_at w p (arg c (U ''root'')) True) (\<lambda>h.
        (let rel_v = json_str (arg c (U ''rel'')) in
         pbind (plift (split_rel rel_v (U ''path''))) (\<lambda>parts.
         pbind (pbind (dir_at w h (butlast parts) False) plift) (\<lambda>dfd.
         delete_named w p h dfd (last parts) (unwrap_or [] rel_v))))))"

section \<open>Paths that running containers mount\<close>

text \<open>\<open>Agent::running_mounts\<close> (crates/ecnode/src/agent.rs), an operation over docker.\<close>

definition split_ws :: "ustr \<Rightarrow> ustr list" where
  "split_ws s = filter (\<lambda>p. p \<noteq> []) (split_on 32 (map (\<lambda>c. if isspace c then 32 else c) s))"

definition json_array :: "json option \<Rightarrow> json list" where
  "json_array v = (case v of Some (JArr a) \<Rightarrow> a | _ \<Rightarrow> [])"

definition mount_sources :: "json \<Rightarrow> ustr list" where
  "mount_sources doc = concat (map (\<lambda>m. case vget m (U ''Source'') of
       Some (JStr src) \<Rightarrow> if starts_with src [slash] then [src] else [] | _ \<Rightarrow> []) (json_array (vget doc (U ''Mounts''))))"

definition running_mounts :: "world \<Rightarrow> docker \<Rightarrow> ustr list prog" where
  "running_mounts w d =
     pbind (docker_call w d [U ''ps'', U ''-q'', U ''--no-trunc'']) (\<lambda>res.
     if cr_rc res = 127 then pret []
     else if \<not> cr_ok res then
       pfail (HOp DOCKER_ERROR (U ''cannot ask docker which containers are running, so cannot tell whether the model is in use; try ''
         @ U ''again''))
     else pbind (inspect w d (take 512 (split_ws (cr_out res)))) (\<lambda>docs. pret (concat (map mount_sources docs))))"

end
