(* ===== verification/FsSafe.thy ===== *)
theory FsSafe
  imports FsOps
begin

text \<open>
  What the file operations may do to the machine, whatever it answers. Each \<open>_call\<close> predicate says of every
  call on a trace what must have gone before it; the judgements of Prog carry it through the operation.
\<close>

section \<open>Calls that change nothing\<close>

fun benign :: "fs_event \<Rightarrow> bool" where
  "benign (LstatAt _ _ _) = True"
| "benign (StatPath _) = True"
| "benign (FstatFd _ _) = True"
| "benign (FdPath _ _) = True"
| "benign (RealPath _ _) = True"
| "benign (ResolveLink _ _ _) = True"
| "benign (FreeSpace _) = True"
| "benign (NamesIn _) = True"
| "benign (CheckCancel _) = True"
| "benign (Upload _) = True"
| "benign (RandomBytes _) = True"
| "benign (RunningMounts _) = True"
| "benign (HoldKey _ _) = True"
| "benign (ReleaseKey _) = True"
| "benign _ = False"

text \<open>A fact that such calls leave alone, and a predicate on calls that allows them.\<close>

definition steady :: "(fs_trace \<Rightarrow> bool) \<Rightarrow> bool" where
  "steady A \<longleftrightarrow> (\<forall>t e. A t \<and> benign e \<longrightarrow> A (t @ [e]))"

definition allows :: "(fs_trace \<Rightarrow> fs_event \<Rightarrow> bool) \<Rightarrow> bool" where
  "allows P \<longleftrightarrow> (\<forall>t e. benign e \<longrightarrow> P t e)"

lemma steady_mem [simp]: "steady (\<lambda>t. e \<in> set t)"
  by (simp add: steady_def)

lemma steady_conj [simp]: "steady A \<Longrightarrow> steady B \<Longrightarrow> steady (\<lambda>t. A t \<and> B t)"
  by (simp add: steady_def)

lemma steady_ex [simp]: "(\<And>x. steady (A x)) \<Longrightarrow> steady (\<lambda>t. \<exists>x. A x t)"
  by (auto simp: steady_def)

lemma steady_const [simp]: "steady (\<lambda>t. b)"
  by (simp add: steady_def)

lemma keeps_told: "steady A \<Longrightarrow> allows P \<Longrightarrow> (\<And>x. benign (c x)) \<Longrightarrow> keeps P A (told reply c)"
  unfolding keeps_def by (rule outcome_told) (auto simp: steady_def allows_def)

lemma keeps_ask: "steady A \<Longrightarrow> allows P \<Longrightarrow> benign c \<Longrightarrow> keeps P A (ask reply c)"
  unfolding keeps_def by (rule outcome_ask) (auto simp: steady_def allows_def)

lemma keeps_inner: "keeps P A m \<Longrightarrow> keeps P A (inner m)"
  unfolding inner_def by (rule keeps_catch) (auto split: sum.splits)

lemma keeps_hlift: "keeps P A (hlift r)"
  by (auto simp: hlift_def split: sum.splits)

lemma keeps_plift: "keeps P A (plift r)"
  by (auto simp: plift_def split: sum.splits)

lemma keeps_os_result: "keeps P A (os_result r)"
  by (auto simp: os_result_def split: sum.splits)

lemma keeps_refuse: "keeps P A (refuse c m)"
  by (auto simp: refuse_def)

lemma keeps_if: "keeps P A m \<Longrightarrow> keeps P A m' \<Longrightarrow> keeps P A (if b then m else m')"
  by simp

lemmas keeps_pure = keeps_hlift keeps_plift keeps_os_result keeps_refuse keeps_if keeps_inner

lemma keeps_lstat: "steady A \<Longrightarrow> allows P \<Longrightarrow> keeps P A (lstat_at w d n)"
  unfolding lstat_at_def by (auto intro!: keeps_told split: sum.splits errno.splits)

lemma keeps_fstat: "steady A \<Longrightarrow> allows P \<Longrightarrow> keeps P A (fstat_of w fd)"
  unfolding fstat_of_def by (auto intro!: keeps_told keeps_pure)

lemma keeps_check: "steady A \<Longrightarrow> allows P \<Longrightarrow> keeps P A (check w)"
  unfolding check_def by (auto intro!: keeps_told keeps_if)

lemma keeps_fd_path: "steady A \<Longrightarrow> allows P \<Longrightarrow> keeps P A (fd_path_of w fd)"
  unfolding fd_path_of_def by (auto intro!: keeps_told)

lemma keeps_real_path: "steady A \<Longrightarrow> allows P \<Longrightarrow> keeps P A (real_path w p)"
  unfolding real_path_def by (auto intro!: keeps_told)

lemmas keeps_rules = keeps_pure keeps_lstat keeps_fstat keeps_check keeps_fd_path keeps_real_path

section \<open>Sections and errors\<close>

lemma given: "pbind (plift (Inr x)) k = k x" "pbind (hlift (Inr x)) k = k x"
  by (simp_all add: plift_def hlift_def pbind_def pcatch_def pret_def)

lemma outcome_inner: "runs_to P A m E B \<Longrightarrow> runs_to P A (inner m) E B"
  unfolding inner_def by (rule outcome_catch) (auto intro: outcome_fail outcome_ret)

lemma outcome_on_os:
  assumes "runs_to P A m E B" "\<And>n. runs_to P E (f n) E' B" "\<And>t. E t \<Longrightarrow> E' t"
  shows "runs_to P A (on_os m f) E' B"
  unfolding on_os_def using assms(1)
proof (rule outcome_catch)
  fix e show "runs_to P E (case Inl e of Inr a \<Rightarrow> pret a | Inl (EH e) \<Rightarrow> pfail e | Inl (EOs n) \<Rightarrow> f n) E' B"
    using assms(2,3) by (cases e) (auto intro: outcome_fail)
qed (auto intro: outcome_ret)

lemma outcome_hlift: "(\<And>t. A t \<Longrightarrow> E t) \<Longrightarrow> (\<And>a t. r = Inr a \<Longrightarrow> A t \<Longrightarrow> B a t) \<Longrightarrow> runs_to P A (hlift r) E B"
  by (cases r) (auto simp: hlift_def intro: outcome_fail outcome_ret)

lemma outcome_lifted:
  assumes "\<And>t. A t \<Longrightarrow> P t (c (reply t))" "\<And>t e. A t \<Longrightarrow> E (t @ [c (Inl e)])"
    "\<And>t x. A t \<Longrightarrow> reply t = Inr x \<Longrightarrow> B x (t @ [c (Inr x)])"
  shows "runs_to P A (pbind (told reply c) plift) E B"
proof (rule outcome_bind)
  show "runs_to P A (told reply c) E (\<lambda>r t. case r of Inl _ \<Rightarrow> E t | Inr x \<Rightarrow> B x t)"
    by (rule outcome_told) (use assms in \<open>auto split: sum.splits\<close>)
  show "runs_to P (\<lambda>t. case r of Inl _ \<Rightarrow> E t | Inr x \<Rightarrow> B x t) (plift r) E B" for r
    by (cases r) (auto simp: plift_def intro: outcome_fail outcome_ret)
qed

lemma outcome_held:
  assumes "runs_to P A m E B" "steady E" "\<And>a. steady (B a)" "allows P"
  shows "runs_to P A (while_held key m) E B"
  unfolding while_held_def using assms(1)
proof (rule outcome_catch)
  show "runs_to P E (pbind (ask (\<lambda>_. ()) (ReleaseKey key)) (\<lambda>_. hlift (Inl e))) E B" for e :: handler_error
    by (rule keeps_step) (auto intro!: keeps_ask assms outcome_hlift)
  show "runs_to P (B a) (pbind (ask (\<lambda>_. ()) (ReleaseKey key)) (\<lambda>_. hlift (Inr a))) E B" for a
    unfolding hlift_def sum.case
    by (rule outcome_bind[where B = "\<lambda>_. B a"])
      (auto intro!: outcome_ret outcome_ask simp: assms(3)[unfolded steady_def] assms(4)[unfolded allows_def])
qed

section \<open>Uploads\<close>

text \<open>What was written to a descriptor and what was read from it.\<close>

fun written_by :: "nat \<Rightarrow> fs_event \<Rightarrow> u8 list" where
  "written_by f (Io (WriteTo g bs) None) = (if g = f then bs else [])"
| "written_by f _ = []"

fun read_by :: "nat \<Rightarrow> fs_event \<Rightarrow> u8 list" where
  "read_by f (ReadAt g _ _ (Inr bs)) = (if g = f then bs else [])"
| "read_by f _ = []"

definition written_to :: "fs_trace \<Rightarrow> nat \<Rightarrow> u8 list" where
  "written_to t f = concat (map (written_by f) t)"

definition read_from :: "fs_trace \<Rightarrow> nat \<Rightarrow> u8 list" where
  "read_from t f = concat (map (read_by f) t)"

definition renamed :: "fs_trace \<Rightarrow> nat \<Rightarrow> ustr \<Rightarrow> ustr \<Rightarrow> bool" where
  "renamed t d x y \<longleftrightarrow> Io (RenameAt d x y) None \<in> set t"

definition unrenamed :: "fs_trace \<Rightarrow> bool" where
  "unrenamed t \<longleftrightarrow> (\<forall>d x y. \<not> renamed t d x y)"

lemma written_snoc [simp]: "written_to (t @ [e]) f = written_to t f @ written_by f e"
  by (simp add: written_to_def)

lemma read_snoc [simp]: "read_from (t @ [e]) f = read_from t f @ read_by f e"
  by (simp add: read_from_def)

lemma benign_by: "benign e \<Longrightarrow> written_by f e = [] \<and> read_by f e = []"
  by (cases e rule: benign.cases) auto

lemma unrenamed_snoc: "unrenamed (t @ [e]) \<longleftrightarrow> unrenamed t \<and> (\<forall>d x y. e \<noteq> Io (RenameAt d x y) None)"
  by (auto simp: unrenamed_def renamed_def)

lemma unrenamed_benign: "benign e \<Longrightarrow> unrenamed t \<Longrightarrow> unrenamed (t @ [e])"
  by (auto simp: unrenamed_snoc)

lemma steady_written [simp]: "steady (\<lambda>t. Q (written_to t f))" "steady (\<lambda>t. Q (read_from t f))" "steady unrenamed"
  by (auto simp: steady_def benign_by unrenamed_benign)

lemma steady_both: "steady (\<lambda>t. Q (read_from t f) (written_to t f))"
  by (auto simp: steady_def benign_by)

text \<open>A directory opened for writing below the root, and the partial file opened in it.\<close>

definition write_dir :: "obj \<Rightarrow> ustr list \<Rightarrow> fs_trace \<Rightarrow> nat \<Rightarrow> bool" where
  "write_dir c parts t d \<longleftrightarrow>
     (\<exists>h. OpenRoot (arg c (U ''root'')) True (Inr h) \<in> set t \<and> OpenDir h parts True (Inr d) \<in> set t)"

definition upload_fd :: "obj \<Rightarrow> write_args \<Rightarrow> fs_trace \<Rightarrow> nat \<Rightarrow> nat \<Rightarrow> bool" where
  "upload_fd c a t d f \<longleftrightarrow>
     write_dir c (wr_parent a) t d \<and> OpenAt OPartial d (with_partial (wr_name a)) (Inr f) \<in> set t"

text \<open>The whole file is there: as many bytes as announced, synced, with the wanted hash.\<close>

definition upload_whole :: "disk \<Rightarrow> write_args \<Rightarrow> fs_trace \<Rightarrow> nat \<Rightarrow> bool" where
  "upload_whole w a t f \<longleftrightarrow>
     wr_offset a + int (length (written_to t f)) = wr_size a \<and> Io (SyncFd f) None \<in> set t
     \<and> (\<forall>x. wr_want a = Some x \<longrightarrow>
          int (length (read_from t f)) = wr_offset a \<and> hex_text (d_sha256 w (read_from t f @ written_to t f)) = x)"

definition upload_io :: "disk \<Rightarrow> obj \<Rightarrow> write_args \<Rightarrow> fs_trace \<Rightarrow> fs_call \<Rightarrow> bool" where
  "upload_io w c a t call =
     (case call of
        Truncate f \<Rightarrow> wr_offset a = 0 \<and> (\<exists>d. upload_fd c a t d f)
      | WriteTo f bs \<Rightarrow> (\<exists>d. upload_fd c a t d f) \<and> Io (SeekTo f (wr_offset a)) None \<in> set t
          \<and> wr_offset a + int (length (written_to t f)) + int (length bs) \<le> wr_size a
      | RenameAt d x y \<Rightarrow> x = with_partial (wr_name a) \<and> y = wr_name a \<and> (\<exists>f. upload_fd c a t d f \<and> upload_whole w a t f)
      | UnlinkAt d x \<Rightarrow> x = with_partial (wr_name a) \<and> write_dir c (wr_parent a) t d
      | RmdirAt _ _ \<Rightarrow> False
      | SymlinkAt _ _ _ \<Rightarrow> False
      | _ \<Rightarrow> True)"

text \<open>What opening a root and a directory gave is what confinement answers at that moment.\<close>

definition confined :: "disk \<Rightarrow> policy \<Rightarrow> fs_trace \<Rightarrow> fs_event \<Rightarrow> bool" where
  "confined w p t e =
     (case e of
        OpenRoot v wr r \<Rightarrow> r = open_root (d_fs w t) p v wr
      | OpenDir h parts create r \<Rightarrow> r = open_dir (d_fs w t) h parts create
      | _ \<Rightarrow> True)"

definition upload_call :: "disk \<Rightarrow> policy \<Rightarrow> obj \<Rightarrow> write_args \<Rightarrow> fs_trace \<Rightarrow> fs_event \<Rightarrow> bool" where
  "upload_call w p c a t e \<longleftrightarrow> confined w p t e \<and>
     (case e of
        OpenAt k d n r \<Rightarrow> k = OPartial \<and> n = with_partial (wr_name a) \<and> write_dir c (wr_parent a) t d
      | ReadAt f pos n r \<Rightarrow> pos = int (length (read_from t f))
      | Io call r \<Rightarrow> upload_io w c a t call
      | _ \<Rightarrow> True)"

lemma allows_upload [simp]: "allows (upload_call w p c a)"
  unfolding allows_def
proof (intro allI impI)
  fix t e assume "benign e"
  then show "upload_call w p c a t e"
    by (cases e rule: benign.cases) (auto simp: upload_call_def confined_def upload_io_def)
qed

lemma steady_write_dir [simp]: "steady (\<lambda>t. write_dir c parts t d)"
  by (simp add: write_dir_def)

lemma steady_upload_fd [simp]: "steady (\<lambda>t. upload_fd c a t d f)"
  by (simp add: upload_fd_def)

text \<open>Before the partial file is open nothing was written, read or renamed.\<close>

definition untouched :: "fs_trace \<Rightarrow> bool" where
  "untouched t \<longleftrightarrow> (\<forall>f. written_to t f = [] \<and> read_from t f = []) \<and> unrenamed t"

lemma untouched_Nil [simp]: "untouched []"
  by (simp add: untouched_def written_to_def read_from_def unrenamed_def renamed_def)

lemma untouched_snoc: "untouched (t @ [e]) \<longleftrightarrow> untouched t \<and> (\<forall>f. written_by f e = [] \<and> read_by f e = []) \<and> (\<forall>d x y. e \<noteq> Io (RenameAt d x y) None)"
  by (auto simp: untouched_def unrenamed_snoc)

lemma untouched_unrenamed: "untouched t \<Longrightarrow> unrenamed t"
  by (simp add: untouched_def)

lemma steady_untouched [simp]: "steady untouched"
  by (auto simp: steady_def untouched_snoc benign_by)

lemma write_dir_snoc: "write_dir c parts t d \<Longrightarrow> write_dir c parts (t @ [e]) d"
  by (auto simp: write_dir_def)

lemma upload_fd_snoc: "upload_fd c a t d f \<Longrightarrow> upload_fd c a (t @ [e]) d f"
  by (auto simp: upload_fd_def write_dir_snoc)

text \<open>Opening the root and a directory.\<close>

lemma outcome_root:
  assumes "\<And>t r. A t \<Longrightarrow> A (t @ [OpenRoot v wr r])" "\<And>t. A t \<Longrightarrow> P t (OpenRoot v wr (open_root (d_fs w t) p v wr))"
    "\<And>t. A t \<Longrightarrow> E t"
  shows "runs_to P A (root_at w p v wr) E (\<lambda>h t. A t \<and> OpenRoot v wr (Inr h) \<in> set t)"
  unfolding root_at_def by (rule outcome_lifted) (use assms in auto)

lemma outcome_dir:
  assumes "\<And>t r. A t \<Longrightarrow> A (t @ [OpenDir h parts create r])" "\<And>t. A t \<Longrightarrow> P t (OpenDir h parts create (open_dir (d_fs w t) h parts create))"
    "\<And>t. A t \<Longrightarrow> E t"
  shows "runs_to P A (pbind (dir_at w h parts create) plift) E (\<lambda>d t. A t \<and> OpenDir h parts create (Inr d) \<in> set t)"
  unfolding dir_at_def by (rule outcome_lifted) (use assms in auto)

lemma outcome_read:
  assumes "\<And>t r. A t \<Longrightarrow> P t (ReadAt f pos n r)" "\<And>t e. A t \<Longrightarrow> E (t @ [ReadAt f pos n (Inl e)])"
    "\<And>t bs. A t \<Longrightarrow> length bs \<le> n \<Longrightarrow> B bs (t @ [ReadAt f pos n (Inr bs)])"
  shows "runs_to P A (read_at w f pos n) E B"
  unfolding read_at_def
proof (rule outcome_bind)
  show "runs_to P A (told (\<lambda>t. case d_read w t f pos n of Inl e \<Rightarrow> Inl e | Inr bs \<Rightarrow> Inr (take n bs)) (ReadAt f pos n)) E
      (\<lambda>r t. case r of Inl _ \<Rightarrow> E t | Inr bs \<Rightarrow> B bs t)"
    by (rule outcome_told) (use assms in \<open>auto split: sum.splits\<close>)
  show "runs_to P (\<lambda>t. case r of Inl _ \<Rightarrow> E t | Inr bs \<Rightarrow> B bs t) (os_result r) E B" for r
    by (cases r) (auto simp: os_result_def intro: outcome_fail outcome_ret)
qed

lemma outcome_io:
  assumes "\<And>t r. A t \<Longrightarrow> P t (Io call r)" "\<And>t e. A t \<Longrightarrow> E (t @ [Io call (Some e)])" "\<And>t. A t \<Longrightarrow> B () (t @ [Io call None])"
  shows "runs_to P A (io w call) E B"
  unfolding io_def try_io_def
proof (rule outcome_bind)
  show "runs_to P A (told (\<lambda>t. d_io w t call) (Io call)) E (\<lambda>r t. case r of Some _ \<Rightarrow> E t | None \<Rightarrow> B () t)"
    by (rule outcome_told) (use assms in \<open>auto split: option.splits\<close>)
  show "runs_to P (\<lambda>t. case r of Some _ \<Rightarrow> E t | None \<Rightarrow> B () t) (case r of None \<Rightarrow> pret () | Some e \<Rightarrow> pfail (EOs e)) E B" for r
    by (cases r) (auto intro: outcome_fail outcome_ret)
qed

lemma outcome_quietly:
  assumes "\<And>t r. A t \<Longrightarrow> P t (Io call r)" "\<And>t r. A t \<Longrightarrow> B () (t @ [Io call r])"
  shows "runs_to P A (quietly w call) E B"
  unfolding quietly_def try_io_def
  by (rule outcome_bind[where B = "\<lambda>_. B ()"], rule outcome_told) (use assms in \<open>auto intro: outcome_ret\<close>)

lemma outcome_open:
  assumes "\<And>t r. A t \<Longrightarrow> P t (OpenAt k d n r)" "\<And>t r. A t \<Longrightarrow> B r (t @ [OpenAt k d n r])"
  shows "runs_to P A (open_at w k d n) E B"
  unfolding open_at_def by (rule outcome_told) (use assms in auto)

lemma outcome_upload:
  assumes "steady A" "allows P" "\<And>t. A t \<Longrightarrow> E t"
  shows "runs_to P A (pbind (told (d_upload w) Upload) (\<lambda>r. inner (hlift r))) E (\<lambda>_. A)"
  by (rule keeps_outcome[where A = A]) (auto intro!: keeps_told keeps_rules assms)

lemma outcome_refuse: "(\<And>t. A t \<Longrightarrow> E t) \<Longrightarrow> runs_to P A (refuse code msg) E B"
  unfolding refuse_def by (rule outcome_fail)

section \<open>An upload, part by part\<close>

definition hashing :: "obj \<Rightarrow> write_args \<Rightarrow> nat \<Rightarrow> nat \<Rightarrow> u8 list \<Rightarrow> fs_trace \<Rightarrow> bool" where
  "hashing c a d f got t \<longleftrightarrow> upload_fd c a t d f \<and> unrenamed t \<and> written_to t f = [] \<and> read_from t f = got"

lemma steady_hashing [simp]: "steady (hashing c a d f got)"
  by (auto simp: steady_def hashing_def upload_fd_snoc benign_by unrenamed_benign)

lemma hashing_unrenamed: "hashing c a d f got t \<Longrightarrow> unrenamed t"
  by (simp add: hashing_def)

lemma outcome_hash_existing:
  assumes "int (length got) = pos" "pos \<le> offset"
  shows "runs_to (upload_call w p c a) (hashing c a d f got) (hash_existing w f offset pos got) unrenamed
     (\<lambda>bs t. hashing c a d f bs t \<and> int (length bs) = offset)"
  using assms
proof (induction w f offset pos got rule: hash_existing.induct)
  case (1 w f offset pos got)
  let ?n = "nat (min (offset - pos) 4194304)"
  show ?case
  proof (cases "pos < offset")
    case True
    show ?thesis
      unfolding hash_existing.simps[of w f offset pos] if_P[OF True]
    proof (rule keeps_step)
      show "keeps (upload_call w p c a) (hashing c a d f got) (check w)" by (simp add: keeps_check)
      fix u
      show "runs_to (upload_call w p c a) (hashing c a d f got) (pbind (read_at w f pos ?n) (\<lambda>bs.
          if bs = [] then refuse IO_ERROR (U ''the partial file shrank while it was being read'')
          else hash_existing w f offset (pos + int (length bs)) (got @ bs))) unrenamed
        (\<lambda>bs t. hashing c a d f bs t \<and> int (length bs) = offset)"
      proof (rule outcome_bind)
        show "runs_to (upload_call w p c a) (hashing c a d f got) (read_at w f pos ?n) unrenamed
            (\<lambda>bs t. int (length bs) \<le> offset - pos \<and> hashing c a d f (got @ bs) t)"
          by (rule outcome_read)
            (use 1(2) True in \<open>auto simp: upload_call_def confined_def hashing_def upload_fd_snoc unrenamed_snoc\<close>)
        fix bs
        show "runs_to (upload_call w p c a) (\<lambda>t. int (length bs) \<le> offset - pos \<and> hashing c a d f (got @ bs) t)
          (if bs = [] then refuse IO_ERROR (U ''the partial file shrank while it was being read'')
           else hash_existing w f offset (pos + int (length bs)) (got @ bs)) unrenamed
          (\<lambda>bs t. hashing c a d f bs t \<and> int (length bs) = offset)"
          by (intro outcome_when outcome_cond outcome_refuse 1(1)[OF True]) (use 1(2) in \<open>auto simp: hashing_unrenamed\<close>)
      qed
    qed (rule hashing_unrenamed)
  next
    case False
    then show ?thesis using 1(2,3) unfolding hash_existing.simps[of w f offset pos] by (auto intro: outcome_ret)
  qed
qed

definition hasher_ok :: "write_args \<Rightarrow> fs_trace \<Rightarrow> nat \<Rightarrow> u8 list option \<Rightarrow> bool" where
  "hasher_ok a t f hashed \<longleftrightarrow>
     (hashed = None \<longrightarrow> wr_want a = None) \<and> (\<forall>b. hashed = Some b \<longrightarrow> b = read_from t f @ written_to t f)
     \<and> (wr_want a \<noteq> None \<longrightarrow> int (length (read_from t f)) = wr_offset a)"

definition receiving :: "obj \<Rightarrow> write_args \<Rightarrow> nat \<Rightarrow> nat \<Rightarrow> int \<Rightarrow> u8 list option \<Rightarrow> fs_trace \<Rightarrow> bool" where
  "receiving c a d f tot hashed t \<longleftrightarrow> upload_fd c a t d f \<and> unrenamed t \<and> hasher_ok a t f hashed
     \<and> tot = wr_offset a + int (length (written_to t f)) \<and> Io (SeekTo f (wr_offset a)) None \<in> set t"

lemma steady_receiving [simp]: "steady (receiving c a d f tot hashed)"
  by (auto simp: steady_def receiving_def hasher_ok_def upload_fd_snoc benign_by unrenamed_benign)

lemma receiving_unrenamed: "receiving c a d f tot hashed t \<Longrightarrow> unrenamed t"
  by (simp add: receiving_def)

lemma receiving_sync: "receiving c a d f tot hashed t \<Longrightarrow> receiving c a d f tot hashed (t @ [Io (SyncFd f) r])"
  by (auto simp: receiving_def hasher_ok_def upload_fd_snoc unrenamed_snoc)

lemma receiving_write:
  "receiving c a d f tot hashed t \<Longrightarrow>
     receiving c a d f (tot + int (length bs)) (map_option (\<lambda>b. b @ bs) hashed) (t @ [Io (WriteTo f bs) None])"
  by (auto simp: receiving_def hasher_ok_def upload_fd_snoc unrenamed_snoc)

lemma outcome_receive_same:
  assumes "sz = wr_size a"
  shows "runs_to (upload_call w p c a) (receiving c a d f tot hashed) (receive w f sz tot hashed) unrenamed
     (\<lambda>got t. case got of (tot', _, hashed') \<Rightarrow> (hashed' = None \<longleftrightarrow> hashed = None) \<and> receiving c a d f tot' hashed' t)"
  using assms
proof (induction w f sz tot hashed rule: receive.induct)
  case (1 w f sz tot hashed)
  show ?case
    unfolding receive.simps[of w f sz tot]
  proof (rule outcome_bind, rule outcome_upload[where A = "receiving c a d f tot hashed"])
    fix chunk
    show "runs_to (upload_call w p c a) (receiving c a d f tot hashed)
      (if chunk = [] then pret (tot, False, hashed)
       else if sz < tot + int (length chunk) then pret (tot, True, hashed)
       else pbind (io w (WriteTo f chunk)) (\<lambda>_. receive w f sz (tot + int (length chunk)) (map_option (\<lambda>bs. bs @ chunk) hashed)))
      unrenamed (\<lambda>got t. case got of (tot', _, hashed') \<Rightarrow> (hashed' = None \<longleftrightarrow> hashed = None) \<and> receiving c a d f tot' hashed' t)"
    proof (intro outcome_cond)
      assume c: "chunk \<noteq> []" "\<not> sz < tot + int (length chunk)"
      show "runs_to (upload_call w p c a) (receiving c a d f tot hashed)
        (pbind (io w (WriteTo f chunk)) (\<lambda>_. receive w f sz (tot + int (length chunk)) (map_option (\<lambda>bs. bs @ chunk) hashed)))
        unrenamed (\<lambda>got t. case got of (tot', _, hashed') \<Rightarrow> (hashed' = None \<longleftrightarrow> hashed = None) \<and> receiving c a d f tot' hashed' t)"
      proof (rule outcome_bind)
        show "runs_to (upload_call w p c a) (receiving c a d f tot hashed) (io w (WriteTo f chunk)) unrenamed
          (\<lambda>_. receiving c a d f (tot + int (length chunk)) (map_option (\<lambda>bs. bs @ chunk) hashed))"
          by (rule outcome_io, (use c 1(2) in \<open>auto simp: upload_call_def confined_def upload_io_def receiving_def unrenamed_snoc\<close>)[2])
            (rule receiving_write)
      qed (rule outcome_weaken[OF 1(1)[OF c 1(2)]], auto)
    qed (auto intro: outcome_ret)
  qed (auto simp: receiving_unrenamed)
qed

text \<open>The runs_to of a whole upload: the file is replaced exactly if the answer is a success.\<close>

definition uploaded :: "disk \<Rightarrow> obj \<Rightarrow> write_args \<Rightarrow> obj \<Rightarrow> fs_trace \<Rightarrow> bool" where
  "uploaded w c a out t \<longleftrightarrow> (\<exists>d f. upload_fd c a t d f \<and> renamed t d (with_partial (wr_name a)) (wr_name a)
     \<and> out = [(U ''size'', json_int (wr_size a)), (U ''sha256'', opt_json
         (if wr_want a = None \<and> wr_offset a \<noteq> 0 then None else Some (hex_text (d_sha256 w (read_from t f @ written_to t f)))))])"

lemma outcome_finish:
  assumes "hashed = None \<longleftrightarrow> wr_want a = None \<and> wr_offset a \<noteq> 0"
  shows "runs_to (upload_call w p c a) (receiving c a d f tot hashed) (finish_upload w d f a (tot, ov, hashed)) unrenamed (uploaded w c a)"
proof -
  let ?partial = "with_partial (wr_name a)"
  let ?digest = "map_option (\<lambda>bs. hex_text (d_sha256 w bs)) hashed"
  define synced where "synced = (\<lambda>t. receiving c a d f tot hashed t \<and> Io (SyncFd f) None \<in> set t)"
  define replaced where "replaced = (\<lambda>t. renamed t d ?partial (wr_name a) \<and> hasher_ok a t f hashed \<and> upload_fd c a t d f)"
  have gone: "runs_to (upload_call w p c a) A (pbind (quietly w (UnlinkAt d ?partial)) (\<lambda>_. refuse code msg)) unrenamed B"
    if "\<And>t. A t \<Longrightarrow> receiving c a d f tot hashed t" for A code msg and B :: "obj \<Rightarrow> fs_trace \<Rightarrow> bool"
    by (rule outcome_bind[where B = "\<lambda>_. unrenamed"], rule outcome_quietly)
      (use that in \<open>auto simp: upload_call_def confined_def upload_io_def receiving_def upload_fd_def unrenamed_snoc intro!: outcome_refuse\<close>)
  have place: "runs_to (upload_call w p c a) synced (pbind (io w (RenameAt d ?partial (wr_name a))) (\<lambda>_.
      pbind (quietly w (SyncFd d)) (\<lambda>_. pret [(U ''size'', json_int (wr_size a)), (U ''sha256'', opt_json ?digest)])))
      unrenamed (uploaded w c a)" if t: "tot = wr_size a" "\<not> (wr_want a \<noteq> None \<and> ?digest \<noteq> wr_want a)"
  proof (rule outcome_bind[where B = "\<lambda>_. replaced"], rule outcome_io)
    fix t r assume "synced t"
    then show "upload_call w p c a t (Io (RenameAt d ?partial (wr_name a)) r)"
      using t by (cases hashed) (auto simp: synced_def upload_call_def confined_def upload_io_def receiving_def upload_whole_def hasher_ok_def)
  next
    fix u
    show "runs_to (upload_call w p c a) replaced
      (pbind (quietly w (SyncFd d)) (\<lambda>_. pret [(U ''size'', json_int (wr_size a)), (U ''sha256'', opt_json ?digest)]))
      unrenamed (uploaded w c a)"
    proof (rule outcome_bind[where B = "\<lambda>_. replaced"], rule outcome_quietly)
      fix v
      show "runs_to (upload_call w p c a) replaced
        (pret [(U ''size'', json_int (wr_size a)), (U ''sha256'', opt_json ?digest)]) unrenamed (uploaded w c a)"
      proof (rule outcome_ret)
        fix t assume "replaced t"
        then show "uploaded w c a [(U ''size'', json_int (wr_size a)), (U ''sha256'', opt_json ?digest)] t"
          using assms unfolding uploaded_def by (intro exI[of _ d] exI[of _ f]) (cases hashed, auto simp: replaced_def hasher_ok_def)
      qed
    qed (auto simp: replaced_def upload_call_def confined_def upload_io_def renamed_def hasher_ok_def upload_fd_snoc)
  qed (auto simp: replaced_def synced_def receiving_def unrenamed_snoc renamed_def hasher_ok_def upload_fd_snoc)
  show ?thesis
    unfolding finish_upload_def prod.case Let_def
  proof (intro outcome_cond gone)
    assume t: "\<not> (ov \<or> tot \<noteq> wr_size a)"
    show "runs_to (upload_call w p c a) (receiving c a d f tot hashed) (pbind (io w (SyncFd f)) (\<lambda>_.
       if wr_want a \<noteq> None \<and> ?digest \<noteq> wr_want a then
         pbind (quietly w (UnlinkAt d ?partial)) (\<lambda>_. refuse HASH_MISMATCH
           (U ''sha256 of '' @ rel_repr (wr_rel a) @ U '' does not match; the partial file was deleted''))
       else pbind (io w (RenameAt d ?partial (wr_name a))) (\<lambda>_. pbind (quietly w (SyncFd d)) (\<lambda>_.
         pret [(U ''size'', json_int (wr_size a)), (U ''sha256'', opt_json ?digest)])))) unrenamed (uploaded w c a)"
    proof (rule outcome_bind[where B = "\<lambda>_. synced"], rule outcome_io)
      fix u
      show "runs_to (upload_call w p c a) synced (if wr_want a \<noteq> None \<and> ?digest \<noteq> wr_want a then
         pbind (quietly w (UnlinkAt d ?partial)) (\<lambda>_. refuse HASH_MISMATCH
           (U ''sha256 of '' @ rel_repr (wr_rel a) @ U '' does not match; the partial file was deleted''))
       else pbind (io w (RenameAt d ?partial (wr_name a))) (\<lambda>_. pbind (quietly w (SyncFd d)) (\<lambda>_.
         pret [(U ''size'', json_int (wr_size a)), (U ''sha256'', opt_json ?digest)]))) unrenamed (uploaded w c a)"
        by (intro outcome_cond gone place) (use t in \<open>auto simp: synced_def\<close>)
    qed (auto simp: synced_def receiving_sync upload_call_def confined_def upload_io_def receiving_unrenamed unrenamed_snoc)
  qed auto
qed

lemma write_args_ok:
  assumes "write_args_of c = Inr a"
  shows "0 \<le> wr_offset a" "wr_offset a \<le> wr_size a" "wr_size a \<le> MAX_FILE"
    "split_rel_for_write (json_str (arg c (U ''rel''))) (U ''path'') = Inr (wr_parent a @ [wr_name a])"
proof -
  obtain parts where p: "split_rel_for_write (json_str (arg c (U ''rel''))) (U ''path'') = Inr parts" "wr_parent a = butlast parts"
      "wr_name a = last parts" and b: "0 \<le> wr_offset a" "wr_offset a \<le> wr_size a" "wr_size a \<le> MAX_FILE"
    using assms by (auto simp: write_args_of_def op_result_def res_simps Let_def split: sum.splits option.splits if_splits)
  have "parts \<noteq> []" using p(1) split_rel_Inr(2) by (auto simp: split_rel_for_write_def res_simps)
  with p show "split_rel_for_write (json_str (arg c (U ''rel''))) (U ''path'') = Inr (wr_parent a @ [wr_name a])" by simp
qed (use assms in \<open>auto simp: write_args_of_def op_result_def res_simps Let_def split: sum.splits option.splits if_splits\<close>)

definition opened :: "obj \<Rightarrow> write_args \<Rightarrow> nat \<Rightarrow> fs_trace \<Rightarrow> bool" where
  "opened c a d t \<longleftrightarrow> untouched t \<and> write_dir c (wr_parent a) t d"

lemma steady_opened [simp]: "steady (opened c a d)"
  unfolding opened_def by simp

lemma opened_unrenamed: "opened c a d t \<Longrightarrow> unrenamed t"
  by (simp add: opened_def untouched_def)

lemma steady_unrenamed [simp]: "steady unrenamed"
  by simp

lemma outcome_open_partial:
  "runs_to (upload_call w p c a) (opened c a d) (open_partial w d (with_partial (wr_name a))) unrenamed (\<lambda>f. hashing c a d f [])"
  unfolding open_partial_def
proof (rule outcome_bind)
  show "runs_to (upload_call w p c a) (opened c a d) (open_at w OPartial d (with_partial (wr_name a))) unrenamed
      (\<lambda>r t. unrenamed t \<and> (\<forall>f. r = Inr f \<longrightarrow> hashing c a d f [] t))"
    by (rule outcome_open)
      (auto simp: upload_call_def confined_def opened_def hashing_def upload_fd_def write_dir_snoc untouched_def unrenamed_snoc)
  show "runs_to (upload_call w p c a) (\<lambda>t. unrenamed t \<and> (\<forall>f. r = Inr f \<longrightarrow> hashing c a d f [] t))
      (case r of Inr fd \<Rightarrow> pret fd
        | Inl ELoop \<Rightarrow> refuse POLICY_DENIED (U ''the upload's partial file is a symlink; refusing'')
        | Inl e \<Rightarrow> pfail (EOs e)) unrenamed (\<lambda>f. hashing c a d f [])" for r
    by (auto intro!: outcome_ret outcome_fail outcome_refuse split: sum.splits errno.splits)
qed

lemma outcome_start_at:
  "runs_to (upload_call w p c a) (hashing c a d f []) (start_at_offset w f a) unrenamed (\<lambda>_. hashing c a d f [])"
  unfolding start_at_offset_def
proof (rule keeps_step)
  fix pst
  show "runs_to (upload_call w p c a) (hashing c a d f [])
     (if \<not> st_reg pst then refuse CONFLICT (U ''the upload's partial file is not a regular file'')
      else (let current = in_size pst in
       if wr_offset a = 0 then io w (Truncate f)
       else if wr_offset a \<noteq> current then
         refuse CONFLICT (U ''resume offset '' @ dec_int (wr_offset a) @ U '' does not match the partial file (''
           @ dec_int current @ U '' bytes): resume from '' @ dec_int current @ U '', or start at 0'')
       else pret ())) unrenamed (\<lambda>_. hashing c a d f [])"
    unfolding Let_def
    by (intro outcome_cond outcome_refuse outcome_ret outcome_io)
      (auto simp: hashing_unrenamed upload_call_def confined_def upload_io_def hashing_def upload_fd_snoc unrenamed_snoc)
qed (auto intro!: keeps_fstat simp: hashing_unrenamed)

lemma outcome_hash_start:
  assumes "0 \<le> wr_offset a"
  shows "runs_to (upload_call w p c a) (hashing c a d f []) (hash_start w f a) unrenamed
     (\<lambda>hashed t. (hashed = None \<longleftrightarrow> wr_want a = None \<and> wr_offset a \<noteq> 0) \<and> (\<exists>got. hashing c a d f got t
        \<and> (\<forall>b. hashed = Some b \<longrightarrow> b = got \<and> int (length got) = wr_offset a)))"
  unfolding hash_start_def
proof (intro outcome_cond)
  assume o: "\<not> (wr_want a = None \<and> wr_offset a \<noteq> 0)" "0 < wr_offset a"
  show "runs_to (upload_call w p c a) (hashing c a d f []) (pbind (hash_existing w f (wr_offset a) 0 []) (\<lambda>bs. pret (Some bs))) unrenamed
     (\<lambda>hashed t. (hashed = None \<longleftrightarrow> wr_want a = None \<and> wr_offset a \<noteq> 0) \<and> (\<exists>got. hashing c a d f got t
        \<and> (\<forall>b. hashed = Some b \<longrightarrow> b = got \<and> int (length got) = wr_offset a)))"
    by (rule outcome_bind, rule outcome_hash_existing) (use o in \<open>auto intro!: outcome_ret\<close>)
qed (use assms in \<open>auto intro!: outcome_ret\<close>)

lemma outcome_from_seek:
  "runs_to (upload_call w p c a) (\<lambda>t. (hashed = None \<longleftrightarrow> wr_want a = None \<and> wr_offset a \<noteq> 0) \<and> (\<exists>got. hashing c a d f got t
        \<and> (\<forall>b. hashed = Some b \<longrightarrow> b = got \<and> int (length got) = wr_offset a)))
     (pbind (io w (SeekTo f (wr_offset a))) (\<lambda>_. pbind (receive w f (wr_size a) (wr_offset a) hashed) (finish_upload w d f a)))
     unrenamed (uploaded w c a)"
proof (rule outcome_when, rule outcome_bind)
  assume h: "hashed = None \<longleftrightarrow> wr_want a = None \<and> wr_offset a \<noteq> 0"
  show "runs_to (upload_call w p c a) (\<lambda>t. \<exists>got. hashing c a d f got t \<and> (\<forall>b. hashed = Some b \<longrightarrow> b = got \<and> int (length got) = wr_offset a))
      (io w (SeekTo f (wr_offset a))) unrenamed (\<lambda>_. receiving c a d f (wr_offset a) hashed)"
    by (rule outcome_io)
      (use h in \<open>auto simp: upload_call_def confined_def upload_io_def hashing_def receiving_def hasher_ok_def upload_fd_snoc unrenamed_snoc\<close>)
  have same: "runs_to (upload_call w p c a) (\<lambda>t. (hashed' = None \<longleftrightarrow> hashed = None) \<and> receiving c a d f tot hashed' t)
      (finish_upload w d f a (tot, ov, hashed')) unrenamed (uploaded w c a)" for tot ov hashed'
    by (rule outcome_when, rule outcome_finish) (simp add: h)
  show "runs_to (upload_call w p c a) (receiving c a d f (wr_offset a) hashed)
      (pbind (receive w f (wr_size a) (wr_offset a) hashed) (finish_upload w d f a)) unrenamed (uploaded w c a)" for u :: unit
  proof (rule outcome_bind[OF outcome_receive_same[OF refl]])
    fix got
    show "runs_to (upload_call w p c a) (\<lambda>t. case got of (tot, _, hashed') \<Rightarrow> (hashed' = None \<longleftrightarrow> hashed = None) \<and> receiving c a d f tot hashed' t)
        (finish_upload w d f a got) unrenamed (uploaded w c a)"
      using same by (cases got) simp
  qed
qed

lemma keeps_guard_target: "steady A \<Longrightarrow> allows P \<Longrightarrow> keeps P A (guard_target w d a)"
  unfolding guard_target_def by (intro keeps_bind keeps_if keeps_refuse keeps_ret keeps_fail keeps_inner keeps_lstat)

lemma outcome_lock_partial:
  "runs_to (upload_call w p c a) (hashing c a d f []) (lock_partial w f) unrenamed (\<lambda>_. hashing c a d f [])"
  unfolding lock_partial_def try_io_def
proof (rule outcome_bind[where B = "\<lambda>_. hashing c a d f []"], rule outcome_told)
  show "runs_to (upload_call w p c a) (hashing c a d f []) (case r of None \<Rightarrow> pret ()
      | Some e \<Rightarrow> if e = EWOULDBLOCK then refuse CONFLICT (U ''another process is writing that file'') else pfail (EOs e))
      unrenamed (\<lambda>_. hashing c a d f [])" for r
    by (auto intro!: outcome_ret outcome_fail outcome_refuse simp: hashing_unrenamed split: option.splits)
qed (auto simp: upload_call_def confined_def upload_io_def hashing_def upload_fd_snoc unrenamed_snoc)

lemma keeps_check_space: "steady A \<Longrightarrow> allows P \<Longrightarrow> keeps P A (check_space w f a)"
  unfolding check_space_def by (auto intro!: keeps_ask keeps_rules simp: Let_def split: prod.splits)

lemma outcome_write_file:
  assumes "0 \<le> wr_offset a"
  shows "runs_to (upload_call w p c a) (opened c a d) (write_file w d a) unrenamed (uploaded w c a)"
  unfolding write_file_def
proof (rule keeps_step[OF keeps_guard_target[OF steady_opened allows_upload] opened_unrenamed], assumption,
    rule outcome_bind[OF outcome_open_partial])
  fix f
  show "runs_to (upload_call w p c a) (hashing c a d f []) (pbind (lock_partial w f) (\<lambda>_.
     pbind (start_at_offset w f a) (\<lambda>_. pbind (check_space w f a) (\<lambda>_. pbind (hash_start w f a) (\<lambda>hashed.
     pbind (io w (SeekTo f (wr_offset a))) (\<lambda>_.
     pbind (receive w f (wr_size a) (wr_offset a) hashed) (finish_upload w d f a))))))) unrenamed (uploaded w c a)"
    by (intro outcome_bind[OF outcome_lock_partial]
        outcome_bind[OF outcome_start_at] keeps_step[OF keeps_check_space[OF steady_hashing allows_upload] hashing_unrenamed]
        outcome_bind[OF outcome_hash_start[OF assms]] outcome_from_seek)
qed

lemma steady_result: "steady (\<lambda>t. out = [x, (k, opt_json (if b then None else Some (hex_text (d_sha256 w (read_from t f @ written_to t f)))))])"
  by (rule steady_both)

lemma steady_uploaded [simp]: "steady (uploaded w c a out)"
  unfolding uploaded_def[abs_def] renamed_def
  by (intro steady_ex steady_conj steady_upload_fd steady_mem steady_result)

lemma outcome_fs_write:
  assumes a: "write_args_of c = Inr a"
  shows "runs_to (upload_call w p c a) untouched (fs_write w p c) unrenamed (uploaded w c a)"
  unfolding fs_write_def
proof (rule outcome_bind[OF outcome_root])
  fix h
  let ?A = "\<lambda>t. untouched t \<and> OpenRoot (arg c (U ''root'')) True (Inr h) \<in> set t"
  have u: "?A t \<Longrightarrow> unrenamed t" for t by (simp add: untouched_def)
  show "runs_to (upload_call w p c a) ?A (pbind (hlift (write_args_of c)) (\<lambda>a. pbind (hold_key w (lock_name h a)) (\<lambda>_.
      while_held (lock_name h a) (pbind (pbind (dir_at w h (wr_parent a) True) plift) (\<lambda>dfd.
        on_os (write_file w dfd a) (upload_failed w a)))))) unrenamed (uploaded w c a)"
    unfolding a
  proof (rule outcome_bind[where B = "\<lambda>a' t. a' = a \<and> ?A t"], rule outcome_hlift)
    fix a'
    have k: "keeps (upload_call w p c a) ?A (hold_key w (lock_name h a))"
      unfolding hold_key_def by (auto intro!: keeps_told keeps_rules)
    have m: "runs_to (upload_call w p c a) ?A (pbind (pbind (dir_at w h (wr_parent a) True) plift) (\<lambda>dfd.
        on_os (write_file w dfd a) (upload_failed w a))) unrenamed (uploaded w c a)"
    proof (rule outcome_bind[where B = "\<lambda>d. opened c a d"])
      show "runs_to (upload_call w p c a) ?A (pbind (dir_at w h (wr_parent a) True) plift) unrenamed (\<lambda>d. opened c a d)"
        by (rule outcome_weaken[OF outcome_dir[where A = ?A and E = unrenamed]])
          (auto simp: upload_call_def confined_def untouched_snoc u opened_def write_dir_def)
      show "runs_to (upload_call w p c a) (opened c a d) (on_os (write_file w d a) (upload_failed w a)) unrenamed (uploaded w c a)" for d
        by (rule outcome_on_os[OF outcome_write_file]) (auto simp: write_args_ok[OF a] upload_failed_def intro: outcome_fail)
    qed
    show "runs_to (upload_call w p c a) (\<lambda>t. a' = a \<and> ?A t) (pbind (hold_key w (lock_name h a')) (\<lambda>_.
      while_held (lock_name h a') (pbind (pbind (dir_at w h (wr_parent a') True) plift) (\<lambda>dfd.
        on_os (write_file w dfd a') (upload_failed w a'))))) unrenamed (uploaded w c a)"
    proof (rule outcome_when)
      assume "a' = a"
      then show "runs_to (upload_call w p c a) ?A (pbind (hold_key w (lock_name h a')) (\<lambda>_.
        while_held (lock_name h a') (pbind (pbind (dir_at w h (wr_parent a') True) plift) (\<lambda>dfd.
          on_os (write_file w dfd a') (upload_failed w a'))))) unrenamed (uploaded w c a)"
        by (simp only:) (rule keeps_step[OF k u], assumption, rule outcome_held[OF m], simp_all)
    qed
  qed (auto simp: u)
qed (auto simp: upload_call_def confined_def untouched_snoc untouched_unrenamed)

end
