(* ===== verification/FsGuard.thy ===== *)
theory FsGuard
  imports FsSafe
begin

text \<open>
  The other file operations, whatever the machine answers: what fs.read opens and sends, where fs.symlink
  and fs.put_small put their entry, and when and what fs.delete removes.
\<close>

section \<open>Reading\<close>

fun sent_by :: "fs_event \<Rightarrow> u8 list" where
  "sent_by (SendData bs None) = bs"
| "sent_by _ = []"

definition sent_bytes :: "fs_trace \<Rightarrow> u8 list" where
  "sent_bytes t = concat (map sent_by t)"

lemma sent_snoc [simp]: "sent_bytes (t @ [e]) = sent_bytes t @ sent_by e"
  by (simp add: sent_bytes_def)

lemma benign_sent: "benign e \<Longrightarrow> sent_by e = []"
  by (cases e rule: benign.cases) auto

text \<open>
  A directory opened for reading, asked where it is, and found not to be a store of keys: \<open>h\<close> is the root's
  handle.
\<close>

definition looked_at :: "disk \<Rightarrow> root_handle \<Rightarrow> fs_trace \<Rightarrow> nat \<Rightarrow> bool" where
  "looked_at w h t d \<longleftrightarrow> (\<exists>u v loc. t = u @ FdPath d loc # v \<and> loc = fd_path (d_fs w u) d
     \<and> (\<forall>l. loc = Some l \<longrightarrow> \<not> secret_inside (d_fs w u) l (rh_real h)))"

definition read_dir :: "disk \<Rightarrow> obj \<Rightarrow> fs_trace \<Rightarrow> nat \<Rightarrow> bool" where
  "read_dir w c t d \<longleftrightarrow> (\<exists>h parts. OpenRoot (arg c (U ''root'')) False (Inr h) \<in> set t \<and> OpenDir h parts False (Inr d) \<in> set t
     \<and> (\<forall>s \<in> set parts. \<not> is_secret_name s) \<and> looked_at w h t d)"

definition read_call :: "disk \<Rightarrow> policy \<Rightarrow> obj \<Rightarrow> fs_trace \<Rightarrow> fs_event \<Rightarrow> bool" where
  "read_call w p c t e \<longleftrightarrow> confined w p t e \<and>
     (case e of
        OpenDir h parts create r \<Rightarrow> \<not> create
      | OpenAt k d n r \<Rightarrow> k = ORead \<and> \<not> is_secret_name n \<and> read_dir w c t d
      | ReadAt f pos n r \<Rightarrow> (\<exists>d x. OpenAt ORead d x (Inr f) \<in> set t)
          \<and> (\<exists>off. int_or_zero c (U ''offset'') = Inr off \<and> pos = off + int (length (read_from t f)))
      | SendData bs r \<Rightarrow> (\<exists>d x f. OpenAt ORead d x (Inr f) \<in> set t \<and> sent_bytes t @ bs = read_from t f)
      | Io call r \<Rightarrow> False
      | _ \<Rightarrow> True)"

lemma allows_read [simp]: "allows (read_call w p c)"
  unfolding allows_def
proof (intro allI impI)
  fix t e assume "benign e"
  then show "read_call w p c t e"
    by (cases e rule: benign.cases) (auto simp: read_call_def confined_def)
qed

definition reading :: "nat \<Rightarrow> u8 list \<Rightarrow> fs_trace \<Rightarrow> bool" where
  "reading f got t \<longleftrightarrow> (\<exists>d x. OpenAt ORead d x (Inr f) \<in> set t) \<and> read_from t f = got \<and> sent_bytes t = got"

lemma steady_reading [simp]: "steady (reading f got)"
  by (fastforce simp: steady_def reading_def benign_by benign_sent)

definition cut_short :: "fs_trace \<Rightarrow> nat \<Rightarrow> bool" where
  "cut_short t f \<longleftrightarrow> (\<exists>pos n. ReadAt f pos n (Inr []) \<in> set t)"

lemma outcome_send:
  assumes "int_or_zero c (U ''offset'') = Inr off" "pos = off + int (length got)" "sent = int (length got)" "sent \<le> remaining"
  shows "runs_to (read_call w p c) (\<lambda>t. FstatFd f (Inr st) \<in> set t \<and> reading f got t) (send_file w f remaining sent pos) (\<lambda>_. True)
     (\<lambda>s t. FstatFd f (Inr st) \<in> set t \<and> (\<exists>all. reading f all t \<and> s = int (length all)) \<and> s \<le> remaining \<and> (s = remaining \<or> cut_short t f))"
  using assms(2-)
proof (induction w f remaining sent pos arbitrary: got rule: send_file.induct)
  case (1 w f remaining sent pos)
  let ?Q = "\<lambda>s t. FstatFd f (Inr st) \<in> set t \<and> (\<exists>all. reading f all t \<and> s = int (length all)) \<and> s \<le> remaining \<and> (s = remaining \<or> cut_short t f)"
  let ?A = "\<lambda>got t. FstatFd f (Inr st) \<in> set t \<and> reading f got t"
  let ?n = "nat (min (remaining - sent) CHUNK)"
  show ?case
  proof (cases "sent < remaining")
    case True
    show ?thesis
      unfolding send_file.simps[of w f remaining sent] if_P[OF True]
    proof (rule keeps_step[where A = "?A got"])
      fix u
      show "runs_to (read_call w p c) (?A got) (pbind (read_at w f pos ?n) (\<lambda>bs. if bs = [] then pret sent
          else pbind (pbind (told (\<lambda>t. d_send w t bs) (SendData bs)) (\<lambda>r. case r of Some e \<Rightarrow> pfail (EH e) | None \<Rightarrow> pret ())) (\<lambda>_.
            send_file w f remaining (sent + int (length bs)) (pos + int (length bs))))) (\<lambda>_. True) ?Q"
      proof (rule outcome_bind)
        show "runs_to (read_call w p c) (?A got) (read_at w f pos ?n) (\<lambda>_. True)
            (\<lambda>bs t. int (length bs) \<le> remaining - sent \<and> (bs = [] \<longrightarrow> cut_short t f) \<and> FstatFd f (Inr st) \<in> set t
               \<and> (\<exists>d x. OpenAt ORead d x (Inr f) \<in> set t) \<and> read_from t f = got @ bs \<and> sent_bytes t = got)"
          by (rule outcome_read) (use assms(1) 1(2,3) True in \<open>auto simp: read_call_def confined_def reading_def cut_short_def\<close>)
        fix bs
        show "runs_to (read_call w p c) (\<lambda>t. int (length bs) \<le> remaining - sent \<and> (bs = [] \<longrightarrow> cut_short t f) \<and> FstatFd f (Inr st) \<in> set t
               \<and> (\<exists>d x. OpenAt ORead d x (Inr f) \<in> set t) \<and> read_from t f = got @ bs \<and> sent_bytes t = got)
           (if bs = [] then pret sent
            else pbind (pbind (told (\<lambda>t. d_send w t bs) (SendData bs)) (\<lambda>r. case r of Some e \<Rightarrow> pfail (EH e) | None \<Rightarrow> pret ())) (\<lambda>_.
              send_file w f remaining (sent + int (length bs)) (pos + int (length bs)))) (\<lambda>_. True) ?Q"
        proof (rule outcome_when, rule outcome_cond)
          assume l: "int (length bs) \<le> remaining - sent" "bs \<noteq> []"
          show "runs_to (read_call w p c) (\<lambda>t. (bs = [] \<longrightarrow> cut_short t f) \<and> FstatFd f (Inr st) \<in> set t
               \<and> (\<exists>d x. OpenAt ORead d x (Inr f) \<in> set t) \<and> read_from t f = got @ bs \<and> sent_bytes t = got)
           (pbind (pbind (told (\<lambda>t. d_send w t bs) (SendData bs)) (\<lambda>r. case r of Some e \<Rightarrow> pfail (EH e) | None \<Rightarrow> pret ())) (\<lambda>_.
              send_file w f remaining (sent + int (length bs)) (pos + int (length bs)))) (\<lambda>_. True) ?Q"
          proof (rule outcome_bind[where B = "\<lambda>_. ?A (got @ bs)"])
            show "runs_to (read_call w p c) (\<lambda>t. (bs = [] \<longrightarrow> cut_short t f) \<and> FstatFd f (Inr st) \<in> set t
               \<and> (\<exists>d x. OpenAt ORead d x (Inr f) \<in> set t) \<and> read_from t f = got @ bs \<and> sent_bytes t = got)
              (pbind (told (\<lambda>t. d_send w t bs) (SendData bs)) (\<lambda>r. case r of Some e \<Rightarrow> pfail (EH e) | None \<Rightarrow> pret ())) (\<lambda>_. True)
              (\<lambda>_. ?A (got @ bs))"
            proof (rule outcome_bind[where B = "\<lambda>r t. r = None \<longrightarrow> ?A (got @ bs) t"], rule outcome_told)
              show "runs_to (read_call w p c) (\<lambda>t. r = None \<longrightarrow> ?A (got @ bs) t) (case r of Some e \<Rightarrow> pfail (EH e) | None \<Rightarrow> pret ())
                  (\<lambda>_. True) (\<lambda>_. ?A (got @ bs))" for r
                by (cases r) (auto intro: outcome_ret outcome_fail)
            qed (fastforce simp: read_call_def confined_def, auto simp: reading_def)
            show "runs_to (read_call w p c) (?A (got @ bs)) (send_file w f remaining (sent + int (length bs)) (pos + int (length bs)))
                (\<lambda>_. True) ?Q" for v
              by (rule 1(1)[OF True l(2)]) (use 1(2,3) l in auto)
          qed
        qed (use 1(3) True in \<open>auto intro!: outcome_ret simp: reading_def\<close>)
      qed
    qed (auto intro: keeps_check)
  next
    case False
    then show ?thesis using 1(3,4) unfolding send_file.simps[of w f remaining sent] by (auto intro: outcome_ret)
  qed
qed

text \<open>What a success answers with.\<close>

definition wanted :: "inode \<Rightarrow> int \<Rightarrow> int option \<Rightarrow> int" where
  "wanted st off len = (case len of None \<Rightarrow> in_size st - off | Some l \<Rightarrow> min l (in_size st - off))"

definition read_all :: "obj \<Rightarrow> obj \<Rightarrow> fs_trace \<Rightarrow> bool" where
  "read_all c out t \<longleftrightarrow> (\<exists>f st off len. FstatFd f (Inr st) \<in> set t \<and> st_reg st
     \<and> int_or_zero c (U ''offset'') = Inr off \<and> 0 \<le> off \<and> off \<le> in_size st \<and> length_arg c = Inr len
     \<and> sent_bytes t = read_from t f \<and> out = [(U ''size'', json_int (int (length (sent_bytes t))))]
     \<and> int (length (sent_bytes t)) \<le> wanted st off len
     \<and> (int (length (sent_bytes t)) = wanted st off len \<or> cut_short t f))"

lemma read_allI:
  assumes "FstatFd f (Inr st) \<in> set t" "st_reg st" "int_or_zero c (U ''offset'') = Inr off" "0 \<le> off" "off \<le> in_size st"
    "length_arg c = Inr len" "reading f got t" "s = int (length got)" "s \<le> wanted st off len" "s = wanted st off len \<or> cut_short t f"
  shows "read_all c [(U ''size'', json_int s)] t"
  unfolding read_all_def
  by (intro exI[of _ f] exI[of _ st] exI[of _ off] exI[of _ len]) (use assms in \<open>simp add: reading_def\<close>)

lemma outcome_read_file:
  "runs_to (read_call w p c) (reading f []) (read_file w f r c) (\<lambda>_. True) (read_all c)"
  unfolding read_file_def
proof (rule outcome_bind)
  show "runs_to (read_call w p c) (reading f []) (fstat_of w f) (\<lambda>_. True) (\<lambda>st t. FstatFd f (Inr st) \<in> set t \<and> reading f [] t)"
    unfolding fstat_of_def
  proof (rule outcome_bind[where B = "\<lambda>r t. \<forall>st. r = Inr st \<longrightarrow> FstatFd f (Inr st) \<in> set t \<and> reading f [] t"], rule outcome_told)
    show "runs_to (read_call w p c) (\<lambda>t. \<forall>st. r = Inr st \<longrightarrow> FstatFd f (Inr st) \<in> set t \<and> reading f [] t) (os_result r)
        (\<lambda>_. True) (\<lambda>st t. FstatFd f (Inr st) \<in> set t \<and> reading f [] t)" for r
      by (cases r) (auto simp: os_result_def intro: outcome_ret outcome_fail)
  qed (use steady_reading[of f "[]"] in \<open>auto simp: read_call_def confined_def steady_def\<close>)
  fix st
  let ?A = "\<lambda>t. FstatFd f (Inr st) \<in> set t \<and> reading f [] t"
  have lift: "runs_to (read_call w p c) A (inner (hlift r)) (\<lambda>_. True) (\<lambda>x t. r = Inr x \<and> A t)" for A and r :: "handler_error + 'x"
    by (rule outcome_inner, rule outcome_hlift) auto
  have sending: "runs_to (read_call w p c) (\<lambda>t. length_arg c = Inr len \<and> int_or_zero c (U ''offset'') = Inr off \<and> ?A t)
      (pbind (send_file w f (wanted st off len) 0 off) (\<lambda>sent. pret [(U ''size'', json_int sent)])) (\<lambda>_. True) (read_all c)"
    if o: "0 \<le> off" "off \<le> in_size st" "\<not> (case len of Some l \<Rightarrow> l < 0 | None \<Rightarrow> False)" "st_reg st" for off len
  proof (intro outcome_when)
    assume a: "length_arg c = Inr len" "int_or_zero c (U ''offset'') = Inr off"
    have w0: "0 \<le> wanted st off len" using o by (auto simp: wanted_def split: option.splits)
    show "runs_to (read_call w p c) ?A (pbind (send_file w f (wanted st off len) 0 off) (\<lambda>sent. pret [(U ''size'', json_int sent)]))
        (\<lambda>_. True) (read_all c)"
      by (rule outcome_bind, rule outcome_send[where got = "[]", OF a(2)])
        (use w0 o a in \<open>auto intro!: outcome_ret intro: read_allI simp: reading_def[of f "[]"]\<close>)
  qed
  show "runs_to (read_call w p c) ?A
     (if \<not> st_reg st then refuse BAD_ARGS (rel_repr r @ U '' is not a regular file'')
      else (let fsize = in_size st in
        pbind (inner (hlift (int_or_zero c (U ''offset'')))) (\<lambda>offset.
        if \<not> (0 \<le> offset \<and> offset \<le> fsize) then refuse BAD_ARGS (offset_text offset fsize)
        else pbind (inner (hlift (length_arg c))) (\<lambda>len.
          if (case len of Some l \<Rightarrow> l < 0 | None \<Rightarrow> False) then refuse BAD_ARGS (U ''length must not be negative'')
          else (let remaining = (case len of None \<Rightarrow> fsize - offset | Some l \<Rightarrow> min l (fsize - offset)) in
            pbind (send_file w f remaining 0 offset) (\<lambda>sent. pret [(U ''size'', json_int sent)]))))))
      (\<lambda>_. True) (read_all c)"
    unfolding Let_def wanted_def[symmetric]
    by (intro outcome_cond outcome_refuse outcome_bind[OF lift] sending) auto
qed

lemma untouched_sent: "untouched t \<Longrightarrow> read_from t f = []"
  by (simp add: untouched_def)

definition not_read_yet :: "fs_trace \<Rightarrow> bool" where
  "not_read_yet t \<longleftrightarrow> (\<forall>f. read_from t f = []) \<and> sent_bytes t = []"

lemma unread_Nil [simp]: "not_read_yet []"
  by (simp add: not_read_yet_def read_from_def sent_bytes_def)

lemma unread_snoc: "not_read_yet (t @ [e]) \<longleftrightarrow> not_read_yet t \<and> (\<forall>f. read_by f e = []) \<and> sent_by e = []"
  by (auto simp: not_read_yet_def)

lemma steady_unread [simp]: "steady not_read_yet"
  by (auto simp: steady_def unread_snoc benign_by benign_sent)

lemma steady_looked [simp]: "steady (\<lambda>t. looked_at w h t d)"
  unfolding steady_def looked_at_def by (metis append_Cons append_assoc)

lemma outcome_open_to_read:
  assumes s: "\<forall>s \<in> set parts. \<not> is_secret_name s" "parts \<noteq> []"
  shows "runs_to (read_call w p c) (\<lambda>t. not_read_yet t \<and> OpenRoot (arg c (U ''root'')) False (Inr h) \<in> set t)
     (open_to_read w h r parts) (\<lambda>_. True) (\<lambda>f. reading f [])"
  unfolding open_to_read_def
proof (rule outcome_bind, rule outcome_dir)
  fix d
  let ?A = "\<lambda>t. (not_read_yet t \<and> OpenRoot (arg c (U ''root'')) False (Inr h) \<in> set t) \<and> OpenDir h (butlast parts) False (Inr d) \<in> set t"
  let ?B = "\<lambda>t. not_read_yet t \<and> read_dir w c t d"
  have b: "\<forall>s \<in> set (butlast parts). \<not> is_secret_name s" "\<not> is_secret_name (last parts)"
    using s by (auto dest: in_set_butlastD)
  have l: "keeps (read_call w p c) ?B (lstat_at w d (last parts))"
    by (rule keeps_lstat) (simp_all add: read_dir_def[abs_def])
  have opened: "runs_to (read_call w p c) ?B (pbind (open_at w ORead d (last parts)) (\<lambda>o'. case o' of
           Inr fd \<Rightarrow> pret fd
         | Inl EMissing \<Rightarrow> pfail (HOp NOT_FOUND (rel_repr r @ U '' does not exist in model root '' @ py_repr (rt_id (rh_root h))))
         | Inl ELoop \<Rightarrow> pfail (HOp BAD_ARGS (rel_repr r
             @ U '' is a symbolic link; read the file it points to (in an HF cache: the blob)''))
         | Inl e \<Rightarrow> pfail (HOp IO_ERROR (U ''cannot open '' @ rel_repr r @ U '': '' @ d_errno w e)))) (\<lambda>_. True) (\<lambda>f. reading f [])"
    by (rule outcome_bind[where B = "\<lambda>o' t. \<forall>f. o' = Inr f \<longrightarrow> reading f [] t"], rule outcome_open,
        (use b in \<open>auto simp: read_call_def confined_def reading_def not_read_yet_def\<close>)[2])
      (auto intro!: outcome_ret outcome_fail split: sum.splits errno.splits)
  show "runs_to (read_call w p c) ?A
     (pbind (told (\<lambda>t. let loc = fd_path (d_fs w t) d in
         (loc, case loc of Some l \<Rightarrow> secret_inside (d_fs w t) l (rh_real h) | None \<Rightarrow> False)) (\<lambda>x. FdPath d (fst x))) (\<lambda>x.
      if snd x then pfail (read_denied (U ''from a directory that looks like a key or credential store''))
      else pbind (lstat_at w d (last parts)) (\<lambda>st.
        if some_is (\<lambda>s. \<not> st_reg s \<and> \<not> st_lnk s) st then pfail (HOp BAD_ARGS (rel_repr r @ U '' is not a regular file''))
        else pbind (open_at w ORead d (last parts)) (\<lambda>o'. case o' of
            Inr fd \<Rightarrow> pret fd
          | Inl EMissing \<Rightarrow> pfail (HOp NOT_FOUND (rel_repr r @ U '' does not exist in model root '' @ py_repr (rt_id (rh_root h))))
          | Inl ELoop \<Rightarrow> pfail (HOp BAD_ARGS (rel_repr r
              @ U '' is a symbolic link; read the file it points to (in an HF cache: the blob)''))
          | Inl e \<Rightarrow> pfail (HOp IO_ERROR (U ''cannot open '' @ rel_repr r @ U '': '' @ d_errno w e))))))
     (\<lambda>_. True) (\<lambda>f. reading f [])"
  proof (rule outcome_bind[where B = "\<lambda>x t. \<not> snd x \<longrightarrow> ?B t"], rule outcome_told)
    fix t assume a: "?A t"
    let ?loc = "fd_path (d_fs w t) d"
    let ?x = "let loc = ?loc in (loc, case loc of Some l \<Rightarrow> secret_inside (d_fs w t) l (rh_real h) | None \<Rightarrow> False)"
    have "\<not> snd ?x \<longrightarrow> looked_at w h (t @ [FdPath d ?loc]) d" unfolding looked_at_def Let_def
      by (intro impI exI[of _ t] exI[of _ "[]"] exI[of _ ?loc]) (simp split: option.splits)
    then show "\<not> snd ?x \<longrightarrow> ?B (t @ [FdPath d (fst ?x)])"
      using a b(1) by (auto simp: unread_snoc read_dir_def Let_def)
  next
    fix x
    show "runs_to (read_call w p c) (\<lambda>t. \<not> snd x \<longrightarrow> ?B t)
      (if snd x then pfail (read_denied (U ''from a directory that looks like a key or credential store''))
       else pbind (lstat_at w d (last parts)) (\<lambda>st.
        if some_is (\<lambda>s. \<not> st_reg s \<and> \<not> st_lnk s) st then pfail (HOp BAD_ARGS (rel_repr r @ U '' is not a regular file''))
        else pbind (open_at w ORead d (last parts)) (\<lambda>o'. case o' of
            Inr fd \<Rightarrow> pret fd
          | Inl EMissing \<Rightarrow> pfail (HOp NOT_FOUND (rel_repr r @ U '' does not exist in model root '' @ py_repr (rt_id (rh_root h))))
          | Inl ELoop \<Rightarrow> pfail (HOp BAD_ARGS (rel_repr r
              @ U '' is a symbolic link; read the file it points to (in an HF cache: the blob)''))
          | Inl e \<Rightarrow> pfail (HOp IO_ERROR (U ''cannot open '' @ rel_repr r @ U '': '' @ d_errno w e)))))
       (\<lambda>_. True) (\<lambda>f. reading f [])"
    proof (rule outcome_cond)
      assume "\<not> snd x"
      then show "runs_to (read_call w p c) (\<lambda>t. \<not> snd x \<longrightarrow> ?B t) (pbind (lstat_at w d (last parts)) (\<lambda>st.
        if some_is (\<lambda>s. \<not> st_reg s \<and> \<not> st_lnk s) st then pfail (HOp BAD_ARGS (rel_repr r @ U '' is not a regular file''))
        else pbind (open_at w ORead d (last parts)) (\<lambda>o'. case o' of
            Inr fd \<Rightarrow> pret fd
          | Inl EMissing \<Rightarrow> pfail (HOp NOT_FOUND (rel_repr r @ U '' does not exist in model root '' @ py_repr (rt_id (rh_root h))))
          | Inl ELoop \<Rightarrow> pfail (HOp BAD_ARGS (rel_repr r
              @ U '' is a symbolic link; read the file it points to (in an HF cache: the blob)''))
          | Inl e \<Rightarrow> pfail (HOp IO_ERROR (U ''cannot open '' @ rel_repr r @ U '': '' @ d_errno w e))))) (\<lambda>_. True) (\<lambda>f. reading f [])"
        by simp (rule keeps_step[OF l], simp, intro outcome_cond outcome_fail opened, simp)
    qed (auto intro: outcome_fail)
  qed (auto simp: read_call_def confined_def)
qed (auto simp: unread_snoc read_call_def confined_def)

lemma outcome_fs_read: "runs_to (read_call w p c) not_read_yet (fs_read w p c) (\<lambda>_. True) (read_all c)"
  unfolding fs_read_def Let_def
proof (rule outcome_bind, rule outcome_root)
  fix h
  let ?A = "\<lambda>t. not_read_yet t \<and> OpenRoot (arg c (U ''root'')) False (Inr h) \<in> set t"
  let ?r = "unwrap_or [] (json_str (arg c (U ''rel'')))"
  show "runs_to (read_call w p c) ?A (pbind (plift (split_rel (json_str (arg c (U ''rel''))) (U ''path''))) (\<lambda>parts.
      if \<exists>s \<in> set parts. is_secret_name s then pfail (read_denied (U ''a file that looks like a key, token or credential''))
      else pbind (open_to_read w h ?r parts) (\<lambda>fd. on_os (read_file w fd ?r c) (\<lambda>n.
        pfail (HOp IO_ERROR (U ''reading '' @ rel_repr ?r @ U '' failed: '' @ d_errno w n)))))) (\<lambda>_. True) (read_all c)"
  proof (rule outcome_bind[where B = "\<lambda>parts t. parts \<noteq> [] \<and> ?A t"])
    show "runs_to (read_call w p c) ?A (plift (split_rel (json_str (arg c (U ''rel''))) (U ''path''))) (\<lambda>_. True) (\<lambda>parts t. parts \<noteq> [] \<and> ?A t)"
      using split_rel_Inr(2)[of "json_str (arg c (U ''rel''))" "U ''path''"]
      by (cases "split_rel (json_str (arg c (U ''rel''))) (U ''path'')")
        (auto simp: plift_def intro!: outcome_ret outcome_fail)
    fix parts
    show "runs_to (read_call w p c) (\<lambda>t. parts \<noteq> [] \<and> ?A t) (if \<exists>s \<in> set parts. is_secret_name s
        then pfail (read_denied (U ''a file that looks like a key, token or credential''))
      else pbind (open_to_read w h ?r parts) (\<lambda>fd. on_os (read_file w fd ?r c) (\<lambda>n.
        pfail (HOp IO_ERROR (U ''reading '' @ rel_repr ?r @ U '' failed: '' @ d_errno w n))))) (\<lambda>_. True) (read_all c)"
      by (rule outcome_when, rule outcome_cond)
        (auto intro!: outcome_fail outcome_bind[OF outcome_open_to_read] outcome_on_os[OF outcome_read_file])
  qed
qed (auto simp: unread_snoc read_call_def confined_def)

section \<open>Placing an entry\<close>

text \<open>
  fs.symlink and fs.put_small make an entry under a temporary name in a directory opened for writing and
  rename it over the name asked for. \<open>made\<close> says that the entry is complete, \<open>link\<close> that a target may be linked.
\<close>

definition place_io :: "obj \<Rightarrow> ustr list \<Rightarrow> ustr \<Rightarrow> (fs_trace \<Rightarrow> nat \<Rightarrow> ustr \<Rightarrow> bool) \<Rightarrow> (fs_trace \<Rightarrow> nat \<Rightarrow> ustr \<Rightarrow> bool) \<Rightarrow> fs_trace \<Rightarrow> fs_call \<Rightarrow> bool" where
  "place_io c parent name made link t call =
     (case call of
        RenameAt d x y \<Rightarrow> write_dir c parent t d \<and> y = name \<and> (\<exists>bs. x = temp_name name bs) \<and> made t d x
      | UnlinkAt d x \<Rightarrow> write_dir c parent t d \<and> (\<exists>bs. x = temp_name name bs)
      | SymlinkAt target d x \<Rightarrow> write_dir c parent t d \<and> (\<exists>bs. x = temp_name name bs) \<and> link t d target
      | WriteTo f bs \<Rightarrow> (\<exists>d x. OpenAt ONew d x (Inr f) \<in> set t)
      | SyncFd _ \<Rightarrow> True
      | _ \<Rightarrow> False)"

definition place_call ::
  "disk \<Rightarrow> policy \<Rightarrow> obj \<Rightarrow> ustr list \<Rightarrow> ustr \<Rightarrow> (fs_trace \<Rightarrow> nat \<Rightarrow> ustr \<Rightarrow> bool) \<Rightarrow> (fs_trace \<Rightarrow> nat \<Rightarrow> ustr \<Rightarrow> bool) \<Rightarrow> fs_trace \<Rightarrow> fs_event \<Rightarrow> bool" where
  "place_call w p c parent name made link t e \<longleftrightarrow> confined w p t e \<and>
     (case e of
        OpenAt k d n r \<Rightarrow> k = ONew \<and> write_dir c parent t d \<and> (\<exists>bs. n = temp_name name bs)
      | Io call r \<Rightarrow> place_io c parent name made link t call
      | _ \<Rightarrow> True)"

lemma allows_place [simp]: "allows (place_call w p c parent name made link)"
  unfolding allows_def
proof (intro allI impI)
  fix t e assume "benign e"
  then show "place_call w p c parent name made link t e"
    by (cases e rule: benign.cases) (auto simp: place_call_def confined_def)
qed

definition in_dir :: "obj \<Rightarrow> ustr list \<Rightarrow> nat \<Rightarrow> fs_trace \<Rightarrow> bool" where
  "in_dir c parent d t \<longleftrightarrow> unrenamed t \<and> write_dir c parent t d"

lemma in_dir_snoc: "in_dir c parent d t \<Longrightarrow> (\<And>x y z. e \<noteq> Io (RenameAt x y z) None) \<Longrightarrow> in_dir c parent d (t @ [e])"
  by (auto simp: in_dir_def unrenamed_snoc write_dir_snoc)

lemma steady_in_dir [simp]: "steady (in_dir c parent d)"
  by (auto simp: steady_def in_dir_def unrenamed_benign write_dir_snoc)

lemma steady_and: "steady A \<Longrightarrow> steady B \<Longrightarrow> steady (\<lambda>t. A t \<and> B t)"
  by simp

lemma outcome_replace:
  fixes w p c parent name made link
  defines "P \<equiv> place_call w p c parent name made link"
  assumes L: "steady L" "\<And>t. L t \<Longrightarrow> in_dir c parent d t"
    and mk: "\<And>bs. runs_to P L (mk (temp_name name bs)) (in_dir c parent d) (\<lambda>_ t. in_dir c parent d t \<and> made t d (temp_name name bs))"
  shows "runs_to P L (replace_into w d name mk) unrenamed (\<lambda>_ t. \<exists>bs. renamed t d (temp_name name bs) name)"
  unfolding replace_into_def
proof (rule keeps_step[where A = L])
  have u: "L t \<Longrightarrow> unrenamed t" for t using L(2) by (simp add: in_dir_def)
  show "keeps P L (lstat_at w d name)" by (rule keeps_lstat) (simp_all add: L P_def)
  show "L t \<Longrightarrow> unrenamed t" for t by (rule u)
  fix st
  have failed: "runs_to P (in_dir c parent d) (replace_failed w d name (temp_name name bs) n) unrenamed B" for bs n B
    unfolding replace_failed_def
    by (rule outcome_bind[where B = "\<lambda>_. in_dir c parent d"], rule outcome_quietly)
      (auto simp: P_def place_call_def confined_def place_io_def in_dir_def unrenamed_snoc write_dir_snoc intro!: outcome_fail)
  have put: "runs_to P L (pbind (mk (temp_name name bs)) (\<lambda>_. io w (RenameAt d (temp_name name bs) name))) (in_dir c parent d)
      (\<lambda>_ t. renamed t d (temp_name name bs) name)" for bs
    by (rule outcome_bind, rule mk, rule outcome_io)
      (auto simp: P_def place_call_def confined_def place_io_def in_dir_def unrenamed_snoc write_dir_snoc renamed_def)
  have synced: "runs_to P (\<lambda>t. renamed t d (temp_name name bs) name) (quietly w (SyncFd d)) unrenamed
      (\<lambda>_ t. \<exists>bs. renamed t d (temp_name name bs) name)" for bs
    by (rule outcome_quietly) (auto simp: P_def place_call_def confined_def place_io_def renamed_def)
  have whole: "runs_to P L (pbind (on_os (pbind (mk (temp_name name bs)) (\<lambda>_. io w (RenameAt d (temp_name name bs) name)))
        (replace_failed w d name (temp_name name bs))) (\<lambda>_. quietly w (SyncFd d))) unrenamed
      (\<lambda>_ t. \<exists>bs. renamed t d (temp_name name bs) name)" for bs
    by (rule outcome_bind[OF outcome_on_os[OF put failed] synced]) (simp add: in_dir_def)
  show "runs_to P L (if some_is st_dir st then pfail (HOp CONFLICT (repr_take name 200 @ U '' is a directory''))
     else if some_is st_special st then pfail (special_refused (repr_take name 200))
     else pbind (ask (\<lambda>t. d_random w t 6) (RandomBytes 6)) (\<lambda>bs.
       (let tmp = temp_name name bs in
        pbind (on_os (pbind (mk tmp) (\<lambda>_. io w (RenameAt d tmp name))) (replace_failed w d name tmp)) (\<lambda>_.
        quietly w (SyncFd d))))) unrenamed (\<lambda>_ t. \<exists>bs. renamed t d (temp_name name bs) name)"
    unfolding Let_def
    by (intro outcome_cond outcome_fail keeps_step[OF keeps_ask[OF L(1)]] whole) (auto simp: u P_def)
qed

text \<open>fs.put_small: the entry is a new file that holds the decoded content and is synced.\<close>

definition small_made :: "u8 list \<Rightarrow> fs_trace \<Rightarrow> nat \<Rightarrow> ustr \<Rightarrow> bool" where
  "small_made content t d x \<longleftrightarrow>
     (\<exists>f. OpenAt ONew d x (Inr f) \<in> set t \<and> Io (WriteTo f content) None \<in> set t \<and> Io (SyncFd f) None \<in> set t)"

definition no_link :: "fs_trace \<Rightarrow> nat \<Rightarrow> ustr \<Rightarrow> bool" where "no_link t d target = False"

lemma outcome_write_small:
  "runs_to (place_call w p c parent name (small_made content) no_link) (in_dir c parent d) (write_small w d content (temp_name name bs))
     (in_dir c parent d) (\<lambda>_ t. in_dir c parent d t \<and> small_made content t d (temp_name name bs))"
  unfolding write_small_def
proof (rule outcome_bind[where B = "\<lambda>f t. in_dir c parent d t \<and> OpenAt ONew d (temp_name name bs) (Inr f) \<in> set t"])
  let ?P = "place_call w p c parent name (small_made content) no_link"
  let ?B = "\<lambda>f t. in_dir c parent d t \<and> OpenAt ONew d (temp_name name bs) (Inr f) \<in> set t"
  show "runs_to ?P (in_dir c parent d) (pbind (open_at w ONew d (temp_name name bs)) os_result) (in_dir c parent d) ?B"
  proof (rule outcome_bind[where B = "\<lambda>r t. in_dir c parent d t \<and> (\<forall>f. r = Inr f \<longrightarrow> OpenAt ONew d (temp_name name bs) (Inr f) \<in> set t)"],
      rule outcome_open)
    show "runs_to ?P (\<lambda>t. in_dir c parent d t \<and> (\<forall>f. r = Inr f \<longrightarrow> OpenAt ONew d (temp_name name bs) (Inr f) \<in> set t)) (os_result r)
        (in_dir c parent d) ?B" for r
      by (cases r) (auto simp: os_result_def intro!: outcome_ret outcome_fail)
  qed (auto simp: place_call_def confined_def in_dir_snoc, simp add: in_dir_def)
  fix f
  show "runs_to ?P (?B f) (pbind (io w (WriteTo f content)) (\<lambda>_. io w (SyncFd f))) (in_dir c parent d)
      (\<lambda>_ t. in_dir c parent d t \<and> small_made content t d (temp_name name bs))"
    by (rule outcome_bind[where B = "\<lambda>_ t. ?B f t \<and> Io (WriteTo f content) None \<in> set t"]; rule outcome_io)
      (auto simp: place_call_def confined_def place_io_def in_dir_snoc small_made_def)
qed

lemma unrenamed_Nil [simp]: "unrenamed []"
  by (simp add: unrenamed_def renamed_def)

definition placed :: "ustr \<Rightarrow> fs_trace \<Rightarrow> bool" where
  "placed name t \<longleftrightarrow> (\<exists>d bs. renamed t d (temp_name name bs) name)"

lemma placedI: "\<exists>bs. renamed t d (temp_name name bs) name \<Longrightarrow> placed name t"
  unfolding placed_def by (rule exI)

text \<open>Up to the directory: the root, the arguments, the directory.\<close>

definition at_root :: "obj \<Rightarrow> root_handle \<Rightarrow> fs_trace \<Rightarrow> bool" where
  "at_root c h t \<longleftrightarrow> unrenamed t \<and> OpenRoot (arg c (U ''root'')) True (Inr h) \<in> set t"

lemma at_root_unrenamed: "at_root c h t \<Longrightarrow> unrenamed t"
  by (simp add: at_root_def)

lemma outcome_place_root:
  "runs_to (place_call w p c parent name made link) unrenamed (root_at w p (arg c (U ''root'')) True) unrenamed (at_root c)"
  by (rule outcome_weaken[OF outcome_root[where A = unrenamed and E = unrenamed]])
    (auto simp: place_call_def confined_def unrenamed_snoc at_root_def)

definition at_dir :: "obj \<Rightarrow> root_handle \<Rightarrow> ustr list \<Rightarrow> nat \<Rightarrow> fs_trace \<Rightarrow> bool" where
  "at_dir c h parent d t \<longleftrightarrow> at_root c h t \<and> OpenDir h parent True (Inr d) \<in> set t"

lemma steady_at_dir [simp]: "steady (at_dir c h parent d)"
  by (auto simp: steady_def at_dir_def at_root_def unrenamed_benign)

lemma at_dir_in_dir: "at_dir c h parent d t \<Longrightarrow> in_dir c parent d t"
  by (auto simp: at_dir_def at_root_def in_dir_def write_dir_def)

lemma outcome_place_dir:
  "runs_to (place_call w p c parent name made link) (at_root c h) (pbind (dir_at w h parent True) plift) unrenamed (at_dir c h parent)"
  by (rule outcome_weaken[OF outcome_dir[where A = "at_root c h" and E = unrenamed]])
    (auto simp: place_call_def confined_def unrenamed_snoc at_root_def at_dir_def)

lemma write_split:
  assumes "split_rel_for_write v what = Inr parts"
  shows "parts \<noteq> []"
  using assms split_rel_Inr(2) by (auto simp: split_rel_for_write_def res_simps)

lemma outcome_fs_put_small:
  assumes rel: "split_rel_for_write (json_str (arg c (U ''rel''))) (U ''path'') = Inr parts"
    and content: "content_arg (arg c (U ''content_b64'')) = Inr content"
  shows "runs_to (place_call w p c (butlast parts) (last parts) (small_made content) no_link) unrenamed (fs_put_small w p c)
     unrenamed (\<lambda>_. placed (last parts))"
  unfolding fs_put_small_def rel content
proof (rule outcome_bind[OF outcome_place_root])
  fix h
  let ?P = "place_call w p c (butlast parts) (last parts) (small_made content) no_link"
  have "runs_to ?P (at_root c h) (if PUT_SMALL_MAX < length content then
       pfail (HOp BAD_ARGS (U ''fs.put_small takes at most '' @ dec PUT_SMALL_MAX @ U '' bytes; use fs.write''))
     else pbind (pbind (dir_at w h (butlast parts) True) plift) (\<lambda>dfd.
       pbind (replace_into w dfd (last parts) (write_small w dfd content)) (\<lambda>_. pret []))) unrenamed (\<lambda>_. placed (last parts))"
  proof (intro outcome_cond outcome_fail outcome_bind[OF outcome_place_dir])
    fix d
    show "runs_to ?P (at_dir c h (butlast parts) d) (pbind (replace_into w d (last parts) (write_small w d content)) (\<lambda>_. pret []))
        unrenamed (\<lambda>_. placed (last parts))"
      by (rule outcome_bind, rule outcome_replace, simp, rule at_dir_in_dir, assumption,
          rule outcome_weaken[OF outcome_write_small], rule at_dir_in_dir, assumption)
        (auto intro!: outcome_ret placedI)
  qed (rule at_root_unrenamed)
  then show "runs_to ?P (at_root c h) (pbind (plift (Inr parts)) (\<lambda>parts. pbind (hlift (Inr content)) (\<lambda>content.
      if PUT_SMALL_MAX < length content then
        pfail (HOp BAD_ARGS (U ''fs.put_small takes at most '' @ dec PUT_SMALL_MAX @ U '' bytes; use fs.write''))
      else pbind (pbind (dir_at w h (butlast parts) True) plift) (\<lambda>dfd.
        pbind (replace_into w dfd (last parts) (write_small w dfd content)) (\<lambda>_. pret []))))) unrenamed (\<lambda>_. placed (last parts))"
    by (simp only: given)
qed

text \<open>
  fs.symlink: the entry is a link whose target, seen from where the directory is, resolves inside the root; it is
  relative and climbs only at its start.
\<close>

definition link_inside :: "disk \<Rightarrow> obj \<Rightarrow> ustr list \<Rightarrow> fs_trace \<Rightarrow> nat \<Rightarrow> ustr \<Rightarrow> bool" where
  "link_inside w c parent t d target \<longleftrightarrow> target_arg (arg c (U ''target'')) = Inr target \<and> ups_ok target
     \<and> (\<exists>h loc rl u v. OpenRoot (arg c (U ''root'')) True (Inr h) \<in> set t \<and> FdPath d loc \<in> set t
          \<and> t = u @ RealPath (join_paths (unwrap_or (handle_path h parent) loc) [target]) rl # v
          \<and> rl = real_of (d_fs w u) (join_paths (unwrap_or (handle_path h parent) loc) [target]) \<and> inside rl (rh_real h))"

definition link_made :: "ustr \<Rightarrow> fs_trace \<Rightarrow> nat \<Rightarrow> ustr \<Rightarrow> bool" where
  "link_made target t d x \<longleftrightarrow> Io (SymlinkAt target d x) None \<in> set t"

lemma link_inside_snoc: "link_inside w c parent t d target \<Longrightarrow> link_inside w c parent (t @ [e]) d target"
  unfolding link_inside_def by (fastforce simp: append_eq_append_conv2)

lemma steady_link [simp]: "steady (\<lambda>t. link_inside w c parent t d target)"
  by (auto simp: steady_def link_inside_snoc)

lemma outcome_fs_symlink:
  assumes rel: "split_rel_for_write (json_str (arg c (U ''link''))) (U ''link'') = Inr parts"
    and target: "target_arg (arg c (U ''target'')) = Inr target"
  defines "parent \<equiv> butlast parts"
  shows "runs_to (place_call w p c parent (last parts) (link_made target) (link_inside w c parent)) unrenamed (fs_symlink w p c)
     unrenamed (\<lambda>_. placed (last parts))"
  unfolding fs_symlink_def rel target
proof (rule outcome_bind[OF outcome_place_root])
  fix h
  let ?P = "place_call w p c parent (last parts) (link_made target) (link_inside w c parent)"
  let ?tail = "\<lambda>dfd loc. pbind (real_path w (join_paths (unwrap_or (handle_path h parent) loc) [target])) (\<lambda>rl.
      if \<not> inside rl (rh_real h) then pfail (HOp POLICY_DENIED (U ''the link target leads outside the model root''))
      else pbind (replace_into w dfd (last parts) (\<lambda>tmp. io w (SymlinkAt target dfd tmp))) (\<lambda>_. pret []))"
  have replace: "runs_to ?P (\<lambda>t. at_dir c h parent d t \<and> link_inside w c parent t d target)
      (pbind (replace_into w d (last parts) (\<lambda>tmp. io w (SymlinkAt target d tmp))) (\<lambda>_. pret [])) unrenamed (\<lambda>_. placed (last parts))" for d
  proof (rule outcome_bind, rule outcome_replace)
    fix bs
    show "runs_to ?P (\<lambda>t. at_dir c h parent d t \<and> link_inside w c parent t d target) (io w (SymlinkAt target d (temp_name (last parts) bs)))
        (in_dir c parent d) (\<lambda>_ t. in_dir c parent d t \<and> link_made target t d (temp_name (last parts) bs))"
      by (rule outcome_io) (auto simp: place_call_def confined_def place_io_def link_made_def in_dir_snoc at_dir_in_dir
          dest!: at_dir_in_dir simp: in_dir_def unrenamed_snoc write_dir_snoc)
  qed (auto intro!: outcome_ret placedI simp: at_dir_in_dir)
  have tail: "runs_to ?P (\<lambda>t. at_dir c h parent d t \<and> FdPath d loc \<in> set t) (?tail d loc) unrenamed (\<lambda>_. placed (last parts))" if "ups_ok target" for d loc
  proof (rule outcome_bind[where B = "\<lambda>rl t. at_dir c h parent d t \<and> (inside rl (rh_real h) \<longrightarrow> link_inside w c parent t d target)"])
    let ?p = "join_paths (unwrap_or (handle_path h parent) loc) [target]"
    show "runs_to ?P (\<lambda>t. at_dir c h parent d t \<and> FdPath d loc \<in> set t) (real_path w ?p) unrenamed
        (\<lambda>rl t. at_dir c h parent d t \<and> (inside rl (rh_real h) \<longrightarrow> link_inside w c parent t d target))"
      unfolding real_path_def
    proof (rule outcome_told)
      fix t assume t: "at_dir c h parent d t \<and> FdPath d loc \<in> set t"
      show "?P t (RealPath ?p (real_of (d_fs w t) ?p))" by (simp add: place_call_def confined_def)
      let ?t = "t @ [RealPath ?p (real_of (d_fs w t) ?p)]"
      have "at_dir c h parent d ?t" using t steady_at_dir by (auto simp: steady_def)
      moreover have "inside (real_of (d_fs w t) ?p) (rh_real h) \<Longrightarrow> link_inside w c parent ?t d target"
        unfolding link_inside_def using t target that
        by (intro conjI exI[of _ h] exI[of _ loc] exI[of _ "real_of (d_fs w t) ?p"] exI[of _ t] exI[of _ "[]"])
          (simp_all add: at_dir_def at_root_def)
      ultimately show "at_dir c h parent d ?t \<and> (inside (real_of (d_fs w t) ?p) (rh_real h) \<longrightarrow> link_inside w c parent ?t d target)" by blast
    qed
    fix rl
    show "runs_to ?P (\<lambda>t. at_dir c h parent d t \<and> (inside rl (rh_real h) \<longrightarrow> link_inside w c parent t d target))
        (if \<not> inside rl (rh_real h) then pfail (HOp POLICY_DENIED (U ''the link target leads outside the model root''))
         else pbind (replace_into w d (last parts) (\<lambda>tmp. io w (SymlinkAt target d tmp))) (\<lambda>_. pret [])) unrenamed (\<lambda>_. placed (last parts))"
      using replace by (cases "inside rl (rh_real h)") (auto intro!: outcome_fail simp: at_dir_def at_root_def)
  qed
  have "runs_to ?P (at_root c h) (if \<not> ups_ok target then
       pfail (HOp POLICY_DENIED (U ''the link target may use '..' only at its start, like ../../blobs/<hash>''))
     else pbind (pbind (dir_at w h parent True) plift) (\<lambda>dfd. pbind (fd_path_of w dfd) (?tail dfd))) unrenamed (\<lambda>_. placed (last parts))"
  proof (intro outcome_cond outcome_fail outcome_bind[OF outcome_place_dir])
    fix d assume "\<not> \<not> ups_ok target"
    then show "runs_to ?P (at_dir c h parent d) (pbind (fd_path_of w d) (?tail d)) unrenamed (\<lambda>_. placed (last parts))"
      by (intro outcome_bind[OF _ tail], simp_all add: fd_path_of_def)
        (rule outcome_told, insert steady_at_dir[of c h parent d], auto simp: place_call_def confined_def steady_def)
  qed (rule at_root_unrenamed)
  then show "runs_to ?P (at_root c h) (pbind (plift (Inr parts)) (\<lambda>parts. pbind (hlift (Inr target)) (\<lambda>target.
      if \<not> ups_ok target then
       pfail (HOp POLICY_DENIED (U ''the link target may use '..' only at its start, like ../../blobs/<hash>''))
     else pbind (pbind (dir_at w h (butlast parts) True) plift) (\<lambda>dfd.
       pbind (fd_path_of w dfd) (\<lambda>loc.
       (let base = unwrap_or (handle_path h (butlast parts)) loc in
        pbind (real_path w (join_paths base [target])) (\<lambda>rl.
        if \<not> inside rl (rh_real h) then pfail (HOp POLICY_DENIED (U ''the link target leads outside the model root''))
        else pbind (replace_into w dfd (last parts) (\<lambda>tmp. io w (SymlinkAt target dfd tmp))) (\<lambda>_.
          pret [])))))))) unrenamed (\<lambda>_. placed (last parts))"
    by (simp only: given parent_def Let_def)
qed

end
