(* ===== verification/FsDelete.thy ===== *)
theory FsDelete
  imports FsGuard
begin

text \<open>
  What fs.delete may remove (crates/ecnode/src/fsops.rs): only what it named below a writable root, after
  every check on where that is, and below a directory only through descriptors reached from it.
\<close>

section \<open>The checks that go before\<close>

text \<open>
  \<open>d\<close> is the parent directory and \<open>rl\<close> where the target is: inside the root, not the root, holding no
  other root and nothing a running container mounts.
\<close>

definition unmounted :: "fs_trace \<Rightarrow> ustr \<Rightarrow> bool" where
  "unmounted t rl \<longleftrightarrow> (\<exists>ms. RunningMounts (Inr ms) \<in> set t
     \<and> (\<forall>m \<in> set ms. \<not> inside m rl \<and> (\<exists>mr. RealPath m mr \<in> set t \<and> \<not> inside mr rl)))"

definition holds_no_root :: "policy \<Rightarrow> root_handle \<Rightarrow> fs_trace \<Rightarrow> ustr \<Rightarrow> bool" where
  "holds_no_root p h t rl \<longleftrightarrow> (\<forall>other \<in> set (model_roots p). rt_id other \<noteq> rt_id (rh_root h) \<longrightarrow>
     (\<exists>oreal. RealPath (rt_path other) oreal \<in> set t \<and> \<not> inside oreal rl))"

definition parent_dir :: "obj \<Rightarrow> root_handle \<Rightarrow> ustr \<Rightarrow> fs_trace \<Rightarrow> nat \<Rightarrow> bool" where
  "parent_dir c h name t d \<longleftrightarrow> OpenRoot (arg c (U ''root'')) True (Inr h) \<in> set t
     \<and> (\<exists>parts. split_rel (json_str (arg c (U ''rel''))) (U ''path'') = Inr parts \<and> name = last parts
          \<and> OpenDir h (butlast parts) False (Inr d) \<in> set t)"

definition file_target :: "root_handle \<Rightarrow> ustr \<Rightarrow> fs_trace \<Rightarrow> nat \<Rightarrow> ustr \<Rightarrow> bool" where
  "file_target h name t d rl \<longleftrightarrow> (\<exists>parent st. FdPath d (Some parent) \<in> set t \<and> inside parent (rh_real h)
     \<and> LstatAt d name (Inr st) \<in> set t \<and> \<not> st_dir st \<and> rl = join_paths parent [name])"

text \<open>Where a directory is was asked again after the containers' mounts were.\<close>

definition pinned :: "fs_trace \<Rightarrow> ustr \<Rightarrow> nat \<Rightarrow> bool" where
  "pinned t rl f \<longleftrightarrow> (\<exists>u ms v. t = u @ RunningMounts (Inr ms) # v \<and> FdPath f (Some rl) \<in> set v)"

definition dir_target :: "ustr \<Rightarrow> fs_trace \<Rightarrow> nat \<Rightarrow> ustr \<Rightarrow> nat \<Rightarrow> bool" where
  "dir_target name t d rl f \<longleftrightarrow> OpenAt OSub d name (Inr f) \<in> set t \<and> pinned t rl f"

definition cleared :: "policy \<Rightarrow> obj \<Rightarrow> root_handle \<Rightarrow> ustr \<Rightarrow> fs_trace \<Rightarrow> nat \<Rightarrow> ustr \<Rightarrow> bool" where
  "cleared p c h name t d rl \<longleftrightarrow> allow_delete p \<and> parent_dir c h name t d
     \<and> rl \<noteq> [] \<and> inside rl (rh_real h) \<and> rl \<noteq> rh_real h \<and> holds_no_root p h t rl \<and> unmounted t rl"

text \<open>The descriptors reached from a directory by opening names below it.\<close>

inductive_set below :: "fs_trace \<Rightarrow> nat \<Rightarrow> nat set" for t f where
  below_top: "f \<in> below t f"
| below_open: "x \<in> below t f \<Longrightarrow> OpenAt OSub x n (Inr g) \<in> set t \<Longrightarrow> g \<in> below t f"

lemma below_mono: "x \<in> below t f \<Longrightarrow> x \<in> below (t @ [e]) f"
  by (induction rule: below.induct) (auto intro: below.intros)

definition delete_io :: "policy \<Rightarrow> obj \<Rightarrow> fs_trace \<Rightarrow> fs_call \<Rightarrow> bool" where
  "delete_io p c t call =
     (case call of
        UnlinkAt x n \<Rightarrow> (\<exists>h name d rl. cleared p c h name t d rl
          \<and> (x = d \<and> n = name \<and> file_target h name t d rl \<or> (\<exists>f. dir_target name t d rl f \<and> x \<in> below t f)))
      | RmdirAt x n \<Rightarrow> (\<exists>h name d rl f. cleared p c h name t d rl \<and> dir_target name t d rl f \<and> (x = d \<and> n = name \<or> x \<in> below t f))
      | _ \<Rightarrow> False)"

definition delete_call :: "disk \<Rightarrow> policy \<Rightarrow> obj \<Rightarrow> fs_trace \<Rightarrow> fs_event \<Rightarrow> bool" where
  "delete_call w p c t e \<longleftrightarrow> confined w p t e \<and>
     (case e of
        OpenDir h parts create r \<Rightarrow> \<not> create
      | OpenAt k x n r \<Rightarrow> k = OSub \<and> ((\<exists>h. parent_dir c h n t x)
          \<or> (\<exists>h name d rl f. cleared p c h name t d rl \<and> dir_target name t d rl f \<and> x \<in> below t f))
      | Io call r \<Rightarrow> delete_io p c t call
      | SendData _ _ \<Rightarrow> False
      | _ \<Rightarrow> True)"

lemma allows_delete [simp]: "allows (delete_call w p c)"
  unfolding allows_def
proof (intro allI impI)
  fix t e assume "benign e"
  then show "delete_call w p c t e"
    by (cases e rule: benign.cases) (auto simp: delete_call_def confined_def)
qed

section \<open>Facts that only grow\<close>

lemma stable_mem [simp]: "stable (\<lambda>t. e \<in> set t)"
  by (simp add: stable_def)

lemma stable_const [simp]: "stable (\<lambda>t. b)"
  by (simp add: stable_def)

lemma stable_impl [simp]: "stable A \<Longrightarrow> stable (\<lambda>t. b \<longrightarrow> A t)"
  by (simp add: stable_def)

lemma stable_below [simp]: "stable (\<lambda>t. x \<in> below t f)"
  by (simp add: stable_def below_mono)

lemma stable_cleared [simp]: "stable (\<lambda>t. cleared p c h name t d rl)"
  unfolding cleared_def parent_dir_def holds_no_root_def unmounted_def by simp

lemma stable_pinned [simp]: "stable (\<lambda>t. pinned t rl f)"
  by (fastforce simp: stable_def pinned_def)

lemma stable_dir_target [simp]: "stable (\<lambda>t. dir_target name t d rl f)"
  unfolding dir_target_def by simp

lemma stable_file_target [simp]: "stable (\<lambda>t. file_target h name t d rl)"
  unfolding file_target_def by simp

lemma stable_parent_dir [simp]: "stable (\<lambda>t. parent_dir c h name t d)"
  unfolding parent_dir_def by simp

lemma stable_steady: "stable A \<Longrightarrow> steady A"
  by (simp add: stable_def steady_def)

lemma stable_snoc: "stable A \<Longrightarrow> A t \<Longrightarrow> A (t @ [e])"
  by (simp add: stable_def)

lemma keeps_io: "stable A \<Longrightarrow> (\<And>t r. A t \<Longrightarrow> P t (Io call r)) \<Longrightarrow> keeps P A (io w call)"
  unfolding keeps_def by (rule outcome_io) (auto intro: stable_snoc)

lemma keeps_weaken: "runs_to P A m A (\<lambda>_. B) \<Longrightarrow> (\<And>t. B t \<Longrightarrow> A t) \<Longrightarrow> keeps P A m"
  unfolding keeps_def by (erule outcome_weaken) auto

section \<open>Emptying a directory\<close>

text \<open>\<open>sub\<close> keeps any growing fact under which it may work on the descriptor it is given.\<close>

definition tame :: "(fs_trace \<Rightarrow> fs_event \<Rightarrow> bool) \<Rightarrow> (fs_trace \<Rightarrow> nat \<Rightarrow> bool) \<Rightarrow> (nat \<Rightarrow> inodes \<Rightarrow> (int \<times> inodes) guarded) \<Rightarrow> bool" where
  "tame P W sub \<longleftrightarrow> (\<forall>x seen A. stable A \<and> (\<forall>t. A t \<longrightarrow> W t x) \<longrightarrow> keeps P A (sub x seen))"

definition working :: "policy \<Rightarrow> obj \<Rightarrow> fs_trace \<Rightarrow> nat \<Rightarrow> bool" where
  "working p c t x \<longleftrightarrow> (\<exists>h name d rl f. cleared p c h name t d rl \<and> dir_target name t d rl f \<and> x \<in> below t f)"

lemma working_open: "working p c t x \<Longrightarrow> working p c (t @ [OpenAt OSub x n (Inr g)]) g"
  unfolding working_def
  using stable_snoc[OF stable_cleared] stable_snoc[OF stable_dir_target]
  by (metis below_mono below_open in_set_conv_decomp)

lemma stable_working [simp]: "stable (\<lambda>t. working p c t x)"
  unfolding working_def by simp

lemma working_calls:
  assumes "working p c t x"
  shows "delete_call w p c t (Io (UnlinkAt x n) r)" "delete_call w p c t (Io (RmdirAt x n) r)" "delete_call w p c t (OpenAt OSub x n r')"
  using assms unfolding delete_call_def confined_def delete_io_def working_def by (simp; blast)+

lemma keeps_remove_names:
  assumes "tame (delete_call w p c) (working p c) sub" "stable A" "\<And>t. A t \<Longrightarrow> working p c t x"
  shows "keeps (delete_call w p c) A (remove_names w sub x seen names)"
  using assms(2,3)
proof (induction names arbitrary: seen)
  case (Cons n names)
  let ?P = "delete_call w p c"
  note IH = Cons.IH[OF Cons.prems]
  have unlink: "keeps ?P A (io w (UnlinkAt x n))" "keeps ?P A (io w (RmdirAt x n))"
    by (rule keeps_io[OF Cons.prems(1)]; rule working_calls; rule Cons.prems(2), assumption)+
  have more: "keeps ?P A (pbind (remove_names w sub x s names) (\<lambda>(more, seen). pret (freed + more, seen)))" for s freed
    by (rule keeps_bind[OF IH]) (auto split: prod.splits)
  have subdir: "keeps ?P A (pbind (pbind (open_at w OSub x n) os_result) (\<lambda>fd. pbind (sub fd seen) (\<lambda>(freed, seen).
      pbind (io w (RmdirAt x n)) (\<lambda>_. pbind (remove_names w sub x seen names) (\<lambda>(more, seen). pret (freed + more, seen))))))" for seen
    unfolding keeps_def
  proof (rule outcome_bind)
    show "runs_to ?P A (pbind (open_at w OSub x n) os_result) A (\<lambda>g t. A t \<and> working p c t g)"
    proof (rule outcome_bind[where B = "\<lambda>r t. A t \<and> (\<forall>g. r = Inr g \<longrightarrow> working p c t g)"], rule outcome_open)
      show "runs_to ?P (\<lambda>t. A t \<and> (\<forall>g. r = Inr g \<longrightarrow> working p c t g)) (os_result r) A (\<lambda>g t. A t \<and> working p c t g)" for r
        by (cases r) (auto simp: os_result_def intro!: outcome_ret outcome_fail)
    qed (use Cons.prems in \<open>auto intro: working_calls working_open stable_snoc\<close>)
    fix g
    let ?A = "\<lambda>t. A t \<and> working p c t g"
    have "keeps ?P ?A (sub g seen)" using assms(1) Cons.prems(1) unfolding tame_def by simp
    then show "runs_to ?P ?A (pbind (sub g seen) (\<lambda>(freed, seen). pbind (io w (RmdirAt x n)) (\<lambda>_.
        pbind (remove_names w sub x seen names) (\<lambda>(more, seen). pret (freed + more, seen))))) A (\<lambda>_. A)"
      by (rule keeps_step) (auto intro!: outcome_weaken[OF keeps_bind[OF unlink(2) more, unfolded keeps_def]] split: prod.splits)
  qed
  show ?case
    unfolding remove_names.simps
    by (intro keeps_bind[OF keeps_inner[OF keeps_lstat[OF stable_steady[OF Cons.prems(1)] allows_delete]]])
      (auto intro!: IH subdir keeps_bind[OF unlink(1)] more split: option.splits prod.splits)
qed auto

lemma keeps_names_in: "steady A \<Longrightarrow> allows P \<Longrightarrow> keeps P A (names_in w fd)"
proof -
  assume a: "steady A" "allows P"
  have "keeps P A (pmap os_result entries)" for entries :: "(errno + ustr) list"
    by (induction entries) (auto intro: keeps_os_result)
  then show ?thesis unfolding names_in_def by (auto intro!: keeps_ask keeps_os_result a)
qed

lemma tame_empty_dir: "tame (delete_call w p c) (working p c) (empty_dir_at w left)"
proof (induction left)
  case 0
  show ?case by (auto simp: tame_def intro: keeps_refuse)
next
  case (Suc left)
  show ?case
    unfolding tame_def empty_dir_at.simps
    by (auto intro!: keeps_bind keeps_names_in keeps_remove_names[OF Suc] stable_steady)
qed

section \<open>The whole operation\<close>

abbreviation anyway :: "fs_trace \<Rightarrow> bool" where "anyway \<equiv> (\<lambda>_. True)"

lemma outcome_of_yields: "yields P A m B \<Longrightarrow> runs_to P A m anyway B"
  unfolding runs_to_def yields_def by (erule triple_weaken) (auto split: sum.splits)

lemma yields_of_outcome: "runs_to P A m anyway B \<Longrightarrow> yields P A m B"
  by (rule outcome_yields)

lemma outcome_lstat:
  assumes "stable A" "allows P"
  shows "runs_to P A (lstat_at w d n) anyway (\<lambda>st t. A t \<and> (\<forall>s. st = Some s \<longrightarrow> LstatAt d n (Inr s) \<in> set t))"
  unfolding lstat_at_def
proof (rule outcome_bind[where B = "\<lambda>r t. A t \<and> (\<forall>s. r = Inr s \<longrightarrow> LstatAt d n (Inr s) \<in> set t)"], rule outcome_told)
  show "runs_to P (\<lambda>t. A t \<and> (\<forall>s. r = Inr s \<longrightarrow> LstatAt d n (Inr s) \<in> set t)) (case r of Inr st \<Rightarrow> pret (Some st) | Inl EMissing \<Rightarrow> pret None
     | Inl e \<Rightarrow> pfail (HOp IO_ERROR (U ''cannot look at '' @ repr_take n 200 @ U '': '' @ d_errno w e))) anyway
     (\<lambda>st t. A t \<and> (\<forall>s. st = Some s \<longrightarrow> LstatAt d n (Inr s) \<in> set t))" for r
    by (auto intro!: outcome_ret outcome_fail split: sum.splits errno.splits)
qed (use assms in \<open>auto simp: allows_def intro: stable_snoc\<close>)

lemma outcome_fd_path:
  assumes "stable A" "allows P"
  shows "runs_to P A (fd_path_of w fd) E (\<lambda>loc t. A t \<and> FdPath fd loc \<in> set t)"
  unfolding fd_path_of_def by (rule outcome_told) (use assms in \<open>auto simp: allows_def intro: stable_snoc\<close>)

lemma outcome_real_path:
  assumes "stable A" "allows P"
  shows "runs_to P A (real_path w x) E (\<lambda>rl t. A t \<and> RealPath x rl \<in> set t)"
  unfolding real_path_def by (rule outcome_told) (use assms in \<open>auto simp: allows_def intro: stable_snoc\<close>)

lemma outcome_confirm_parent:
  assumes "stable A" "allows P"
  shows "runs_to P A (confirm_parent w h d) anyway (\<lambda>parent t. A t \<and> FdPath d (Some parent) \<in> set t \<and> inside parent (rh_real h))"
  unfolding confirm_parent_def
  by (rule outcome_bind[OF outcome_fd_path[OF assms]])
    (auto intro!: outcome_ret outcome_fail simp: fd_inside_def unwrap_or_def split: option.splits)

lemma outcome_other_root:
  assumes "stable A" "allows P"
  shows "runs_to P A (other_root_check w h rl r other) anyway (\<lambda>_ t. A t
     \<and> (rt_id other \<noteq> rt_id (rh_root h) \<longrightarrow> (\<exists>oreal. RealPath (rt_path other) oreal \<in> set t \<and> \<not> inside oreal rl)))"
  unfolding other_root_check_def
  by (rule outcome_bind[OF outcome_real_path[OF assms]]) (auto intro!: outcome_ret outcome_fail)

lemma outcome_other_roots:
  assumes "stable A" "allows P"
  shows "runs_to P A (peach (other_root_check w h rl r) (model_roots p)) anyway (\<lambda>_ t. A t \<and> holds_no_root p h t rl)"
proof -
  define K :: "root set \<Rightarrow> fs_trace \<Rightarrow> bool" where "K = (\<lambda>S t. A t \<and> (\<forall>other \<in> S. rt_id other \<noteq> rt_id (rh_root h) \<longrightarrow>
      (\<exists>oreal. RealPath (rt_path other) oreal \<in> set t \<and> \<not> inside oreal rl)))"
  have "yields P (K {}) (peach (other_root_check w h rl r) (model_roots p)) (\<lambda>_. K ({} \<union> set (model_roots p)))"
  proof (rule yields_each)
    fix S other
    have "stable (K S)" using assms(1) by (simp add: K_def)
    from outcome_other_root[OF this assms(2), of w h rl r other]
    show "yields P (K S) (other_root_check w h rl r other) (\<lambda>_. K (insert other S))"
      by (intro yields_of_outcome) (erule outcome_weaken, auto simp: K_def)
  qed
  from outcome_of_yields[OF this] show ?thesis
    by (rule outcome_weaken) (auto simp: holds_no_root_def K_def)
qed

lemma outcome_mounted:
  assumes "stable A" "allows P"
  shows "runs_to P A (mounted_below w rl ms) anyway (\<lambda>u t. A t \<and> (\<not> u \<longrightarrow>
     (\<forall>m \<in> set ms. \<not> inside m rl \<and> (\<exists>mr. RealPath m mr \<in> set t \<and> \<not> inside mr rl))))"
  using assms(1)
proof (induction ms arbitrary: A)
  case (Cons m ms)
  show ?case unfolding mounted_below.simps
  proof (rule outcome_bind[OF outcome_real_path[OF Cons.prems assms(2)]])
    fix mr
    have "stable (\<lambda>t. A t \<and> RealPath m mr \<in> set t)" using Cons.prems by simp
    from Cons.IH[OF this]
    show "runs_to P (\<lambda>t. A t \<and> RealPath m mr \<in> set t) (if inside mr rl \<or> inside m rl then pret True else mounted_below w rl ms) anyway
        (\<lambda>u t. A t \<and> (\<not> u \<longrightarrow> (\<forall>m \<in> set (m # ms). \<not> inside m rl \<and> (\<exists>mr. RealPath m mr \<in> set t \<and> \<not> inside mr rl))))"
      by (auto intro!: outcome_ret elim!: outcome_weaken)
  qed
qed (auto intro: outcome_ret)

lemma outcome_confirm_unused:
  assumes "stable A" "allows P"
  shows "runs_to P A (confirm_unused w rl r) anyway (\<lambda>_ t. A t \<and> unmounted t rl)"
  unfolding confirm_unused_def
proof (rule outcome_bind)
  show "runs_to P A (pbind (told (d_mounts w) RunningMounts) hlift) anyway (\<lambda>ms t. A t \<and> RunningMounts (Inr ms) \<in> set t)"
    by (rule outcome_bind[where B = "\<lambda>r t. A t \<and> RunningMounts r \<in> set t"], rule outcome_told)
      (use assms in \<open>auto simp: allows_def intro!: outcome_hlift intro: stable_snoc\<close>)
  fix ms
  have "stable (\<lambda>t. A t \<and> RunningMounts (Inr ms) \<in> set t)" using assms(1) by simp
  then show "runs_to P (\<lambda>t. A t \<and> RunningMounts (Inr ms) \<in> set t) (pbind (mounted_below w rl ms) (\<lambda>users.
      if users then pfail (HOp IN_USE (U ''a running container mounts '' @ rel_repr r @ U ''; stop it before deleting''))
      else pret ())) anyway (\<lambda>_ t. A t \<and> unmounted t rl)"
    by (intro outcome_bind[OF outcome_mounted[OF _ assms(2)]]) (auto intro!: outcome_fail outcome_ret simp: unmounted_def)
qed

definition removed :: "obj \<Rightarrow> fs_trace \<Rightarrow> bool" where
  "removed c t \<longleftrightarrow> (\<exists>h name d. parent_dir c h name t d \<and> (Io (UnlinkAt d name) None \<in> set t \<or> Io (RmdirAt d name) None \<in> set t))"

definition target_at :: "root_handle \<Rightarrow> ustr \<Rightarrow> fs_trace \<Rightarrow> nat \<Rightarrow> nat option \<times> ustr \<Rightarrow> bool" where
  "target_at h name t d target \<longleftrightarrow>
     (case target of (Some f, rl) \<Rightarrow> OpenAt OSub d name (Inr f) \<in> set t | (None, rl) \<Rightarrow> file_target h name t d rl)"

lemma stable_target_at [simp]: "stable (\<lambda>t. target_at h name t d target)"
  by (cases target; cases "fst target") (simp_all add: target_at_def)

lemma outcome_delete_target:
  assumes "stable A" "\<And>t. A t \<Longrightarrow> parent_dir c h name t d" "\<And>t. A t \<Longrightarrow> LstatAt d name (Inr st) \<in> set t"
    "\<And>t. A t \<Longrightarrow> FdPath d (Some parent) \<in> set t \<and> inside parent (rh_real h)"
  shows "runs_to (delete_call w p c) A (delete_target w d parent name r st) anyway (\<lambda>target t. A t \<and> target_at h name t d target)"
  unfolding delete_target_def
proof (rule outcome_cond)
  let ?P = "delete_call w p c"
  let ?Q = "\<lambda>target t. A t \<and> target_at h name t d target"
  show "runs_to ?P A (pbind (open_at w OSub d name) (\<lambda>o'. case o' of
        Inr fd \<Rightarrow> pbind (fd_path_of w fd) (\<lambda>loc. pret (Some fd, unwrap_or [] loc))
      | Inl e \<Rightarrow> pfail (HOp CONFLICT (rel_repr r @ U '' changed while being deleted: '' @ d_errno w e)))) anyway ?Q"
  proof (rule outcome_bind[where B = "\<lambda>r t. A t \<and> OpenAt OSub d name r \<in> set t"], rule outcome_open)
    fix o'
    have s: "stable (\<lambda>t. A t \<and> OpenAt OSub d name (Inr fd) \<in> set t)" for fd using assms(1) by simp
    show "runs_to ?P (\<lambda>t. A t \<and> OpenAt OSub d name o' \<in> set t) (case o' of
        Inr fd \<Rightarrow> pbind (fd_path_of w fd) (\<lambda>loc. pret (Some fd, unwrap_or [] loc))
      | Inl e \<Rightarrow> pfail (HOp CONFLICT (rel_repr r @ U '' changed while being deleted: '' @ d_errno w e))) anyway ?Q"
      by (cases o') (auto intro!: outcome_fail outcome_ret outcome_bind[OF outcome_fd_path[OF s]] simp: target_at_def)
  qed (use assms(1,2) in \<open>auto simp: delete_call_def confined_def intro: stable_snoc\<close>)
  assume "\<not> st_dir st"
  then show "runs_to ?P A (pret (None, join_paths parent [name])) anyway ?Q"
    by (intro outcome_ret) (use assms(3,4) in \<open>auto simp: target_at_def file_target_def\<close>)
qed

lemma outcome_remove:
  assumes "stable A" "\<And>t. A t \<Longrightarrow> parent_dir c h name t d \<and> cleared p c h name t d (snd target) \<and> target_at h name t d target"
  shows "runs_to (delete_call w p c) A (remove_target w d name r st target) anyway (\<lambda>_ t. removed c t)"
proof (cases target)
  case (Pair tgt rl)
  let ?P = "delete_call w p c"
  have gone: "removed c (t @ [Io (UnlinkAt d name) None])" "removed c (t @ [Io (RmdirAt d name) None])" if "A t" for t
    using assms(2)[OF that] stable_snoc[OF stable_parent_dir] unfolding removed_def by (metis in_set_conv_decomp)+
  show ?thesis
  proof (cases tgt)
    case None
    have "delete_call w p c t (Io (UnlinkAt d name) r)" if "A t" for t r
      using assms(2)[OF that] Pair None unfolding delete_call_def confined_def delete_io_def by (auto simp: target_at_def)
    then have "runs_to ?P A (io w (UnlinkAt d name)) anyway (\<lambda>_ t. removed c t)"
      by (intro outcome_io) (auto intro: gone)
    then show ?thesis by (auto simp: remove_target_def Pair None intro!: outcome_ret elim!: outcome_bind)
  next
    case (Some f)
    let ?A = "\<lambda>t. A t \<and> dir_target name t d rl f"
    have s: "stable ?A" using assms(1) by simp
    have w: "working p c t f" if "?A t" for t
      using assms(2)[of t] that Pair unfolding working_def
      by (intro exI[of _ h] exI[of _ name] exI[of _ d] exI[of _ rl] exI[of _ f]) (simp add: below_top)
    have empty: "keeps ?P ?A (empty_dir_at w (Suc MAX_DELETE_DEPTH) f {})"
      using tame_empty_dir s w unfolding tame_def by blast
    have "delete_call w p c t (Io (RmdirAt d name) r)" if "?A t" for t r
      using assms(2)[of t] that Pair unfolding delete_call_def confined_def delete_io_def fs_event.case fs_call.case
      by (intro conjI TrueI exI[of _ h] exI[of _ name] exI[of _ d] exI[of _ rl] exI[of _ f]) simp_all
    then have rm: "runs_to ?P ?A (io w (RmdirAt d name)) anyway (\<lambda>_ t. removed c t)"
      by (intro outcome_io) (auto intro: gone)
    have pin: "runs_to ?P A (inner (fd_path_of w f)) anyway (\<lambda>loc t. A t \<and> (loc = Some rl \<longrightarrow> dir_target name t d rl f))"
      unfolding fd_path_of_def
    proof (rule outcome_inner, rule outcome_told)
      fix t assume t: "A t"
      let ?loc = "fd_path (d_fs w t) f"
      have o: "OpenAt OSub d name (Inr f) \<in> set t" "\<exists>ms. RunningMounts (Inr ms) \<in> set t"
        using assms(2)[OF t] Pair Some by (auto simp: target_at_def cleared_def unmounted_def)
      then obtain u ms v where "t = u @ RunningMounts (Inr ms) # v" by (blast dest: split_list)
      then have "pinned (t @ [FdPath f (Some rl)]) rl f"
        unfolding pinned_def by (intro exI[of _ u] exI[of _ ms] exI[of _ "v @ [FdPath f (Some rl)]"]) simp
      with o(1) have "dir_target name (t @ [FdPath f (Some rl)]) d rl f" by (simp add: dir_target_def)
      then show "A (t @ [FdPath f ?loc]) \<and> (?loc = Some rl \<longrightarrow> dir_target name (t @ [FdPath f ?loc]) d rl f)"
        using stable_snoc[OF assms(1) t] by auto
    qed (simp add: delete_call_def confined_def)
    have ne: "rl \<noteq> []" if "A t" for t using assms(2)[OF that] Pair by (simp add: cleared_def)
    show ?thesis
      unfolding remove_target_def Pair Some prod.case option.case
    proof (rule outcome_bind[OF pin])
      fix loc
      show "runs_to ?P (\<lambda>t. A t \<and> (loc = Some rl \<longrightarrow> dir_target name t d rl f))
        (if unwrap_or [] loc \<noteq> rl then refuse CONFLICT (rel_repr r @ U '' moved while being deleted; nothing was removed'')
         else pbind (empty_dir_at w (Suc MAX_DELETE_DEPTH) f {}) (\<lambda>(freed, _). pbind (io w (RmdirAt d name)) (\<lambda>_. pret freed)))
        anyway (\<lambda>_ t. removed c t)"
      proof (rule outcome_cond)
        assume u: "\<not> unwrap_or [] loc \<noteq> rl"
        have "runs_to ?P ?A (pbind (empty_dir_at w (Suc MAX_DELETE_DEPTH) f {}) (\<lambda>(freed, _). pbind (io w (RmdirAt d name)) (\<lambda>_. pret freed)))
            anyway (\<lambda>_ t. removed c t)"
          by (rule keeps_step[OF empty]) (auto intro!: outcome_bind[OF rm] outcome_ret split: prod.splits)
        then show "runs_to ?P (\<lambda>t. A t \<and> (loc = Some rl \<longrightarrow> dir_target name t d rl f))
            (pbind (empty_dir_at w (Suc MAX_DELETE_DEPTH) f {}) (\<lambda>(freed, _). pbind (io w (RmdirAt d name)) (\<lambda>_. pret freed)))
            anyway (\<lambda>_ t. removed c t)"
          by (rule outcome_weaken) (use u ne in \<open>cases loc; auto simp: unwrap_or_def\<close>)
      qed (rule outcome_refuse, simp)
    qed
  qed
qed

text \<open>What is known of the target when the last checks begin.\<close>

definition seen_target :: "obj \<Rightarrow> root_handle \<Rightarrow> ustr \<Rightarrow> nat \<Rightarrow> nat option \<times> ustr \<Rightarrow> fs_trace \<Rightarrow> bool" where
  "seen_target c h name d target t \<longleftrightarrow> parent_dir c h name t d \<and> target_at h name t d target"

lemma stable_seen [simp]: "stable (seen_target c h name d target)"
  unfolding seen_target_def[abs_def] by simp

lemma stable_holds_no_root [simp]: "stable (\<lambda>t. holds_no_root p h t rl)"
  unfolding holds_no_root_def by simp

lemma stable_unmounted [simp]: "stable (\<lambda>t. unmounted t rl)"
  unfolding unmounted_def by simp

lemma outcome_delete_checked:
  assumes "allow_delete p"
  shows "runs_to (delete_call w p c) (seen_target c h name d target) (delete_checked w p h d name r st target) anyway (\<lambda>_. removed c)"
  unfolding delete_checked_def Let_def
proof (intro outcome_cond outcome_fail)
  let ?P = "delete_call w p c" and ?rl = "snd target"
  assume rl: "\<not> (?rl = [] \<or> \<not> inside ?rl (rh_real h) \<or> ?rl = rh_real h)"
  let ?A = "\<lambda>t. (seen_target c h name d target t \<and> holds_no_root p h t ?rl) \<and> unmounted t ?rl"
  have "runs_to ?P ?A (remove_target w d name r st target) anyway (\<lambda>_. removed c)"
    by (rule outcome_remove) (use rl assms in \<open>auto simp: cleared_def seen_target_def\<close>)
  then have "runs_to ?P ?A (pbind (on_os (remove_target w d name r st target)
      (\<lambda>n. pfail (HOp IO_ERROR (U ''deleting '' @ rel_repr r @ U '' failed part-way: '' @ d_errno w n)))) (\<lambda>freed.
    pret [(U ''freed'', json_int freed)])) anyway (\<lambda>_. removed c)"
    by (intro outcome_bind[OF outcome_on_os]) (auto intro: outcome_fail outcome_ret)
  then show "runs_to ?P (seen_target c h name d target)
     (pbind (peach (other_root_check w h ?rl r) (model_roots p)) (\<lambda>_.
      pbind (confirm_unused w ?rl r) (\<lambda>_.
      pbind (on_os (remove_target w d name r st target)
        (\<lambda>n. pfail (HOp IO_ERROR (U ''deleting '' @ rel_repr r @ U '' failed part-way: '' @ d_errno w n)))) (\<lambda>freed.
      pret [(U ''freed'', json_int freed)])))) anyway (\<lambda>_. removed c)"
    by (intro outcome_bind[OF outcome_other_roots] outcome_bind[OF outcome_confirm_unused]) simp_all
qed simp

lemma outcome_delete_named:
  assumes "allow_delete p"
  shows "runs_to (delete_call w p c) (\<lambda>t. parent_dir c h name t d) (delete_named w p h d name r) anyway (\<lambda>_. removed c)"
  unfolding delete_named_def
proof (rule outcome_bind[OF outcome_lstat])
  fix st
  let ?P = "delete_call w p c"
  show "runs_to ?P (\<lambda>t. parent_dir c h name t d \<and> (\<forall>s. st = Some s \<longrightarrow> LstatAt d name (Inr s) \<in> set t)) (case st of
       None \<Rightarrow> pfail (HOp NOT_FOUND (rel_repr r @ U '' does not exist in model root '' @ py_repr (rt_id (rh_root h))))
     | Some st \<Rightarrow> pbind (confirm_parent w h d) (\<lambda>parent.
         pbind (delete_target w d parent name r st) (delete_checked w p h d name r st))) anyway (\<lambda>_. removed c)"
  proof (cases st)
    case (Some s)
    let ?A = "\<lambda>t. parent_dir c h name t d \<and> LstatAt d name (Inr s) \<in> set t"
    let ?B = "\<lambda>parent t. ?A t \<and> FdPath d (Some parent) \<in> set t \<and> inside parent (rh_real h)"
    have target: "runs_to ?P (?B parent) (pbind (delete_target w d parent name r s) (delete_checked w p h d name r s)) anyway (\<lambda>_. removed c)"
      for parent
    proof (rule outcome_bind[OF outcome_delete_target])
      show "runs_to ?P (\<lambda>t. ?B parent t \<and> target_at h name t d target) (delete_checked w p h d name r s target) anyway (\<lambda>_. removed c)"
        for target
        by (rule outcome_weaken[OF outcome_delete_checked[OF assms]]) (auto simp: seen_target_def)
    qed auto
    have "runs_to ?P ?A (pbind (confirm_parent w h d) (\<lambda>parent.
        pbind (delete_target w d parent name r s) (delete_checked w p h d name r s))) anyway (\<lambda>_. removed c)"
      by (rule outcome_bind[OF outcome_confirm_parent target]) simp_all
    then show ?thesis using Some by simp
  qed (auto intro: outcome_fail)
qed simp_all

lemma outcome_fs_delete: "runs_to (delete_call w p c) anyway (fs_delete w p c) anyway (\<lambda>_. removed c)"
  unfolding fs_delete_def Let_def
proof (intro outcome_cond outcome_fail)
  assume "\<not> \<not> allow_delete p"
  then have a: "allow_delete p" by simp
  let ?P = "delete_call w p c" and ?rel = "json_str (arg c (U ''rel''))"
  let ?root = "\<lambda>h t. OpenRoot (arg c (U ''root'')) True (Inr h) \<in> set t"
  have "runs_to ?P (?root h) (pbind (pbind (dir_at w h (butlast parts) False) plift) (\<lambda>dfd.
      delete_named w p h dfd (last parts) r)) anyway (\<lambda>_. removed c)" if "split_rel ?rel (U ''path'') = Inr parts" for h parts r
  proof (rule outcome_bind[OF _ outcome_delete_named[OF a]])
    show "runs_to ?P (?root h) (pbind (dir_at w h (butlast parts) False) plift) anyway (\<lambda>d t. parent_dir c h (last parts) t d)"
      by (rule outcome_weaken[OF outcome_dir[where A = "?root h" and E = anyway]])
        (use that in \<open>auto simp: delete_call_def confined_def parent_dir_def\<close>)
  qed
  then have rest: "runs_to ?P (?root h) (pbind (plift (split_rel ?rel (U ''path''))) (\<lambda>parts.
      pbind (pbind (dir_at w h (butlast parts) False) plift) (\<lambda>dfd. delete_named w p h dfd (last parts) r))) anyway (\<lambda>_. removed c)" for h r
    by (cases "split_rel ?rel (U ''path'')") (auto simp: given, auto simp: plift_def pbind_def pcatch_def pfail_def runs_to_def triple_def)
  show "runs_to ?P anyway (pbind (root_at w p (arg c (U ''root'')) True) (\<lambda>h.
      pbind (plift (split_rel ?rel (U ''path''))) (\<lambda>parts.
      pbind (pbind (dir_at w h (butlast parts) False) plift) (\<lambda>dfd. delete_named w p h dfd (last parts) (unwrap_or [] ?rel))))) anyway (\<lambda>_. removed c)"
  proof (rule outcome_bind[where B = ?root])
    show "runs_to ?P anyway (root_at w p (arg c (U ''root'')) True) anyway ?root"
      by (rule outcome_weaken[OF outcome_root[where A = anyway and E = anyway]]) (auto simp: delete_call_def confined_def)
  qed (rule rest)
qed simp

end
