(* ===== verification/FsClaims.thy ===== *)
theory FsClaims
  imports FsDelete
begin

text \<open>
  The properties of the file operations: each holds of every run of the operation from its start, on any
  machine and under any policy and arguments.
\<close>

lemma root_then_error:
  assumes "k = (\<lambda>h. pfail e)"
  shows "pbind (root_at w p v wr) k [] = (Inl (case open_root (d_fs w []) p v wr of Inl f \<Rightarrow> op_error f | Inr _ \<Rightarrow> e),
     [OpenRoot v wr (open_root (d_fs w []) p v wr)])"
  by (simp add: assms root_at_def pbind_def pcatch_def told_def plift_def pfail_def pret_def split: sum.splits)





text \<open>
  C24. fs.delete removes only what it was asked to, and only when it may: before anything is removed, the policy
  allows deleting, the target was named by a relative path in a directory below a writable root, lies inside
  that root and is not the root, holds no other root of the policy, and nothing a running container mounts is in
  it; a directory was asked where it is again after that, and below it everything is removed through
  descriptors reached from it. A success means that the target itself was removed.
\<close>

theorem delete_guarded:
  "case fs_delete w p c [] of (r, t) \<Rightarrow>
     trace_ok (delete_call w p c) t \<and> (case r of Inl e \<Rightarrow> True | Inr out \<Rightarrow> removed c t)"
  using outcome_start[OF outcome_fs_delete, of w p c] by (cases "fs_delete w p c []") (simp split: sum.splits)

text \<open>
  C33. A link made by fs.symlink leads inside its root: it is made in a directory opened for writing, its target is
  relative, climbs only at its start and, from where that directory is, resolves inside the root; only then
  is it renamed over the name asked for, which happens exactly if the answer is a success. Refused
  arguments change nothing.
\<close>

theorem symlink_inside:
  "case fs_symlink w p c [] of (r, t) \<Rightarrow>
     (case split_rel_for_write (json_str (arg c (U ''link''))) (U ''link'') of
        Inl f \<Rightarrow> \<exists>e. r = Inl e \<and> unrenamed t
      | Inr parts \<Rightarrow> (case target_arg (arg c (U ''target'')) of
          Inl e \<Rightarrow> \<exists>e. r = Inl e \<and> unrenamed t
        | Inr target \<Rightarrow>
            trace_ok (place_call w p c (butlast parts) (last parts) (link_made target) (link_inside w c (butlast parts))) t
            \<and> (case r of Inl e \<Rightarrow> unrenamed t | Inr out \<Rightarrow> placed (last parts) t)))"
proof (cases "split_rel_for_write (json_str (arg c (U ''link''))) (U ''link'')")
  case (Inl f)
  have "fs_symlink w p c = pbind (root_at w p (arg c (U ''root'')) True) (\<lambda>h. pfail (op_error f))"
    unfolding fs_symlink_def Inl by (rule ext) (simp add: plift_def pbind_def pcatch_def pfail_def split: prod.splits sum.splits)
  then show ?thesis using Inl by (simp add: root_then_error[OF refl] unrenamed_def renamed_def)
next
  case parts: (Inr parts)
  show ?thesis
  proof (cases "target_arg (arg c (U ''target''))")
    case (Inl e)
    have "fs_symlink w p c = pbind (root_at w p (arg c (U ''root'')) True) (\<lambda>h. pfail e)"
      unfolding fs_symlink_def parts Inl given
      by (rule ext) (simp add: hlift_def pbind_def pcatch_def pfail_def split: prod.splits sum.splits)
    then show ?thesis using parts Inl by (simp add: root_then_error[OF refl] unrenamed_def renamed_def)
  next
    case (Inr target)
    from outcome_start[OF outcome_fs_symlink[OF parts Inr] unrenamed_Nil] show ?thesis
      using parts Inr by (cases "fs_symlink w p c []") simp
  qed
qed

end
