(* ===== verification/FsSample.thy ===== *)
theory FsSample
  imports FsClaims SampleRun
begin

text \<open>
  One upload on a concrete machine, run to its end: two bytes into a writable root. It shows that the
  conditions under which the file operations act can all be met.
\<close>

definition upload_policy :: policy where
  "upload_policy = sample_policy\<lparr>model_roots := [sample_root1\<lparr>rt_writable := True\<rparr>]\<rparr>"

definition upload_disk :: disk where
  "upload_disk = \<lparr>d_fs = (\<lambda>_. sample_fs), d_lstat = (\<lambda>_ _ _. Inl EMissing), d_stat = (\<lambda>_ _. Inl EMissing),
     d_fstat = (\<lambda>_ _. Inr \<lparr>in_mode = S_IFREG, in_size = 0, in_dev = 0, in_ino = 0\<rparr>), d_openat = (\<lambda>_ _ _ _. Inr 5),
     d_space = (\<lambda>_ _. Inr (2 ^ 20, 4096)), d_read = (\<lambda>_ _ _ _. Inr []), d_io = (\<lambda>_ _. None), d_names = (\<lambda>_ _. Inr []),
     d_cancelled = (\<lambda>_. False), d_upload = (\<lambda>t. if Upload (Inr [7, 9]) \<in> set t then Inr [] else Inr [7, 9]),
     d_send = (\<lambda>_ _. None), d_random = (\<lambda>_ _. []), d_mounts = (\<lambda>_. Inr []), d_held = (\<lambda>_. {}),
     d_sha256 = (\<lambda>bs. bs), d_errno = (\<lambda>_. [])\<rparr>"

definition upload_obj :: obj where
  "upload_obj = [(U ''root'', JStr (U ''hf'')), (U ''rel'', JStr (U ''w'')), (U ''size'', JNum (PosInt 2))]"

lemma upload_root:
  "open_root sample_fs upload_policy (JStr (U ''hf'')) True =
     Inr \<lparr>rh_root = sample_root1\<lparr>rt_writable := True\<rparr>, rh_real = U ''/data/hf''\<rparr>"
proof -
  have f: "fs_env sample_fs = bare_env" "is_dir sample_fs (U ''/data/hf'')" by (simp_all add: sample_fs_def)
  show ?thesis
    by (simp add: open_root_def upload_policy_def sample_policy_def sample_root1_def root_of_def find_root_def python_default_def
        unwrap_or_def sample_real f sample_recheck res_simps ensure_def Let_def)
qed

lemma upload_name: "\<not> is_write_protected_name (U ''w'')"
proof -
  have "map lower_char (U ''w'') \<notin> set WRITE_PROTECTED_NAMES" by code_simp
  then show ?thesis using plain_names(1) by (simp add: is_write_protected_name_def)
qed

lemma upload_split: "split_rel_for_write (Some (U ''w'')) (U ''path'') = Inr [U ''w'']"
proof -
  have s: "split_rel (Some (U ''w'')) (U ''path'') = Inr [U ''w'']" by code_simp
  show ?thesis by (simp add: split_rel_for_write_def s upload_name res_simps ensure_def)
qed

lemma upload_args: "write_args_of upload_obj =
    Inr \<lparr>wr_rel = U ''w'', wr_parent = [], wr_name = U ''w'', wr_size = 2, wr_want = None, wr_offset = 0\<rparr>"
proof -
  have r: "json_str (arg upload_obj (U ''rel'')) = Some (U ''w'')" "arg upload_obj (U ''size'') = JNum (PosInt 2)"
    "arg upload_obj (U ''sha256'') = JNull" "arg upload_obj (U ''offset'') = JNull"
    by (simp_all add: upload_obj_def arg_def unwrap_or_def obj_get_def)
  have n: "name_ok_for_partial (U ''w'') = Inr ()" by code_simp
  show ?thesis
    unfolding write_args_of_def Let_def r upload_split
    by (simp add: op_result_def n py_int_def MAX_FILE_def want_arg_def int_or_zero_def r truthy_def ensure_def Let_def unwrap_or_def)
qed

lemma upload_answers:
  "d_fs upload_disk t = sample_fs" "d_lstat upload_disk t dfd n = Inl EMissing"
  "d_fstat upload_disk t fd = Inr \<lparr>in_mode = S_IFREG, in_size = 0, in_dev = 0, in_ino = 0\<rparr>"
  "d_openat upload_disk t k dfd n = Inr 5" "d_space upload_disk t fd = Inr (2 ^ 20, 4096)" "d_io upload_disk t x = None"
  "d_upload upload_disk t = (if Upload (Inr [7, 9]) \<in> set t then Inr [] else Inr [7, 9])" "d_held upload_disk t = {}"
  "d_sha256 upload_disk bs = bs"
  by (simp_all add: upload_disk_def)

lemma upload_regular: "st_reg \<lparr>in_mode = S_IFREG, in_size = 0, in_dev = 0, in_ino = 0\<rparr>"
proof -
  have "(S_IFREG AND S_IFMT) = S_IFREG" by code_simp
  then show ?thesis by (simp add: st_reg_def)
qed

lemma upload_receive:
  "Upload (Inr [7, 9]) \<notin> set t \<Longrightarrow> receive upload_disk 5 2 0 (Some []) t =
     (Inr (2, False, Some [7, 9]), t @ [Upload (Inr [7, 9]), Io (WriteTo 5 [7, 9]) None, Upload (Inr [])])"
  by (simp add: receive.simps op_defs upload_answers inner_def hlift_def io_def try_io_def)

definition upload_wr :: write_args where
  "upload_wr = \<lparr>wr_rel = U ''w'', wr_parent = [], wr_name = U ''w'', wr_size = 2, wr_want = None, wr_offset = 0\<rparr>"

definition upload_out :: obj where
  "upload_out = [(U ''size'', json_int 2), (U ''sha256'', JStr (hex_text [7, 9]))]"

lemma upload_file:
  assumes "Upload (Inr [7, 9]) \<notin> set t"
  shows "fst (write_file upload_disk dfd upload_wr t) = Inr upload_out"
proof -
  note start = guard_target_def open_partial_def lock_partial_def start_at_offset_def check_space_def fstat_of_def hash_start_def
  show ?thesis
    using assms by (simp add: write_file_def start upload_wr_def op_defs upload_answers upload_regular inner_def some_is_def lstat_at_def
        open_at_def try_io_def io_def os_result_def MIN_FREE_def upload_receive finish_upload_def quietly_def opt_json_def upload_out_def)
qed

lemma upload_runs: "fst (fs_write upload_disk upload_policy upload_obj []) = Inr upload_out"
proof -
  have h: "arg upload_obj (U ''root'') = JStr (U ''hf'')" by (simp add: upload_obj_def arg_def unwrap_or_def)
  have o: "open_dir sample_fs r [] True = Inr 3" for r by (simp add: open_dir_def of_os_def sample_fs_def)
  have f: "fst (on_os (write_file upload_disk 3 upload_wr) f t) = Inr upload_out" if "Upload (Inr [7, 9]) \<notin> set t" for f t
    using upload_file[OF that, of 3] by (cases "write_file upload_disk 3 upload_wr t") (simp add: on_os_def pcatch_def pret_def)
  have g: "wr_parent upload_wr = []" by (simp add: upload_wr_def)
  have w: "fst (while_held k m t) = fst (m t)" for k t and m :: "obj fsop"
    by (cases "m t") (simp add: while_held_def op_defs hlift_def split: sum.splits)
  have a: "write_args_of upload_obj = Inr upload_wr" unfolding upload_wr_def by (rule upload_args)
  have d: "dir_at upload_disk r [] True t = (Inr (Inr 3), t @ [OpenDir r [] True (Inr 3)])" for r t
    by (simp add: dir_at_def told_def upload_answers o)
  have b: "fst (pbind m k t) = (case m t of (Inl e, t') \<Rightarrow> Inl e | (Inr x, t') \<Rightarrow> fst (k x t'))" for m :: "'a fsop" and k :: "'a \<Rightarrow> 'b fsop" and t
    by (simp add: pbind_def pcatch_def pfail_def split: prod.splits sum.splits)
  have r: "root_at upload_disk upload_policy (JStr (U ''hf'')) True [] =
      (Inr \<lparr>rh_root = sample_root1\<lparr>rt_writable := True\<rparr>, rh_real = U ''/data/hf''\<rparr>,
       [OpenRoot (JStr (U ''hf'')) True (Inr \<lparr>rh_root = sample_root1\<lparr>rt_writable := True\<rparr>, rh_real = U ''/data/hf''\<rparr>)])"
    by (simp add: root_at_def op_defs upload_answers upload_root plift_def)
  have l: "hold_key upload_disk k t = (Inr (), t @ [HoldKey k (Inr ())])" for k t
    by (simp add: hold_key_def op_defs upload_answers hold_def plift_def)
  have p: "pbind (dir_at upload_disk q [] True) plift t = (Inr 3, t @ [OpenDir q [] True (Inr 3)])" for q t
    by (simp add: pbind_def pcatch_def d plift_def pret_def)
  show ?thesis
    unfolding fs_write_def h a by (simp add: b r hlift_def pret_def l w g p f)
qed

end
