(* ===== verification/Gguf.thy ===== *)
theory Gguf
  imports Json
begin

text \<open>
  The bounded reader of GGUF file headers (crates/ecnode/src/gguf.rs). A file is the list of the bytes that can be
  read from it; a reader is a function of the bytes left and the budget left, \<open>None\<close> is \<open>Stop\<close>. Numbers are
  unbounded here and held to their width where the code's could overflow. What a value of a floating type
  means is not looked at, as in the code: its bytes are kept.
\<close>

section \<open>Text\<close>

text \<open>\<open>String::from_utf8_lossy\<close>: each maximal ill-formed part becomes U+FFFD.\<close>

definition cont_byte :: "nat \<Rightarrow> bool" where
  "cont_byte c \<longleftrightarrow> 128 \<le> c \<and> c < 192"

definition second_of_3 :: "nat \<Rightarrow> nat \<Rightarrow> bool" where
  "second_of_3 b c \<longleftrightarrow> (if b = 224 then 160 \<le> c \<and> c < 192 else if b = 237 then 128 \<le> c \<and> c < 160 else cont_byte c)"

definition second_of_4 :: "nat \<Rightarrow> nat \<Rightarrow> bool" where
  "second_of_4 b c \<longleftrightarrow> (if b = 240 then 144 \<le> c \<and> c < 192 else if b = 244 then 128 \<le> c \<and> c < 144 else cont_byte c)"

fun lossy :: "nat list \<Rightarrow> ustr" where
  "lossy [] = []"
| "lossy (b # bs) =
     (if b < 128 then b # lossy bs
      else if 194 \<le> b \<and> b < 224 then
        (case bs of
           c # cs \<Rightarrow> if cont_byte c then ((b - 192) * 64 + (c - 128)) # lossy cs else 65533 # lossy bs
         | [] \<Rightarrow> [65533])
      else if 224 \<le> b \<and> b < 240 then
        (case bs of
           c # cs \<Rightarrow>
             if \<not> second_of_3 b c then 65533 # lossy bs
             else (case cs of
                 d # ds \<Rightarrow> if cont_byte d then ((b - 224) * 4096 + (c - 128) * 64 + (d - 128)) # lossy ds else 65533 # lossy cs
               | [] \<Rightarrow> [65533])
         | [] \<Rightarrow> [65533])
      else if 240 \<le> b \<and> b < 245 then
        (case bs of
           c # cs \<Rightarrow>
             if \<not> second_of_4 b c then 65533 # lossy bs
             else (case cs of
                 d # ds \<Rightarrow>
                   if \<not> cont_byte d then 65533 # lossy cs
                   else (case ds of
                       e # es \<Rightarrow>
                         if cont_byte e then
                           ((b - 240) * 262144 + (c - 128) * 4096 + (d - 128) * 64 + (e - 128)) # lossy es
                         else 65533 # lossy ds
                     | [] \<Rightarrow> [65533])
               | [] \<Rightarrow> [65533])
         | [] \<Rightarrow> [65533])
      else 65533 # lossy bs)"

definition utf8_lossy :: "u8 list \<Rightarrow> ustr" where
  "utf8_lossy bs = lossy (map unat bs)"

section \<open>Limits, types and keys\<close>

definition GGUF_MAGIC :: "u8 list" where "GGUF_MAGIC = [71, 71, 85, 70]"
definition MAX_KV :: nat where "MAX_KV = 1000000"
definition MAX_TENSORS :: nat where "MAX_TENSORS = 1000000"
definition MAX_DIMS :: nat where "MAX_DIMS = 8"
definition MAX_KEY :: nat where "MAX_KEY = 65535"
definition MAX_KEEP_STR :: nat where "MAX_KEEP_STR = 4096"
definition GGUF_MAX_DEPTH :: nat where "GGUF_MAX_DEPTH = 3"
definition MAX_U128 :: nat where "MAX_U128 = 2 ^ 128 - 1"

text \<open>The value types are U8, I8, U16, I16, U32, I32, F32, BOOL, STR, ARR, U64, I64, F64 from 0 on.\<close>

definition T_STR :: nat where "T_STR = 8"
definition T_ARR :: nat where "T_ARR = 9"

definition fixed_size :: "nat \<Rightarrow> nat option" where
  "fixed_size t =
     (if t \<in> {0, 1, 7} then Some 1 else if t \<in> {2, 3} then Some 2 else if t \<in> {4, 5, 6} then Some 4
      else if t \<in> {10, 11, 12} then Some 8 else None)"

definition ARCH_KEYS :: "ustr list" where
  "ARCH_KEYS = [U ''context_length'', U ''block_count'', U ''embedding_length'', U ''attention.head_count'',
     U ''attention.head_count_kv'', U ''expert_count'', U ''expert_used_count'']"

definition GENERAL_KEYS :: "ustr list" where
  "GENERAL_KEYS = [U ''general.architecture'', U ''general.name'', U ''general.file_type'', U ''general.size_label'',
     U ''general.basename'', U ''split.count'', U ''split.no'']"

definition FILE_TYPE_NAMES :: "(int \<times> ustr) list" where
  "FILE_TYPE_NAMES = [(0, U ''F32''), (1, U ''F16''), (2, U ''Q4_0''), (3, U ''Q4_1''), (7, U ''Q8_0''), (8, U ''Q5_0''),
     (9, U ''Q5_1''), (10, U ''Q2_K''), (11, U ''Q3_K_S''), (12, U ''Q3_K_M''), (13, U ''Q3_K_L''), (14, U ''Q4_K_S''),
     (15, U ''Q4_K_M''), (16, U ''Q5_K_S''), (17, U ''Q5_K_M''), (18, U ''Q6_K''), (19, U ''IQ2_XXS''), (20, U ''IQ2_XS''),
     (21, U ''Q2_K_S''), (22, U ''IQ3_XS''), (23, U ''IQ3_XXS''), (24, U ''IQ1_S''), (25, U ''IQ4_NL''), (26, U ''IQ3_S''),
     (27, U ''IQ3_M''), (28, U ''IQ2_S''), (29, U ''IQ2_M''), (30, U ''IQ4_XS''), (31, U ''IQ1_M''), (32, U ''BF16''),
     (36, U ''TQ1_0''), (37, U ''TQ2_0''), (38, U ''MXFP4_MOE'')]"

definition file_type_name :: "int \<Rightarrow> ustr option" where
  "file_type_name ft = map_of FILE_TYPE_NAMES ft"

section \<open>Readers\<close>

datatype kv = KInt int | KFloat "u8 list" | KBool bool | KStr ustr | KNone

type_synonym rd_state = "u8 list \<times> nat"
type_synonym 'a rd = "rd_state \<Rightarrow> ('a \<times> rd_state) option"

definition rret :: "'a \<Rightarrow> 'a rd" where "rret x = (\<lambda>s. Some (x, s))"
definition rstop :: "'a rd" where "rstop = (\<lambda>s. None)"

definition rbind :: "'a rd \<Rightarrow> ('a \<Rightarrow> 'b rd) \<Rightarrow> 'b rd" where
  "rbind p f = (\<lambda>s. case p s of None \<Rightarrow> None | Some (x, s') \<Rightarrow> f x s')"

definition budget_left :: "nat rd" where "budget_left = (\<lambda>(bs, left). Some (left, (bs, left)))"

definition take_bytes :: "nat \<Rightarrow> u8 list rd" where
  "take_bytes n = (\<lambda>(bs, left).
     if left < n then None else if length bs < n then None else Some (take n bs, (drop n bs, left - n)))"

definition skip_bytes :: "nat \<Rightarrow> unit rd" where
  "skip_bytes n = (\<lambda>(bs, left).
     if left < n then None else if length bs < n then None else Some ((), (drop n bs, left - n)))"

text \<open>Little-endian numbers.\<close>

definition le_nat :: "u8 list \<Rightarrow> nat" where
  "le_nat bs = foldr (\<lambda>b n. unat b + 256 * n) bs 0"

definition le_int :: "u8 list \<Rightarrow> int" where
  "le_int bs = (let v = int (le_nat bs); w = 8 * length bs in if 2 ^ (w - 1) \<le> v then v - 2 ^ w else v)"

definition read_u32 :: "nat rd" where "read_u32 = rbind (take_bytes 4) (\<lambda>b. rret (le_nat b))"
definition read_u64 :: "nat rd" where "read_u64 = rbind (take_bytes 8) (\<lambda>b. rret (le_nat b))"

definition read_len :: "bool \<Rightarrow> nat rd" where "read_len wide = (if wide then read_u64 else read_u32)"

definition fixed_kv :: "nat \<Rightarrow> u8 list \<Rightarrow> kv" where
  "fixed_kv t b =
     (if t = 6 \<or> t = 12 then KFloat b
      else if t = 7 then KBool (b \<noteq> [0])
      else if t \<in> {1, 3, 5, 11} then KInt (le_int b)
      else KInt (int (le_nat b)))"

definition read_fixed :: "nat \<Rightarrow> kv rd" where
  "read_fixed t = (case fixed_size t of
       None \<Rightarrow> rstop
     | Some n \<Rightarrow> rbind (take_bytes n) (\<lambda>b. rret (fixed_kv t b)))"

definition read_str :: "bool \<Rightarrow> nat \<Rightarrow> ustr option rd" where
  "read_str wide keep =
     rbind (read_len wide) (\<lambda>n.
     if keep < n then rbind (skip_bytes n) (\<lambda>_. rret None)
     else rbind (take_bytes n) (\<lambda>b. rret (Some (utf8_lossy b))))"

primrec times_do :: "nat \<Rightarrow> unit rd \<Rightarrow> unit rd" where
  "times_do 0 p = rret ()"
| "times_do (Suc n) p = rbind p (\<lambda>_. times_do n p)"

text \<open>\<open>skip_value\<close> at \<open>depth\<close>; what is left to \<open>MAX_DEPTH\<close> is the argument it recurses on.\<close>

definition skip_kind :: "bool \<Rightarrow> unit rd \<Rightarrow> nat \<Rightarrow> unit rd" where
  "skip_kind wide arr t = (case fixed_size t of
       Some n \<Rightarrow> skip_bytes n
     | None \<Rightarrow> if t = T_STR then rbind (read_len wide) skip_bytes else if t = T_ARR then arr else rstop)"

definition skip_array :: "bool \<Rightarrow> (nat \<Rightarrow> unit rd) \<Rightarrow> unit rd" where
  "skip_array wide elem =
     rbind read_u32 (\<lambda>etype.
     rbind (read_len wide) (\<lambda>n.
     case fixed_size etype of
       Some width \<Rightarrow> if 2 ^ 64 \<le> n * width then rstop else skip_bytes (n * width)
     | None \<Rightarrow>
         if etype = T_STR \<or> etype = T_ARR then
           rbind budget_left (\<lambda>left. if left div 4 < n then rstop else times_do n (elem etype))
         else rstop))"

primrec skip_value :: "nat \<Rightarrow> bool \<Rightarrow> nat \<Rightarrow> unit rd" where
  "skip_value 0 wide = skip_kind wide rstop"
| "skip_value (Suc d) wide = skip_kind wide (skip_array wide (skip_value d wide))"

definition read_value :: "bool \<Rightarrow> nat \<Rightarrow> kv rd" where
  "read_value wide t =
     (if fixed_size t \<noteq> None then read_fixed t
      else if t = T_STR then
        rbind (read_str wide MAX_KEEP_STR) (\<lambda>s. rret (case s of Some s \<Rightarrow> KStr s | None \<Rightarrow> KNone))
      else rbind (skip_value GGUF_MAX_DEPTH wide t) (\<lambda>_. rret KNone))"

section \<open>The header\<close>

definition wanted_key :: "ustr \<Rightarrow> bool" where
  "wanted_key key \<longleftrightarrow> key \<in> set GENERAL_KEYS \<or> (\<exists>s \<in> set ARCH_KEYS. ends_with key (U ''.'' @ s))"

text \<open>One key and its value, or \<open>None\<close> where the value was skipped.\<close>

definition read_kv :: "bool \<Rightarrow> (ustr \<times> kv option) rd" where
  "read_kv wide =
     rbind (read_len wide) (\<lambda>klen.
     if MAX_KEY < klen then rstop
     else rbind (take_bytes klen) (\<lambda>b.
       (let key = utf8_lossy b in
        rbind read_u32 (\<lambda>vtype.
        if wanted_key key then rbind (read_value wide vtype) (\<lambda>v. rret (key, Some v))
        else rbind (skip_value GGUF_MAX_DEPTH wide vtype) (\<lambda>_. rret (key, None))))))"

type_synonym kvs = "ustr \<Rightarrow> kv option"

definition keep_kv :: "kvs \<Rightarrow> ustr \<times> kv option \<Rightarrow> kvs" where
  "keep_kv m e = (case snd e of Some v \<Rightarrow> m(fst e \<mapsto> v) | None \<Rightarrow> m)"

text \<open>What was read stays when the reader stops.\<close>

primrec read_kvs :: "nat \<Rightarrow> bool \<Rightarrow> kvs \<Rightarrow> rd_state \<Rightarrow> kvs \<times> rd_state option" where
  "read_kvs 0 wide m s = (m, Some s)"
| "read_kvs (Suc n) wide m s = (case read_kv wide s of
       None \<Rightarrow> (m, None)
     | Some (e, s') \<Rightarrow> read_kvs n wide (keep_kv m e) s')"

definition sat_mul :: "nat \<Rightarrow> nat \<Rightarrow> nat" where "sat_mul a b = min (a * b) MAX_U128"
definition sat_add :: "nat \<Rightarrow> nat \<Rightarrow> nat" where "sat_add a b = min (a + b) MAX_U128"

primrec read_dims :: "nat \<Rightarrow> nat \<Rightarrow> nat rd" where
  "read_dims 0 c = rret c"
| "read_dims (Suc n) c = rbind read_u64 (\<lambda>d. read_dims n (sat_mul c d))"

definition read_tensor :: "bool \<Rightarrow> nat rd" where
  "read_tensor wide =
     rbind (read_str wide 0) (\<lambda>_.
     rbind read_u32 (\<lambda>n_dims.
     if MAX_DIMS < n_dims then rstop
     else rbind (read_dims n_dims 1) (\<lambda>c.
       rbind (skip_bytes 12) (\<lambda>_. rret c))))"

primrec read_tensors :: "nat \<Rightarrow> bool \<Rightarrow> nat \<Rightarrow> nat rd" where
  "read_tensors 0 wide tot = rret tot"
| "read_tensors (Suc n) wide tot = rbind (read_tensor wide) (\<lambda>c. read_tensors n wide (sat_add tot c))"

definition params_json :: "nat \<Rightarrow> json" where
  "params_json tot = (if tot \<le> 2 ^ 53 then JNum (PosInt tot) else JNull)"

definition read_counts :: "bool \<Rightarrow> (nat \<times> nat) rd" where
  "read_counts wide = rbind (read_len wide) (\<lambda>n_tensors. rbind (read_len wide) (\<lambda>n_kv.
     if MAX_KV < n_kv \<or> MAX_TENSORS < n_tensors then rstop else rret (n_tensors, n_kv)))"

definition read_body :: "bool \<Rightarrow> bool \<Rightarrow> obj \<Rightarrow> rd_state \<Rightarrow> kvs \<times> obj" where
  "read_body wide tensors out s =
     (case read_counts wide s of
        None \<Rightarrow> (Map.empty, out)
      | Some ((n_tensors, n_kv), s) \<Rightarrow>
          (case read_kvs n_kv wide Map.empty s of
             (m, None) \<Rightarrow> (m, out)
           | (m, Some s) \<Rightarrow>
               if tensors then
                 (case read_tensors n_tensors wide 0 s of
                    None \<Rightarrow> (m, out)
                  | Some (tot, _) \<Rightarrow>
                      (m, obj_insert (U ''complete'') (JBool True)
                            (obj_insert (U ''params'') (params_json tot)
                              (obj_insert (U ''tensors'') (JNum (PosInt n_tensors)) out))))
               else (m, obj_insert (U ''complete'') (JBool True) out)))"

section \<open>Facts\<close>

definition int_value :: "int \<Rightarrow> json" where
  "int_value i = (if - (2 ^ 63) \<le> i \<and> i < 2 ^ 64 then json_int i else JNull)"

definition s_of :: "kv option \<Rightarrow> json" where
  "s_of v = (case v of Some (KStr s) \<Rightarrow> JStr (take 256 s) | _ \<Rightarrow> JNull)"

definition i_of :: "kv option \<Rightarrow> json" where
  "i_of v = (case v of Some (KInt i) \<Rightarrow> if 0 \<le> i \<and> i \<le> 2 ^ 53 then int_value i else JNull | _ \<Rightarrow> JNull)"

definition arch_of :: "kvs \<Rightarrow> ustr option" where
  "arch_of m = (case m (U ''general.architecture'') of Some (KStr s) \<Rightarrow> Some s | _ \<Rightarrow> None)"

definition file_type_json :: "kv option \<Rightarrow> json" where
  "file_type_json ft = (case ft of Some (KInt i) \<Rightarrow> int_value i | _ \<Rightarrow> JNull)"

definition quant_json :: "kv option \<Rightarrow> json" where
  "quant_json ft =
     (let i = (case ft of Some (KInt i) \<Rightarrow> Some i | Some (KBool b) \<Rightarrow> Some (if b then 1 else 0) | _ \<Rightarrow> None) in
      case i of
        None \<Rightarrow> JNull
      | Some i \<Rightarrow> (case file_type_name i of Some q \<Rightarrow> JStr q | None \<Rightarrow> JNull))"

definition ARCH_FIELDS :: "(ustr \<times> ustr) list" where
  "ARCH_FIELDS = [(U ''context_length'', U ''context''), (U ''block_count'', U ''block_count''),
     (U ''embedding_length'', U ''embedding_length''), (U ''attention.head_count'', U ''head_count''),
     (U ''attention.head_count_kv'', U ''head_count_kv''), (U ''expert_count'', U ''expert_count''),
     (U ''expert_used_count'', U ''expert_used_count'')]"

definition arch_fact :: "kvs \<Rightarrow> ustr \<Rightarrow> json" where
  "arch_fact m suf = (case arch_of m of Some a \<Rightarrow> i_of (m (a @ U ''.'' @ suf)) | None \<Rightarrow> JNull)"

definition facts_of :: "kvs \<Rightarrow> (ustr \<times> json) list" where
  "facts_of m =
     [(U ''arch'', case arch_of m of Some a \<Rightarrow> JStr a | None \<Rightarrow> JNull),
      (U ''name'', s_of (m (U ''general.name''))),
      (U ''size_label'', s_of (m (U ''general.size_label''))),
      (U ''basename'', s_of (m (U ''general.basename''))),
      (U ''file_type'', file_type_json (m (U ''general.file_type''))),
      (U ''quant'', quant_json (m (U ''general.file_type''))),
      (U ''split_count'', i_of (m (U ''split.count'')))]
     @ map (\<lambda>(suf, field). (field, arch_fact m suf)) ARCH_FIELDS"

definition read_header :: "u8 list \<Rightarrow> nat \<Rightarrow> bool \<Rightarrow> obj option" where
  "read_header f budget tensors =
     (case take_bytes 4 (f, budget) of
        None \<Rightarrow> None
      | Some (magic, s) \<Rightarrow>
          if magic \<noteq> GGUF_MAGIC then None
          else (case read_u32 s of
              None \<Rightarrow> None
            | Some (version, s) \<Rightarrow>
                (let out = [(U ''version'', JNum (PosInt version)), (U ''complete'', JBool False)] in
                 if \<not> (1 \<le> version \<and> version \<le> 3) then Some out
                 else (case read_body (2 \<le> version) tensors out s of
                     (m, out) \<Rightarrow> Some (fold (\<lambda>(k, v). obj_insert k v) (facts_of m) out)))))"

text \<open>\<open>read_file\<close>: what opening gave, and of what was opened whether it is a regular file, and its bytes.\<close>

definition read_gguf_file :: "'e + ('e + bool) \<times> u8 list \<Rightarrow> nat \<Rightarrow> bool \<Rightarrow> obj option" where
  "read_gguf_file opened budget tensors = (case opened of
       Inl _ \<Rightarrow> None
     | Inr (regular, f) \<Rightarrow> if regular = Inr True then read_header f budget tensors else None)"

end
