(* ===== verification/GgufWrite.thy ===== *)
theory GgufWrite
  imports GgufOk
begin

text \<open>
  The format as a writer follows it: UTF-8, little-endian numbers, typed values with nested arrays, keys and tensors. The
  reader reads back what is written so.
\<close>

section \<open>Text and numbers\<close>

definition is_scalar :: "nat \<Rightarrow> bool" where
  "is_scalar c \<longleftrightarrow> c < 1114112 \<and> \<not> (55296 \<le> c \<and> c < 57344)"

definition utf8_char :: "nat \<Rightarrow> nat list" where
  "utf8_char c =
     (if c < 128 then [c]
      else if c < 2048 then [192 + c div 64, 128 + c mod 64]
      else if c < 65536 then [224 + c div 4096, 128 + c div 64 mod 64, 128 + c mod 64]
      else [240 + c div 262144, 128 + c div 4096 mod 64, 128 + c div 64 mod 64, 128 + c mod 64])"

definition utf8 :: "ustr \<Rightarrow> u8 list" where
  "utf8 s = map of_nat (concat (map utf8_char s))"

lemma sextets_2: "(c::nat) div 64 * 64 + c mod 64 = c" by simp

lemma sextets_3: "(c::nat) div 4096 * 4096 + (c div 64 mod 64) * 64 + c mod 64 = c"
proof -
  have "c div 64 div 64 * 64 + c div 64 mod 64 = c div 64" by (rule sextets_2)
  then have "c div 4096 * 64 + c div 64 mod 64 = c div 64" by (simp add: div_mult2_eq[symmetric])
  then show ?thesis using sextets_2[of c] by linarith
qed

lemma sextets_4: "(c::nat) div 262144 * 262144 + (c div 4096 mod 64) * 4096 + (c div 64 mod 64) * 64 + c mod 64 = c"
proof -
  have "c div 4096 div 64 * 64 + c div 4096 mod 64 = c div 4096" by (rule sextets_2)
  then have "c div 262144 * 64 + c div 4096 mod 64 = c div 4096" by (simp add: div_mult2_eq[symmetric])
  then show ?thesis using sextets_3[of c] by linarith
qed

lemma lossy_char: "is_scalar c \<Longrightarrow> lossy (utf8_char c @ bs) = c # lossy bs"
proof -
  assume s: "is_scalar c"
  consider "c < 128" | "128 \<le> c" "c < 2048" | "2048 \<le> c" "c < 65536" | "65536 \<le> c" "c < 1114112"
    using s unfolding is_scalar_def by linarith
  then show ?thesis
  proof cases
    case 2
    then have "2 \<le> c div 64" "c div 64 < 32" by auto
    then show ?thesis using 2 sextets_2[of c] by (simp add: utf8_char_def cont_byte_def) linarith
  next
    case 3
    note parts = sextets_3[of c] mod_less_divisor[of 64 c] mod_less_divisor[of 64 "c div 64"]
    have a: "c div 4096 < 16" using 3 by auto
    have e: "32 \<le> c div 64 mod 64" if "c div 4096 = 0" using 3 parts that by linarith
    have d: "c div 64 mod 64 < 32" if "c div 4096 = 13"
    proof -
      have "c < 57344" using parts that by linarith
      then have "c < 55296" using s by (simp add: is_scalar_def)
      then show ?thesis using parts that by linarith
    qed
    have f: "c div 64 < 64" if "c div 4096 = 0" using parts sextets_2[of c] that by linarith
    show ?thesis using 3 a e d f parts(1) by (simp add: utf8_char_def second_of_3_def cont_byte_def)
  next
    case 4
    note parts = sextets_4[of c] mod_less_divisor[of 64 c] mod_less_divisor[of 64 "c div 64"] mod_less_divisor[of 64 "c div 4096"]
    have a: "c div 262144 < 5" using 4 by auto
    have e: "16 \<le> c div 4096 mod 64" if "c div 262144 = 0" using 4 parts that by linarith
    have d: "c div 4096 mod 64 < 16" if "c div 262144 = 4" using 4 parts that by linarith
    have f: "c div 4096 < 64" if "c div 262144 = 0" using sextets_2[of "c div 4096"] that by (simp add: div_mult2_eq[symmetric])
    show ?thesis using 4 a e d f parts(1) by (simp add: utf8_char_def second_of_4_def cont_byte_def)
  qed (simp add: utf8_char_def)
qed

lemma utf8_char_bytes: "is_scalar c \<Longrightarrow> b \<in> set (utf8_char c) \<Longrightarrow> b < 256"
  by (auto simp: utf8_char_def is_scalar_def split: if_splits)

lemma utf8_lossy_utf8: "\<forall>c \<in> set s. is_scalar c \<Longrightarrow> utf8_lossy (utf8 s) = s"
proof -
  assume s: "\<forall>c \<in> set s. is_scalar c"
  have "lossy (concat (map utf8_char s)) = s" using s by (induction s) (simp_all add: lossy_char)
  moreover have "map unat (map of_nat (concat (map utf8_char s)) :: u8 list) = concat (map utf8_char s)"
    using s by (auto simp: unat_of_nat take_bit_eq_mod intro!: map_idI mod_less utf8_char_bytes)
  ultimately show ?thesis by (simp add: utf8_lossy_def utf8_def)
qed

primrec le_bytes :: "nat \<Rightarrow> nat \<Rightarrow> u8 list" where
  "le_bytes 0 v = []"
| "le_bytes (Suc n) v = of_nat (v mod 256) # le_bytes n (v div 256)"

lemma length_le_bytes [simp]: "length (le_bytes n v) = n"
  by (induction n arbitrary: v) simp_all

lemma le_nat_le_bytes: "le_nat (le_bytes n v) = v mod 256 ^ n"
proof (induction n arbitrary: v)
  case (Suc n)
  have "unat (of_nat (v mod 256) :: u8) = v mod 256" by (simp add: unat_of_nat take_bit_eq_mod)
  moreover have "v mod (256 * 256 ^ n) = 256 * (v div 256 mod 256 ^ n) + v mod 256" by (rule mod_mult2_eq)
  ultimately show ?case using Suc.IH[of "v div 256"] by (simp add: le_nat_def)
qed (simp add: le_nat_def)

definition num_bytes :: "nat \<Rightarrow> int \<Rightarrow> u8 list" where
  "num_bytes n v = le_bytes n (nat (v mod 2 ^ (8 * n)))"

lemma le_nat_num_bytes: "int (le_nat (num_bytes n v)) = v mod 2 ^ (8 * n)"
proof -
  have "(256::int) ^ n = 2 ^ (8 * n)" by (simp add: power_mult)
  then show ?thesis by (simp add: num_bytes_def le_nat_le_bytes zmod_int)
qed

lemma le_int_num_bytes: "0 < n \<Longrightarrow> - (2 ^ (8 * n - 1)) \<le> v \<Longrightarrow> v < 2 ^ (8 * n - 1) \<Longrightarrow> le_int (num_bytes n v) = v"
proof -
  assume n: "0 < n" and v: "- (2 ^ (8 * n - 1)) \<le> v" "v < 2 ^ (8 * n - 1)"
  have p: "(2::int) ^ (8 * n) = 2 * 2 ^ (8 * n - 1)" using n by (simp flip: power_Suc)
  have l: "length (num_bytes n v) = n" by (simp add: num_bytes_def)
  show ?thesis
  proof (cases "0 \<le> v")
    case True
    then have "v mod 2 ^ (8 * n) = v" using v p by simp
    then show ?thesis using v by (simp add: le_int_def le_nat_num_bytes l Let_def)
  next
    case False
    then have "v mod 2 ^ (8 * n) = v + 2 ^ (8 * n)" using v p mod_add_self2[of v "2 ^ (8 * n)"] by (simp add: mod_pos_pos_trivial del: mod_add_self2)
    then show ?thesis using v p by (simp add: le_int_def le_nat_num_bytes l Let_def)
  qed
qed

section \<open>Headers\<close>

datatype gval = GInt nat int | GFloat nat "u8 list" | GBool bool | GStr ustr | GArr nat "gval list"

fun val_type :: "gval \<Rightarrow> nat" where
  "val_type (GInt t v) = t"
| "val_type (GFloat t bs) = t"
| "val_type (GBool b) = 7"
| "val_type (GStr s) = T_STR"
| "val_type (GArr t vs) = T_ARR"

definition enc_len :: "bool \<Rightarrow> nat \<Rightarrow> u8 list" where
  "enc_len wide n = le_bytes (if wide then 8 else 4) n"

definition len_ok :: "bool \<Rightarrow> nat \<Rightarrow> bool" where
  "len_ok wide n \<longleftrightarrow> n < 256 ^ (if wide then 8 else 4)"

fun enc_val :: "bool \<Rightarrow> gval \<Rightarrow> u8 list" where
  "enc_val wide (GInt t v) = num_bytes (the (fixed_size t)) v"
| "enc_val wide (GFloat t bs) = bs"
| "enc_val wide (GBool b) = [of_bool b]"
| "enc_val wide (GStr s) = enc_len wide (length (utf8 s)) @ utf8 s"
| "enc_val wide (GArr t vs) = le_bytes 4 t @ enc_len wide (length vs) @ concat (map (enc_val wide) vs)"

definition int_fits :: "nat \<Rightarrow> int \<Rightarrow> bool" where
  "int_fits t v \<longleftrightarrow> (case fixed_size t of None \<Rightarrow> False | Some n \<Rightarrow>
     (if t \<in> {1, 3, 5, 11} then - (2 ^ (8 * n - 1)) \<le> v \<and> v < 2 ^ (8 * n - 1)
      else t \<in> {0, 2, 4, 10} \<and> 0 \<le> v \<and> v < 2 ^ (8 * n)))"

text \<open>\<open>d\<close> is how deep arrays may nest.\<close>

fun val_ok :: "bool \<Rightarrow> nat \<Rightarrow> gval \<Rightarrow> bool" where
  "val_ok wide d (GInt t v) \<longleftrightarrow> int_fits t v"
| "val_ok wide d (GFloat t bs) \<longleftrightarrow> t \<in> {6, 12} \<and> fixed_size t = Some (length bs)"
| "val_ok wide d (GBool b) \<longleftrightarrow> True"
| "val_ok wide d (GStr s) \<longleftrightarrow> (\<forall>c \<in> set s. is_scalar c) \<and> len_ok wide (length (utf8 s))"
| "val_ok wide 0 (GArr t vs) \<longleftrightarrow> False"
| "val_ok wide (Suc d) (GArr t vs) \<longleftrightarrow> (fixed_size t \<noteq> None \<or> t = T_STR \<or> t = T_ARR) \<and> len_ok wide (length vs)
     \<and> (\<forall>v \<in> set vs. val_type v = t \<and> val_ok wide d v)"

text \<open>What the reader keeps of a value.\<close>

fun value_of :: "gval \<Rightarrow> kv" where
  "value_of (GInt t v) = KInt v"
| "value_of (GFloat t bs) = KFloat bs"
| "value_of (GBool b) = KBool b"
| "value_of (GStr s) = (if length (utf8 s) \<le> MAX_KEEP_STR then KStr s else KNone)"
| "value_of (GArr t vs) = KNone"

section \<open>Reading what was written\<close>

definition reads :: "'a rd \<Rightarrow> u8 list \<Rightarrow> 'a \<Rightarrow> bool" where
  "reads p us x \<longleftrightarrow> (\<forall>l zs. length us \<le> l \<longrightarrow> l < 2 ^ 64 \<longrightarrow> p (us @ zs, l) = Some (x, (zs, l - length us)))"

lemma readsI: "(\<And>l zs. length us \<le> l \<Longrightarrow> l < 2 ^ 64 \<Longrightarrow> p (us @ zs, l) = Some (x, (zs, l - length us))) \<Longrightarrow> reads p us x"
  by (simp add: reads_def)

lemma readsD: "reads p us x \<Longrightarrow> length us \<le> l \<Longrightarrow> l < 2 ^ 64 \<Longrightarrow> p (us @ zs, l) = Some (x, (zs, l - length us))"
  by (simp add: reads_def)

lemma reads_ret: "reads (rret x) [] x"
  by (simp add: reads_def rret_def)

lemma reads_bind: "reads p us x \<Longrightarrow> reads (f x) vs y \<Longrightarrow> reads (rbind p f) (us @ vs) y"
  by (simp add: reads_def rbind_def)

lemma reads_bind_ret: "reads p us x \<Longrightarrow> reads (rbind p (\<lambda>x. rret (g x))) us (g x)"
  using reads_bind[of p us x "\<lambda>x. rret (g x)" "[]" "g x"] reads_ret[of "g x"] by simp

lemma reads_take: "length us = n \<Longrightarrow> reads (take_bytes n) us us"
  by (simp add: reads_def take_bytes_def)

lemma reads_skip: "length us = n \<Longrightarrow> reads (skip_bytes n) us ()"
  by (simp add: reads_def skip_bytes_def)

lemma reads_u32: "n < 256 ^ 4 \<Longrightarrow> reads read_u32 (le_bytes 4 n) n"
  using reads_bind_ret[OF reads_take[of "le_bytes 4 n" 4], of le_nat] by (simp add: read_u32_def le_nat_le_bytes)

lemma reads_u64: "n < 256 ^ 8 \<Longrightarrow> reads read_u64 (le_bytes 8 n) n"
  using reads_bind_ret[OF reads_take[of "le_bytes 8 n" 8], of le_nat] by (simp add: read_u64_def le_nat_le_bytes)

lemma reads_len: "len_ok wide n \<Longrightarrow> reads (read_len wide) (enc_len wide n) n"
  by (simp add: read_len_def enc_len_def len_ok_def reads_u32 reads_u64 split: if_splits)

lemma reads_times: "(\<And>v. v \<in> set vs \<Longrightarrow> reads p (e v) ()) \<Longrightarrow> reads (times_do (length vs) p) (concat (map e vs)) ()"
  by (induction vs) (auto intro: reads_ret reads_bind)

lemma fixed_cases: "fixed_size t = Some n \<Longrightarrow> t \<noteq> T_STR \<and> t \<noteq> T_ARR \<and> t < 256 ^ 4 \<and> 0 < n"
  by (auto simp: fixed_size_def T_STR_def T_ARR_def split: if_splits)

lemma fixed_length: "val_ok wide d v \<Longrightarrow> fixed_size (val_type v) = Some n \<Longrightarrow> length (enc_val wide v) = n"
  by (cases v) (auto simp: int_fits_def num_bytes_def fixed_size_def T_STR_def T_ARR_def split: option.splits)

lemma value_length: "val_ok wide d v \<Longrightarrow> fixed_size (val_type v) = None \<Longrightarrow> 4 \<le> length (enc_val wide v)"
  by (cases v) (auto simp: int_fits_def fixed_size_def enc_len_def split: option.splits)

lemma length_concat_same: "(\<And>v. v \<in> set vs \<Longrightarrow> length (e v) = n) \<Longrightarrow> length (concat (map e vs)) = length vs * n"
  by (induction vs) auto

lemma length_concat_least: "(\<And>v. v \<in> set vs \<Longrightarrow> n \<le> length (e v)) \<Longrightarrow> length vs * n \<le> length (concat (map e vs))"
  by (induction vs) (auto intro: add_mono)

lemma reads_array:
  assumes ok: "val_ok wide (Suc d) (GArr t vs)" and sub: "\<And>v. v \<in> set vs \<Longrightarrow> reads (elem t) (enc_val wide v) ()"
  shows "reads (skip_array wide elem) (enc_val wide (GArr t vs)) ()"
proof -
  let ?body = "concat (map (enc_val wide) vs)"
  have t: "t < 256 ^ 4" using ok fixed_cases[of t] by (auto simp: T_STR_def T_ARR_def)
  have n: "len_ok wide (length vs)" and vs: "\<And>v. v \<in> set vs \<Longrightarrow> val_type v = t \<and> val_ok wide d v" using ok by auto
  have "reads (case fixed_size t of
       Some width \<Rightarrow> if 2 ^ 64 \<le> length vs * width then rstop else skip_bytes (length vs * width)
     | None \<Rightarrow> if t = T_STR \<or> t = T_ARR then
           rbind budget_left (\<lambda>left. if left div 4 < length vs then rstop else times_do (length vs) (elem t))
         else rstop) ?body ()"
  proof (cases "fixed_size t")
    case (Some width)
    have b: "length ?body = length vs * width"
      by (rule length_concat_same) (use vs Some in \<open>auto intro: fixed_length\<close>)
    show ?thesis
      by (rule readsI) (use reads_skip[OF b] b in \<open>simp add: Some reads_def\<close>)
  next
    case None
    have b: "length vs * 4 \<le> length ?body"
      by (rule length_concat_least) (use vs None in \<open>auto intro: value_length\<close>)
    have r: "reads (times_do (length vs) (elem t)) ?body ()" by (rule reads_times) (rule sub)
    show ?thesis
      by (rule readsI) (use ok None b readsD[OF r] in \<open>auto simp: rbind_def budget_left_def\<close>)
  qed
  then show ?thesis
    unfolding skip_array_def enc_val.simps by (rule reads_bind[OF reads_u32[OF t] reads_bind[OF reads_len[OF n]]])
qed

lemma reads_skip_value: "val_ok wide d v \<Longrightarrow> reads (skip_value d wide (val_type v)) (enc_val wide v) ()"
proof (induction v arbitrary: d)
  case (GArr t vs)
  then obtain d' where d: "d = Suc d'" by (cases d) auto
  have "reads (skip_array wide (skip_value d' wide)) (enc_val wide (GArr t vs)) ()"
    by (rule reads_array) (use GArr d in auto)
  then show ?case by (simp add: d skip_kind_def fixed_size_def T_ARR_def T_STR_def del: enc_val.simps)
next
  case (GStr s)
  then have "reads (rbind (read_len wide) skip_bytes) (enc_val wide (GStr s)) ()"
    by (auto intro: reads_bind reads_len reads_skip)
  then show ?case by (cases d) (simp_all add: skip_kind_def fixed_size_def T_STR_def del: enc_val.simps)
next
  case (GInt t v)
  then obtain n where n: "fixed_size t = Some n" by (auto simp: int_fits_def split: option.splits)
  then show ?case using reads_skip[OF fixed_length[OF GInt, of n]] by (cases d) (simp_all add: skip_kind_def del: enc_val.simps)
next
  case (GFloat t bs)
  then show ?case using reads_skip[OF fixed_length[OF GFloat, of "length bs"]] by (cases d) (simp_all add: skip_kind_def)
next
  case (GBool b)
  then show ?case using reads_skip[OF fixed_length[OF GBool, of 1]] by (cases d) (simp_all add: skip_kind_def fixed_size_def)
qed

lemma reads_fixed:
  assumes "fixed_size t = Some (length us)" "fixed_kv t us = x"
  shows "reads (read_value wide t) us x"
  using reads_bind_ret[OF reads_take[OF refl, of us], of "fixed_kv t"] assms by (simp add: read_value_def read_fixed_def)

lemma reads_value: "val_ok wide GGUF_MAX_DEPTH v \<Longrightarrow> reads (read_value wide (val_type v)) (enc_val wide v) (value_of v)"
proof (cases v)
  case (GInt t i)
  assume "val_ok wide GGUF_MAX_DEPTH v"
  then have i: "int_fits t i" by (simp add: GInt)
  then obtain n where n: "fixed_size t = Some n" by (auto simp: int_fits_def split: option.splits)
  have "fixed_kv t (num_bytes n i) = KInt i"
    using i n fixed_cases[OF n] by (auto simp: int_fits_def fixed_kv_def le_int_num_bytes le_nat_num_bytes split: if_splits)
  then show ?thesis using reads_fixed[of t "num_bytes n i"] n by (simp add: GInt num_bytes_def)
next
  case (GFloat t bs)
  assume "val_ok wide GGUF_MAX_DEPTH v"
  then show ?thesis using reads_fixed[of t bs] by (auto simp: GFloat fixed_kv_def)
next
  case (GBool b)
  show ?thesis using reads_fixed[of 7 "[of_bool b]"] by (simp add: GBool fixed_kv_def fixed_size_def)
next
  case (GStr s)
  assume "val_ok wide GGUF_MAX_DEPTH v"
  then have s: "\<forall>c \<in> set s. is_scalar c" and n: "len_ok wide (length (utf8 s))" by (simp_all add: GStr)
  let ?kept = "if MAX_KEEP_STR < length (utf8 s) then None else Some s"
  have "reads (if MAX_KEEP_STR < length (utf8 s) then rbind (skip_bytes (length (utf8 s))) (\<lambda>_. rret None)
      else rbind (take_bytes (length (utf8 s))) (\<lambda>b. rret (Some (utf8_lossy b)))) (utf8 s) ?kept"
    using reads_bind_ret[OF reads_skip[OF refl, of "utf8 s"], of "\<lambda>_. None :: ustr option"]
      reads_bind_ret[OF reads_take[OF refl, of "utf8 s"], of "\<lambda>b. Some (utf8_lossy b)"] utf8_lossy_utf8[OF s] by simp
  then have "reads (read_str wide MAX_KEEP_STR) (enc_val wide v) ?kept"
    unfolding read_str_def GStr enc_val.simps by (rule reads_bind[OF reads_len[OF n]])
  from reads_bind_ret[OF this, of "\<lambda>s. case s of Some s \<Rightarrow> KStr s | None \<Rightarrow> KNone"]
  show ?thesis by (auto simp: GStr read_value_def fixed_size_def T_STR_def)
next
  case (GArr t vs)
  assume "val_ok wide GGUF_MAX_DEPTH v"
  from reads_bind_ret[OF reads_skip_value[OF this], of "\<lambda>_. KNone"] show ?thesis
    by (simp add: GArr read_value_def fixed_size_def T_STR_def T_ARR_def)
qed

section \<open>Whole headers\<close>

type_synonym gentry = "ustr \<times> gval"
type_synonym gtensor = "ustr \<times> nat list \<times> u8 list"

definition enc_kv :: "bool \<Rightarrow> gentry \<Rightarrow> u8 list" where
  "enc_kv wide e = enc_len wide (length (utf8 (fst e))) @ utf8 (fst e) @ le_bytes 4 (val_type (snd e)) @ enc_val wide (snd e)"

definition enc_tensor :: "bool \<Rightarrow> gtensor \<Rightarrow> u8 list" where
  "enc_tensor wide t = (case t of (name, dims, tail) \<Rightarrow>
     enc_len wide (length (utf8 name)) @ utf8 name @ le_bytes 4 (length dims) @ concat (map (le_bytes 8) dims) @ tail)"

definition enc_header :: "nat \<Rightarrow> gentry list \<Rightarrow> gtensor list \<Rightarrow> u8 list" where
  "enc_header version kvs tensors =
     (let wide = 2 \<le> version in
      GGUF_MAGIC @ le_bytes 4 version @ (enc_len wide (length tensors) @ enc_len wide (length kvs)) @ concat (map (enc_kv wide) kvs)
      @ concat (map (enc_tensor wide) tensors))"

definition kv_ok :: "bool \<Rightarrow> gentry \<Rightarrow> bool" where
  "kv_ok wide e \<longleftrightarrow> (\<forall>c \<in> set (fst e). is_scalar c) \<and> length (utf8 (fst e)) \<le> MAX_KEY \<and> val_ok wide GGUF_MAX_DEPTH (snd e)"

definition tensor_ok :: "bool \<Rightarrow> gtensor \<Rightarrow> bool" where
  "tensor_ok wide t \<longleftrightarrow> (case t of (name, dims, tail) \<Rightarrow>
     len_ok wide (length (utf8 name)) \<and> length dims \<le> MAX_DIMS \<and> (\<forall>d \<in> set dims. d < 2 ^ 64) \<and> length tail = 12)"

definition header_ok :: "nat \<Rightarrow> gentry list \<Rightarrow> gtensor list \<Rightarrow> bool" where
  "header_ok version kvs tensors \<longleftrightarrow> 1 \<le> version \<and> version \<le> 3
     \<and> length kvs \<le> MAX_KV \<and> length tensors \<le> MAX_TENSORS
     \<and> (\<forall>e \<in> set kvs. kv_ok (2 \<le> version) e) \<and> (\<forall>t \<in> set tensors. tensor_ok (2 \<le> version) t)"

text \<open>The last value written under a key counts.\<close>

definition kept :: "gentry list \<Rightarrow> kvs" where
  "kept kvs = (\<lambda>k. if wanted_key k then map_option value_of (map_of (rev kvs) k) else None)"

lemma kept_Nil [simp]: "kept [] = Map.empty"
  by (simp add: kept_def fun_eq_iff)

definition elements :: "gtensor \<Rightarrow> nat" where
  "elements t = prod_list (fst (snd t))"

definition entry_of :: "gentry \<Rightarrow> ustr \<times> kv option" where
  "entry_of e = (fst e, if wanted_key (fst e) then Some (value_of (snd e)) else None)"

lemma val_type_small: "val_ok wide d v \<Longrightarrow> val_type v < 256 ^ 4"
  by (cases v) (auto simp: int_fits_def T_STR_def T_ARR_def split: option.splits dest: fixed_cases)

lemma reads_kv:
  assumes "kv_ok wide e"
  shows "reads (read_kv wide) (enc_kv wide e) (entry_of e)"
proof -
  let ?k = "fst e" and ?v = "snd e"
  have k: "\<forall>c \<in> set ?k. is_scalar c" "length (utf8 ?k) \<le> MAX_KEY" and v: "val_ok wide GGUF_MAX_DEPTH ?v"
    using assms by (simp_all add: kv_ok_def)
  have n: "len_ok wide (length (utf8 ?k))" using k(2) by (simp add: len_ok_def MAX_KEY_def)
  have "reads (if wanted_key ?k then rbind (read_value wide (val_type ?v)) (\<lambda>x. rret (?k, Some x))
      else rbind (skip_value GGUF_MAX_DEPTH wide (val_type ?v)) (\<lambda>_. rret (?k, None))) (enc_val wide ?v) (entry_of e)"
    using reads_bind_ret[OF reads_value[OF v], of "\<lambda>x. (?k, Some x)"]
      reads_bind_ret[OF reads_skip_value[OF v], of "\<lambda>_. (?k, None :: kv option)"] by (simp add: entry_of_def)
  then have "reads (rbind (take_bytes (length (utf8 ?k))) (\<lambda>b. rbind read_u32 (\<lambda>vtype.
        if wanted_key (utf8_lossy b) then rbind (read_value wide vtype) (\<lambda>v. rret (utf8_lossy b, Some v))
        else rbind (skip_value GGUF_MAX_DEPTH wide vtype) (\<lambda>_. rret (utf8_lossy b, None)))))
      (utf8 ?k @ le_bytes 4 (val_type ?v) @ enc_val wide ?v) (entry_of e)"
    by (intro reads_bind[OF reads_take[OF refl]], unfold utf8_lossy_utf8[OF k(1)])
      (rule reads_bind[OF reads_u32[OF val_type_small[OF v]]])
  then show ?thesis
    unfolding read_kv_def enc_kv_def Let_def by (intro reads_bind[OF reads_len[OF n]]) (use k(2) in simp)
qed

lemma read_kvs_written:
  "\<lbrakk>\<And>e. e \<in> set kvs \<Longrightarrow> kv_ok wide e; length (concat (map (enc_kv wide) kvs)) \<le> l; l < 2 ^ 64\<rbrakk> \<Longrightarrow>
   read_kvs (length kvs) wide m (concat (map (enc_kv wide) kvs) @ zs, l) =
     (foldl keep_kv m (map entry_of kvs), Some (zs, l - length (concat (map (enc_kv wide) kvs))))"
proof (induction kvs arbitrary: m l)
  case (Cons e kvs)
  have r: "reads (read_kv wide) (enc_kv wide e) (entry_of e)" using Cons.prems(1) by (intro reads_kv) simp
  from readsD[OF r, of l "concat (map (enc_kv wide) kvs) @ zs"] Cons.prems
  show ?case using Cons.IH[of "l - length (enc_kv wide e)" "keep_kv m (entry_of e)"] by simp
qed simp

lemma kept_fold: "foldl keep_kv Map.empty (map entry_of kvs) = kept kvs"
proof (induction kvs rule: rev_induct)
  case (snoc e kvs)
  then show ?case by (rule_tac ext) (simp add: kept_def keep_kv_def entry_of_def split: if_splits)
qed simp

lemma sat_step: "min (min a M * d) M = min (a * d) (M :: nat)"
proof (cases "a \<le> M \<or> d = 0")
  case False
  then obtain k where "d = Suc k" by (cases d) auto
  then show ?thesis using False by (simp add: min_def)
qed auto

lemma sat_product: "foldl sat_mul (min a MAX_U128) ds = min (a * prod_list ds) MAX_U128"
proof (induction ds arbitrary: a)
  case (Cons d ds)
  have "sat_mul (min a MAX_U128) d = min (a * d) MAX_U128"
    by (simp add: sat_mul_def sat_step)
  then show ?case using Cons.IH[of "a * d"] by (simp add: mult.assoc)
qed simp

lemma reads_dims: "\<forall>d \<in> set ds. d < 2 ^ 64 \<Longrightarrow> reads (read_dims (length ds) c) (concat (map (le_bytes 8) ds)) (foldl sat_mul c ds)"
proof (induction ds arbitrary: c)
  case (Cons d ds)
  have "reads read_u64 (le_bytes 8 d) d" using Cons.prems by (intro reads_u64) simp
  then show ?case using Cons by (simp add: reads_bind)
qed (simp add: reads_ret)

lemma reads_name: "len_ok wide (length us) \<Longrightarrow> \<exists>x. reads (read_str wide 0) (enc_len wide (length us) @ us) x"
proof -
  assume n: "len_ok wide (length us)"
  have "\<exists>x. reads (if 0 < length us then rbind (skip_bytes (length us)) (\<lambda>_. rret None)
      else rbind (take_bytes (length us)) (\<lambda>b. rret (Some (utf8_lossy b)))) us x"
    using reads_bind_ret[OF reads_skip[OF refl, of us], of "\<lambda>_. None :: ustr option"]
      reads_bind_ret[OF reads_take[OF refl, of us], of "\<lambda>b. Some (utf8_lossy b)"] by (cases us) auto
  then obtain x where "reads (if 0 < length us then rbind (skip_bytes (length us)) (\<lambda>_. rret None)
      else rbind (take_bytes (length us)) (\<lambda>b. rret (Some (utf8_lossy b)))) us x" ..
  then show ?thesis unfolding read_str_def by (intro exI[of _ x] reads_bind[OF reads_len[OF n]])
qed

lemma reads_tensor:
  assumes "tensor_ok wide t"
  shows "reads (read_tensor wide) (enc_tensor wide t) (min (elements t) MAX_U128)"
proof -
  obtain name dims tail where t: "t = (name, dims, tail)" by (metis surj_pair)
  have n: "len_ok wide (length (utf8 name))" and d: "length dims \<le> MAX_DIMS" "\<forall>d \<in> set dims. d < 2 ^ 64" and e: "length tail = 12"
    using assms by (simp_all add: t tensor_ok_def)
  obtain x where x: "reads (read_str wide 0) (enc_len wide (length (utf8 name)) @ utf8 name) x" using reads_name[OF n] by blast
  have c: "foldl sat_mul 1 dims = min (elements t) MAX_U128"
    using sat_product[of 1 dims] by (simp add: elements_def t MAX_U128_def)
  have u: "reads read_u32 (le_bytes 4 (length dims)) (length dims)" using d(1) by (intro reads_u32) (simp add: MAX_DIMS_def)
  have "reads (rbind (read_dims (length dims) 1) (\<lambda>c. rbind (skip_bytes 12) (\<lambda>_. rret c))) (concat (map (le_bytes 8) dims) @ tail)
      (min (elements t) MAX_U128)"
    using reads_bind[OF reads_dims[OF d(2), of 1] reads_bind_ret[OF reads_skip[OF e]]] unfolding c .
  then have "reads (read_tensor wide) ((enc_len wide (length (utf8 name)) @ utf8 name) @ le_bytes 4 (length dims)
      @ concat (map (le_bytes 8) dims) @ tail) (min (elements t) MAX_U128)"
    unfolding read_tensor_def using d(1) by (intro reads_bind[OF x] reads_bind[OF u]) simp
  then show ?thesis by (simp add: enc_tensor_def t)
qed

lemma reads_tensors:
  "(\<And>t. t \<in> set ts \<Longrightarrow> tensor_ok wide t) \<Longrightarrow>
   reads (read_tensors (length ts) wide (min a MAX_U128)) (concat (map (enc_tensor wide) ts))
     (min (a + sum_list (map elements ts)) MAX_U128)"
proof (induction ts arbitrary: a)
  case (Cons t ts)
  have "sat_add (min a MAX_U128) (min (elements t) MAX_U128) = min (a + elements t) MAX_U128" by (simp add: sat_add_def min_def)
  then show ?case using Cons.IH[of "a + elements t"] Cons.prems
    by (simp add: reads_bind[OF reads_tensor] add.assoc)
qed (simp add: reads_ret)

lemma reads_counts:
  assumes "nk \<le> MAX_KV" "nt \<le> MAX_TENSORS"
  shows "reads (read_counts wide) (enc_len wide nt @ enc_len wide nk) (nt, nk)"
proof -
  have n: "len_ok wide nt" "len_ok wide nk" using assms by (simp_all add: len_ok_def MAX_KV_def MAX_TENSORS_def)
  have "reads (rbind (read_len wide) (\<lambda>n_kv. if MAX_KV < n_kv \<or> MAX_TENSORS < nt then rstop else rret (nt, n_kv)))
      (enc_len wide nk @ []) (nt, nk)"
    by (rule reads_bind[OF reads_len[OF n(2)]]) (use assms in \<open>simp add: reads_ret\<close>)
  then show ?thesis unfolding read_counts_def by (intro reads_bind[OF reads_len[OF n(1)]]) simp
qed

end
