(* ===== verification/GgufClaims.thy ===== *)
theory GgufClaims
  imports GgufWrite
begin

text \<open>The properties of the header reader: what it makes of a whole header, and of one that is cut.\<close>

section \<open>The body as one reader\<close>

definition kvs_rd :: "nat \<Rightarrow> bool \<Rightarrow> kvs \<Rightarrow> kvs rd" where
  "kvs_rd n wide m = (\<lambda>s. case read_kvs n wide m s of (m', r) \<Rightarrow> map_option (\<lambda>s'. (m', s')) r)"

lemma kvs_rd_Suc: "kvs_rd (Suc n) wide m = rbind (read_kv wide) (\<lambda>e. kvs_rd n wide (keep_kv m e))"
  by (rule ext) (simp add: kvs_rd_def rbind_def split: option.splits)

lemma framed_kvs [framed]: "framed (kvs_rd n wide m)"
proof (induction n arbitrary: m)
  case 0
  show ?case by (simp add: kvs_rd_def framed_def)
next
  case (Suc n)
  then show ?case unfolding kvs_rd_Suc by (intro framed)
qed

definition body_rd :: "bool \<Rightarrow> (nat \<times> kvs \<times> nat) rd" where
  "body_rd wide = rbind (read_counts wide) (\<lambda>c. rbind (kvs_rd (snd c) wide Map.empty) (\<lambda>m.
     rbind (read_tensors (fst c) wide 0) (\<lambda>tot. rret (fst c, m, tot))))"

lemma framed_body: "framed (body_rd wide)"
  unfolding body_rd_def by (intro framed)

definition body_out :: "obj \<Rightarrow> nat \<Rightarrow> nat \<Rightarrow> obj" where
  "body_out out n tot = obj_insert (U ''complete'') (JBool True)
     (obj_insert (U ''params'') (params_json tot) (obj_insert (U ''tensors'') (JNum (PosInt n)) out))"

lemma read_body_done: "body_rd wide s = Some ((n, m, tot), s') \<Longrightarrow> read_body wide True out s = (m, body_out out n tot)"
  by (auto simp: body_rd_def read_body_def rbind_def rret_def kvs_rd_def body_out_def split: option.splits prod.splits)

lemma read_body_stopped: "body_rd wide s = None \<Longrightarrow> snd (read_body wide True out s) = out"
  by (auto simp: body_rd_def read_body_def rbind_def rret_def kvs_rd_def split: option.splits prod.splits)

definition enc_body :: "bool \<Rightarrow> gentry list \<Rightarrow> gtensor list \<Rightarrow> u8 list" where
  "enc_body wide kvs ts = (enc_len wide (length ts) @ enc_len wide (length kvs)) @ concat (map (enc_kv wide) kvs)
     @ concat (map (enc_tensor wide) ts)"

lemma enc_header_body: "enc_header version kvs ts = (GGUF_MAGIC @ le_bytes 4 version) @ enc_body (2 \<le> version) kvs ts"
  by (simp add: enc_header_def enc_body_def Let_def)

lemma reads_kvs: "(\<And>e. e \<in> set kvs \<Longrightarrow> kv_ok wide e) \<Longrightarrow>
    reads (kvs_rd (length kvs) wide Map.empty) (concat (map (enc_kv wide) kvs)) (kept kvs)"
  by (rule readsI) (simp add: kvs_rd_def read_kvs_written kept_fold)

lemma reads_body:
  assumes "header_ok version kvs ts"
  shows "reads (body_rd (2 \<le> version)) (enc_body (2 \<le> version) kvs ts)
    (length ts, kept kvs, min (sum_list (map elements ts)) MAX_U128)"
proof -
  let ?wide = "2 \<le> version"
  have n: "length kvs \<le> MAX_KV" "length ts \<le> MAX_TENSORS" and k: "\<And>e. e \<in> set kvs \<Longrightarrow> kv_ok ?wide e"
    and t: "\<And>t. t \<in> set ts \<Longrightarrow> tensor_ok ?wide t" using assms by (simp_all add: header_ok_def)
  have r: "reads (read_tensors (length ts) ?wide 0) (concat (map (enc_tensor ?wide) ts)) (min (sum_list (map elements ts)) MAX_U128)"
    using reads_tensors[OF t, of ts 0] by simp
  have "reads (rbind (kvs_rd (length kvs) ?wide Map.empty) (\<lambda>m. rbind (read_tensors (length ts) ?wide 0) (\<lambda>tot. rret (length ts, m, tot))))
      (concat (map (enc_kv ?wide) kvs) @ concat (map (enc_tensor ?wide) ts))
      (length ts, kept kvs, min (sum_list (map elements ts)) MAX_U128)"
    by (intro reads_bind[OF reads_kvs[OF k]] reads_bind_ret[OF r]) simp
  then show ?thesis
    unfolding body_rd_def enc_body_def by (intro reads_bind[OF reads_counts[OF n]]) simp
qed

lemma facts_keys: "map fst (facts_of m) = [U ''arch'', U ''name'', U ''size_label'', U ''basename'', U ''file_type'', U ''quant'',
    U ''split_count'', U ''context'', U ''block_count'', U ''embedding_length'', U ''head_count'', U ''head_count_kv'',
    U ''expert_count'', U ''expert_used_count'']"
  by (simp add: facts_of_def ARCH_FIELDS_def)

lemma insert_all_fresh:
  "distinct (map fst kvs) \<Longrightarrow> fst ` set kvs \<inter> fst ` set m = {} \<Longrightarrow> fold (\<lambda>(k, v). obj_insert k v) kvs m = m @ kvs"
  by (induction kvs arbitrary: m) (auto simp: obj_insert_fresh)

definition start_out :: "nat \<Rightarrow> obj" where
  "start_out version = [(U ''version'', JNum (PosInt version)), (U ''complete'', JBool False)]"

definition head_keys :: "ustr set" where
  "head_keys = {U ''version'', U ''complete'', U ''tensors'', U ''params''}"

lemma facts_keys_other: "set (map fst (facts_of m)) \<inter> head_keys = {}"
  by (simp only: facts_keys head_keys_def) simp

lemma add_facts:
  assumes "set (map fst out) \<subseteq> head_keys"
  shows "fold (\<lambda>(k, v). obj_insert k v) (facts_of m) out = out @ facts_of m"
proof (rule insert_all_fresh)
  show "distinct (map fst (facts_of m))" by (simp add: facts_keys)
  show "fst ` set (facts_of m) \<inter> fst ` set out = {}" using assms facts_keys_other[of m] unfolding set_map by blast
qed

lemma version_read:
  assumes "1 \<le> version" "version \<le> 3" "8 \<le> budget"
  shows "read_header ((GGUF_MAGIC @ le_bytes 4 version) @ bs) budget True =
     (case read_body (2 \<le> version) True (start_out version) (bs, budget - 8) of
        (m, out) \<Rightarrow> Some (fold (\<lambda>(k, v). obj_insert k v) (facts_of m) out))"
proof -
  have "take_bytes 4 ((GGUF_MAGIC @ le_bytes 4 version) @ bs, budget) = Some (GGUF_MAGIC, (le_bytes 4 version @ bs, budget - 4))"
    using assms by (simp add: take_bytes_def GGUF_MAGIC_def)
  moreover have "read_u32 (le_bytes 4 version @ bs, budget - 4) = Some (version, (bs, budget - 8))"
    using assms by (simp add: read_u32_def rbind_def rret_def take_bytes_def le_nat_le_bytes)
  ultimately show ?thesis using assms by (simp add: read_header_def start_out_def)
qed

lemma params_saturated: "params_json (min n MAX_U128) = params_json n"
  by (auto simp: params_json_def min_def MAX_U128_def)

section \<open>A header that is cut\<close>

lemma reads_cut:
  assumes p: "framed p" and r: "reads p us x" and k: "k < length us" "length us \<le> l" "l < 2 ^ 64"
  shows "p (take k us, l) = None"
proof (rule ccontr)
  assume "p (take k us, l) \<noteq> None"
  then obtain y bs' l' where y: "p (take k us, l) = Some (y, (bs', l'))" by (cases "p (take k us, l)") auto
  obtain vs where vs: "take k us = vs @ bs'" "\<And>zs. p (vs @ zs, l) = Some (y, (zs, l'))" using framedE[OF p y] by blast
  have "us = vs @ bs' @ drop k us" using vs(1) append_take_drop_id[of k us] by simp
  with vs(2)[of "bs' @ drop k us"] have "p (us, l) = Some (y, (bs' @ drop k us, l'))" by simp
  with readsD[OF r k(2,3), of "[]"] k(1) show False by simp
qed

lemma kvs_cut:
  "\<lbrakk>\<And>e. e \<in> set kvs \<Longrightarrow> kv_ok wide e; length (concat (map (enc_kv wide) kvs)) \<le> l; l < 2 ^ 64;
    k < length (concat (map (enc_kv wide) kvs))\<rbrakk> \<Longrightarrow>
   \<exists>j < length kvs. read_kvs (length kvs) wide m (take k (concat (map (enc_kv wide) kvs)), l) =
     (foldl keep_kv m (map entry_of (take j kvs)), None)"
proof (induction kvs arbitrary: m l k)
  case (Cons e kvs)
  let ?u = "enc_kv wide e" and ?us = "concat (map (enc_kv wide) kvs)"
  have r: "reads (read_kv wide) ?u (entry_of e)" using Cons.prems(1) by (intro reads_kv) simp
  show ?case
  proof (cases "k < length ?u")
    case True
    then have "read_kv wide (take k ?u, l) = None" by (intro reads_cut[OF framed_kv r]) (use Cons.prems in auto)
    then show ?thesis using True by (intro exI[of _ 0]) simp
  next
    case False
    have s: "read_kv wide (?u @ take (k - length ?u) ?us, l) = Some (entry_of e, (take (k - length ?u) ?us, l - length ?u))"
      by (rule readsD[OF r]) (use Cons.prems in auto)
    have "\<exists>j < length kvs. read_kvs (length kvs) wide (keep_kv m (entry_of e)) (take (k - length ?u) ?us, l - length ?u) =
        (foldl keep_kv (keep_kv m (entry_of e)) (map entry_of (take j kvs)), None)"
      by (rule Cons.IH) (use Cons.prems False in auto)
    then obtain j where "j < length kvs" "read_kvs (length kvs) wide (keep_kv m (entry_of e)) (take (k - length ?u) ?us, l - length ?u) =
        (foldl keep_kv (keep_kv m (entry_of e)) (map entry_of (take j kvs)), None)" by blast
    then show ?thesis using False by (intro exI[of _ "Suc j"]) (simp add: s)
  qed
qed simp

lemma body_cut:
  assumes ok: "header_ok version kvs ts" and l: "length (enc_body (2 \<le> version) kvs ts) \<le> l" "l < 2 ^ 64"
    and k: "k < length (enc_body (2 \<le> version) kvs ts)"
  shows "\<exists>j \<le> length kvs. read_body (2 \<le> version) True out (take k (enc_body (2 \<le> version) kvs ts), l) = (kept (take j kvs), out)"
proof -
  let ?wide = "2 \<le> version"
  let ?c = "enc_len ?wide (length ts) @ enc_len ?wide (length kvs)"
  let ?ks = "concat (map (enc_kv ?wide) kvs)" and ?tn = "concat (map (enc_tensor ?wide) ts)"
  have n: "length kvs \<le> MAX_KV" "length ts \<le> MAX_TENSORS" and kv: "\<And>e. e \<in> set kvs \<Longrightarrow> kv_ok ?wide e"
    and tn: "\<And>t. t \<in> set ts \<Longrightarrow> tensor_ok ?wide t" using ok by (simp_all add: header_ok_def)
  have b: "enc_body ?wide kvs ts = ?c @ ?ks @ ?tn" by (simp add: enc_body_def)
  have c: "reads (read_counts ?wide) ?c (length ts, length kvs)" by (rule reads_counts[OF n])
  show ?thesis
  proof (cases "k < length ?c")
    case True
    then have "read_counts ?wide (take k ?c, l) = None" by (intro reads_cut[OF framed_counts c]) (use l b in auto)
    then show ?thesis using True by (intro exI[of _ 0]) (simp add: read_body_def b)
  next
    case False
    define i where "i = k - length ?c"
    have t: "take k (enc_body ?wide kvs ts) = ?c @ take i (?ks @ ?tn)" using False by (simp only: b take_append i_def) simp
    have r: "read_counts ?wide (?c @ take i (?ks @ ?tn), l) = Some ((length ts, length kvs), (take i (?ks @ ?tn), l - length ?c))"
      by (rule readsD[OF c]) (use l b in auto)
    have i: "i < length ?ks + length ?tn" and l': "length ?ks + length ?tn \<le> l - length ?c" "l - length ?c < 2 ^ 64"
      using k l False by (auto simp: b i_def)
    show ?thesis
    proof (cases "i < length ?ks")
      case True
      then obtain j where "j < length kvs" "read_kvs (length kvs) ?wide Map.empty (take i ?ks, l - length ?c) =
          (foldl keep_kv Map.empty (map entry_of (take j kvs)), None)"
        using kvs_cut[of kvs ?wide "l - length ?c" i Map.empty] kv l' by auto
      then show ?thesis using True
        by (intro exI[of _ j]) (simp only: t read_body_def r, simp add: kept_fold)
    next
      case False
      have q: "read_kvs (length kvs) ?wide Map.empty (?ks @ take (i - length ?ks) ?tn, l - length ?c) =
          (kept kvs, Some (take (i - length ?ks) ?tn, l - length ?c - length ?ks))"
        using read_kvs_written[OF kv, of kvs "l - length ?c" Map.empty] l' by (simp add: kept_fold)
      have z: "read_tensors (length ts) ?wide 0 (take (i - length ?ks) ?tn, l - length ?c - length ?ks) = None"
        by (rule reads_cut[OF framed_tensors]) (use reads_tensors[OF tn, of ts 0] i l' False in auto)
      show ?thesis
        by (intro exI[of _ "length kvs"]) (use False q z in \<open>simp only: t read_body_def r, simp\<close>)
    qed
  qed
qed

section \<open>Properties\<close>

lemma length_prefix: "length (GGUF_MAGIC @ le_bytes 4 version) = 8"
  by (simp add: GGUF_MAGIC_def)

text \<open>
  C25. The header reader reads back what the format says: from a file that starts with a well-formed header
  of version 1, 2 or 3 (integers of every width and sign, texts, nested arrays, any number of tensors), it gives the
  facts of the last value written under each key it looks for, the number of tensors and of their elements
  (unless that is above 2^53), and calls the header complete.
\<close>

theorem header_read_back:
  assumes ok: "header_ok version kvs ts" and fits: "length (enc_header version kvs ts) \<le> budget" "budget < 2 ^ 64"
  shows "read_header (enc_header version kvs ts @ rest) budget True =
    Some ([(U ''version'', JNum (PosInt version)), (U ''complete'', JBool True), (U ''tensors'', JNum (PosInt (length ts))),
      (U ''params'', params_json (sum_list (map elements ts)))] @ facts_of (kept kvs))"
proof -
  have v: "1 \<le> version" "version \<le> 3" using ok by (simp_all add: header_ok_def)
  have l: "length (enc_body (2 \<le> version) kvs ts) \<le> budget - 8" "8 \<le> budget" "budget - 8 < 2 ^ 64"
    using fits length_prefix[of version] by (auto simp: enc_header_body)
  have "body_rd (2 \<le> version) (enc_body (2 \<le> version) kvs ts @ rest, budget - 8) =
      Some ((length ts, kept kvs, min (sum_list (map elements ts)) MAX_U128), (rest, budget - 8 - length (enc_body (2 \<le> version) kvs ts)))"
    by (rule readsD[OF reads_body[OF ok] l(1,3)])
  from read_body_done[OF this, of "start_out version"]
  have b: "read_body (2 \<le> version) True (start_out version) (enc_body (2 \<le> version) kvs ts @ rest, budget - 8) =
      (kept kvs, body_out (start_out version) (length ts) (min (sum_list (map elements ts)) MAX_U128))" .
  have h: "enc_header version kvs ts @ rest = (GGUF_MAGIC @ le_bytes 4 version) @ (enc_body (2 \<le> version) kvs ts @ rest)"
    by (simp add: enc_header_body)
  let ?out = "[(U ''version'', JNum (PosInt version)), (U ''complete'', JBool True), (U ''tensors'', JNum (PosInt (length ts))),
      (U ''params'', params_json (sum_list (map elements ts)))]"
  have o: "body_out (start_out version) (length ts) (min (sum_list (map elements ts)) MAX_U128) = ?out"
    by (simp add: body_out_def start_out_def params_saturated)
  have "set (map fst ?out) \<subseteq> head_keys" by (simp add: head_keys_def)
  from add_facts[OF this] show ?thesis unfolding h version_read[OF v l(2)] b o by simp
qed

text \<open>
  C15. A cut file never passes for a whole one, and no byte beyond the budget matters: with fewer than eight bytes
  there is no answer; with less than the whole header the answer says so, and its facts are those of some first
  entries of the header, read whole.
\<close>

theorem cut_header:
  assumes ok: "header_ok version kvs ts" and fits: "length (enc_header version kvs ts) \<le> budget" "budget < 2 ^ 64"
    and k: "k < length (enc_header version kvs ts)"
  shows "read_header (take b f) b tensors = read_header f b tensors
    \<and> (if k < 8 then read_header (take k (enc_header version kvs ts)) budget True = None
       else \<exists>j \<le> length kvs. read_header (take k (enc_header version kvs ts)) budget True =
         Some ([(U ''version'', JNum (PosInt version)), (U ''complete'', JBool False)] @ facts_of (kept (take j kvs))))"
proof (intro conjI)
  show "read_header (take b f) b tensors = read_header f b tensors" by (rule header_within_budget)
  let ?pre = "GGUF_MAGIC @ le_bytes 4 version" and ?body = "enc_body (2 \<le> version) kvs ts"
  have v: "1 \<le> version" "version \<le> 3" using ok by (simp_all add: header_ok_def)
  have h: "enc_header version kvs ts = ?pre @ ?body" by (rule enc_header_body)
  have b: "8 \<le> budget" "length ?body \<le> budget - 8" "budget - 8 < 2 ^ 64" using fits length_prefix[of version] by (auto simp: h)
  show "if k < 8 then read_header (take k (enc_header version kvs ts)) budget True = None
       else \<exists>j \<le> length kvs. read_header (take k (enc_header version kvs ts)) budget True =
         Some ([(U ''version'', JNum (PosInt version)), (U ''complete'', JBool False)] @ facts_of (kept (take j kvs)))"
  proof (cases "k < 8")
    case True
    then have t: "length (take k (enc_header version kvs ts)) < 8" by simp
    have "read_header us budget True = None" if "length us < 8" for us
      using that by (auto simp: read_header_def take_bytes_def read_u32_def rbind_def rret_def)
    from this[OF t] True show ?thesis by simp
  next
    case False
    have t: "take k (enc_header version kvs ts) = ?pre @ take (k - 8) ?body"
      using False length_prefix[of version] by (simp only: h take_append) simp
    have "k - 8 < length ?body" using k False length_prefix[of version] by (simp add: h)
    then obtain j where j: "j \<le> length kvs"
      "read_body (2 \<le> version) True (start_out version) (take (k - 8) ?body, budget - 8) = (kept (take j kvs), start_out version)"
      using body_cut[OF ok b(2,3)] by blast
    have "set (map fst (start_out version)) \<subseteq> head_keys" by (simp add: start_out_def head_keys_def)
    from add_facts[OF this] have "read_header (?pre @ take (k - 8) ?body) budget True = Some (start_out version @ facts_of (kept (take j kvs)))"
      unfolding version_read[OF v b(1)] j(2) by simp
    then show ?thesis using False j(1) by (auto simp: t start_out_def)
  qed
qed

definition sample_kvs :: "gentry list" where
  "sample_kvs = [(U ''general.architecture'', GStr (U ''llama'')), (U ''llama.context_length'', GInt 4 4096),
     (U ''tokenizer.ggml.tokens'', GArr T_STR [GStr (U ''a''), GStr []])]"

definition sample_tensors :: "gtensor list" where
  "sample_tensors = [(U ''t'', [3, 5], replicate 12 0)]"

lemma length_utf8_ascii: "\<forall>c \<in> set s. c < 128 \<Longrightarrow> length (utf8 s) = length s"
  by (induction s) (simp_all add: utf8_def utf8_char_def)

lemma utf8_Nil: "utf8 [] = []"
  by (simp add: utf8_def)

lemma U_small: "\<forall>c \<in> set s. of_char c < (128 :: nat) \<Longrightarrow> \<forall>c \<in> set (U s). c < 128"
  by (auto simp: U_def)

lemma U_scalar: "\<forall>c \<in> set s. of_char c < (128 :: nat) \<Longrightarrow> Ball (set (U s)) is_scalar = True"
  using U_small[of s] by (auto simp: is_scalar_def)

lemma U_length: "\<forall>c \<in> set s. of_char c < (128 :: nat) \<Longrightarrow> length (utf8 (U s)) = length s"
  using length_utf8_ascii[OF U_small, of s] by simp

lemma sample_lengths: "length sample_kvs = 3" "length sample_tensors = 1" "sum_list (map elements sample_tensors) = 15"
  by (simp_all add: sample_kvs_def sample_tensors_def elements_def)

lemma sample_header: "header_ok 3 sample_kvs sample_tensors" "length (enc_header 3 sample_kvs sample_tensors) = 208"
proof -
  have f: "fixed_size 4 = Some 4" "fixed_size 8 = None" by (simp_all add: fixed_size_def)
  have d: "GGUF_MAX_DEPTH = Suc (Suc (Suc 0))" by (simp add: GGUF_MAX_DEPTH_def)
  show "header_ok 3 sample_kvs sample_tensors"
    by (simp add: header_ok_def sample_kvs_def sample_tensors_def kv_ok_def tensor_ok_def U_scalar U_length MAX_KEY_def MAX_KV_def
        MAX_TENSORS_def MAX_DIMS_def T_STR_def int_fits_def len_ok_def f d utf8_Nil)
  show "length (enc_header 3 sample_kvs sample_tensors) = 208"
    by (simp add: enc_header_def GGUF_MAGIC_def enc_len_def enc_kv_def enc_tensor_def sample_kvs_def sample_tensors_def U_length f T_STR_def
        num_bytes_def utf8_Nil)
qed

lemma header_read_back_witness:
  "header_ok 3 sample_kvs sample_tensors \<and> read_header (enc_header 3 sample_kvs sample_tensors @ [1, 2]) 1000 True =
     Some ([(U ''version'', JNum (PosInt 3)), (U ''complete'', JBool True), (U ''tensors'', JNum (PosInt 1)),
       (U ''params'', JNum (PosInt 15))] @ facts_of (kept sample_kvs))"
  using header_read_back[OF sample_header(1), of 1000 "[1, 2]"] sample_header(1)
  by (simp add: sample_header(2) params_json_def sample_lengths)

lemma cut_header_witness:
  "\<exists>j \<le> 3. read_header (take 100 (enc_header 3 sample_kvs sample_tensors)) 1000 True =
     Some ([(U ''version'', JNum (PosInt 3)), (U ''complete'', JBool False)] @ facts_of (kept (take j sample_kvs)))"
  using cut_header[OF sample_header(1), of 1000 100 0 "[]" True] by (simp add: sample_header(2) sample_lengths)

end
