(* ===== verification/Runspec.thy ===== *)
theory Runspec
  imports RunPlan PyFmt
begin

text \<open>
  The hub's side of \<open>docker.run\<close> (crates/ec-hub/src/services/runspec.rs): model references, the mounts they need, the
  spec of a launch, and the checks the hub makes before it sends one. Printing of floats is a parameter,
  and so is what counts as a word character in a repository id (\<open>\w\<close>, Unicode).
\<close>

section \<open>Patterns\<close>

definition HUB_CONTAINER_NAME :: re where
  "HUB_CONTAINER_NAME = Seq (Lit (U ''ec-'')) (Seq (Cls [(97, 122), (48, 57)]) (UpTo (Cls [(97, 122), (48, 57), (45, 45)]) 58))"

definition HUB_INSTANCE_ID :: re where
  "HUB_INSTANCE_ID = Seq (Cls [(65, 90), (97, 122), (48, 57), (95, 95), (45, 45)])
     (UpTo (Cls [(65, 90), (97, 122), (48, 57), (95, 95), (45, 45)]) 63)"

definition HUB_ENV_NAME :: re where
  "HUB_ENV_NAME = Seq (Cls [(65, 90), (97, 122), (95, 95)]) (UpTo (Cls [(65, 90), (97, 122), (48, 57), (95, 95)]) 127)"

definition HUB_VOLUME_NAME :: re where
  "HUB_VOLUME_NAME = Seq (Lit (U ''ec-''))
     (Seq (Cls [(97, 122), (48, 57)]) (UpTo (Cls [(97, 122), (48, 57), (95, 95), (46, 46), (45, 45)]) 60))"

definition HUB_SHM_SIZE :: re where
  "HUB_SHM_SIZE = Seq (Cls [(48, 57)]) (Seq (UpTo (Cls [(48, 57)]) 3) (Cls [(107, 107), (109, 109), (103, 103)]))"

definition OLLAMA_NAME :: re where
  "OLLAMA_NAME = Seq (Cls [(65, 90), (97, 122), (48, 57)])
     (UpTo (Cls [(65, 90), (97, 122), (48, 57), (95, 95), (46, 46), (58, 58), (47, 47), (64, 64), (45, 45)]) 127)"

definition looks_secret :: "ustr \<Rightarrow> bool" where
  "looks_secret k \<longleftrightarrow> matches (Seq ANY_STAR (Seq (Alts (map IC [''key'', ''token'', ''secret'', ''password''])) ANY_STAR)) k"

definition SHARD_SUFFIX :: re where
  "SHARD_SUFFIX = Seq (Lit (U ''-'')) (Seq (Star (Lit (U ''0''))) (Seq (Lit (U ''1-of-''))
     (Seq (Star (Lit (U ''0''))) (Plus (Cls [(48, 57)])))))"

definition MODEL_ROOT_ID :: re where
  "MODEL_ROOT_ID = Seq (Cls [(65, 90), (97, 122), (48, 57), (95, 95), (46, 46), (45, 45)])
     (UpTo (Cls [(65, 90), (97, 122), (48, 57), (95, 95), (46, 46), (45, 45)]) 31)"

definition HUB_ULIMIT_VALUE :: re where
  "HUB_ULIMIT_VALUE =
     (let one = Alt (Lit (U ''-1'')) (Seq (Cls [(48, 57)]) (UpTo (Cls [(48, 57)]) 14)) in
      Seq one (Opt (Seq (Chr 58) one)))"

definition OLLAMA_MODELS_DEST :: ustr where "OLLAMA_MODELS_DEST = U ''/root/.ollama/models''"
definition MODEL_MOUNT :: ustr where "MODEL_MOUNT = U ''/models''"
definition HUB_MAX_FILES :: nat where "HUB_MAX_FILES = 4"
definition MAX_FILE_BYTES :: nat where "MAX_FILE_BYTES = 128 * 1024"
definition HUB_ULIMITS :: "ustr list" where "HUB_ULIMITS = [U ''nofile'', U ''stack'']"

section \<open>Model references\<close>

record model_ref =
  mr_format :: ustr
  mr_repo_id :: "ustr option"
  mr_root_id :: "ustr option"
  mr_rel :: "ustr option"
  mr_name :: "ustr option"

definition rel_ok :: "ustr \<Rightarrow> bool" where
  "rel_ok rel \<longleftrightarrow> \<not> (rel = [] \<or> starts_with rel [slash] \<or> 92 \<in> set rel \<or> 0 \<in> set rel)
     \<and> (\<forall>seg \<in> set (split_on slash rel). seg \<noteq> [] \<and> seg \<noteq> dot_seg \<and> seg \<noteq> dotdot_seg)"

text \<open>\<open>check_repo_id\<close> (crates/ec-hub/src/domain/repo_id.rs).\<close>

definition repo_part :: "(nat \<Rightarrow> bool) \<Rightarrow> ustr \<Rightarrow> bool" where
  "repo_part word p \<longleftrightarrow> p \<noteq> [] \<and> in_cls (hd p) [(65, 90), (97, 122), (48, 57)] \<and> length p \<le> 96
     \<and> (\<forall>c \<in> set (tl p). word c \<or> c = 46 \<or> c = 45)"

fun str_contains :: "ustr \<Rightarrow> ustr \<Rightarrow> bool" where
  "str_contains s p \<longleftrightarrow> starts_with s p \<or> (case s of [] \<Rightarrow> False | c # cs \<Rightarrow> str_contains cs p)"

definition REPO_ID_MSG :: ustr where
  "REPO_ID_MSG = U ''repo_id must look like 'org/name' (letters, digits, . _ -)''"

definition check_repo_id :: "(nat \<Rightarrow> bool) \<Rightarrow> ustr \<Rightarrow> ustr + unit" where
  "check_repo_id word v =
     (case split_on slash v of
        [a, b] \<Rightarrow> if repo_part word a \<and> repo_part word b \<and> \<not> str_contains v (U ''--'') \<and> \<not> str_contains v (U ''..'')
                  then Inr () else Inl REPO_ID_MSG
      | _ \<Rightarrow> Inl REPO_ID_MSG)"

definition ends_gguf :: "ustr \<Rightarrow> bool" where
  "ends_gguf s \<longleftrightarrow> ends_with (map lower_char s) (U ''.gguf'')"

definition ref_problem :: "(nat \<Rightarrow> bool) \<Rightarrow> model_ref \<Rightarrow> ustr" where
  "ref_problem word r =
     (let fmt = mr_format r; rel = unwrap_or [] (mr_rel r) in
      if fmt = U ''hf'' then (case check_repo_id word (unwrap_or [] (mr_repo_id r)) of Inl e \<Rightarrow> e | Inr _ \<Rightarrow> [])
      else if fmt = U ''gguf'' \<or> fmt = U ''plain'' then
        (if \<not> (case mr_root_id r of Some i \<Rightarrow> matches MODEL_ROOT_ID i | None \<Rightarrow> False) then
           U ''a '' @ fmt @ U '' model needs the id of the model root it lives in''
         else if fmt = U ''gguf'' \<and> \<not> (rel \<noteq> [] \<and> rel_ok rel \<and> ends_gguf rel) then
           U ''a gguf model needs `rel`: the path of the .gguf file (or its first shard) inside the root''
         else if fmt = U ''plain'' \<and> rel \<noteq> [] \<and> \<not> rel_ok rel then
           U ''`rel` must be a relative path without '..' segments''
         else [])
      else if fmt = U ''ollama'' then
        (case mr_name r of
           Some n \<Rightarrow> if n \<noteq> [] \<and> \<not> matches OLLAMA_NAME n then U ''an ollama model name looks like 'llama3:8b'' @ [39] else []
         | None \<Rightarrow> [])
      else [])"

definition check_ref :: "(nat \<Rightarrow> bool) \<Rightarrow> model_ref \<Rightarrow> (ustr \<times> ustr) + unit" where
  "check_ref word r = (let wrong = ref_problem word r in if wrong = [] then Inr () else Inl (U ''invalid_model'', wrong))"

definition posix_basename :: "ustr \<Rightarrow> ustr" where
  "posix_basename p = last (split_on slash p)"

definition posix_dirname :: "ustr \<Rightarrow> ustr" where
  "posix_dirname p =
     (if slash \<notin> set p then []
      else (let head = rev (dropWhile (\<lambda>c. c \<noteq> slash) (rev p)); stripped = trim_end slash head in
        if stripped = [] then head else stripped))"

fun strip_shard :: "ustr \<Rightarrow> ustr" where
  "strip_shard s = (if matches SHARD_SUFFIX s then [] else (case s of [] \<Rightarrow> [] | c # cs \<Rightarrow> c # strip_shard cs))"

definition display_of :: "model_ref \<Rightarrow> ustr" where
  "display_of r =
     (let fmt = mr_format r in
      if fmt = U ''hf'' then nonempty_or (U ''model'') (mr_repo_id r)
      else if fmt = U ''ollama'' then nonempty_or (U ''ollama'') (mr_name r)
      else
        (let rel = unwrap_or [] (mr_rel r); base = posix_basename (trim_end slash rel);
             base = (if base = [] then nonempty_or (U ''model'') (mr_root_id r) else base);
             base = (if fmt = U ''gguf'' then
                       strip_shard (if ends_gguf base then take (length base - 5) base else base)
                     else base) in
         if base = [] then U ''model'' else base))"

section \<open>Mounts\<close>

definition hf_layout :: "ustr option \<Rightarrow> ustr \<Rightarrow> ustr" where
  "hf_layout root_kind copy_rel =
     (if root_kind = Some (U ''hf-hub'') then U ''hub''
      else if root_kind = Some (U ''hf-home'') then U ''home''
      else if starts_with copy_rel (U ''models--'') then U ''hub'' else U ''home'')"

definition mount_obj :: "ustr option \<Rightarrow> ustr \<Rightarrow> ustr \<Rightarrow> obj" where
  "mount_obj root_id rel dest =
     [(U ''root'', case root_id of Some i \<Rightarrow> JStr i | None \<Rightarrow> JNull), (U ''rel'', JStr rel), (U ''dest'', JStr dest), (U ''ro'', JBool True)]"

definition hf_mounts :: "ustr \<Rightarrow> ustr option \<Rightarrow> ustr \<Rightarrow> ustr \<Rightarrow> obj list" where
  "hf_mounts root_id root_kind copy_rel hf_path =
     [mount_obj (Some root_id) (if hf_layout root_kind copy_rel = U ''home'' then U ''hub'' else []) (trim_end slash hf_path @ U ''/hub'')]"

fun split_once :: "ustr \<Rightarrow> ustr \<Rightarrow> (ustr \<times> ustr) option" where
  "split_once p s =
     (if starts_with s p then Some ([], drop (length p) s)
      else (case s of [] \<Rightarrow> None | c # cs \<Rightarrow> map_option (\<lambda>(a, b). (c # a, b)) (split_once p cs)))"

definition gguf_mounts :: "model_ref \<Rightarrow> obj list \<times> ustr option" where
  "gguf_mounts r =
     (let rel = unwrap_or [] (mr_rel r);
          whole = ([mount_obj (mr_root_id r) (posix_dirname rel) MODEL_MOUNT], Some (MODEL_MOUNT @ U ''/'' @ posix_basename rel)) in
      case split_once (U ''/snapshots/'') rel of
        None \<Rightarrow> whole
      | Some (repo, rest) \<Rightarrow>
          if repo \<noteq> [] \<and> rest \<noteq> [] then
            ([mount_obj (mr_root_id r) repo MODEL_MOUNT], Some (MODEL_MOUNT @ U ''/snapshots/'' @ rest))
          else whole)"

definition ollama_rel :: "ustr option \<Rightarrow> ustr \<Rightarrow> ustr" where
  "ollama_rel copy_rel rpath =
     (let cr = unwrap_or [] copy_rel; first = hd (split_on slash cr) in
      if cr \<noteq> [] \<and> first = U ''manifests'' then []
      else if cr \<noteq> [] \<and> first = U ''models'' then U ''models''
      else if posix_basename (trim_end slash rpath) = U ''models'' then []
      else U ''models'')"

definition model_mounts :: "model_ref \<Rightarrow> ustr option \<Rightarrow> (ustr \<times> ustr) option \<Rightarrow> obj list \<times> ustr option" where
  "model_mounts r copy_rel ollama_root =
     (let fmt = mr_format r in
      if fmt = U ''gguf'' then gguf_mounts r
      else if fmt = U ''plain'' then ([mount_obj (mr_root_id r) (unwrap_or [] (mr_rel r)) MODEL_MOUNT], Some MODEL_MOUNT)
      else if fmt = U ''ollama'' then
        (case ollama_root of
           None \<Rightarrow> ([], None)
         | Some (root_id, rpath) \<Rightarrow> ([mount_obj (Some root_id) (ollama_rel copy_rel rpath) OLLAMA_MODELS_DEST], None))
      else ([], None))"

section \<open>The spec of a launch\<close>

record launch_spec =
  ls_image :: ustr
  ls_argv :: "ustr list"
  ls_env :: obj
  ls_port :: int
  ls_health_path :: ustr
  ls_metrics_path :: ustr
  ls_models_path :: ustr
  ls_shm :: ustr
  ls_ipc_host :: bool
  ls_files :: obj
  ls_needs_hf_cache :: bool
  ls_ulimits :: obj

text \<open>Environment in the plain and in the secret part; the plain one says offline unless it was set.\<close>

fun split_env_step :: "(rat \<Rightarrow> ustr) \<Rightarrow> ustr \<times> json \<Rightarrow> obj \<times> (ustr \<times> ustr) list \<Rightarrow> obj \<times> (ustr \<times> ustr) list" where
  "split_env_step fg (k, v) (env, secret) =
     (if looks_secret k then (env, obj_insert k (str_value fg v) secret)
      else (obj_insert k (JStr (str_value fg v)) env, secret))"

definition split_env :: "(rat \<Rightarrow> ustr) \<Rightarrow> obj \<Rightarrow> bool \<Rightarrow> obj \<times> (ustr \<times> ustr) list" where
  "split_env fg launch_env offline =
     (case fold (split_env_step fg) launch_env ([], []) of (env, secret) \<Rightarrow>
        (if offline \<and> obj_get env (U ''HF_HUB_OFFLINE'') = None then obj_insert (U ''HF_HUB_OFFLINE'') (JStr (U ''1'')) env else env,
         secret))"

record label_args =
  la_instance :: ustr
  la_engine :: ustr
  la_display :: ustr
  la_ref :: model_ref
  la_port :: int
  la_name :: ustr
  la_gpu_ids :: "int list"
  la_gpu_uuids :: "ustr list"

definition engine_labels :: "label_args \<Rightarrow> obj" where
  "engine_labels a =
     (let labels =
        [(U ''engine-console.role'', U ''engine''), (U ''engine-console.instance'', la_instance a),
         (U ''engine-console.engine'', la_engine a), (U ''engine-console.model'', la_display a),
         (U ''engine-console.port'', dec_int (la_port a)), (U ''engine-console.name'', la_name a),
         (U ''engine-console.format'', mr_format (la_ref a)),
         (U ''engine-console.gpu_ids'', join_with (U '','') (map dec_int (la_gpu_ids a)))]
        @ filter (\<lambda>(k, v). v \<noteq> [] \<and> length v \<le> 256)
            [(U ''engine-console.gpus'', join_with (U '','') (la_gpu_uuids a)),
             (U ''engine-console.root'', unwrap_or [] (mr_root_id (la_ref a))),
             (U ''engine-console.rel'', unwrap_or [] (mr_rel (la_ref a)))] in
      obj_of (map (\<lambda>(k, v). (k, JStr v)) (filter (\<lambda>(k, v). v \<noteq> [] \<and> length v \<le> 256) labels)))"

record run_args =
  ra_name :: ustr
  ra_instance :: ustr
  ra_image :: ustr
  ra_launch :: launch_spec
  ra_gpu_uuids :: "ustr list"
  ra_labels :: obj
  ra_env :: obj
  ra_secret_env :: obj
  ra_mounts :: "obj list"
  ra_volumes :: "(ustr \<times> ustr) list"
  ra_ipc_host :: bool

definition build_run_spec :: "run_args \<Rightarrow> obj" where
  "build_run_spec a =
     [(U ''name'', JStr (ra_name a)), (U ''instance'', JStr (ra_instance a)), (U ''image'', JStr (ra_image a)),
      (U ''argv'', JArr (map JStr (ls_argv (ra_launch a)))), (U ''container_port'', json_int (ls_port (ra_launch a))),
      (U ''gpu_uuids'', JArr (map JStr (ra_gpu_uuids a))), (U ''network_alias'', JStr (ra_name a)),
      (U ''labels'', JObj (ra_labels a)), (U ''env'', JObj (ra_env a)), (U ''secret_env'', JObj (ra_secret_env a)),
      (U ''mounts'', JArr (map JObj (ra_mounts a))),
      (U ''volumes'', JArr (map (\<lambda>(n, d). JObj [(U ''name'', JStr n), (U ''dest'', JStr d)]) (ra_volumes a))),
      (U ''shm_size'', JStr (ls_shm (ra_launch a))), (U ''ipc_host'', JBool (ra_ipc_host a))]
     @ (if ls_files (ra_launch a) = [] then [] else [(U ''files'', JObj (ls_files (ra_launch a)))])
     @ (if ls_ulimits (ra_launch a) = [] then [] else [(U ''ulimits'', JObj (ls_ulimits (ra_launch a)))])"

section \<open>The checks\<close>

definition arr_or_empty :: "json option \<Rightarrow> json list" where
  "arr_or_empty v = (case v of Some (JArr a) \<Rightarrow> a | _ \<Rightarrow> [])"

definition obj_or_empty :: "json option \<Rightarrow> obj" where
  "obj_or_empty v = (case v of Some (JObj m) \<Rightarrow> m | _ \<Rightarrow> [])"

definition str_of :: "(rat \<Rightarrow> ustr) \<Rightarrow> obj \<Rightarrow> ustr \<Rightarrow> ustr" where
  "str_of fg m k = (case obj_get m k of None \<Rightarrow> [] | Some v \<Rightarrow> str_value fg v)"

definition argv_bad :: "(rat \<Rightarrow> ustr) \<Rightarrow> json list \<Rightarrow> bool" where
  "argv_bad fg argv \<longleftrightarrow> 512 < length argv \<or> (\<exists>a \<in> set argv. let s = str_value fg a in 4096 < length s \<or> 0 \<in> set s)"

definition port_ok :: "obj \<Rightarrow> bool" where
  "port_ok spec = (case obj_get spec (U ''container_port'') of
       Some (JNum n) \<Rightarrow> \<not> is_f64 n \<and> (case as_i64 n of Some p \<Rightarrow> 1 \<le> p \<and> p \<le> 65535 | None \<Rightarrow> False)
     | _ \<Rightarrow> False)"

definition labels_bad :: "(rat \<Rightarrow> ustr) \<Rightarrow> obj \<Rightarrow> bool" where
  "labels_bad fg labels \<longleftrightarrow> 32 < length labels
     \<or> (\<exists>(k, v) \<in> set labels. \<not> starts_with k (U ''engine-console.'') \<or> 256 < length (str_value fg v))"

definition env_bad :: "(rat \<Rightarrow> ustr) \<Rightarrow> nat \<Rightarrow> obj \<Rightarrow> bool" where
  "env_bad fg most vars \<longleftrightarrow> most < length vars
     \<or> (\<exists>(k, v) \<in> set vars. \<not> matches HUB_ENV_NAME k \<or> 4096 < length (str_value fg v))"

definition env_text :: "ustr \<Rightarrow> ustr" where
  "env_text field = field @ U '': too many variables, or a bad name or value (names: letters, digits, underscore)''"

definition mount_error :: "(rat \<Rightarrow> ustr) \<Rightarrow> json \<Rightarrow> ustr list" where
  "mount_error fg m =
     (let mo = (case m of JObj x \<Rightarrow> x | _ \<Rightarrow> []); rel = str_of fg mo (U ''rel''); dest = str_of fg mo (U ''dest'') in
      if rel \<noteq> [] \<and> \<not> rel_ok rel \<or> \<not> starts_with dest [slash] \<or> dotdot_seg \<in> set (split_on slash dest) then
        [U ''mount of root '' @ (case obj_get mo (U ''root'') of None \<Rightarrow> U ''None'' | Some v \<Rightarrow> repr_value fg v)
           @ U '': bad path ('' @ py_repr rel @ U '' -> '' @ py_repr dest @ U '')'']
      else [])"

definition volumes_bad :: "(rat \<Rightarrow> ustr) \<Rightarrow> json list \<Rightarrow> bool" where
  "volumes_bad fg volumes \<longleftrightarrow> 8 < length volumes
     \<or> (\<exists>v \<in> set volumes. let vo = (case v of JObj x \<Rightarrow> x | _ \<Rightarrow> []) in
          \<not> matches HUB_VOLUME_NAME (str_of fg vo (U ''name'')) \<or> \<not> starts_with (str_of fg vo (U ''dest'')) [slash])"

definition hub_shm_gib :: "ustr \<Rightarrow> rat" where
  "hub_shm_gib shm =
     (let n = of_nat (digits_val (butlast shm)); u = last shm in
      n * (if u = 107 then 1 / 1048576 else if u = 109 then 1 / 1024 else 1))"

definition shm_errors :: "(rat \<Rightarrow> ustr) \<Rightarrow> rat option \<Rightarrow> ustr \<Rightarrow> ustr list" where
  "shm_errors gfmt max_shm shm =
     (if \<not> matches HUB_SHM_SIZE shm then [U ''shm_size must look like 16g'']
      else (case max_shm of
          None \<Rightarrow> []
        | Some m \<Rightarrow>
            if m < hub_shm_gib shm then
              [U ''shm_size '' @ shm @ U '' is above this machine's policy limit of '' @ gfmt m @ U '' GiB'']
            else []))"

definition files_bad :: "(rat \<Rightarrow> ustr) \<Rightarrow> obj \<Rightarrow> bool" where
  "files_bad fg files \<longleftrightarrow> HUB_MAX_FILES < length files
     \<or> (\<exists>(p, c) \<in> set files. \<not> starts_with p [slash] \<or> MAX_FILE_BYTES < byte_len (str_value fg c))"

definition ulimit_error :: "(rat \<Rightarrow> ustr) \<Rightarrow> ustr \<times> json \<Rightarrow> ustr list" where
  "ulimit_error fg kv =
     (let k = fst kv; vs = str_value fg (snd kv) in
      if k \<notin> set HUB_ULIMITS \<or> \<not> matches HUB_ULIMIT_VALUE vs then
        [U ''ulimit '' @ k @ U ''='' @ vs @ U '': only '' @ join_with (U '', '') HUB_ULIMITS
           @ U '' with -1, a number or soft:hard numbers'']
      else [])"

definition if_bad :: "bool \<Rightarrow> ustr \<Rightarrow> ustr list" where
  "if_bad b msg = (if b then [msg] else [])"

definition validate_run_spec :: "(rat \<Rightarrow> ustr) \<Rightarrow> (rat \<Rightarrow> ustr) \<Rightarrow> obj \<Rightarrow> rat option \<Rightarrow> ustr list" where
  "validate_run_spec fg gfmt spec max_shm =
     if_bad (\<not> matches HUB_CONTAINER_NAME (str_of fg spec (U ''name'')))
       (U ''container name must look like ec-<letters, digits, hyphens>'')
     @ if_bad (\<not> matches HUB_INSTANCE_ID (str_of fg spec (U ''instance'')))
       (U ''instance id has characters the node does not accept'')
     @ if_bad (argv_bad fg (arr_or_empty (obj_get spec (U ''argv''))))
       (U ''the engine command line is too long (over 512 arguments, or an argument over 4096 characters)'')
     @ if_bad (\<not> port_ok spec) (U ''container port must be 1-65535'')
     @ if_bad (16 < length (arr_or_empty (obj_get spec (U ''gpu_uuids'')))) (U ''at most 16 GPUs per engine'')
     @ if_bad (labels_bad fg (obj_or_empty (obj_get spec (U ''labels''))))
       (U ''labels must start with 'engine-console.', be at most 32, and each value at most 256 characters'')
     @ if_bad (env_bad fg 128 (obj_or_empty (obj_get spec (U ''env'')))) (env_text (U ''env''))
     @ if_bad (env_bad fg 16 (obj_or_empty (obj_get spec (U ''secret_env'')))) (env_text (U ''secret_env''))
     @ if_bad (16 < length (arr_or_empty (obj_get spec (U ''mounts'')))) (U ''at most 16 mounts'')
     @ concat (map (mount_error fg) (arr_or_empty (obj_get spec (U ''mounts''))))
     @ if_bad (volumes_bad fg (arr_or_empty (obj_get spec (U ''volumes''))))
       (U ''named volumes must be called ec-<name> and have an absolute destination'')
     @ shm_errors gfmt max_shm (str_of fg spec (U ''shm_size''))
     @ if_bad (files_bad fg (obj_or_empty (obj_get spec (U ''files''))))
       (U ''at most 4 generated files, absolute paths, 128 KiB each'')
     @ concat (map (ulimit_error fg) (obj_or_empty (obj_get spec (U ''ulimits''))))"

section \<open>The end of a launch's preparation\<close>

text \<open>
  What the lifecycle service does with all this (crates/ec-hub/src/services/lifecycle.rs, the end of \<open>build\<close>): a secret
  parameter on the command line refuses the launch, the checks see the names of the secret variables only, and their
  values go into the request. The field \<open>location\<close> of \<open>Built\<close>, which nothing reads, is left out.
\<close>

definition MARKER :: ustr where "MARKER = U ''[set]''"

definition is_sensitive_key :: "ustr \<Rightarrow> bool" where
  "is_sensitive_key k \<longleftrightarrow> matches (Seq ANY_STAR (Seq (Alts (map IC
     [''key'', ''token'', ''secret'', ''password'', ''passwd'', ''authorization'', ''cookie'', ''credential''])) ANY_STAR)) k"

definition secret_param_values :: "obj \<Rightarrow> ustr list" where
  "secret_param_values params =
     filter (\<lambda>s. s \<noteq> [] \<and> s \<noteq> MARKER) (List.map_filter (\<lambda>(k, v). json_str v) (filter (\<lambda>(k, v). is_sensitive_key k) params))"

definition names_only :: "(ustr \<times> ustr) list \<Rightarrow> obj" where
  "names_only secret = obj_of (map (\<lambda>(k, v). (k, JStr (U ''x''))) secret)"

definition secret_env_obj :: "bool \<Rightarrow> (ustr \<times> ustr) list \<Rightarrow> obj" where
  "secret_env_obj known secret = obj_of (map (\<lambda>(k, v). (k, JStr (if known then v else MARKER))) secret)"

definition hub_num :: "json option \<Rightarrow> rat option" where
  "hub_num v = (case v of Some (JNum n) \<Rightarrow> Some (num_val n) | _ \<Rightarrow> None)"

record built =
  bt_run :: obj
  bt_secret_env :: "(ustr \<times> ustr) list"
  bt_launch :: launch_spec
  bt_image :: ustr
  bt_gpu_ids :: "int list"
  bt_gpu_uuids :: "ustr list"
  bt_secret_values :: "ustr list"

definition launch_run :: "(rat \<Rightarrow> ustr) \<Rightarrow> bool \<Rightarrow> obj \<Rightarrow> label_args \<Rightarrow> ustr \<Rightarrow> ustr \<Rightarrow> launch_spec \<Rightarrow> obj list
    \<Rightarrow> (ustr \<times> ustr) list \<Rightarrow> run_args \<times> (ustr \<times> ustr) list" where
  "launch_run fg offline pol la container im launch mounts volumes =
     (case split_env fg (ls_env launch) offline of (env, secret) \<Rightarrow>
        (\<lparr>ra_name = container, ra_instance = la_instance la, ra_image = im, ra_launch = launch, ra_gpu_uuids = la_gpu_uuids la,
          ra_labels = engine_labels la, ra_env = env, ra_secret_env = names_only secret, ra_mounts = mounts, ra_volumes = volumes,
          ra_ipc_host = (ls_ipc_host launch \<and> 1 < length (la_gpu_uuids la)
            \<and> obj_get pol (U ''allow_ipc_host'') \<noteq> Some (JBool False))\<rparr>, secret))"

definition finish_build :: "(rat \<Rightarrow> ustr) \<Rightarrow> (rat \<Rightarrow> ustr) \<Rightarrow> bool \<Rightarrow> obj \<Rightarrow> obj \<Rightarrow> label_args \<Rightarrow> ustr \<Rightarrow> ustr \<Rightarrow> launch_spec
    \<Rightarrow> obj list \<Rightarrow> (ustr \<times> ustr) list \<Rightarrow> (ustr \<times> ustr) + built" where
  "finish_build fg gfmt offline pol params la container im launch mounts volumes =
     (let known = secret_param_values params in
      if \<exists>arg \<in> set (ls_argv launch). \<exists>v \<in> set known. str_contains arg v then
        Inl (U ''secret_in_argv'', U ''this engine adapter would put a secret parameter (e.g. api_key) on the container command line, ''
          @ U ''where any local user could read it; unset it or use an engine that takes it from an environment variable'')
      else (case launch_run fg offline pol la container im launch mounts volumes of (a, secret) \<Rightarrow>
        (let run = build_run_spec a; errs = validate_run_spec fg gfmt run (hub_num (obj_get pol (U ''max_shm_gib''))) in
         if errs \<noteq> [] then Inl (U ''invalid_launch'', join_with (U ''; '') errs)
         else Inr \<lparr>bt_run = obj_remove (U ''secret_env'') run, bt_secret_env = secret, bt_launch = launch, bt_image = im,
           bt_gpu_ids = la_gpu_ids la, bt_gpu_uuids = la_gpu_uuids la,
           bt_secret_values = known @ filter (\<lambda>v. v \<noteq> []) (map snd secret)\<rparr>)))"

definition sent_spec :: "built \<Rightarrow> obj" where
  "sent_spec b = obj_insert (U ''secret_env'') (JObj (secret_env_obj True (bt_secret_env b))) (bt_run b)"

definition rendered_spec :: "built \<Rightarrow> obj" where
  "rendered_spec b = obj_insert (U ''secret_env'') (JObj (secret_env_obj False (bt_secret_env b))) (bt_run b)"

end
