(* ===== verification/RunspecOk.thy ===== *)
theory RunspecOk
  imports Runspec Specs
begin

text \<open>
  What the hub's checks of a run spec mean for the node: what they let through arrives at the node's planner as it
  was built, and passes the planner's checks of the same fields.
\<close>

section \<open>The same patterns\<close>

lemma same_patterns: "HUB_CONTAINER_NAME = RUN_NAME" "HUB_INSTANCE_ID = INSTANCE" "HUB_ENV_NAME = ENV_NAME"
    "HUB_VOLUME_NAME = VOLUME" "HUB_SHM_SIZE = SHM" "HUB_ULIMIT_VALUE = ULIMIT_VALUE" "looks_secret = env_looks_secret"
    "HUB_ULIMITS = ULIMITS"
  by (simp_all add: HUB_CONTAINER_NAME_def RUN_NAME_def HUB_INSTANCE_ID_def INSTANCE_def HUB_ENV_NAME_def ENV_NAME_def
      HUB_VOLUME_NAME_def VOLUME_def HUB_SHM_SIZE_def SHM_def HUB_ULIMIT_VALUE_def ULIMIT_VALUE_def ulimit_num_def low_num_def
      low_dash_def word_char_def env_char_def low_char_def digit_def SHM_UNIT_def Let_def looks_secret_def env_looks_secret_def
      fun_eq_iff HUB_ULIMITS_def ULIMITS_def)

fun longest :: "re \<Rightarrow> nat option" where
  "longest Zero = Some 0"
| "longest One = Some 0"
| "longest (Cls cs) = Some 1"
| "longest (Seq r s) = (case (longest r, longest s) of (Some a, Some b) \<Rightarrow> Some (a + b) | _ \<Rightarrow> None)"
| "longest (Alt r s) = (case (longest r, longest s) of (Some a, Some b) \<Rightarrow> Some (max a b) | _ \<Rightarrow> None)"
| "longest (Star r) = None"

lemma longest_lang: "longest r = Some n \<Longrightarrow> s \<in> lang r \<Longrightarrow> length s \<le> n"
proof (induction r arbitrary: n s)
  case (Seq r1 r2)
  then obtain a b u v where "longest r1 = Some a" "longest r2 = Some b" "n = a + b" "s = u @ v" "u \<in> lang r1" "v \<in> lang r2"
    by (auto split: option.splits)
  then show ?case using Seq.IH(1)[of a u] Seq.IH(2)[of b v] by simp
next
  case (Alt r1 r2)
  then show ?case by (fastforce split: option.splits)
qed auto

lemma matched_text: "matches r s \<Longrightarrow> longest r = Some n \<Longrightarrow> avoids 0 r \<Longrightarrow> n \<le> m \<Longrightarrow> text_within m s"
  using longest_lang[of r n s] avoids_lang[of 0 r s] by (simp add: matches_iff text_within_def)

lemma longest_names: "longest RUN_NAME = Some 62" "longest INSTANCE = Some 64" "longest ENV_NAME = Some 128" "longest SHM = Some 5"
    "longest ULIMIT_VALUE = Some 31"
  by code_simp+

lemma nul_free_names: "avoids 0 RUN_NAME" "avoids 0 INSTANCE" "avoids 0 ENV_NAME" "avoids 0 SHM" "avoids 0 ULIMIT_VALUE"
  by code_simp+

section \<open>From the hub to the planner\<close>

text \<open>The spec the node's dispatcher hands on for a launch, and the same said of what it was built from.\<close>

definition arrived :: "built \<Rightarrow> obj" where
  "arrived b = clean_obj (JObj (sent_spec b)) run_spec_spec"

definition run_sent :: "run_args \<Rightarrow> (ustr \<times> ustr) list \<Rightarrow> obj" where
  "run_sent a secret =
     obj_insert (U ''secret_env'') (JObj (secret_env_obj True secret)) (obj_remove (U ''secret_env'') (build_run_spec a))"

definition run_arrived :: "run_args \<Rightarrow> (ustr \<times> ustr) list \<Rightarrow> obj" where
  "run_arrived a secret = clean_obj (JObj (run_sent a secret)) run_spec_spec"

lemma build_wf: "obj_wf (build_run_spec a)"
  by (simp add: build_run_spec_def obj_wf_def)

lemma sent_get: "obj_get (run_sent a secret) k =
    (if k = U ''secret_env'' then Some (JObj (secret_env_obj True secret)) else obj_get (build_run_spec a) k)"
  by (simp add: run_sent_def obj_get_remove build_wf)

lemma arrived_get:
  assumes "map_of (spec_fields run_spec_spec) k = Some sub"
  shows "obj_get (run_arrived a secret) k = Some (clean (obj_get_or_null (run_sent a secret) k) sub)"
proof -
  obtain fs where fs: "run_spec_spec = SObj fs" "distinct (map fst fs)" by (simp add: run_spec_spec_def)
  moreover have "map_of fs k = Some sub" using assms unfolding fs(1) by (simp only: spec_fields.simps)
  ultimately show ?thesis using clean_obj_get[OF fs(2), of "run_sent a secret" k] by (simp add: run_arrived_def)
qed

lemma arrived_same:
  assumes "map_of (spec_fields run_spec_spec) k = Some sub" "spec_wf sub" "obj_get (run_sent a secret) k = Some v" "conforms True v sub"
  shows "obj_get (run_arrived a secret) k = Some v"
  using arrived_get[OF assms(1), of a secret] clean_id[OF assms(2,4)] assms(3) by (simp add: obj_get_or_null_def)

lemma run_fields:
  "map_of (spec_fields run_spec_spec) (U ''name'') = Some (SStr 64)"
  "map_of (spec_fields run_spec_spec) (U ''instance'') = Some (SStr 64)"
  "map_of (spec_fields run_spec_spec) (U ''argv'') = Some (SList (SStr 4096) 512)"
  "map_of (spec_fields run_spec_spec) (U ''container_port'') = Some SInt"
  "map_of (spec_fields run_spec_spec) (U ''network_alias'') = Some (SStr 64)"
  "map_of (spec_fields run_spec_spec) (U ''labels'') = Some (SMap (SStr 256) 32)"
  "map_of (spec_fields run_spec_spec) (U ''env'') = Some (SMap (SStr 4096) 128)"
  "map_of (spec_fields run_spec_spec) (U ''secret_env'') = Some (SMap (SStr 4096) 16)"
  "map_of (spec_fields run_spec_spec) (U ''shm_size'') = Some (SStr 16)"
  "map_of (spec_fields run_spec_spec) (U ''ulimits'') = Some (SMap (SStr 32) 4)"
  by (simp_all add: run_spec_spec_def)

lemma built_get:
  "obj_get (build_run_spec a) (U ''name'') = Some (JStr (ra_name a))"
  "obj_get (build_run_spec a) (U ''instance'') = Some (JStr (ra_instance a))"
  "obj_get (build_run_spec a) (U ''argv'') = Some (JArr (map JStr (ls_argv (ra_launch a))))"
  "obj_get (build_run_spec a) (U ''container_port'') = Some (json_int (ls_port (ra_launch a)))"
  "obj_get (build_run_spec a) (U ''network_alias'') = Some (JStr (ra_name a))"
  "obj_get (build_run_spec a) (U ''labels'') = Some (JObj (ra_labels a))"
  "obj_get (build_run_spec a) (U ''env'') = Some (JObj (ra_env a))"
  "obj_get (build_run_spec a) (U ''secret_env'') = Some (JObj (ra_secret_env a))"
  "obj_get (build_run_spec a) (U ''shm_size'') = Some (JStr (ls_shm (ra_launch a)))"
  "obj_get (build_run_spec a) (U ''ulimits'') = (if ls_ulimits (ra_launch a) = [] then None else Some (JObj (ls_ulimits (ra_launch a))))"
  by (simp_all add: build_run_spec_def)

lemma str_value_JStr [simp]: "str_value fg (JStr s) = s"
  by (simp add: str_value_def)

lemma if_bad_Nil: "if_bad b msg = [] \<longleftrightarrow> \<not> b"
  by (simp add: if_bad_def)

lemma no_ulimit_error: "ulimit_error fg kv = [] \<longleftrightarrow> fst kv \<in> set ULIMITS \<and> matches ULIMIT_VALUE (str_value fg (snd kv))"
  by (simp add: ulimit_error_def Let_def same_patterns)

text \<open>What the checks say of a spec that was built here.\<close>

lemma validated:
  assumes "validate_run_spec fg gfmt (build_run_spec a) mx = []"
  shows "matches RUN_NAME (ra_name a)" "matches INSTANCE (ra_instance a)"
    "length (ls_argv (ra_launch a)) \<le> 512" "\<forall>s \<in> set (ls_argv (ra_launch a)). text_within 4096 s"
    "1 \<le> ls_port (ra_launch a)" "ls_port (ra_launch a) \<le> 65535"
    "\<not> labels_bad fg (ra_labels a)" "\<not> env_bad fg 128 (ra_env a)" "\<not> env_bad fg 16 (ra_secret_env a)"
    "shm_errors gfmt mx (ls_shm (ra_launch a)) = []"
    "\<forall>kv \<in> set (ls_ulimits (ra_launch a)). fst kv \<in> set ULIMITS \<and> matches ULIMIT_VALUE (str_value fg (snd kv))"
proof -
  note v = assms[unfolded validate_run_spec_def append_is_Nil_conv if_bad_Nil built_get str_of_def option.case str_value_JStr
      arr_or_empty_def obj_or_empty_def json.case not_not]
  show "matches RUN_NAME (ra_name a)" "matches INSTANCE (ra_instance a)" using v by (simp_all add: same_patterns)
  show "length (ls_argv (ra_launch a)) \<le> 512" "\<forall>s \<in> set (ls_argv (ra_launch a)). text_within 4096 s"
    using v by (auto simp: argv_bad_def text_within_def Let_def)
  show "1 \<le> ls_port (ra_launch a)" "ls_port (ra_launch a) \<le> 65535"
    using v by (auto simp: port_ok_def built_get json_int_def split: option.splits if_splits)
  show "\<not> labels_bad fg (ra_labels a)" "\<not> env_bad fg 128 (ra_env a)" "\<not> env_bad fg 16 (ra_secret_env a)"
    "shm_errors gfmt mx (ls_shm (ra_launch a)) = []" using v by simp_all
  have "\<forall>kv \<in> set (ls_ulimits (ra_launch a)). ulimit_error fg kv = []" using v by (auto split: if_splits)
  then show "\<forall>kv \<in> set (ls_ulimits (ra_launch a)). fst kv \<in> set ULIMITS \<and> matches ULIMIT_VALUE (str_value fg (snd kv))"
    by (simp add: no_ulimit_error)
qed

section \<open>Splitting the environment\<close>

lemma secret_letter: "env_looks_secret k \<Longrightarrow> \<exists>c \<in> set k. c \<in> {107, 75, 8490, 116, 84, 115, 83, 383, 112, 80}"
proof -
  assume "env_looks_secret k"
  then obtain u w v t where k: "k = u @ w @ v" "w \<in> lang (IC t)" "t \<in> {''key'', ''token'', ''secret'', ''password''}"
    unfolding env_looks_secret_def matches_iff by (auto simp: lang_Alts simp del: lang.simps(2-6)) (auto simp: lang_Alts)
  then have "list_all2 (\<lambda>c d. in_cls c (fold_class d)) w (U t)" by (simp add: lang_IC)
  then obtain c w' where "w = c # w'" "c \<in> {107, 75, 8490, 116, 84, 115, 83, 383, 112, 80}"
    using k(3) by (cases w) (auto simp: U_def in_cls_def fold_class_def is_lower_def)
  then show ?thesis using k(1) by auto
qed

lemma insert_all: "\<forall>kv \<in> set m. P kv \<Longrightarrow> P (k, v) \<Longrightarrow> \<forall>kv \<in> set (obj_insert k v m). P kv"
  using set_obj_insert[of k v m] by auto

lemma split_fold:
  assumes "fold (split_env_step fg) m (env, secret) = (env', secret')"
    and "obj_wf env" "obj_wf secret" "\<forall>(k, v) \<in> set env. \<not> env_looks_secret k \<and> (\<exists>s. v = JStr s)" "\<forall>(k, v) \<in> set secret. env_looks_secret k"
  shows "obj_wf env' \<and> obj_wf secret' \<and> (\<forall>(k, v) \<in> set env'. \<not> env_looks_secret k \<and> (\<exists>s. v = JStr s))
    \<and> (\<forall>(k, v) \<in> set secret'. env_looks_secret k)"
  using assms
proof (induction m arbitrary: env secret)
  case (Cons kv m)
  obtain k v where kv: "kv = (k, v)" by (cases kv)
  show ?case
  proof (cases "env_looks_secret k")
    case True
    then have "\<forall>(k, v) \<in> set (obj_insert k (str_value fg v) secret). env_looks_secret k"
      using Cons.prems(5) by (intro insert_all) simp_all
    then show ?thesis using Cons.IH[of env "obj_insert k (str_value fg v) secret"] Cons.prems True by (simp add: kv same_patterns)
  next
    case False
    then have "\<forall>(k, v) \<in> set (obj_insert k (JStr (str_value fg v)) env). \<not> env_looks_secret k \<and> (\<exists>s. v = JStr s)"
      using Cons.prems(4) by (intro insert_all) simp_all
    then show ?thesis using Cons.IH[of "obj_insert k (JStr (str_value fg v)) env" secret] Cons.prems False by (simp add: kv same_patterns)
  qed
qed simp

lemma split_env_parts:
  assumes "split_env fg m offline = (env, secret)"
  shows "obj_wf env" "obj_wf secret" "\<forall>(k, v) \<in> set env. \<not> env_looks_secret k \<and> (\<exists>s. v = JStr s)" "\<forall>(k, v) \<in> set secret. env_looks_secret k"
proof -
  obtain env0 s0 where f: "fold (split_env_step fg) m ([], []) = (env0, s0)" by (cases "fold (split_env_step fg) m ([], [])")
  from split_fold[OF f] have p: "obj_wf env0" "obj_wf s0" "\<forall>(k, v) \<in> set env0. \<not> env_looks_secret k \<and> (\<exists>s. v = JStr s)"
    "\<forall>(k, v) \<in> set s0. env_looks_secret k" by simp_all
  have h: "\<not> env_looks_secret (U ''HF_HUB_OFFLINE'')"
    by (rule notI, drule secret_letter) (simp add: U_def)
  have e: "secret = s0" "env = (if offline \<and> obj_get env0 (U ''HF_HUB_OFFLINE'') = None then obj_insert (U ''HF_HUB_OFFLINE'') (JStr (U ''1'')) env0 else env0)"
    using assms by (simp_all add: split_env_def f)
  show "obj_wf secret" "\<forall>(k, v) \<in> set secret. env_looks_secret k" "obj_wf env" using p e by simp_all
  show "\<forall>(k, v) \<in> set env. \<not> env_looks_secret k \<and> (\<exists>s. v = JStr s)"
    unfolding e(2) using p(3) h insert_all[of env0 "\<lambda>(k, v). \<not> env_looks_secret k \<and> (\<exists>s. v = JStr s)" "U ''HF_HUB_OFFLINE''" "JStr (U ''1'')"]
    by simp
qed

section \<open>The planner's loops\<close>

definition texts_of :: "obj \<Rightarrow> (ustr \<times> ustr) list" where
  "texts_of m = map (\<lambda>(k, v). (k, text_of v)) m"

lemma label_loop:
  "\<lbrakk>\<And>k v. (k, v) \<in> set m \<Longrightarrow> matches LABEL_KEY k \<and> \<not> has_ctrl (text_of v) \<and> (obj_get acc k = None \<or> obj_get acc k = Some (text_of v));
    distinct (map fst m)\<rbrakk> \<Longrightarrow>
   try_fold label_step i m acc = Inr (acc @ filter (\<lambda>kv. obj_get acc (fst kv) = None) (texts_of m))"
proof (induction m arbitrary: i acc)
  case (Cons kv m)
  obtain k v where kv: "kv = (k, v)" by (cases kv)
  have h: "matches LABEL_KEY k" "\<not> has_ctrl (text_of v)" "obj_get acc k = None \<or> obj_get acc k = Some (text_of v)"
    using Cons.prems(1)[of k v] by (simp_all add: kv)
  show ?case
  proof (cases "obj_get acc k")
    case None
    let ?acc = "acc @ [(k, text_of v)]"
    have g: "obj_get ?acc k' = obj_get acc k'" if "k' \<noteq> k" for k' using that by (simp add: obj_get_def map_add_def split: option.splits)
    have k: "k \<notin> fst ` set m" using Cons.prems(2) by (simp add: kv)
    have "try_fold label_step (Suc i) m ?acc = Inr (?acc @ filter (\<lambda>kv. obj_get ?acc (fst kv) = None) (texts_of m))"
    proof (rule Cons.IH)
      fix k' v' assume m: "(k', v') \<in> set m"
      then have "k' \<noteq> k" using k by force
      then show "matches LABEL_KEY k' \<and> \<not> has_ctrl (text_of v') \<and> (obj_get ?acc k' = None \<or> obj_get ?acc k' = Some (text_of v'))"
        using Cons.prems(1)[of k' v'] m g by simp
    qed (use Cons.prems(2) in simp)
    moreover have "filter (\<lambda>kv. obj_get ?acc (fst kv) = None) (texts_of m) = filter (\<lambda>kv. obj_get acc (fst kv) = None) (texts_of m)"
    proof (rule filter_cong[OF refl])
      fix kv' assume "kv' \<in> set (texts_of m)"
      then have "fst kv' \<in> fst ` set m" by (force simp: texts_of_def)
      then have "fst kv' \<noteq> k" using k by metis
      then show "(obj_get ?acc (fst kv') = None) = (obj_get acc (fst kv') = None)" by (simp add: g)
    qed
    moreover have "label_step i (k, v) acc = Inr ?acc" using h None by (simp add: label_step_def)
    ultimately show ?thesis using None by (simp add: kv texts_of_def)
  next
    case (Some x)
    then have "x = text_of v" using h(3) by simp
    then have "label_step i (k, v) acc = Inr acc" using h Some by (simp add: label_step_def)
    moreover have "try_fold label_step (Suc i) m acc = Inr (acc @ filter (\<lambda>kv. obj_get acc (fst kv) = None) (texts_of m))"
    proof (rule Cons.IH)
      fix k' v' assume "(k', v') \<in> set m"
      then show "matches LABEL_KEY k' \<and> \<not> has_ctrl (text_of v') \<and> (obj_get acc k' = None \<or> obj_get acc k' = Some (text_of v'))"
        using Cons.prems(1)[of k' v'] by (simp add: kv)
    qed (use Cons.prems(2) kv in simp)
    ultimately show ?thesis using Some by (simp add: kv texts_of_def)
  qed
qed (simp add: texts_of_def)

lemma append_loop:
  "(\<And>i kv acc. kv \<in> set m \<Longrightarrow> f i kv acc = Inr (acc @ [g kv])) \<Longrightarrow> try_fold f i m acc = Inr (acc @ map g m)"
proof (induction m arbitrary: i acc)
  case (Cons kv m)
  have "try_fold f (Suc i) m (acc @ [g kv]) = Inr ((acc @ [g kv]) @ map g m)" by (rule Cons.IH) (simp add: Cons.prems)
  then show ?case by (simp add: Cons.prems)
qed simp

lemma texts_of_map: "texts_of m = map (\<lambda>kv. (fst kv, text_of (snd kv))) m"
  by (simp add: texts_of_def case_prod_beta)

lemma env_loop:
  "(\<And>kv. kv \<in> set m \<Longrightarrow> matches ENV_NAME (fst kv) \<and> \<not> env_looks_secret (fst kv)) \<Longrightarrow>
   try_fold env_step i m acc = Inr (acc @ texts_of m)"
  unfolding texts_of_map by (rule append_loop) (simp add: env_step_def)

lemma secret_loop:
  "(\<And>kv. kv \<in> set m \<Longrightarrow> matches ENV_NAME (fst kv) \<and> env_looks_secret (fst kv) \<and> \<not> child_env_deny (fst kv)
      \<and> fst kv \<notin> set (map fst env)) \<Longrightarrow>
   try_fold (secret_step env) i m acc = Inr (acc @ texts_of m)"
  unfolding texts_of_map by (rule append_loop) (simp add: secret_step_def del: set_map)

lemma ulimit_loop:
  "(\<And>kv. kv \<in> set m \<Longrightarrow> fst kv \<in> set ULIMITS \<and> matches ULIMIT_VALUE (text_of (snd kv))) \<Longrightarrow>
   try_fold ulimit_step i m acc = Inr (acc @ texts_of m)"
  unfolding texts_of_map by (rule append_loop) (simp add: ulimit_step_def Let_def)

section \<open>Labels\<close>

definition LABEL_NAMES :: "ustr list" where
  "LABEL_NAMES = map U [''engine-console.role'', ''engine-console.instance'', ''engine-console.engine'', ''engine-console.model'',
     ''engine-console.port'', ''engine-console.name'', ''engine-console.format'', ''engine-console.gpu_ids'', ''engine-console.gpus'',
     ''engine-console.root'', ''engine-console.rel'']"

definition label_value :: "label_args \<Rightarrow> ustr \<Rightarrow> ustr" where
  "label_value a k = unwrap_or [] (map_of
     [(U ''engine-console.role'', U ''engine''), (U ''engine-console.instance'', la_instance a),
      (U ''engine-console.engine'', la_engine a), (U ''engine-console.model'', la_display a),
      (U ''engine-console.port'', dec_int (la_port a)), (U ''engine-console.name'', la_name a),
      (U ''engine-console.format'', mr_format (la_ref a)),
      (U ''engine-console.gpu_ids'', join_with (U '','') (map dec_int (la_gpu_ids a))),
      (U ''engine-console.gpus'', join_with (U '','') (la_gpu_uuids a)),
      (U ''engine-console.root'', unwrap_or [] (mr_root_id (la_ref a))),
      (U ''engine-console.rel'', unwrap_or [] (mr_rel (la_ref a)))] k)"

text \<open>The labels are those of the list whose value is not empty and fits.\<close>

lemma engine_labels_eq: "engine_labels a = map (\<lambda>k. (k, JStr (label_value a k)))
    (filter (\<lambda>k. label_value a k \<noteq> [] \<and> length (label_value a k) \<le> 256) LABEL_NAMES)"
proof -
  let ?fit = "\<lambda>(k, v). v \<noteq> [] \<and> length v \<le> 256"
  let ?all = "map (\<lambda>k. (k, label_value a k)) LABEL_NAMES"
  have all: "?all = [(U ''engine-console.role'', U ''engine''), (U ''engine-console.instance'', la_instance a),
      (U ''engine-console.engine'', la_engine a), (U ''engine-console.model'', la_display a),
      (U ''engine-console.port'', dec_int (la_port a)), (U ''engine-console.name'', la_name a),
      (U ''engine-console.format'', mr_format (la_ref a)),
      (U ''engine-console.gpu_ids'', join_with (U '','') (map dec_int (la_gpu_ids a)))]
    @ [(U ''engine-console.gpus'', join_with (U '','') (la_gpu_uuids a)),
      (U ''engine-console.root'', unwrap_or [] (mr_root_id (la_ref a))),
      (U ''engine-console.rel'', unwrap_or [] (mr_rel (la_ref a)))]"
    by (simp add: LABEL_NAMES_def label_value_def unwrap_or_def)
  have "engine_labels a = obj_of (map (\<lambda>(k, v). (k, JStr v)) (filter ?fit ?all))"
    unfolding engine_labels_def Let_def all filter_append filter_filter by simp
  also have "\<dots> = map (\<lambda>(k, v). (k, JStr v)) (filter ?fit ?all)"
  proof (rule obj_of_distinct)
    have "distinct LABEL_NAMES" by (simp add: LABEL_NAMES_def)
    then show "distinct (map fst (map (\<lambda>(k, v). (k, JStr v)) (filter ?fit ?all)))"
      by (simp add: filter_map comp_def case_prod_beta)
  qed
  finally show ?thesis by (simp add: filter_map comp_def case_prod_beta)
qed

lemma label_names_ok: "\<forall>k \<in> set LABEL_NAMES. matches LABEL_KEY k \<and> text_within 256 k \<and> k \<noteq> []"
proof -
  have "list_all (\<lambda>k. matches LABEL_KEY k) LABEL_NAMES" by code_simp
  moreover have "list_all (\<lambda>k. length k \<le> 256 \<and> 0 \<notin> set k \<and> k \<noteq> []) LABEL_NAMES" by code_simp
  ultimately show ?thesis by (auto simp: list_all_iff text_within_def)
qed

lemma no_ctrl_no_nul: "\<not> has_ctrl s \<Longrightarrow> 0 \<notin> set s"
  by (auto simp: has_ctrl_def is_ctrl_def)

end
