(* ===== verification/RunspecSample.thy ===== *)
theory RunspecSample
  imports RunspecOk SampleRun
begin

text \<open>A launch for the sample machine, with what the hub's checks and the cleaning make of its run spec.\<close>

definition demo_labels :: label_args where
  "demo_labels = \<lparr>la_instance = U ''i'', la_engine = U ''vllm'', la_display = U ''m'',
     la_ref = \<lparr>mr_format = U ''gguf'', mr_repo_id = None, mr_root_id = Some (U ''r''), mr_rel = Some (U ''m.gguf''), mr_name = None\<rparr>,
     la_port = 8000, la_name = U ''n'', la_gpu_ids = [0], la_gpu_uuids = []\<rparr>"

definition demo_spec :: launch_spec where
  "demo_spec = \<lparr>ls_image = U ''a:b'', ls_argv = [U ''-x''], ls_env = [(U ''KEY'', JStr (U ''k''))], ls_port = 8000,
     ls_health_path = U ''/health'', ls_metrics_path = U ''/metrics'', ls_models_path = U ''/v1/models'', ls_shm = U ''16g'',
     ls_ipc_host = True, ls_files = [], ls_needs_hf_cache = False, ls_ulimits = [(U ''nofile'', JStr (U ''-1''))]\<rparr>"

definition demo_policy :: obj where
  "demo_policy = [(U ''max_shm_gib'', json_int 64)]"

definition demo_run :: run_args where
  "demo_run = \<lparr>ra_name = U ''ec-a'', ra_instance = U ''i'', ra_image = U ''a:b'', ra_launch = demo_spec,
     ra_gpu_uuids = [], ra_labels = engine_labels demo_labels, ra_env = [(U ''HF_HUB_OFFLINE'', JStr (U ''1''))],
     ra_secret_env = [(U ''KEY'', JStr (U ''x''))], ra_mounts = [], ra_volumes = [], ra_ipc_host = False\<rparr>"

definition demo_built :: built where
  "demo_built = \<lparr>bt_run = obj_remove (U ''secret_env'') (build_run_spec demo_run), bt_secret_env = [(U ''KEY'', U ''k'')],
     bt_launch = demo_spec, bt_image = U ''a:b'', bt_gpu_ids = [0], bt_gpu_uuids = [], bt_secret_values = [U ''k'']\<rparr>"

lemma demo_split: "split_env (\<lambda>_. []) [(U ''KEY'', JStr (U ''k''))] True
    = ([(U ''HF_HUB_OFFLINE'', JStr (U ''1''))], [(U ''KEY'', U ''k'')])"
  by (simp add: split_env_def same_patterns(7) key_env)

lemma demo_launch: "launch_run (\<lambda>_. []) True demo_policy demo_labels (U ''ec-a'') (U ''a:b'') demo_spec [] []
    = (demo_run, [(U ''KEY'', U ''k'')])"
proof -
  have l: "ls_env demo_spec = [(U ''KEY'', JStr (U ''k''))]" "la_instance demo_labels = U ''i''" "la_gpu_uuids demo_labels = []"
    by (simp_all add: demo_spec_def demo_labels_def)
  have n: "names_only [(U ''KEY'', U ''k'')] = [(U ''KEY'', JStr (U ''x''))]" by (simp add: names_only_def obj_of_def)
  show ?thesis unfolding launch_run_def l demo_split n prod.case demo_run_def by simp
qed

text \<open>The labels of a launch always pass the hub's own check.\<close>

lemma labels_never_bad: "\<not> labels_bad fg (engine_labels la)"
proof -
  have "list_all (\<lambda>k. starts_with k (U ''engine-console.'')) LABEL_NAMES" by code_simp
  moreover have "length (engine_labels la) \<le> 32"
    using length_filter_le[of "\<lambda>k. label_value la k \<noteq> [] \<and> length (label_value la k) \<le> 256" LABEL_NAMES]
    by (simp add: engine_labels_eq LABEL_NAMES_def)
  ultimately show ?thesis by (auto simp: labels_bad_def engine_labels_eq list_all_iff)
qed

lemma demo_names: "matches RUN_NAME (U ''ec-a'')" "matches INSTANCE (U ''i'')" "matches ENV_NAME (U ''KEY'')"
    "matches ENV_NAME (U ''HF_HUB_OFFLINE'')" "matches SHM (U ''16g'')" "matches ULIMIT_VALUE (U ''-1'')"
  by code_simp+

lemma demo_parts: "ra_name demo_run = U ''ec-a''" "ra_instance demo_run = U ''i''" "ra_launch demo_run = demo_spec"
    "ra_labels demo_run = engine_labels demo_labels" "ra_env demo_run = [(U ''HF_HUB_OFFLINE'', JStr (U ''1''))]"
    "ra_secret_env demo_run = [(U ''KEY'', JStr (U ''x''))]" "ra_image demo_run = U ''a:b''" "ra_gpu_uuids demo_run = []"
    "ra_mounts demo_run = []" "ra_volumes demo_run = []" "ra_ipc_host demo_run = False"
  by (simp_all add: demo_run_def)

lemma demo_spec_parts: "ls_env demo_spec = [(U ''KEY'', JStr (U ''k''))]" "ls_argv demo_spec = [U ''-x'']" "ls_port demo_spec = 8000" "ls_shm demo_spec = U ''16g''" "ls_files demo_spec = []"
    "ls_ulimits demo_spec = [(U ''nofile'', JStr (U ''-1''))]"
  by (simp_all add: demo_spec_def)

lemma more_built:
  "obj_get (build_run_spec a) (U ''gpu_uuids'') = Some (JArr (map JStr (ra_gpu_uuids a)))"
  "obj_get (build_run_spec a) (U ''mounts'') = Some (JArr (map JObj (ra_mounts a)))"
  "obj_get (build_run_spec a) (U ''volumes'') = Some (JArr (map (\<lambda>(n, d). JObj [(U ''name'', JStr n), (U ''dest'', JStr d)]) (ra_volumes a)))"
  "obj_get (build_run_spec a) (U ''files'') = (if ls_files (ra_launch a) = [] then None else Some (JObj (ls_files (ra_launch a))))"
  "obj_get (build_run_spec a) (U ''image'') = Some (JStr (ra_image a))"
  "obj_get (build_run_spec a) (U ''ipc_host'') = Some (JBool (ra_ipc_host a))"
  by (simp_all add: build_run_spec_def)

lemma demo_shm: "shm_errors gfmt (Some (max_shm_gib sample_policy)) (U ''16g'') = []"
proof -
  have "hub_shm_gib (U ''16g'') = 16" by (simp add: hub_shm_gib_def digits_val_def U_def)
  moreover have "max_shm_gib sample_policy \<ge> 16" by (simp add: sample_policy_def python_default_def)
  ultimately show ?thesis using demo_names by (simp add: shm_errors_def same_patterns)
qed

lemma demo_port: "port_ok (build_run_spec demo_run)"
  by (simp add: port_ok_def built_get demo_parts demo_spec_parts json_int_def num_of_int_def)

lemma demo_validated: "validate_run_spec (\<lambda>_. []) (\<lambda>_. []) (build_run_spec demo_run) (Some (max_shm_gib sample_policy)) = []"
proof -
  have e: "\<not> env_bad (\<lambda>_. []) 128 [(U ''HF_HUB_OFFLINE'', JStr (U ''1''))]" "\<not> env_bad (\<lambda>_. []) 16 [(U ''KEY'', JStr (U ''x''))]"
    using demo_names by (simp_all add: env_bad_def same_patterns U_def)
  have u: "ulimit_error (\<lambda>_. []) (U ''nofile'', JStr (U ''-1'')) = []"
    using demo_names by (simp add: no_ulimit_error ULIMITS_def)
  have "\<not> argv_bad (\<lambda>_. []) [JStr (U ''-x'')]" by (simp add: argv_bad_def U_def)
  moreover have "\<not> volumes_bad (\<lambda>_. []) []" "\<not> files_bad (\<lambda>_. []) []" by (simp_all add: volumes_bad_def files_bad_def)
  ultimately show ?thesis using demo_names e u
    unfolding validate_run_spec_def append_is_Nil_conv if_bad_Nil built_get more_built str_of_def option.case str_value_JStr
      demo_parts demo_spec_parts
    by (simp add: arr_or_empty_def obj_or_empty_def demo_shm demo_port labels_never_bad same_patterns)
qed

lemma unwrap_in: "unwrap_or d (map_of xs k) \<in> insert d (set (map snd xs))"
  by (induction xs) (auto simp: unwrap_or_def)

text \<open>The values of labels come from the arguments, one by one.\<close>

lemma label_value_in: "label_value a k \<in> {[], U ''engine'', la_instance a, la_engine a, la_display a, dec_int (la_port a), la_name a,
    mr_format (la_ref a), join_with (U '','') (map dec_int (la_gpu_ids a)), join_with (U '','') (la_gpu_uuids a),
    unwrap_or [] (mr_root_id (la_ref a)), unwrap_or [] (mr_rel (la_ref a))}"
  unfolding label_value_def by (rule subsetD[OF _ unwrap_in]) (simp only: list.map snd_conv list.set order_refl)

lemma demo_numbers: "\<not> has_ctrl (dec_int 8000)" "\<not> has_ctrl (join_with (U '','') (map dec_int [0]))"
  by (simp_all add: dec_int_def dec.simps has_ctrl_def is_ctrl_def)

lemma demo_no_ctrl: "\<forall>kv \<in> set (engine_labels demo_labels). \<not> has_ctrl (text_of (snd kv))"
proof -
  have "\<not> has_ctrl (label_value demo_labels k)" for k
    using label_value_in[of demo_labels k] demo_numbers
    by (auto simp: demo_labels_def unwrap_or_def) (simp_all add: has_ctrl_def is_ctrl_def U_def)
  then show ?thesis by (simp add: engine_labels_eq text_of_def unwrap_or_def)
qed

lemma demo_limit: "hub_num (obj_get demo_policy (U ''max_shm_gib'')) = Some (max_shm_gib sample_policy)"
  by (simp add: hub_num_def demo_policy_def sample_policy_def python_default_def json_int_def num_of_int_def)

lemma demo_finished: "finish_build (\<lambda>_. []) (\<lambda>_. []) True demo_policy [] demo_labels (U ''ec-a'') (U ''a:b'') demo_spec [] [] = Inr demo_built"
proof -
  have p: "secret_param_values [] = []" by (simp add: secret_param_values_def List.map_filter_simps)
  have l: "la_gpu_ids demo_labels = [0]" "la_gpu_uuids demo_labels = []" by (simp_all add: demo_labels_def)
  show ?thesis unfolding finish_build_def Let_def p demo_launch prod.case demo_limit demo_validated l demo_built_def by simp
qed

end
