(* ===== verification/RunspecClaims.thy ===== *)
theory RunspecClaims
  imports RunspecSample
begin

text \<open>
  The hub's run specs against the node's planner: what the hub's checks let through is planned as it was built.
\<close>

section \<open>Fields that arrive\<close>

lemma text_map_conforms:
  assumes "obj_wf m" "length m \<le> cap"
    and "\<And>k v. (k, v) \<in> set m \<Longrightarrow> key_within True k \<and> (\<exists>s. v = JStr s \<and> text_within n s)"
  shows "conforms True (JObj m) (SMap (SStr n) cap)"
  using assms(1,2) by (auto dest!: assms(3))

lemma key_of_name: "matches r k \<Longrightarrow> longest r = Some n \<Longrightarrow> avoids 0 r \<Longrightarrow> n \<le> 256 \<Longrightarrow> \<not> matches r [] \<Longrightarrow>
    key_within True k"
  using matched_text[of r k n 256] by (auto simp: key_within_def)

lemma arrived_str:
  assumes "map_of (spec_fields run_spec_spec) k = Some (SStr n)" "obj_get (run_sent a secret) k = Some (JStr s)" "text_within n s"
  shows "obj_get (run_arrived a secret) k = Some (JStr s)"
  using arrived_same[OF assms(1) _ assms(2)] assms(3) by simp

lemma arrived_text_map:
  assumes "map_of (spec_fields run_spec_spec) k = Some (SMap (SStr n) cap)" "obj_get (run_sent a secret) k = Some (JObj m)"
    and "obj_wf m" "length m \<le> cap"
    and "\<And>k v. (k, v) \<in> set m \<Longrightarrow> key_within True k \<and> (\<exists>s. v = JStr s \<and> text_within n s)"
  shows "obj_get (run_arrived a secret) k = Some (JObj m)"
  using arrived_same[OF assms(1) _ assms(2)] text_map_conforms[OF assms(3-5)] by simp

lemma not_env_bad: "\<not> env_bad fg most vars \<longleftrightarrow> length vars \<le> most
    \<and> (\<forall>kv \<in> set vars. matches ENV_NAME (fst kv) \<and> length (str_value fg (snd kv)) \<le> 4096)"
  by (auto simp: env_bad_def same_patterns)

lemma env_key: "matches ENV_NAME k \<Longrightarrow> key_within True k"
  by (rule key_of_name[OF _ longest_names(3) nul_free_names(3)]) (simp_all, code_simp)

lemma nul_free_in: "text_within n s \<longleftrightarrow> length s \<le> n \<and> 0 \<notin> set s"
  by (simp add: text_within_def)

section \<open>One field after the other\<close>

lemma name_planned:
  assumes "matches RUN_NAME (ra_name a)"
  shows "plan_name (run_arrived a secret) = Inr (ra_name a)" "plan_alias (ra_name a) (run_arrived a secret) = Inr (ra_name a)"
proof -
  have t: "text_within 64 (ra_name a)" by (rule matched_text[OF assms longest_names(1) nul_free_names(1)]) simp
  have n: "obj_get (run_arrived a secret) (U ''name'') = Some (JStr (ra_name a))"
    by (rule arrived_str[OF run_fields(1) _ t]) (simp add: sent_get built_get)
  have al: "obj_get (run_arrived a secret) (U ''network_alias'') = Some (JStr (ra_name a))"
    by (rule arrived_str[OF run_fields(5) _ t]) (simp add: sent_get built_get)
  show "plan_name (run_arrived a secret) = Inr (ra_name a)" using assms by (simp add: plan_name_def n vstr_def Let_def)
  show "plan_alias (ra_name a) (run_arrived a secret) = Inr (ra_name a)"
    using assms by (simp add: plan_alias_def al vstr_def Let_def nonempty_or_def)
qed

lemma instance_planned:
  assumes "matches INSTANCE (ra_instance a)"
  shows "plan_instance (run_arrived a secret) = Inr (ra_instance a)"
proof -
  have t: "text_within 64 (ra_instance a)" by (rule matched_text[OF assms longest_names(2) nul_free_names(2)]) simp
  have "obj_get (run_arrived a secret) (U ''instance'') = Some (JStr (ra_instance a))"
    by (rule arrived_str[OF run_fields(2) _ t]) (simp add: sent_get built_get)
  then show ?thesis using assms by (simp add: plan_instance_def vstr_def Let_def)
qed

lemma strs_back: "List.map_filter json_str (map JStr xs) = xs"
  by (induction xs) (simp_all add: List.map_filter_simps)

lemma argv_planned:
  assumes "length (ls_argv (ra_launch a)) \<le> 512" "\<forall>s \<in> set (ls_argv (ra_launch a)). text_within 4096 s"
  shows "plan_argv (run_arrived a secret) = Inr (ls_argv (ra_launch a))"
proof -
  have c: "conforms True (JArr (map JStr (ls_argv (ra_launch a)))) (SList (SStr 4096) 512)" using assms by auto
  have g: "obj_get (run_arrived a secret) (U ''argv'') = Some (JArr (map JStr (ls_argv (ra_launch a))))"
    by (rule arrived_same[OF run_fields(3) _ _ c]) (simp_all add: sent_get built_get)
  show ?thesis using assms by (auto simp: plan_argv_def g list_of_def strs_back nul_free_in Let_def)
qed

lemma port_planned:
  assumes "1 \<le> ls_port (ra_launch a)" "ls_port (ra_launch a) \<le> 65535"
  shows "plan_port (run_arrived a secret) = Inr (ls_port (ra_launch a))"
proof -
  have j: "json_int (ls_port (ra_launch a)) = JNum (PosInt (nat (ls_port (ra_launch a))))" using assms by (simp add: json_int_def num_of_int_def)
  have c: "conforms True (json_int (ls_port (ra_launch a))) SInt" using assms by (simp add: j int_of_def num_of_int_def nat_less_iff)
  have g: "obj_get (run_arrived a secret) (U ''container_port'') = Some (json_int (ls_port (ra_launch a)))"
    by (rule arrived_same[OF run_fields(4) _ _ c]) (simp_all add: sent_get built_get)
  show ?thesis using assms by (simp add: plan_port_def g j)
qed

lemma labels_planned:
  assumes "la_instance la = ra_instance a" "ra_labels a = engine_labels la" "\<forall>kv \<in> set (engine_labels la). \<not> has_ctrl (text_of (snd kv))"
  shows "plan_labels (ra_instance a) (run_arrived a secret)
    = Inr (owner_labels (ra_instance a)
        @ filter (\<lambda>kv. obj_get (owner_labels (ra_instance a)) (fst kv) = None) (texts_of (engine_labels la)))"
proof -
  have len: "length (engine_labels la) \<le> 32"
    using length_filter_le[of "\<lambda>k. label_value la k \<noteq> [] \<and> length (label_value la k) \<le> 256" LABEL_NAMES]
    by (simp add: engine_labels_eq LABEL_NAMES_def)
  have keys: "map fst (engine_labels la) = filter (\<lambda>k. label_value la k \<noteq> [] \<and> length (label_value la k) \<le> 256) LABEL_NAMES"
    by (simp add: engine_labels_eq comp_def)
  have wf: "distinct (map fst (engine_labels la))" unfolding keys by (rule distinct_filter) (simp add: LABEL_NAMES_def)
  have each: "k \<in> set LABEL_NAMES \<and> v = JStr (label_value la k) \<and> length (label_value la k) \<le> 256 \<and> \<not> has_ctrl (label_value la k)"
    if "(k, v) \<in> set (engine_labels la)" for k v
    using that assms(3) by (auto simp: engine_labels_eq text_of_def unwrap_or_def)
  have g: "obj_get (run_arrived a secret) (U ''labels'') = Some (JObj (engine_labels la))"
  proof (rule arrived_text_map[OF run_fields(6)])
    show "obj_get (run_sent a secret) (U ''labels'') = Some (JObj (engine_labels la))" by (simp add: sent_get built_get assms)
    show "obj_wf (engine_labels la)" using wf by (simp add: obj_wf_def)
    fix k v assume "(k, v) \<in> set (engine_labels la)"
    from each[OF this] show "key_within True k \<and> (\<exists>s. v = JStr s \<and> text_within 256 s)"
      using label_names_ok no_ctrl_no_nul by (auto simp: key_within_def nul_free_in)
  qed (rule len)
  show ?thesis unfolding plan_labels_def g str_map_def option.case json.case
  proof (rule label_loop[OF _ wf])
    fix k v assume "(k, v) \<in> set (engine_labels la)"
    from each[OF this] show "matches LABEL_KEY k \<and> \<not> has_ctrl (text_of v)
      \<and> (obj_get (owner_labels (ra_instance a)) k = None \<or> obj_get (owner_labels (ra_instance a)) k = Some (text_of v))"
      using label_names_ok assms(1)
      by (auto simp: owner_labels_def text_of_def unwrap_or_def LABEL_def ROLE_LABEL_def INSTANCE_LABEL_def label_value_def LABEL_NAMES_def)
  qed
qed

lemma env_planned:
  assumes "\<not> env_bad fg 128 (ra_env a)" "obj_wf (ra_env a)" "\<forall>(k, v) \<in> set (ra_env a). \<not> env_looks_secret k \<and> (\<exists>s. v = JStr s)"
    and "\<forall>kv \<in> set (ra_env a). 0 \<notin> set (text_of (snd kv))"
  shows "plan_env (run_arrived a secret) = Inr (texts_of (ra_env a))"
proof -
  have g: "obj_get (run_arrived a secret) (U ''env'') = Some (JObj (ra_env a))"
  proof (rule arrived_text_map[OF run_fields(7)])
    show "obj_get (run_sent a secret) (U ''env'') = Some (JObj (ra_env a))" by (simp add: sent_get built_get)
    fix k v assume kv: "(k, v) \<in> set (ra_env a)"
    then obtain s where "v = JStr s" using assms(3) by auto
    then show "key_within True k \<and> (\<exists>s. v = JStr s \<and> text_within 4096 s)"
      using kv assms(1,4) env_key by (force simp: not_env_bad nul_free_in text_of_def unwrap_or_def)
  qed (use assms in \<open>simp_all add: not_env_bad\<close>)
  show ?thesis unfolding plan_env_def g str_map_def option.case json.case
    using env_loop[of "ra_env a" 0 "[]"] assms(1,3) by (force simp: not_env_bad)
qed

lemma names_of_secret:
  assumes "obj_wf secret"
  shows "names_only secret = map (\<lambda>(k, v). (k, JStr (U ''x''))) secret"
    "secret_env_obj True secret = map (\<lambda>(k, v). (k, JStr v)) secret"
proof -
  have "map fst (map (\<lambda>(k, v). (k, JStr (f v))) secret) = map fst secret" for f :: "ustr \<Rightarrow> ustr" by (simp add: comp_def case_prod_beta)
  then have o: "obj_of (map (\<lambda>(k, v). (k, JStr (f v))) secret) = map (\<lambda>(k, v). (k, JStr (f v))) secret" for f :: "ustr \<Rightarrow> ustr"
    using assms by (intro obj_of_distinct) (simp only: obj_wf_def)
  show "names_only secret = map (\<lambda>(k, v). (k, JStr (U ''x''))) secret" unfolding names_only_def by (rule o)
  show "secret_env_obj True secret = map (\<lambda>(k, v). (k, JStr v)) secret" unfolding secret_env_obj_def using o[of "\<lambda>v. v"] by simp
qed

lemma secret_planned:
  assumes "\<not> env_bad fg 16 (names_only secret)" "obj_wf secret" "\<forall>(k, v) \<in> set secret. env_looks_secret k"
    and "\<forall>kv \<in> set secret. text_within 4096 (snd kv) \<and> \<not> child_env_deny (fst kv)"
    and "\<forall>kv \<in> set env. \<not> env_looks_secret (fst kv)"
  shows "plan_secret_env env (run_arrived a secret) = Inr secret"
proof -
  let ?s = "map (\<lambda>(k, v). (k, JStr v)) secret"
  have n: "matches ENV_NAME k" if "(k, v) \<in> set secret" for k v
    using assms(1) that unfolding not_env_bad names_of_secret(1)[OF assms(2)] by force
  have len: "length secret \<le> 16" using assms(1) unfolding not_env_bad names_of_secret(1)[OF assms(2)] by simp
  have g: "obj_get (run_arrived a secret) (U ''secret_env'') = Some (JObj ?s)"
  proof (rule arrived_text_map[OF run_fields(8)])
    show "obj_get (run_sent a secret) (U ''secret_env'') = Some (JObj ?s)" by (simp add: sent_get names_of_secret[OF assms(2)])
    show "obj_wf ?s" using assms(2) by (simp add: obj_wf_def comp_def case_prod_beta)
    fix k v assume "(k, v) \<in> set ?s"
    then show "key_within True k \<and> (\<exists>s. v = JStr s \<and> text_within 4096 s)" using n env_key assms(4) by force
  qed (use len in simp)
  have same: "texts_of ?s = secret"
    by (simp add: texts_of_def comp_def case_prod_beta text_of_def unwrap_or_def)
  have "try_fold (secret_step env) 0 ?s [] = Inr ([] @ texts_of ?s)"
  proof (rule secret_loop)
    fix kv assume "kv \<in> set ?s"
    then obtain k v where kv: "kv = (k, JStr v)" "(k, v) \<in> set secret" by auto
    then show "matches ENV_NAME (fst kv) \<and> env_looks_secret (fst kv) \<and> \<not> child_env_deny (fst kv) \<and> fst kv \<notin> set (map fst env)"
      using n assms(3-5) by force
  qed
  then show ?thesis by (simp add: plan_secret_env_def g str_map_def same)
qed

lemma shm_planned:
  assumes "shm_errors gfmt (Some (max_shm_gib pol)) (ls_shm (ra_launch a)) = []"
  shows "plan_shm e pol (run_arrived a secret) = Inr (ls_shm (ra_launch a))"
proof -
  let ?v = "ls_shm (ra_launch a)"
  have m: "matches SHM ?v" using assms by (auto simp: shm_errors_def same_patterns split: if_splits)
  moreover have "hub_shm_gib ?v \<le> max_shm_gib pol" using assms by (auto simp: shm_errors_def split: if_splits)
  ultimately have h: "shm_gib ?v = Inr (hub_shm_gib ?v)" "\<not> max_shm_gib pol < hub_shm_gib ?v"
    by (simp_all add: shm_gib_def hub_shm_gib_def Let_def shm_unit_def)
  have t: "text_within 16 ?v" by (rule matched_text[OF m longest_names(4) nul_free_names(4)]) simp
  have "obj_get (run_arrived a secret) (U ''shm_size'') = Some (JStr ?v)"
    by (rule arrived_str[OF run_fields(9) _ t]) (simp add: sent_get built_get)
  then show ?thesis by (simp add: plan_shm_def vstr_def unwrap_or_def Let_def h)
qed

lemma ulimits_planned:
  assumes "\<forall>kv \<in> set (ls_ulimits (ra_launch a)). fst kv \<in> set ULIMITS \<and> matches ULIMIT_VALUE (str_value fg (snd kv))"
    and "obj_wf (ls_ulimits (ra_launch a))" "\<forall>kv \<in> set (ls_ulimits (ra_launch a)). \<exists>s. snd kv = JStr s"
  shows "plan_ulimits (run_arrived a secret) = Inr (texts_of (ls_ulimits (ra_launch a)))"
proof -
  let ?m = "ls_ulimits (ra_launch a)"
  have each: "k \<in> set ULIMITS \<and> (\<exists>s. v = JStr s \<and> matches ULIMIT_VALUE s)" if "(k, v) \<in> set ?m" for k v
    using assms(1,3) that by force
  have "card (set (map fst ?m)) \<le> card (set ULIMITS)" by (rule card_mono) (use assms(1) in auto)
  also have "card (set (map fst ?m)) = length ?m" using assms(2) distinct_card[of "map fst ?m"] by (simp add: obj_wf_def)
  finally have len: "length ?m \<le> 4" by (simp add: ULIMITS_def)
  show ?thesis
  proof (cases "?m = []")
    case True
    then have "run_arrived a secret = run_arrived a secret \<and> obj_get (run_sent a secret) (U ''ulimits'') = None" by (simp add: sent_get built_get)
    then have "obj_get (run_arrived a secret) (U ''ulimits'') = Some JNull"
      by (simp add: arrived_get[OF run_fields(10)] obj_get_or_null_def)
    then show ?thesis using True by (simp add: plan_ulimits_def str_map_def texts_of_def)
  next
    case False
    have g: "obj_get (run_arrived a secret) (U ''ulimits'') = Some (JObj ?m)"
    proof (rule arrived_text_map[OF run_fields(10)])
      show "obj_get (run_sent a secret) (U ''ulimits'') = Some (JObj ?m)" using False by (simp add: sent_get built_get)
      fix k v assume "(k, v) \<in> set ?m"
      from each[OF this] obtain s where s: "k \<in> set ULIMITS" "v = JStr s" "matches ULIMIT_VALUE s" by auto
      moreover have "text_within 32 s" by (rule matched_text[OF s(3) longest_names(5) nul_free_names(5)]) simp
      moreover have "key_within True k" using s(1) by (auto simp: ULIMITS_def key_within_def text_within_def U_def)
      ultimately show "key_within True k \<and> (\<exists>s. v = JStr s \<and> text_within 32 s)" by simp
    qed (use assms(2) len in simp_all)
    have "try_fold ulimit_step 0 ?m [] = Inr ([] @ texts_of ?m)"
      by (rule ulimit_loop) (use each in \<open>force simp: text_of_def unwrap_or_def\<close>)
    then show ?thesis by (simp add: plan_ulimits_def g str_map_def)
  qed
qed

section \<open>The whole plan\<close>

lemma built_parts:
  assumes "finish_build fg gfmt offline hpol params la container im launch mounts volumes = Inr b"
  obtains a where "launch_run fg offline hpol la container im launch mounts volumes = (a, bt_secret_env b)"
    "validate_run_spec fg gfmt (build_run_spec a) (hub_num (obj_get hpol (U ''max_shm_gib''))) = []"
    "arrived b = run_arrived a (bt_secret_env b)"
    "\<forall>arg \<in> set (ls_argv launch). \<forall>v \<in> set (secret_param_values params). \<not> str_contains arg v"
proof -
  obtain a secret where l: "launch_run fg offline hpol la container im launch mounts volumes = (a, secret)"
    by (cases "launch_run fg offline hpol la container im launch mounts volumes")
  have n: "\<forall>arg \<in> set (ls_argv launch). \<forall>v \<in> set (secret_param_values params). \<not> str_contains arg v"
    using assms by (auto simp: finish_build_def Let_def simp del: str_contains.simps split: if_splits)
  have v: "validate_run_spec fg gfmt (build_run_spec a) (hub_num (obj_get hpol (U ''max_shm_gib''))) = []"
    and b: "bt_run b = obj_remove (U ''secret_env'') (build_run_spec a)" "bt_secret_env b = secret"
    using assms unfolding finish_build_def Let_def l prod.case by (auto simp del: str_contains.simps split: if_splits)
  show thesis by (rule that[of a]) (use l v n b in \<open>simp_all add: arrived_def run_arrived_def sent_spec_def run_sent_def\<close>)
qed

text \<open>
  C31. What the hub's checks of a launch accept, the node plans as it was built: when the hub's copy of the policy has
  the node's limit for shared memory, the only refusals left are those that need the machine (image policy, GPUs,
  mounts, volumes and files at their container paths, \<open>ipc_host\<close>), and the plan has the name, argv, port, labels,
  environment, secrets, shared memory and ulimits of the launch. No secret parameter is part of an argument. It is
  said of labels and environment values without control characters (the hub does not check those) and of secrets
  that fit into the request and whose names the node does not keep for its own docker CLI.
\<close>

theorem validated_spec_planned:
  assumes "finish_build fg gfmt offline hpol params la container im launch mounts volumes = Inr b"
    and "hub_num (obj_get hpol (U ''max_shm_gib'')) = Some (max_shm_gib pol)"
    and "\<forall>kv \<in> set (engine_labels la). \<not> has_ctrl (text_of (snd kv))"
    and "\<forall>kv \<in> set (fst (split_env fg (ls_env launch) offline)). 0 \<notin> set (text_of (snd kv))"
    and "\<forall>kv \<in> set (bt_secret_env b). text_within 4096 (snd kv) \<and> \<not> child_env_deny (fst kv)"
    and "obj_wf (ls_ulimits launch)" "\<forall>kv \<in> set (ls_ulimits launch). \<exists>s. snd kv = JStr s"
  shows "(plan_run e pol (JObj (arrived b)) =
    try_bind (plan_image pol (arrived b)) (\<lambda>img.
    try_bind (plan_gpus e (arrived b)) (\<lambda>gpus.
    try_bind (plan_mounts e pol (arrived b) []) (\<lambda>(dests, mounts).
    try_bind (plan_volumes (arrived b) dests) (\<lambda>(dests, volumes).
    try_bind (plan_files (files_dir (state_dir e) (la_instance la)) (arrived b) dests) (\<lambda>(dests, files).
    try_bind (ensure (\<not> colon_comma (files_dir (state_dir e) (la_instance la)))
      (bad (U ''the node'' @ [39] @ U ''s state directory contains '' @ [39, 58, 39] @ U '' or '' @ [39, 44, 39]
        @ U '' and cannot hold mounted files''))) (\<lambda>_.
    try_bind (ensure (\<not> (obj_get (arrived b) (U ''ipc_host'') = Some (JBool True) \<and> \<not> allow_ipc_host pol))
      (denied (U ''this node'' @ [39] @ U ''s policy does not allow --ipc host (allow_ipc_host); ''
        @ U ''multi-GPU engines need it for NCCL''))) (\<lambda>_.
    Inr \<lparr>rp_name = container, rp_instance = la_instance la, rp_image = img, rp_argv = ls_argv launch,
      rp_port = ls_port launch, rp_network = engine_network pol, rp_alias = container, rp_gpus = gpus,
      rp_labels = owner_labels (la_instance la)
        @ filter (\<lambda>kv. obj_get (owner_labels (la_instance la)) (fst kv) = None) (texts_of (engine_labels la)),
      rp_env = texts_of (fst (split_env fg (ls_env launch) offline)), rp_secret_env = bt_secret_env b,
      rp_mounts = mounts, rp_volumes = volumes, rp_files = files,
      rp_shm = ls_shm launch, rp_ipc_host = (obj_get (arrived b) (U ''ipc_host'') = Some (JBool True)),
      rp_ulimits = texts_of (ls_ulimits launch)\<rparr>))))))))
    \<and> (\<forall>arg \<in> set (ls_argv launch). \<forall>v \<in> set (secret_param_values params). \<not> str_contains arg v)"
    (is "?planned \<and> ?unseen")
proof (rule conjI)
  obtain a where a: "launch_run fg offline hpol la container im launch mounts volumes = (a, bt_secret_env b)"
    "validate_run_spec fg gfmt (build_run_spec a) (hub_num (obj_get hpol (U ''max_shm_gib''))) = []"
    "arrived b = run_arrived a (bt_secret_env b)"
    "\<forall>arg \<in> set (ls_argv launch). \<forall>v \<in> set (secret_param_values params). \<not> str_contains arg v"
    using built_parts[OF assms(1)] by blast
  show "\<forall>arg \<in> set (ls_argv launch). \<forall>v \<in> set (secret_param_values params). \<not> str_contains arg v" by (rule a(4))
  obtain env where env: "split_env fg (ls_env launch) offline = (env, bt_secret_env b)"
      "ra_name a = container" "ra_instance a = la_instance la" "ra_launch a = launch" "ra_labels a = engine_labels la"
      "ra_env a = env" "ra_secret_env a = names_only (bt_secret_env b)"
    using a(1) by (auto simp: launch_run_def split: prod.splits)
  note v = validated[OF a(2), unfolded env assms(2)]
  note parts = split_env_parts[OF env(1)]
  have "\<forall>kv \<in> set (texts_of env). \<not> env_looks_secret (fst kv)" using parts(3) by (auto simp: texts_of_def)
  note secrets = secret_planned[OF v(9) parts(2,4) assms(5) this, of a]
  have nul: "\<forall>kv \<in> set env. 0 \<notin> set (text_of (snd kv))" using assms(4) by (simp add: env(1))
  note planned = name_planned[of a "bt_secret_env b", unfolded env, OF v(1)] instance_planned[of a "bt_secret_env b", unfolded env, OF v(2)]
    argv_planned[of a "bt_secret_env b", unfolded env, OF v(3,4)] port_planned[of a "bt_secret_env b", unfolded env, OF v(5,6)]
    labels_planned[of la a "bt_secret_env b", unfolded env, OF refl refl assms(3)]
    env_planned[of fg a "bt_secret_env b", unfolded env, OF v(8) parts(1,3) nul] secrets
    shm_planned[of gfmt pol a e "bt_secret_env b", unfolded env, OF v(10)]
    ulimits_planned[of a fg "bt_secret_env b", unfolded env, OF v(11) assms(6,7)]
  show ?planned unfolding plan_run_def json.case a(3) planned try_bind.simps env(1) fst_conv ..
qed

section \<open>A launch on the sample machine\<close>

lemma demo_empty:
  assumes "map_of (spec_fields run_spec_spec) k = Some (SList sub n)" "spec_wf sub" "obj_get (build_run_spec demo_run) k = Some (JArr [])"
    "k \<noteq> U ''secret_env''"
  shows "obj_get (run_arrived demo_run secret) k = Some (JArr [])"
  by (rule arrived_same[OF assms(1)]) (simp_all add: assms sent_get)

lemma demo_rest:
  shows "plan_image sample_policy (run_arrived demo_run secret) = Inr (U ''a:b'')"
    "plan_gpus sample_renv (run_arrived demo_run secret) = Inr []"
    "plan_mounts sample_renv sample_policy (run_arrived demo_run secret) [] = Inr ([], [])"
    "plan_volumes (run_arrived demo_run secret) [] = Inr ([], [])"
    "plan_files d (run_arrived demo_run secret) [] = Inr ([], [])"
    "obj_get (run_arrived demo_run secret) (U ''ipc_host'') = Some (JBool False)"
proof -
  have "obj_get (run_arrived demo_run secret) (U ''image'') = Some (JStr (U ''a:b''))"
  proof (rule arrived_str[of _ 256])
    show "obj_get (run_sent demo_run secret) (U ''image'') = Some (JStr (U ''a:b''))" by (simp add: sent_get more_built demo_parts)
    show "text_within 256 (U ''a:b'')" by (simp add: text_within_def U_def)
  qed (simp add: run_spec_spec_def)
  then show "plan_image sample_policy (run_arrived demo_run secret) = Inr (U ''a:b'')"
    by (simp add: plan_image_def vstr_def Let_def sample_image_ok)
  have "obj_get (run_arrived demo_run secret) (U ''gpu_uuids'') = Some (JArr [])"
    by (rule demo_empty[of _ "SStr 96" 16]) (simp_all add: run_spec_spec_def more_built demo_parts)
  then show "plan_gpus sample_renv (run_arrived demo_run secret) = Inr []" by (simp add: plan_gpus_def list_of_def)
  have "obj_get (run_arrived demo_run secret) (U ''mounts'') = Some (JArr [])"
    by (rule demo_empty[of _ run_mount_spec 16]) (simp_all add: run_spec_spec_def more_built demo_parts run_mount_spec_def)
  then show "plan_mounts sample_renv sample_policy (run_arrived demo_run secret) [] = Inr ([], [])" by (simp add: plan_mounts_def list_of_def)
  have "obj_get (run_arrived demo_run secret) (U ''volumes'') = Some (JArr [])"
    by (rule demo_empty[of _ run_volume_spec 8]) (simp_all add: run_spec_spec_def more_built demo_parts run_volume_spec_def)
  then show "plan_volumes (run_arrived demo_run secret) [] = Inr ([], [])" by (simp add: plan_volumes_def list_of_def)
  have "map_of (spec_fields run_spec_spec) (U ''files'') = Some (SMap (SStr MAX_FILE_CONTENT) 4)" by (simp add: run_spec_spec_def)
  moreover have "obj_get (run_sent demo_run secret) (U ''files'') = None" by (simp add: sent_get more_built demo_parts demo_spec_parts)
  ultimately have "obj_get (run_arrived demo_run secret) (U ''files'') = Some JNull"
    by (simp add: arrived_get obj_get_or_null_def)
  then show "plan_files d (run_arrived demo_run secret) [] = Inr ([], [])" by (simp add: plan_files_def str_map_def)
  show "obj_get (run_arrived demo_run secret) (U ''ipc_host'') = Some (JBool False)"
    by (rule arrived_same[of _ SBool]) (simp_all add: run_spec_spec_def sent_get more_built demo_parts)
qed

lemma demo_dir: "\<not> colon_comma (files_dir (state_dir sample_renv) (U ''i''))"
proof -
  have "state_dir sample_renv = U ''/s''" by (simp add: sample_renv_def)
  moreover have "\<not> colon_comma (files_dir (U ''/s'') (U ''i''))" by code_simp
  ultimately show ?thesis by simp
qed

lemma demo_arrived: "arrived demo_built = run_arrived demo_run [(U ''KEY'', U ''k'')]" "bt_secret_env demo_built = [(U ''KEY'', U ''k'')]"
  by (simp_all add: demo_built_def arrived_def run_arrived_def sent_spec_def run_sent_def)

theorem validated_spec_planned_witness:
  "plan_run sample_renv sample_policy (JObj (arrived demo_built)) =
    Inr \<lparr>rp_name = U ''ec-a'', rp_instance = U ''i'', rp_image = U ''a:b'', rp_argv = [U ''-x''], rp_port = 8000,
      rp_network = engine_network sample_policy, rp_alias = U ''ec-a'', rp_gpus = [],
      rp_labels = owner_labels (U ''i'') @ filter (\<lambda>kv. obj_get (owner_labels (U ''i'')) (fst kv) = None) (texts_of (engine_labels demo_labels)),
      rp_env = [(U ''HF_HUB_OFFLINE'', U ''1'')], rp_secret_env = [(U ''KEY'', U ''k'')], rp_mounts = [], rp_volumes = [], rp_files = [],
      rp_shm = U ''16g'', rp_ipc_host = False, rp_ulimits = [(U ''nofile'', U ''-1'')]\<rparr>"
proof -
  have i: "la_instance demo_labels = U ''i''" by (simp add: demo_labels_def)
  have t: "texts_of [(U ''HF_HUB_OFFLINE'', JStr (U ''1''))] = [(U ''HF_HUB_OFFLINE'', U ''1'')]"
    "texts_of [(U ''nofile'', JStr (U ''-1''))] = [(U ''nofile'', U ''-1'')]" by (simp_all add: texts_of_def text_of_def unwrap_or_def)
  have n: "\<forall>kv \<in> set (fst (split_env (\<lambda>_. []) (ls_env demo_spec) True)). 0 \<notin> set (text_of (snd kv))"
    unfolding demo_spec_parts demo_split by (simp add: text_of_def unwrap_or_def U_def)
  have h: "\<forall>kv \<in> set (bt_secret_env demo_built). text_within 4096 (snd kv) \<and> \<not> child_env_deny (fst kv)"
    "obj_wf (ls_ulimits demo_spec)" "\<forall>kv \<in> set (ls_ulimits demo_spec). \<exists>s. snd kv = JStr s"
    using key_env by (simp_all add: demo_arrived demo_spec_parts text_within_def obj_wf_def U_def)
  note p = validated_spec_planned[OF demo_finished demo_limit demo_no_ctrl n h, of sample_renv,
      unfolded demo_arrived i demo_spec_parts demo_split fst_conv t demo_rest try_bind.simps prod.case, THEN conjunct1]
  show ?thesis unfolding demo_arrived p using demo_dir by (simp add: ensure_def)
qed

end
