(* ===== verification/RunspecMounts.thy ===== *)
theory RunspecMounts
  imports Runspec PlanOk
begin

text \<open>The mounts of a launch (crates/ec-hub/src/services/runspec.rs) lead to the model the reference names.\<close>

section \<open>Relative paths\<close>

text \<open>A relative path is good when each of its segments is.\<close>

lemma rel_ok_iff: "rel_ok s \<longleftrightarrow> 92 \<notin> set s \<and> 0 \<notin> set s \<and> (\<forall>seg \<in> set (split_on slash s). seg \<noteq> [] \<and> seg \<noteq> dot_seg \<and> seg \<noteq> dotdot_seg)"
proof (cases s)
  case (Cons c cs)
  then show ?thesis by (cases "c = slash") (auto simp: rel_ok_def)
qed (simp add: rel_ok_def)

lemma rel_ok_append: "rel_ok (a @ slash # b) \<longleftrightarrow> rel_ok a \<and> rel_ok b"
  by (auto simp: rel_ok_iff split_on_append)

lemma rel_ok_last: "rel_ok s \<Longrightarrow> s \<noteq> [] \<and> last s \<noteq> slash"
proof (cases s rule: rev_cases)
  case (snoc t c)
  assume ok: "rel_ok s"
  have "c \<noteq> slash"
  proof
    assume "c = slash"
    then have "[] \<in> set (split_on slash s)" using split_on_append[of slash t "[]"] snoc by simp
    then show False using ok by (auto simp: rel_ok_iff)
  qed
  then show ?thesis using snoc by simp
qed (simp add: rel_ok_def)

section \<open>Directory and name of a path\<close>

lemma cut_at_last: "slash \<in> set p \<Longrightarrow> \<exists>a b. p = a @ slash # b \<and> slash \<notin> set b"
  using split_list_last by metis

lemma basename_cut: "slash \<notin> set b \<Longrightarrow> posix_basename (a @ slash # b) = b"
  by (simp add: posix_basename_def split_on_append split_on_no_sep)

lemma dirname_cut:
  assumes "slash \<notin> set b" "a \<noteq> []" "last a \<noteq> slash"
  shows "posix_dirname (a @ slash # b) = a"
proof -
  have "dropWhile (\<lambda>c. c \<noteq> slash) (rev b @ slash # rev a) = slash # rev a"
    using assms(1) by (subst dropWhile_append2) auto
  then have "rev (dropWhile (\<lambda>c. c \<noteq> slash) (rev (a @ slash # b))) = a @ [slash]" by simp
  moreover have "trim_end slash (a @ [slash]) = a"
    using assms(2,3) by (cases a rule: rev_cases) (simp_all add: trim_end_def)
  ultimately show ?thesis using assms(2) by (simp add: posix_dirname_def)
qed

lemma split_once_Some: "split_once p s = Some (a, b) \<Longrightarrow> s = a @ p @ b"
proof (induction p s arbitrary: a rule: split_once.induct)
  case (1 p s)
  show ?case
  proof (cases "starts_with s p")
    case True
    then show ?thesis using 1(2) by (auto simp: starts_with_def) (metis append_take_drop_id)
  next
    case False
    then show ?thesis using 1 by (cases s) (auto simp: map_option_eq_Some)
  qed
qed

section \<open>Mounts\<close>

definition leads_to :: "ustr \<Rightarrow> ustr \<Rightarrow> ustr \<Rightarrow> bool" where
  "leads_to dir fname rel \<longleftrightarrow> rel_ok fname \<and> (dir = [] \<and> rel = fname \<or> rel_ok dir \<and> rel = dir @ slash # fname)"

lemma dir_and_name: "rel_ok rel \<Longrightarrow> leads_to (posix_dirname rel) (posix_basename rel) rel"
proof (cases "slash \<in> set rel")
  case True
  assume ok: "rel_ok rel"
  obtain a b where ab: "rel = a @ slash # b" "slash \<notin> set b" using cut_at_last[OF True] by auto
  then have "rel_ok a" "rel_ok b" using ok rel_ok_append by auto
  then show ?thesis using rel_ok_last[of a] dirname_cut[OF ab(2), of a] basename_cut[OF ab(2), of a] ab(1) by (simp add: leads_to_def)
qed (simp add: leads_to_def posix_dirname_def posix_basename_def split_on_no_sep)

lemma snapshots_cut: "U ''/snapshots/'' = slash # U ''snapshots'' @ [slash]" "U ''/'' = [slash]"
  by (simp_all add: U_def)

lemma gguf_leads:
  assumes "mr_rel r = Some rel" "rel_ok rel"
  shows "\<exists>dir fname. gguf_mounts r = ([mount_obj (mr_root_id r) dir MODEL_MOUNT], Some (MODEL_MOUNT @ slash # fname)) \<and> leads_to dir fname rel"
proof -
  let ?whole = "([mount_obj (mr_root_id r) (posix_dirname rel) MODEL_MOUNT], Some (MODEL_MOUNT @ slash # posix_basename rel))"
  have w: "?thesis" if "gguf_mounts r = ?whole" using that dir_and_name[OF assms(2)] by blast
  show ?thesis
  proof (cases "split_once (U ''/snapshots/'') rel")
    case None
    then show ?thesis by (intro w) (simp add: gguf_mounts_def assms(1) unwrap_or_def Let_def snapshots_cut(2))
  next
    case (Some cut)
    obtain repo rest where cut: "cut = (repo, rest)" by (cases cut)
    have rel: "rel = repo @ slash # (U ''snapshots'' @ slash # rest)"
      using split_once_Some[OF Some[unfolded cut]] by (simp add: snapshots_cut)
    show ?thesis
    proof (cases "repo \<noteq> [] \<and> rest \<noteq> []")
      case True
      have "gguf_mounts r = ([mount_obj (mr_root_id r) repo MODEL_MOUNT], Some (MODEL_MOUNT @ slash # (U ''snapshots'' @ slash # rest)))"
        using True Some by (simp add: gguf_mounts_def assms(1) unwrap_or_def Let_def cut) (simp add: snapshots_cut)
      moreover have "leads_to repo (U ''snapshots'' @ slash # rest) rel"
        using assms(2) unfolding rel rel_ok_append leads_to_def by simp
      ultimately show ?thesis by blast
    next
      case False
      then show ?thesis using Some by (intro w) (auto simp: gguf_mounts_def assms(1) unwrap_or_def Let_def cut snapshots_cut(2))
    qed
  qed
qed

lemma mount_fine:
  assumes "rel = [] \<or> rel_ok rel" "dest \<in> {MODEL_MOUNT, OLLAMA_MODELS_DEST}"
  shows "mount_error fg (JObj (mount_obj i rel dest)) = []" "obj_get (mount_obj i rel dest) (U ''ro'') = Some (JBool True)"
proof -
  have "starts_with dest [slash]" "dotdot_seg \<notin> set (split_on slash dest)"
    using assms(2) by (auto simp: MODEL_MOUNT_def OLLAMA_MODELS_DEST_def U_def)
  then show "mount_error fg (JObj (mount_obj i rel dest)) = []"
    using assms(1) by (auto simp: mount_error_def mount_obj_def str_of_def str_value_def Let_def)
  show "obj_get (mount_obj i rel dest) (U ''ro'') = Some (JBool True)" by (simp add: mount_obj_def)
qed

lemma checked_rel:
  assumes "check_ref word r = Inr ()"
  shows "mr_format r = U ''gguf'' \<Longrightarrow> \<exists>rel. mr_rel r = Some rel \<and> rel_ok rel"
    "mr_format r = U ''plain'' \<Longrightarrow> unwrap_or [] (mr_rel r) = [] \<or> rel_ok (unwrap_or [] (mr_rel r))"
proof -
  have p: "ref_problem word r = []" using assms by (auto simp: check_ref_def Let_def split: if_splits)
  show "mr_format r = U ''gguf'' \<Longrightarrow> \<exists>rel. mr_rel r = Some rel \<and> rel_ok rel"
  proof -
    assume f: "mr_format r = U ''gguf''"
    then have "unwrap_or [] (mr_rel r) \<noteq> [] \<and> rel_ok (unwrap_or [] (mr_rel r))"
      using p by (simp add: ref_problem_def Let_def split: if_split_asm)
    then show ?thesis by (cases "mr_rel r") (simp_all add: unwrap_or_def)
  qed
  show "mr_format r = U ''plain'' \<Longrightarrow> unwrap_or [] (mr_rel r) = [] \<or> rel_ok (unwrap_or [] (mr_rel r))"
    using p by (simp add: ref_problem_def Let_def split: if_split_asm)
qed

lemma gguf_path:
  assumes "check_ref word r = Inr ()" "mr_format r = U ''gguf''"
  shows "\<exists>dir fname. model_mounts r copy_rel ollama_root
      = ([mount_obj (mr_root_id r) dir MODEL_MOUNT], Some (MODEL_MOUNT @ slash # fname)) \<and> leads_to dir fname (unwrap_or [] (mr_rel r))"
proof -
  obtain rel where rel: "mr_rel r = Some rel" "rel_ok rel" using checked_rel(1)[OF assms] by blast
  then show ?thesis using gguf_leads[OF rel] by (simp add: model_mounts_def assms(2) unwrap_or_def)
qed

lemma mounts_fine:
  assumes "check_ref word r = Inr ()" "m \<in> set (fst (model_mounts r copy_rel ollama_root))"
  shows "mount_error fg (JObj m) = [] \<and> obj_get m (U ''ro'') = Some (JBool True)"
proof (cases "mr_format r = U ''gguf''")
  case True
  then obtain dir fname where "fst (model_mounts r copy_rel ollama_root) = [mount_obj (mr_root_id r) dir MODEL_MOUNT]" "dir = [] \<or> rel_ok dir"
    using gguf_path[OF assms(1) True, of copy_rel ollama_root] by (auto simp: leads_to_def)
  then show ?thesis using mount_fine assms(2) by simp
next
  case False
  have "ollama_rel copy_rel p = [] \<or> rel_ok (ollama_rel copy_rel p)" for p
    by (simp add: ollama_rel_def Let_def rel_ok_def U_def starts_with_def)
  then show ?thesis using mount_fine checked_rel(2)[OF assms(1)] assms(2) False
    by (auto simp: model_mounts_def Let_def split: option.splits if_splits)
qed

text \<open>
  C22. Every mount of a checked model reference is read-only and passes the hub's own check of mounts, and for a
  GGUF file the path the engine is given is the file of the reference: the mounted folder followed by the rest of
  the path in the container is the path of the reference inside its root.
\<close>

theorem model_path_leads_to_file:
  assumes "check_ref word r = Inr ()"
  shows "(\<forall>m \<in> set (fst (model_mounts r copy_rel ollama_root)).
      mount_error fg (JObj m) = [] \<and> obj_get m (U ''ro'') = Some (JBool True))
    \<and> (mr_format r = U ''gguf'' \<longrightarrow> (\<exists>dir fname. model_mounts r copy_rel ollama_root
      = ([mount_obj (mr_root_id r) dir MODEL_MOUNT], Some (MODEL_MOUNT @ slash # fname)) \<and> leads_to dir fname (unwrap_or [] (mr_rel r))))"
  using mounts_fine[OF assms] gguf_path[OF assms] by blast

definition snapshot_ref :: model_ref where
  "snapshot_ref = \<lparr>mr_format = U ''gguf'', mr_repo_id = None, mr_root_id = Some (U ''r''),
     mr_rel = Some (U ''m/snapshots/a/f.gguf''), mr_name = None\<rparr>"

lemma snapshot_checked: "check_ref word snapshot_ref = Inr ()"
proof -
  have "matches MODEL_ROOT_ID (U ''r'')" by code_simp
  moreover have "rel_ok (U ''m/snapshots/a/f.gguf'')" by (simp add: rel_ok_def U_def starts_with_def)
  moreover have "ends_gguf (U ''m/snapshots/a/f.gguf'')" by (simp add: ends_gguf_def ends_with_def U_def lower_char_def)
  ultimately show ?thesis by (simp add: check_ref_def ref_problem_def snapshot_ref_def Let_def unwrap_or_def)
qed

lemma snapshot_mounts: "model_mounts snapshot_ref None None
    = ([mount_obj (Some (U ''r'')) (U ''m'') MODEL_MOUNT], Some (U ''/models/snapshots/a/f.gguf''))"
  by code_simp

theorem model_path_leads_to_file_witness:
  "(\<exists>dir fname. model_mounts snapshot_ref None None = ([mount_obj (Some (U ''r'')) dir MODEL_MOUNT], Some (MODEL_MOUNT @ slash # fname))
      \<and> leads_to dir fname (U ''m/snapshots/a/f.gguf''))
    \<and> model_mounts snapshot_ref None None = ([mount_obj (Some (U ''r'')) (U ''m'') MODEL_MOUNT], Some (U ''/models/snapshots/a/f.gguf''))"
proof
  have r: "mr_format snapshot_ref = U ''gguf''" "mr_root_id snapshot_ref = Some (U ''r'')"
    "unwrap_or [] (mr_rel snapshot_ref) = U ''m/snapshots/a/f.gguf''" by (simp_all add: snapshot_ref_def unwrap_or_def)
  show "\<exists>dir fname. model_mounts snapshot_ref None None = ([mount_obj (Some (U ''r'')) dir MODEL_MOUNT], Some (MODEL_MOUNT @ slash # fname))
      \<and> leads_to dir fname (U ''m/snapshots/a/f.gguf'')"
    using model_path_leads_to_file[OF snapshot_checked, of None None] unfolding r by blast
qed (rule snapshot_mounts)

end
