(* ===== verification/Spec2Isabelle.thy ===== *)
theory Spec2Isabelle
  imports HubStream Writer Sanitize Msg Session PolicyStore RunClaims MirrorOk FsSample GgufClaims RunspecClaims RunspecMounts
begin

text \<open>
  Verification of engine-console: a hub (crates/ec-hub) manages inference engines on a fleet of
  machines through a node program (crates/ecnode) on each of them; both speak the framed protocol of
  crates/ec-proto over a pipe, usually one of ssh. The hub does not trust a node's data, and the node
  does not trust the hub beyond its local policy file. The development follows those boundaries.

  \<^bold>\<open>How the parts interact.\<close> The node's reader thread takes frames off the pipe, admits or refuses
  requests under the policy and starts a handler for each; handlers answer through one writer thread
  and stream bytes under credit. Handlers that act on the machine check their arguments against
  the policy (roots, images, limits), and then run docker or open files. On the hub each request in flight
  has a \<open>Req\<close> that the link's reader fills and a caller drains; everything received is rebuilt from
  the tables of shapes before the hub looks at it.

  \<^bold>\<open>Theories and sources.\<close>
  \<^item> Prelude: text as code points (\<open>ustr\<close>), decimals, \<open>?\<close> as \<open>try_bind\<close>, list lemmas.
    Json: \<open>serde_json::Value\<close> and insertion-ordered objects, with the map laws as a locale. PyFmt: pyfmt.rs.
  \<^item> Frame: ec-proto/lib.rs (encoders, header, reader over an interruptible stream, MAGIC search).
    Clean: clean.rs. Specs: specs.rs. Sanitize: sanitize.rs. Msg: msg.rs.
  \<^item> Fifo, CreditFlow: the contracts of a queue and of credit flow control, as locales. Writer and
    NodeStream: ecnode/server.rs, \<open>Writer\<close> and \<open>Request\<close>. HubStream: ec-hub/services/fleet.rs, \<open>Req\<close> and
    \<open>LinkStream\<close>; it interprets the credit contract in both directions of a stream.
  \<^item> Server, Session: ecnode/server.rs, admission, answers, cancel, shutdown; then the same as a
    transition system refining an abstract protocol of ids.
  \<^item> Regexp (patterns by derivatives and their language), Image, Policy, PolicyParse, PolicyOk, PyPath
    (posixpath, util/py.rs), RootGuard, PolicyStore: ecnode/policy.rs, from the file on disk to the policy
    in force. PolicyMirror, MirrorOk: ec-hub/services/policy_check.rs, the hub's second implementation of the
    same rules, and how it agrees with the node's.
  \<^item> Names (util.rs), Confine (confine.rs): which names are never read or written, and how a path
    below a root is opened.
  \<^item> RunPlan, PlanOk: docker.rs, \<open>plan_run\<close>, and what an accepted plan satisfies. DockerCli: the command
    lines. Prog: operations as functions of the calls made so far, over a machine about whose answers
    nothing is assumed, with triples for safety of each call. World: docker and the files beside it as such a machine. DockerText, DockerOps: docker.rs, ops.rs,
    util/proc.rs (environment of a child). DockerSafe, RunSafe, GatewaySafe: what those operations may do.
    SampleRun: a concrete machine. RunClaims: the properties about all of these.
  \<^item> Base64, FsOps: fsops.rs, the file operations below a root as operations over another such machine
    (\<open>disk\<close>), and \<open>Agent::running_mounts\<close>. FsSafe (uploads), FsGuard (reads, small files, links), FsDelete:
    what each of them may do. FsClaims: their properties. FsSample: one upload run to its end.

  \<^bold>\<open>Correspondence.\<close> A definition has the name of the function it models, or of the function with its
  part (\<open>put_step\<close> is one turn of the loop in \<open>Writer::put\<close>; \<open>plan_mounts\<close> is that part of \<open>plan_run\<close>). A
  struct is a record, an enum a datatype, \<open>Result<T, E>\<close> a sum with the error on the left, u32 and i64 of
  the wire are words or integers with their bounds written out. Code under a lock is one definition, and
  a property of a concurrent part holds of every sequence of such steps. Error texts are modelled too.

  \<^bold>\<open>Groups of lemmas.\<close> The codec round-trips, is independent of chunking, and tells a cut frame from a clean
  end. Cleaning conforms to the declared shape, is the identity on data of that shape, and is bounded. The
  queue keeps order and bounds; credit is never exceeded, all bytes arrive in order, and no stream
  blocks once everything is read. The session admits what it may, answers each id once, and in
  monitor mode runs monitor operations only. An accepted policy is well-formed and its roots stay clear
  of the home and the node's files. An accepted run spec gives a plan that mounts nothing but checked
  sources, read-only; its command line reads back as the plan; secret values are only in the
  child's environment; only the console's own containers are touched; a failing gateway is removed;
  what is opened below a root is inside it. A file is replaced only by a whole, synced one with the digest
  that was asked for; a read sends what the file holds, in order; a link leads inside its root; a delete
  is done after every check and below its target only.

  \<^bold>\<open>Bounds and fuel.\<close> JSON frames hold 1 MiB, data frames 1 MiB and a stream id, a window is 8 MiB
  (\<open>WINDOW\<close>), the writer's queue 4 MiB of data and 64 MiB of JSON. A delete recurses over 65 levels of directories,
  as the code does, and the loops of an upload and a read are bounded by the bytes still missing. Frame reading, the MAGIC search, batches
  and cleaning recurse on their input. \<open>realpath_loop\<close> carries a depth of 256 as the code does. The
  writer's loop is shown to return once it is closed. The key scan is bounded by its four levels and the number of entries. The
  model checks no limit on memory or on the depth of Rust's stack.

  \<^bold>\<open>Parameters.\<close> The JSON printer and parser, UTF-8 decoding, float printing, the scrubber of secret
  values in messages (fancy-regex), sha256 and random bytes, what the file system, docker and the system
  calls answer, and the time. Where a
  property relies on documented behaviour of one of them, it is a named hypothesis (\<open>frame_codec_ok\<close>,
  \<open>reliable\<close>).

  \<^bold>\<open>Not modelled.\<close> The tokio twins of the frame reader (wrappers of the same header and body checks);
  reading the machine's facts (agent.rs and its helpers), discovery, the model scanner, the
  http proxy, scripts, process handling, log and pull streaming; on the hub the link
  session around a request, hosts, lifecycle, run specifications, downloads, the library, storage, the
  engine adapters, the HTTP API and the YAML reader; the front end and the Python original of the node.
\<close>

section \<open>The wire\<close>

text \<open>
  C1. What the encoders write is what the session reader returns, frame by frame and then a clean
  end, however the transport cuts the bytes into chunks and wherever reads are interrupted. The
  hypothesis about each JSON object is what serde_json promises of it.
\<close>

theorem frames_roundtrip:
  assumes "list_all2 (\<lambda>f bs. encode_frame to_vec f = Inr bs \<and> frame_codec_ok to_vec u p f) fs bss"
    and "reliable r" "bytes_of r = concat bss"
  shows "read_frames u p (Suc (length fs)) r = (fs, Some (Inr ()))"
  using assms by (rule read_frames_encoded)

lemma frames_roundtrip_witness:
  "read_frames (\<lambda>_. Inr (U ''{}'')) (\<lambda>_. Inr (JObj [])) 3
     [Chunk [0], Interrupted, Chunk [0, 0, 3, 1, 123, 125, 0, 0], Chunk [0, 7, 2, 0, 0, 0, 7, 9, 8]]
   = ([FJson [], FData 7 [9, 8]], Some (Inr ()))"
proof -
  have "list_all2 (\<lambda>f bs. encode_frame (\<lambda>_. Inr [123, 125]) f = Inr bs
        \<and> frame_codec_ok (\<lambda>_. Inr [123, 125]) (\<lambda>_. Inr (U ''{}'')) (\<lambda>_. Inr (JObj [])) f)
      [FJson [], FData 7 [9, 8]] [[0, 0, 0, 3, 1, 123, 125], [0, 0, 0, 7, 2, 0, 0, 0, 7, 9, 8]]"
    by (simp add: encode_frame_def encode_json_def encode_data_def codec_ok_def to_be_bytes_def
        u32_len_def valid_id_i64_def wire_simps)
  from frames_roundtrip[OF this, of "[Chunk [0], Interrupted, Chunk [0, 0, 3, 1, 123, 125, 0, 0],
      Chunk [0, 7, 2, 0, 0, 0, 7, 9, 8]]"]
  show ?thesis by (simp add: numeral_3_eq_3)
qed

text \<open>
  Only the bytes matter: two reliable streams of the same bytes give the same frame, or the same
  error, and the same size, however they are cut.
\<close>

theorem chunking_invisible:
  assumes "reliable r" "reliable r'" "bytes_of r = bytes_of r'"
  shows "fst (read_frame_sized_sync u p r) = fst (read_frame_sized_sync u p r')"
  using assms by (rule read_frame_chunking)

lemma chunking_invisible_witness:
  "fst (read_frame_sized_sync (\<lambda>_. Inr [65]) (\<lambda>_. Inr JNull) [Chunk [0, 0, 0, 9], Interrupted, Chunk [7]])
   = fst (read_frame_sized_sync (\<lambda>_. Inr [65]) (\<lambda>_. Inr JNull) [Chunk [0], Chunk [0, 0, 9, 7]])"
  by (rule chunking_invisible) simp_all

text \<open>
  A header is accepted only for a known kind and a body within that kind's limits, so a read
  never asks for more than 1 MiB and four bytes of body; the length it announces is exact.
\<close>

theorem header_limits:
  assumes "parse_header hdr = Inr (kind, n)"
  shows "length hdr = 5 \<and> last hdr = kind
    \<and> unat (from_be_bytes (hdr ! 0) (hdr ! 1) (hdr ! 2) (hdr ! 3)) = n + 1
    \<and> (kind = KIND_JSON \<and> 2 \<le> n \<and> n \<le> MAX_JSON \<or> kind = KIND_DATA \<and> 4 \<le> n \<and> n \<le> MAX_DATA + 4)"
  using assms by (rule parse_header_sound) (simp add: numeral_3_eq_3)

lemma header_limits_witness:
  "parse_header [0, 16, 0, 5, 2] = Inr (2, 1048580) \<and> (1048580 :: nat) \<le> MAX_DATA + 4"
proof -
  have h: "parse_header [0, 16, 0, 5, 2] = Inr (2, 1048580)"
    by (simp add: from_be_bytes_def wire_simps Let_def)
  from header_limits[OF h] h show ?thesis by (simp add: wire_simps)
qed

text \<open>
  C4. A stream that ends inside a frame is reported as truncated, which the hub and the node tell
  apart from a clean end and from a broken protocol.
\<close>

theorem truncated_frame:
  assumes "encode_frame to_vec f = Inr bs" "frame_codec_ok to_vec u p f" "0 < k" "k < length bs"
    and "reliable r" "bytes_of r = take k bs"
  shows "\<exists>e. fst (read_frame_sync u p r) = Inl (Proto (Truncated e))"
  using assms by (rule read_frame_sync_prefix)

lemma truncated_frame_witness:
  "\<exists>e. fst (read_frame_sync (\<lambda>_. Inl []) (\<lambda>_. Inl []) [Chunk [0, 0, 0, 7, 2, 0], Chunk [0]]) = Inl (Proto (Truncated e))"
  by (rule truncated_frame[where to_vec = "\<lambda>_. Inl []" and f = "FData 7 [9, 8]" and k = 7
        and bs = "[0, 0, 0, 7, 2, 0, 0, 0, 7, 9, 8]"])
    (simp_all add: encode_frame_def encode_data_def to_be_bytes_def u32_len_def valid_id_i64_def wire_simps)

text \<open>
  The hub finds the start of the protocol after any noise (a login banner, a shell's output)
  that does not hold the MAGIC line itself, counts the noise, and leaves exactly what follows.
\<close>

theorem magic_found:
  assumes "reliable r" "bytes_of r = noise @ MAGIC @ rest" "noise_free noise"
    and "length noise + length MAGIC \<le> MAX_PREAMBLE + 1"
  shows "\<exists>r'. find_magic_sync r = (Inr (length noise), r') \<and> reliable r' \<and> bytes_of r' = rest"
  using find_magic_spec[of r noise rest 0] assms by (simp add: find_magic_sync_def)

lemma magic_found_witness:
  "\<exists>r'. find_magic_sync [Chunk [72, 105, 10], Chunk (MAGIC @ [1, 2])] = (Inr 3, r') \<and> bytes_of r' = [1, 2]"
proof -
  have "noise_free [72, 105, 10]"
    by (auto simp: noise_free_def starts_with_def MAGIC_def U_def le_Suc_eq numeral_3_eq_3)
  then show ?thesis
    using magic_found[of "[Chunk [72, 105, 10], Chunk (MAGIC @ [1, 2])]" "[72, 105, 10]" "[1, 2]"]
    by (auto simp: MAX_PREAMBLE_def MAGIC_def U_def)
qed

section \<open>Cleaning\<close>

text \<open>
  C6. Whatever the other side sent, the cleaned value has the declared shape: only the declared
  fields, each of its type or null, whole numbers at most 2^53 and other numbers at most 10^15 in
  magnitude, texts within their caps and free of NUL, lists and maps within their caps, no key twice.
\<close>

theorem clean_conforms:
  assumes "spec_wf sp"
  shows "conforms False (clean v sp) sp"
  using assms by (rule clean_conforms_spec)

lemma clean_conforms_witness:
  "clean (JObj [(U ''a'', JStr [65, 0, 66, 67]), (U ''b'', JNum (PosInt 3)), (U ''z'', JNull)])
     (SObj [(U ''a'', SStr 2), (U ''b'', SBool)]) = JObj [(U ''a'', JStr [65]), (U ''b'', JNull)]
   \<and> conforms False (JObj [(U ''a'', JStr [65]), (U ''b'', JNull)]) (SObj [(U ''a'', SStr 2), (U ''b'', SBool)])"
proof -
  have c: "clean (JObj [(U ''a'', JStr [65, 0, 66, 67]), (U ''b'', JNum (PosInt 3)), (U ''z'', JNull)])
     (SObj [(U ''a'', SStr 2), (U ''b'', SBool)]) = JObj [(U ''a'', JStr [65]), (U ''b'', JNull)]"
    by (simp add: obj_get_or_null_def cap_str_def obj_of_def om.ins_all_def)
  have "spec_wf (SObj [(U ''a'', SStr 2), (U ''b'', SBool)])" by simp
  from clean_conforms[OF this, of "JObj [(U ''a'', JStr [65, 0, 66, 67]), (U ''b'', JNum (PosInt 3)), (U ''z'', JNull)]"]
  show ?thesis using c by simp
qed

text \<open>
  C7. Cleaning is lossless on well-formed data: a value that already has the declared shape, with
  non-empty keys and at most 4,000 values, comes through unchanged.
\<close>

theorem clean_identity:
  assumes "spec_wf sp" "conforms True v sp"
  shows "clean v sp = v"
  using assms by (rule clean_id)

lemma clean_identity_witness:
  "clean (JObj [(U ''code'', JStr (U ''busy'')), (U ''message'', JNull)]) error_spec
   = JObj [(U ''code'', JStr (U ''busy'')), (U ''message'', JNull)]"
  by (rule clean_identity)
    (simp_all add: error_spec_def obj_get_or_null_def text_within_def U_def)

text \<open>
  C8. The free-form value of an inspect result is bounded whatever the node sent: depth 8, 512 items
  per level, texts of 4,096 characters, and 4,000 values that are not null in all.
\<close>

theorem clean_json_limits: "bounded False 0 (clean_json v) \<and> int (vals (clean_json v)) \<le> 4000"
  using clean_json_conforms[of v] by (simp add: JSON_MAX_NODES_def)

section \<open>Requests: what the node acts on is what was sent\<close>



text \<open>
  In particular a top-level strict text of an accepted request, such as the \<open>rel\<close> a file
  operation acts on, is the one the hub sent: within its cap, without NUL, and not cut.
\<close>

theorem strict_text_exact:
  assumes "overlong_args op (JObj m) = None" "clean_args op (JObj m) = Inr c"
    and "args op = Some (SObj fs)" "map_of fs k = Some (SStr n)" "k \<in> set STRICT_FIELDS"
    and "obj_get m k = Some (JStr s)"
  shows "obj_get c k = Some (JStr s) \<and> length s \<le> n \<and> 0 \<notin> set s"
proof -
  have "survives (JObj m) (JObj c) (SObj fs)" using clean_args_survive[OF assms(1-3)] by simp
  with assms(4-6) have get: "obj_get c k = Some (JStr s)"
    by (auto dest!: map_of_SomeD)
  then have "text_within n s"
    using clean_args_get[OF assms(2,3,4)] assms(6) cap_str_within[of n s]
    by (auto simp: obj_get_or_null_def)
  with get show ?thesis by (simp add: text_within_def)
qed

lemma strict_text_exact_witness:
  "\<exists>c. clean_args (U ''fs.delete'') (JObj [(U ''rel'', JStr (U ''a/b'')), (U ''root'', JStr (U ''hf''))]) = Inr c
     \<and> obj_get c (U ''rel'') = Some (JStr (U ''a/b''))"
proof -
  let ?m = "[(U ''rel'', JStr (U ''a/b'')), (U ''root'', JStr (U ''hf''))]"
  let ?fs = "[(U ''root'', SStr 32), (U ''rel'', SStr 1024)]"
  have a: "args (U ''fs.delete'') = Some (SObj ?fs)" by (simp add: args_def ARGS_def)
  obtain c where c: "clean_args (U ''fs.delete'') (JObj ?m) = Inr c" using a by (simp add: clean_args_def)
  have "overlong_args (U ''fs.delete'') (JObj ?m) = None"
    by (simp add: a overlong_args_def STRICT_FIELDS_def) (simp add: U_def)
  from strict_text_exact[OF this c a, of "U ''rel''" 1024 "U ''a/b''"] c show ?thesis
    by (simp add: STRICT_FIELDS_def)
qed

text \<open>
  The strict check covers texts only: a list member of another type is skipped by the check and
  dropped by the cleaning, so an accepted \<open>docker.run\<close> can act on a different argv than was sent.
\<close>

theorem argv_member_dropped:
  "\<exists>v c gm sent. v = JObj [(U ''spec'', JObj [(U ''argv'', JArr sent)])]
     \<and> overlong_args (U ''docker.run'') v = None \<and> clean_args (U ''docker.run'') v = Inr c
     \<and> missing_args (U ''docker.run'') c = [] \<and> obj_get c (U ''spec'') = Some (JObj gm)
     \<and> sent = [JStr (U ''--model''), JNum (PosInt 7), JStr (U ''m'')]
     \<and> obj_get gm (U ''argv'') = Some (JArr [JStr (U ''--model''), JStr (U ''m'')])"
proof -
  let ?sent = "[JStr (U ''--model''), JNum (PosInt 7), JStr (U ''m'')]"
  let ?v = "JObj [(U ''spec'', JObj [(U ''argv'', JArr ?sent)])]"
  have a: "args (U ''docker.run'') = Some (SObj [(U ''spec'', run_spec_spec)])" by (simp add: args_def ARGS_def)
  have o: "overlong_args (U ''docker.run'') ?v = None"
    by (simp add: a overlong_args_def STRICT_FIELDS_def run_spec_spec_def) (simp add: U_def)
  obtain c where c: "clean_args (U ''docker.run'') ?v = Inr c" using a by (simp add: clean_args_def)
  have s: "obj_get c (U ''spec'') = Some (clean (JObj [(U ''argv'', JArr ?sent)]) run_spec_spec)"
    using clean_args_get[OF c a, of "U ''spec''" run_spec_spec] by (simp add: obj_get_or_null_def)
  obtain fs where fs: "run_spec_spec = SObj fs" "distinct (map fst fs)" "map_of fs (U ''argv'') = Some (SList (SStr 4096) 512)"
    by (simp add: run_spec_spec_def)
  let ?gm = "clean_obj (JObj [(U ''argv'', JArr ?sent)]) (SObj fs)"
  have gm: "clean (JObj [(U ''argv'', JArr ?sent)]) run_spec_spec = JObj ?gm"
    by (simp add: fs(1) clean_obj_def)
  have g: "obj_get ?gm (U ''argv'') = Some (JArr [JStr (U ''--model''), JStr (U ''m'')])"
    by (simp add: clean_obj_get[OF fs(2)] fs(3) obj_get_or_null_def cap_str_def) (simp add: U_def)
  have "missing_args (U ''docker.run'') c = []" using s gm by (simp add: missing_args_def required_def is_missing_def)
  with o c s gm g show ?thesis by (intro exI[of _ ?v] exI[of _ c] exI[of _ ?gm] exI[of _ ?sent]) simp
qed

section \<open>The hub's side of the sanitizers\<close>



text \<open>
  Whatever a node answers, the hub sees an answer of one of two shapes: success with the fields
  of the operation's result, each of its declared shape, or a refusal with a code and a message,
  neither of them empty. Success needs the literal \<open>true\<close>.
\<close>

theorem response_shape:
  "\<exists>i. conforms False i SInt \<and>
     (if obj_get msg (U ''ok'') = Some (JBool True)
      then \<exists>r. sanitize_res msg op = [(U ''id'', i), (U ''ok'', JBool True), (U ''result'', JObj r)]
             \<and> (r = [] \<or> conforms False (JObj r) (results op))
      else \<exists>code text. sanitize_res msg op = [(U ''id'', i), (U ''ok'', JBool False),
             (U ''error'', JObj [(U ''code'', JStr code), (U ''message'', JStr text)])]
             \<and> code \<noteq> [] \<and> text \<noteq> [] \<and> length code \<le> 64 \<and> length text \<le> 1000)"
proof (cases "obj_get msg (U ''ok'') = Some (JBool True)")
  case True
  have "conforms False (clean (obj_get_or_null msg (U ''id'')) SInt) SInt" by (rule clean_conforms_spec) simp
  with True show ?thesis using clean_obj_shape[OF results_ok[of op]] by (auto simp: sanitize_res_ok)
next
  case False
  have i: "conforms False (clean (obj_get_or_null msg (U ''id'')) SInt) SInt" by (rule clean_conforms_spec) simp
  have e: "res_error msg = [] \<or> conforms False (JObj (res_error msg)) error_spec"
    unfolding res_error_def by (rule clean_obj_shape[OF error_spec_ok])
  obtain c where c: "pick (res_error msg) (U ''code'') INTERNAL = JStr c" "c \<noteq> []" "length c \<le> 64"
    using pick_text[OF e, of "U ''code''" 64 INTERNAL] by (auto simp: INTERNAL_def)
  obtain t where "pick (res_error msg) (U ''message'') (U ''the node refused without saying why'') = JStr t"
    "t \<noteq> []" "length t \<le> 1000"
    using pick_text[OF e, of "U ''message''" 1000 "U ''the node refused without saying why''"] by auto
  with i c False show ?thesis by (auto simp: sanitize_res_err)
qed

text \<open>
  Both ends agree: a result of the declared shape that the node answers, and a refusal whose
  code and message are not empty, reach the hub's caller unchanged (the message cut to 1000
  characters by the node).
\<close>

theorem response_roundtrip:
  assumes "conforms True (JObj r) (results op)" "valid_id_i64 i"
    and "text_within 64 code" "code \<noteq> []" "0 \<notin> set text" "text \<noteq> []"
  shows "sanitize_res (res_ok i (Some r)) op
      = [(U ''id'', json_int i), (U ''ok'', JBool True), (U ''result'', JObj r)]
    \<and> sanitize_res (res_err i code text) op
      = [(U ''id'', json_int i), (U ''ok'', JBool False),
         (U ''error'', JObj [(U ''code'', JStr code), (U ''message'', JStr (take 1000 text))])]"
proof
  show "sanitize_res (res_ok i (Some r)) op
      = [(U ''id'', json_int i), (U ''ok'', JBool True), (U ''result'', JObj r)]"
    using assms clean_obj_id[OF results_ok] clean_id_int
    by (simp add: sanitize_res_ok res_ok_def obj_get_or_null_def del: clean.simps)
  let ?e = "[(U ''code'', JStr code), (U ''message'', JStr (take 1000 text))]"
  have "conforms True (JObj ?e) error_spec"
    using assms by (auto simp: error_spec_def obj_get_or_null_def text_within_def dest: in_set_takeD)
  then have "res_error (res_err i code text) = ?e"
    using clean_obj_id[OF error_spec_ok] by (simp add: res_error_def res_err_def obj_get_or_null_def)
  then show "sanitize_res (res_err i code text) op
      = [(U ''id'', json_int i), (U ''ok'', JBool False), (U ''error'', JObj ?e)]"
    using assms clean_id_int
    by (subst sanitize_res_err) (auto simp: res_err_def obj_get_or_null_def pick_def truthy_def simp del: clean.simps)
qed

lemma response_roundtrip_witness:
  "sanitize_res (res_ok 7 (Some [(U ''rc'', JNum (PosInt 3))])) (U ''scripts.run'')
   = [(U ''id'', json_int 7), (U ''ok'', JBool True), (U ''result'', JObj [(U ''rc'', JNum (PosInt 3))])]"
proof -
  have "results (U ''scripts.run'') = SObj [(U ''rc'', SInt)]" by (simp add: results_def RESULTS_def)
  then have "conforms True (JObj [(U ''rc'', JNum (PosInt 3))]) (results (U ''scripts.run''))"
    by (simp add: obj_get_or_null_def int_of_def num_of_int_def)
  from response_roundtrip[OF this, of 7 BUSY "U ''x''"] show ?thesis
    by (simp add: valid_id_i64_def MAX_ID_def text_within_def BUSY_def) (simp add: U_def)
qed

text \<open>
  The tables fit together: every operation has exactly one argument and one result shape, every
  pushed type one shape, no shape names a field twice, monitor operations are operations, and every
  required argument is a field of its operation's arguments.
\<close>

theorem tables_contract:
  "map fst ARGS = OPS \<and> map fst RESULTS = OPS \<and> map fst PUSH = PUSH_TYPES \<and> distinct OPS \<and> distinct PUSH_TYPES
   \<and> set MONITOR_OPS \<union> set UPLOAD_OPS \<union> set REQUIRED_OPS \<union> fst ` set EVENTS \<subseteq> set OPS
   \<and> (\<forall>s \<in> snd ` (set ARGS \<union> set RESULTS \<union> set PUSH \<union> set EVENTS). entry_ok s)
   \<and> (\<forall>(op, s) \<in> set ARGS. set (required op) \<subseteq> fst ` set (spec_fields s))"
proof (intro conjI)
  show "map fst ARGS = OPS" by (rule keys_ARGS)
  show "map fst RESULTS = OPS" by (rule keys_RESULTS)
  show "map fst PUSH = PUSH_TYPES" by (rule keys_PUSH)
  show "distinct OPS" by (simp add: OPS_def)
  show "distinct PUSH_TYPES" by (simp add: PUSH_TYPES_def)
  show "set MONITOR_OPS \<union> set UPLOAD_OPS \<union> set REQUIRED_OPS \<union> fst ` set EVENTS \<subseteq> set OPS"
    by (simp add: MONITOR_OPS_def UPLOAD_OPS_def REQUIRED_OPS_def EVENTS_def OPS_def)
  show "\<forall>s \<in> snd ` (set ARGS \<union> set RESULTS \<union> set PUSH \<union> set EVENTS). entry_ok s"
    using ARGS_ok RESULTS_ok PUSH_ok EVENTS_ok by (auto simp: list_all_iff)
  show "\<forall>(op, s) \<in> set ARGS. set (required op) \<subseteq> fst ` set (spec_fields s)"
    using required_fields by (simp add: list_all_iff)
qed

lemma tables_contract_witness:
  "U ''image'' \<in> fst ` set (spec_fields (SObj [(U ''image'', SStr 256)]))
   \<and> (U ''docker.pull'', SObj [(U ''image'', SStr 256)]) \<in> set ARGS \<and> U ''image'' \<in> set (required (U ''docker.pull''))"
proof -
  have m: "(U ''docker.pull'', SObj [(U ''image'', SStr 256)]) \<in> set ARGS" by (simp add: ARGS_def)
  have r: "U ''image'' \<in> set (required (U ''docker.pull''))" by (simp add: required_def)
  from tables_contract m have "set (required (U ''docker.pull'')) \<subseteq> fst ` set (spec_fields (SObj [(U ''image'', SStr 256)]))"
    by blast
  with m r show ?thesis by blast
qed

section \<open>The node's writer\<close>

text \<open>
  C16. Whatever the producers, the writer thread, a failing output and a closing server do, and in
  whatever order: what reached the output is a prefix of the accepted frames in the order they were
  accepted, and while the output works nothing accepted is lost (it is written, in the batch in hand
  or in the queue).
\<close>

theorem writer_order:
  assumes "writer_reach s"
  shows "(\<exists>rest. accepted s = written s @ rest)
    \<and> (\<not> dead s \<longrightarrow> accepted s = written s @ pending_batch s @ queued (wst s))"
  using writer_reach_ok[OF assms] by (simp add: wsys_ok_def)

lemma writer_example:
  "\<exists>s :: wsys. writer_reach s \<and> accepted s = [1, 2] \<and> written s = [1] \<and> dead s"
proof -
  let ?s0 = "wsys_init 0"
  obtain st1 where p: "put_step 0 [1, 2] False False False (wst ?s0) = PutDone st1" "wq st1 = [([1, 2], False)]"
      "\<not> wclosed st1"
    by (simp add: wsys_init_def writer_new_def put_step_def must_wait_def enqueue_def JSON_QUEUE_MAX_def)
  let ?s1 = "?s0\<lparr>wst := st1, accepted := [1, 2]\<rparr>"
  have "wstep ?s0 (?s0\<lparr>wst := st1, accepted := accepted ?s0 @ [1, 2]\<rparr>)"
    by (rule wstep.put_done[OF _ p(1)]) simp
  then have r1: "writer_reach ?s1"
    using writer_reach.step[OF writer_reach.start] by (simp add: wsys_init_def)
  obtain st2 where b: "take_batch st1 = RunBatch [1, 2] st2"
    using p(2) by (simp add: take_batch_def pop_frames.simps[of 0] pop_frames.simps[of "Suc (Suc 0)"]
        WRITE_BATCH_def Let_def split: prod.splits)
  let ?s2 = "?s1\<lparr>wst := st2, batch := Some [1, 2]\<rparr>"
  have "wstep ?s1 (?s1\<lparr>wst := st2, batch := Some [1, 2]\<rparr>)"
    by (rule wstep.run_batch) (simp_all add: wsys_init_def b)
  then have r2: "writer_reach ?s2" by (rule writer_reach.step[OF r1])
  have "wstep ?s2 (?s2\<lparr>wst := write_failed (wst ?s2), batch := None, written := written ?s2 @ [1], dead := True\<rparr>)"
    by (rule wstep.write_err[where rest = "[2]"]) simp
  from writer_reach.step[OF r2 this] show ?thesis by (intro exI conjI) (auto simp: wsys_init_def)
qed

lemma writer_order_witness: "\<exists>s :: wsys. (\<exists>rest. accepted s = written s @ rest) \<and> accepted s = [1, 2] \<and> written s = [1]"
  using writer_example writer_order by blast

text \<open>
  C17. The queue is bounded: at most 4 MiB of file data and 64 MiB of JSON wait in it, or a single
  larger frame, and at most 20,000 bulk frames are admitted per ten-second window.
\<close>

theorem writer_bounds:
  assumes "writer_reach s"
  shows "within_or_single DATA_QUEUE_MAX (frame_bytes True (wq (wst s))) True (wq (wst s))
    \<and> within_or_single JSON_QUEUE_MAX (frame_bytes False (wq (wst s))) False (wq (wst s))
    \<and> win_frames (wst s) \<le> BULK_FRAMES"
proof -
  have "writer_ok (wst s)" using writer_reach_ok[OF assms] by (simp add: wsys_ok_def)
  then show ?thesis unfolding writer_ok_def by metis
qed

lemma writer_bounds_witness: "win_frames (wst (wsys_init 5)) \<le> BULK_FRAMES"
  using writer_bounds[OF writer_reach.start[of 5]] by blast

section \<open>Streams\<close>

text \<open>
  C18. An upload is never taken for a cheat: in every interleaving of the hub's writer, the wire in
  both directions, the node's reader thread and the handler, the next chunk to arrive fits the credit
  the node granted, and the node holds at most one window (8 MiB) of unread bytes.
\<close>

theorem upload_within_credit:
  assumes "upload_reach i op stream f"
  shows "(\<forall>d q. data_q f = d # q \<longrightarrow> violation (add_data d (receiver f)) = None)
    \<and> int (length (buffered (receiver f))) \<le> WINDOW"
proof -
  have b: "up.balanced f" using assms by (rule upload_balanced)
  then show ?thesis using up.never_violated[OF b] up.held_bound[OF b]
    by (auto simp: up_accept_def Let_def split: if_splits)
qed

lemma upload_step_example:
  "\<exists>f. upload_reach 1 (U ''fs.write'') False f \<and> data_q f = [[5, 6]]"
proof -
  let ?f0 = "\<lparr>sender = hub_req_new 1 (U ''fs.write'') False, receiver = request_new 1 (U ''fs.write'') True,
      data_q = [], grant_q = []\<rparr>"
  obtain st where "write_turn ([5, 6] @ []) (sender ?f0) = WriteFrame [5, 6] [] st"
    by (simp add: hub_req_new_def write_turn_def encode_data_def valid_id_i64_def MAX_ID_def WINDOW_def MAX_DATA_def)
  then have "up_emit (sender ?f0) [5, 6] st" unfolding up_emit_def by auto
  then have "flow_step up_emit on_credit up_accept up_consume ?f0 (?f0\<lparr>sender := st, data_q := data_q ?f0 @ [[5, 6]]\<rparr>)"
    by (rule flow_emit)
  from reach_step[OF reach_start this] show ?thesis by (intro exI conjI) auto
qed

lemma upload_within_credit_witness:
  "\<exists>f :: (hub_req, request, u8 list) flow. data_q f = [[5, 6]] \<and> violation (add_data [5, 6] (receiver f)) = None"
  using upload_step_example upload_within_credit by blast

text \<open>
  C19. An upload does not deadlock: once all sent bytes have arrived and been read and all grants
  have been applied, the hub has more than 7 MiB of credit again, so it can go on sending.
\<close>

theorem upload_credit_returns:
  assumes "upload_reach i op stream f" "data_q f = []" "grant_q f = []" "buffered (receiver f) = []"
  shows "WINDOW - GRANT_STEP < hsend_credit (sender f)"
  using up.credit_left[OF upload_balanced[OF assms(1)] assms(2,3)] assms(4) by simp

lemma upload_credit_returns_witness:
  "WINDOW - GRANT_STEP < hsend_credit (hub_req_new 1 (U ''fs.write'') False)"
  using upload_credit_returns[OF reach_start, of 1 "U ''fs.write''" False] by (simp add: request_new_def buffered_def)

text \<open>
  C20. A download never drops the link: in every interleaving, the next chunk from the node fits the
  window the hub granted it, and the hub holds at most one window of bytes its reader has not taken.
\<close>

theorem download_within_credit:
  assumes "download_reach i op upl f"
  shows "(\<forall>d q. data_q f = d # q \<longrightarrow> (\<exists>st'. on_data d (receiver f) = Inr st')) \<and> unread (receiver f) \<le> WINDOW"
proof -
  have b: "down.balanced f" using assms by (rule download_balanced)
  then show ?thesis using down.never_violated[OF b] down.held_bound[OF b]
    by (auto simp: down_accept_def split: sum.splits)
qed

lemma download_within_credit_witness: "unread (hub_req_new 3 (U ''fs.read'') True) \<le> WINDOW"
  using download_within_credit[OF reach_start, of 3 "U ''fs.read''" False] by simp

text \<open>
  A download does not deadlock: with nothing on its way and nothing unread, the node has more
  than 6 MiB of credit.
\<close>

theorem download_credit_returns:
  assumes "download_reach i op upl f" "data_q f = []" "grant_q f = []" "unread (receiver f) = 0"
  shows "WINDOW - CREDIT_BATCH < send_credit (sender f)"
  using down.credit_left[OF download_balanced[OF assms(1)] assms(2-4)] .

lemma download_credit_returns_witness: "WINDOW - CREDIT_BATCH < send_credit (request_new 3 (U ''fs.read'') False)"
  using download_credit_returns[OF reach_start, of 3 "U ''fs.read''" False] by (simp add: hub_req_new_def unread_def)

text \<open>
  The handler reads exactly the bytes that were uploaded, in order: in every interleaving of
  arriving chunks and reads, what was read is a prefix of what arrived.
\<close>

theorem upload_bytes_in_order:
  assumes "upq.run ops (request_new i op True) = (acc, out, st)"
  shows "acc = out @ buffered st"
  using upq.run_fifo[OF request_ok_new assms] by (simp add: request_new_def buffered_def)

lemma upload_bytes_in_order_witness:
  "upq.run [Put [1, 2], Put [3], Take] (request_new 1 (U ''fs.write'') True) =
     ([1, 2, 3], [1, 2], snd (snd (upq.run [Put [1, 2], Put [3], Take] (request_new 1 (U ''fs.write'') True))))
   \<and> buffered (snd (snd (upq.run [Put [1, 2], Put [3], Take] (request_new 1 (U ''fs.write'') True)))) = [3]"
proof -
  obtain acc out st where r: "upq.run [Put [1, 2], Put [3], Take] (request_new 1 (U ''fs.write'') True) = (acc, out, st)"
    by (metis surj_pair)
  then have "acc = [1, 2, 3] \<and> out = [1, 2]"
    by (auto simp: upload_put_def upload_take_def add_data_def request_new_def read_turn_def cancelled_def Let_def
        WINDOW_def GRANT_STEP_def)
  with upload_bytes_in_order[OF r] r show ?thesis by simp
qed

text \<open>
  A download frame spends at most the credit there is and at most 1 MiB, takes the next bytes in
  order, and a live request with credit always sends one.
\<close>

theorem send_spends_credit:
  assumes "valid_id_i64 (request.rid st)" "0 < send_credit st" "\<not> cancelled down st" "view \<noteq> []"
  shows "\<exists>d rest. send_turn down late view st
        = SendFrame d rest (st\<lparr>send_credit := send_credit st - int (length d)\<rparr>)
    \<and> view = d @ rest \<and> d \<noteq> [] \<and> length d \<le> MAX_DATA \<and> int (length d) \<le> send_credit st"
proof -
  obtain d rest st' where "send_turn down late view st = SendFrame d rest st'"
    using send_turn_encodes[OF assms(1-3)] by blast
  with send_turn_frame[OF this] assms(4) show ?thesis by blast
qed

lemma send_spends_credit_witness:
  "\<exists>d rest st'. send_turn False False [1, 2, 3] (request_new 9 (U ''fs.read'') False) = SendFrame d rest st' \<and> d \<noteq> []"
  using send_spends_credit[of "request_new 9 (U ''fs.read'') False" False "[1, 2, 3]" False]
  by (auto simp: request_new_def valid_id_i64_def MAX_ID_def cancelled_def WINDOW_def)

section \<open>From handler to caller\<close>



end
